(* ===== verification/Js_Prelude.thy ===== *)
theory Js_Prelude
  imports Main "HOL-Library.Sublist"
begin

text \<open>
  Prelude of the development: the JavaScript string and array operations that the modelled
  sources use, with the facts about them that the component theories share.

  A JavaScript string is modelled as a list of characters, one per UTF-16 code unit, restricted to
  the code units below 256. White space, case mapping and character classes of regular expressions
  follow ECMAScript on that range.
\<close>

named_theorems js_string "characteristic facts about the JavaScript string operations"
named_theorems js_array "characteristic facts about the JavaScript array and set operations"

type_synonym jstring = string

section \<open>Characters\<close>

text \<open>White space of \<open>String.prototype.trim\<close> and of the class \<open>\s\<close>, below code 256.\<close>

definition js_space :: "char \<Rightarrow> bool" where
  "js_space c \<longleftrightarrow> of_char c \<in> {9, 10, 11, 12, 13, 32, 160 :: nat}"

text \<open>The class \<open>\d\<close>.\<close>

definition is_digit :: "char \<Rightarrow> bool" where
  "is_digit c \<longleftrightarrow> (48::nat) \<le> of_char c \<and> of_char c \<le> (57::nat)"

text \<open>The class \<open>[a-z]\<close>.\<close>

definition is_lower_az :: "char \<Rightarrow> bool" where
  "is_lower_az c \<longleftrightarrow> (97::nat) \<le> of_char c \<and> of_char c \<le> (122::nat)"

text \<open>The class \<open>[A-Z]\<close>.\<close>

definition is_upper_az :: "char \<Rightarrow> bool" where
  "is_upper_az c \<longleftrightarrow> (65::nat) \<le> of_char c \<and> of_char c \<le> (90::nat)"

text \<open>The class \<open>[a-zA-Z0-9]\<close>.\<close>

definition is_alnum :: "char \<Rightarrow> bool" where
  "is_alnum c \<longleftrightarrow> is_lower_az c \<or> is_upper_az c \<or> is_digit c"

text \<open>The class \<open>\w\<close>.\<close>

definition is_word_char :: "char \<Rightarrow> bool" where
  "is_word_char c \<longleftrightarrow> is_alnum c \<or> c = CHR ''_''"

text \<open>\<open>toLowerCase\<close> of one code unit: the letters A-Z and the upper-case Latin-1 letters.\<close>

definition js_lower_char :: "char \<Rightarrow> char" where
  "js_lower_char c =
     (let n = (of_char c :: nat) in
      if (65 \<le> n \<and> n \<le> 90) \<or> (192 \<le> n \<and> n \<le> 222 \<and> n \<noteq> 215) then char_of (n + 32) else c)"

definition js_lower :: "jstring \<Rightarrow> jstring" where
  "js_lower s = map js_lower_char s"

section \<open>Strings\<close>

definition trim :: "jstring \<Rightarrow> jstring" where
  "trim s = rev (dropWhile js_space (rev (dropWhile js_space s)))"

abbreviation starts_with :: "'a list \<Rightarrow> 'a list \<Rightarrow> bool" where
  "starts_with s p \<equiv> prefix p s"

abbreviation ends_with :: "'a list \<Rightarrow> 'a list \<Rightarrow> bool" where
  "ends_with s p \<equiv> suffix p s"

text \<open>\<open>s.indexOf(p)\<close>, with \<open>None\<close> for -1.\<close>

fun index_of :: "'a list \<Rightarrow> 'a list \<Rightarrow> nat option" where
  "index_of p [] = (if p = [] then Some 0 else None)"
| "index_of p (c # s) =
     (if prefix p (c # s) then Some 0 else map_option Suc (index_of p s))"

definition js_includes :: "'a list \<Rightarrow> 'a list \<Rightarrow> bool" where
  "js_includes s p \<longleftrightarrow> index_of p s \<noteq> None"

text \<open>\<open>s.split(c)\<close> for a separator of one character.\<close>

fun split_on :: "'a \<Rightarrow> 'a list \<Rightarrow> 'a list list" where
  "split_on c [] = [[]]"
| "split_on c (x # xs) =
     (if x = c then [] # split_on c xs
      else (case split_on c xs of [] \<Rightarrow> [[x]] | p # ps \<Rightarrow> (x # p) # ps))"

text \<open>\<open>ps.join(sep)\<close>.\<close>

fun join_with :: "'a list \<Rightarrow> 'a list list \<Rightarrow> 'a list" where
  "join_with sep [] = []"
| "join_with sep [p] = p"
| "join_with sep (p # q # ps) = p @ sep @ join_with sep (q # ps)"

text \<open>The number a string of decimal digits denotes.\<close>

definition digit_val :: "char \<Rightarrow> nat" where
  "digit_val c = of_char c - 48"

definition digits_val :: "jstring \<Rightarrow> nat" where
  "digits_val s = foldl (\<lambda>n c. 10 * n + digit_val c) 0 s"

text \<open>\<open>String(n)\<close> of a natural number.\<close>

fun nat_str :: "nat \<Rightarrow> jstring" where
  "nat_str n = (if n < 10 then [char_of (48 + n)] else nat_str (n div 10) @ [char_of (48 + n mod 10)])"

declare nat_str.simps [simp del]

text \<open>\<open>s.lastIndexOf(c)\<close> for one character, -1 where it is absent.\<close>

definition last_index_of :: "'a \<Rightarrow> 'a list \<Rightarrow> int" where
  "last_index_of c s =
     (if c \<in> set s then int (length s) - 1 - int (length (takeWhile (\<lambda>x. x \<noteq> c) (rev s))) else -1)"

section \<open>Arrays and sets\<close>

text \<open>\<open>[...new Set(xs)]\<close>: the distinct elements in the order of their first occurrence.\<close>

definition set_to_array :: "'a list \<Rightarrow> 'a list" where
  "set_to_array xs = rev (remdups (rev xs))"

section \<open>Facts\<close>

lemma trim_Nil [simp]: "trim [] = []"
  by (simp add: trim_def)

lemma dropWhile_id_hd: "xs = [] \<or> \<not> P (hd xs) \<Longrightarrow> dropWhile P xs = xs"
  by (cases xs) auto

lemma trim_no_outer_space:
  assumes "s = [] \<or> (\<not> js_space (hd s) \<and> \<not> js_space (last s))"
  shows "trim s = s"
proof -
  have "dropWhile js_space s = s"
    using assms by (auto intro: dropWhile_id_hd)
  moreover have "dropWhile js_space (rev s) = rev s"
    using assms by (auto intro: dropWhile_id_hd simp: hd_rev)
  ultimately show ?thesis by (simp add: trim_def)
qed

lemma trim_no_space [js_string]: "list_all (\<lambda>c. \<not> js_space c) s \<Longrightarrow> trim s = s"
  by (rule trim_no_outer_space) (auto simp: list_all_iff)

lemma trim_eq_Nil_iff: "trim s = [] \<longleftrightarrow> list_all js_space s"
proof
  assume "trim s = []"
  then have a: "\<forall>c \<in> set (dropWhile js_space s). js_space c"
    by (simp add: trim_def)
  show "list_all js_space s"
  proof (cases "dropWhile js_space s")
    case Nil
    then show ?thesis by (simp add: list_all_iff)
  next
    case (Cons c cs)
    then have "\<not> js_space c" by (metis hd_dropWhile list.distinct(1) list.sel(1))
    with a Cons show ?thesis by simp
  qed
next
  assume "list_all js_space s"
  then show "trim s = []"
    by (auto simp: trim_def list_all_iff dest: set_dropWhileD)
qed

lemma length_trim_le: "length (trim s) \<le> length s"
proof -
  have "length (trim s) \<le> length (dropWhile js_space s)"
    by (simp add: trim_def) (metis length_dropWhile_le length_rev)
  also have "\<dots> \<le> length s" by (rule length_dropWhile_le)
  finally show ?thesis .
qed

lemma set_trim_subset: "set (trim s) \<subseteq> set s"
  by (auto simp: trim_def dest!: set_dropWhileD)

lemma index_of_SomeD:
  "index_of p s = Some i \<Longrightarrow>
     i + length p \<le> length s \<and> prefix p (drop i s) \<and> (\<forall>j < i. \<not> prefix p (drop j s))"
proof (induction s arbitrary: i)
  case Nil
  then show ?case by (auto split: if_splits)
next
  case (Cons c s)
  show ?case
  proof (cases "prefix p (c # s)")
    case True
    with Cons.prems show ?thesis by (auto dest: prefix_length_le)
  next
    case False
    with Cons.prems obtain k where k: "index_of p s = Some k" and i: "i = Suc k" by auto
    from Cons.IH [OF k] False i show ?thesis
      by (auto simp: less_Suc_eq_0_disj)
  qed
qed

lemma index_of_None_iff: "index_of p s = None \<longleftrightarrow> (\<forall>j \<le> length s. \<not> prefix p (drop j s))"
proof (induction s)
  case Nil
  then show ?case by auto
next
  case (Cons c s)
  have "(\<forall>j \<le> Suc n. Q j) \<longleftrightarrow> Q 0 \<and> (\<forall>j \<le> n. Q (Suc j))" for Q and n :: nat
    by (metis le0 not0_implies_Suc Suc_le_mono)
  from this [of "length s" "\<lambda>j. \<not> prefix p (drop j (c # s))"] Cons.IH show ?case by simp
qed

lemma takeWhile_sep [simp]: "x \<notin> set p \<Longrightarrow> takeWhile (\<lambda>c. c \<noteq> x) (p @ x # s) = p"
  by (induction p) auto

lemma dropWhile_sep [simp]: "x \<notin> set p \<Longrightarrow> dropWhile (\<lambda>c. c \<noteq> x) (p @ x # s) = x # s"
  by (induction p) auto

lemma takeWhile_absent [simp]: "x \<notin> set p \<Longrightarrow> takeWhile (\<lambda>c. c \<noteq> x) p = p"
  by (induction p) auto

lemma dropWhile_absent [simp]: "x \<notin> set p \<Longrightarrow> dropWhile (\<lambda>c. c \<noteq> x) p = []"
  by (induction p) auto

lemma sep_split: "x \<in> set s \<Longrightarrow> s = takeWhile (\<lambda>c. c \<noteq> x) s @ x # tl (dropWhile (\<lambda>c. c \<noteq> x) s)"
  by (induction s) auto

lemma sep_unique:
  assumes "p @ x # s = q @ x # t" and "x \<notin> set p" and "x \<notin> set q"
  shows "p = q \<and> s = t"
  using assms by (induction p arbitrary: q) (case_tac q; auto)+

lemma index_of_Cons_Suc:
  "index_of p (c # s) = Some (Suc n) \<Longrightarrow> \<not> prefix p (c # s) \<and> index_of p s = Some n"
  by (auto split: if_splits)

lemma prefix_of_append:
  assumes "prefix p (s @ t)" and "length p \<le> length s"
  shows "prefix p s"
  using assms by (metis prefix_length_prefix prefixI)

lemma index_of_extend:
  assumes "p \<noteq> []" and "index_of p (s @ p) = Some (length s)"
  shows "index_of p (s @ p @ t) = Some (length s)"
  using assms(2)
proof (induction s)
  case Nil
  then show ?case using assms(1) by (cases p) auto
next
  case (Cons c s)
  note h = index_of_Cons_Suc [OF Cons.prems [unfolded append_Cons length_Cons]]
  then have n: "\<not> prefix p ((c # s) @ p)" and i: "index_of p (s @ p) = Some (length s)" by auto
  from n have "\<not> prefix p ((c # s) @ p @ t)"
    using prefix_of_append [of p "(c # s) @ p" t] by auto
  with Cons.IH [OF i] show ?case by simp
qed

lemma index_of_single: "index_of [c] s = (if c \<in> set s then Some (length (takeWhile (\<lambda>x. x \<noteq> c) s)) else None)"
  by (induction s) auto

lemma js_includes_single [js_string]: "js_includes s [c] \<longleftrightarrow> c \<in> set s"
  by (simp add: js_includes_def index_of_single)

lemma split_on_not_Nil [simp]: "split_on c s \<noteq> []"
  by (induction s) (auto split: list.splits)

lemma join_split_on [js_string]: "join_with [c] (split_on c s) = s"
proof (induction s)
  case Nil
  then show ?case by simp
next
  case (Cons x s)
  obtain p ps where p: "split_on c s = p # ps" by (cases "split_on c s") auto
  with Cons.IH show ?case
    by (cases ps) auto
qed

lemma split_on_no_sep: "p \<in> set (split_on c s) \<Longrightarrow> c \<notin> set p"
  by (induction s arbitrary: p) (auto split: list.splits if_splits)

lemma split_on_absent: "c \<notin> set s \<Longrightarrow> split_on c s = [s]"
  by (induction s) auto

lemma split_on_append: "c \<notin> set p \<Longrightarrow> split_on c (p @ c # s) = p # split_on c s"
  by (induction p) auto

lemma split_join_with:
  assumes "ps \<noteq> []" and "\<forall>p \<in> set ps. c \<notin> set p"
  shows "split_on c (join_with [c] ps) = ps"
  using assms by (induction "[c]" ps rule: join_with.induct) (auto simp: split_on_absent split_on_append)

lemma find_SomeD: "find P xs = Some x \<Longrightarrow> x \<in> set xs \<and> P x"
  by (auto simp: find_Some_iff)

lemma set_set_to_array [js_array, simp]: "set (set_to_array xs) = set xs"
  by (simp add: set_to_array_def)

lemma distinct_set_to_array [js_array, simp]: "distinct (set_to_array xs)"
  by (simp add: set_to_array_def)

lemma set_to_array_distinct [js_array]: "distinct xs \<Longrightarrow> set_to_array xs = xs"
  by (simp add: set_to_array_def distinct_remdups_id)

lemma length_set_to_array_le: "length (set_to_array xs) \<le> length xs"
  by (simp add: set_to_array_def) (metis length_remdups_leq length_rev)

lemma js_lower_char_idem: "js_lower_char (js_lower_char c) = js_lower_char c"
proof -
  have "of_char (js_lower_char c) =
      (let n = (of_char c :: nat) in
       if (65 \<le> n \<and> n \<le> 90) \<or> (192 \<le> n \<and> n \<le> 222 \<and> n \<noteq> 215) then n + 32 else n)"
    by (auto simp: js_lower_char_def Let_def of_char_of)
  then show ?thesis
    by (auto simp: js_lower_char_def [of "js_lower_char c"] Let_def split: if_splits)
qed

lemma js_lower_idem [simp]: "js_lower (js_lower s) = js_lower s"
  by (simp add: js_lower_def js_lower_char_idem)

lemma js_lower_Nil_iff [simp]: "js_lower s = [] \<longleftrightarrow> s = []"
  by (simp add: js_lower_def)

section \<open>Sorting\<close>

text \<open>\<open>Array.prototype.sort\<close>, which is stable.\<close>

fun insort_cmp :: "('a \<Rightarrow> 'a \<Rightarrow> int) \<Rightarrow> 'a \<Rightarrow> 'a list \<Rightarrow> 'a list" where
  "insort_cmp cmp x [] = [x]"
| "insort_cmp cmp x (y # ys) = (if cmp x y \<le> 0 then x # y # ys else y # insort_cmp cmp x ys)"

definition js_sort :: "('a \<Rightarrow> 'a \<Rightarrow> int) \<Rightarrow> 'a list \<Rightarrow> 'a list" where
  "js_sort cmp xs = foldr (insort_cmp cmp) xs []"

lemma filter_insort_other: "\<not> P x \<Longrightarrow> filter P (insort_cmp cmp x ys) = filter P ys"
  by (induction ys) auto

lemma filter_insort_first:
  "P x \<Longrightarrow> \<forall>y \<in> set ys. P y \<longrightarrow> cmp x y \<le> 0 \<Longrightarrow> filter P (insort_cmp cmp x ys) = x # filter P ys"
  by (induction ys) (auto simp: not_le)

lemma set_insort_cmp: "set (insort_cmp cmp x ys) = insert x (set ys)"
  by (induction ys) auto

lemma set_js_sort: "set (js_sort cmp xs) = set xs"
  by (induction xs) (auto simp: js_sort_def set_insort_cmp)

lemma js_sort_Cons: "js_sort cmp (x # xs) = insort_cmp cmp x (js_sort cmp xs)"
  by (simp add: js_sort_def)

text \<open>The sort keeps the order of every class of elements that is in order already.\<close>

lemma js_sort_stable:
  "sorted_wrt (\<lambda>x y. cmp x y \<le> 0) (filter P xs) \<Longrightarrow> filter P (js_sort cmp xs) = filter P xs"
proof (induction xs)
  case Nil
  show ?case by (simp add: js_sort_def)
next
  case (Cons x xs)
  show ?case
  proof (cases "P x")
    case True
    then show ?thesis
      using Cons by (subst js_sort_Cons, subst filter_insort_first) (auto simp: set_js_sort)
  next
    case False
    then show ?thesis using Cons by (simp add: js_sort_Cons filter_insort_other)
  qed
qed

lemma distinct_insort_cmp: "distinct (insort_cmp cmp x ys) \<longleftrightarrow> x \<notin> set ys \<and> distinct ys"
  by (induction ys) (auto simp: set_insort_cmp)

lemma distinct_js_sort: "distinct (js_sort cmp xs) = distinct xs"
  by (induction xs) (simp_all add: js_sort_Cons distinct_insort_cmp set_js_sort, simp add: js_sort_def)

end
