(* ===== verification/Js_Json.thy ===== *)
theory Js_Json
  imports Js_Prelude Complex_Main
begin

text \<open>
  JSON values as \<open>JSON.parse\<close> returns them, and the JavaScript operations on them that the sources
  use: property access, truthiness, \<open>typeof x === 'string'\<close>. Numbers are rationals. An object is the
  list of its entries in the order of \<open>Object.entries\<close>.
\<close>

datatype json =
    JNull
  | JBool bool
  | JNum rat
  | JStr jstring
  | JArr "json list"
  | JObj "(jstring \<times> json) list"

text \<open>\<open>value?.key\<close>, with \<open>None\<close> for \<open>undefined\<close>. Only objects have the properties the sources read.\<close>

fun json_get :: "json \<Rightarrow> jstring \<Rightarrow> json option" where
  "json_get (JObj kvs) k = map_of kvs k"
| "json_get _ k = None"

fun truthy :: "json \<Rightarrow> bool" where
  "truthy JNull = False"
| "truthy (JBool b) = b"
| "truthy (JNum n) = (n \<noteq> 0)"
| "truthy (JStr s) = (s \<noteq> [])"
| "truthy (JArr xs) = True"
| "truthy (JObj kvs) = True"

fun json_string :: "json \<Rightarrow> jstring option" where
  "json_string (JStr s) = Some s"
| "json_string _ = None"

definition json_get_string :: "json \<Rightarrow> jstring \<Rightarrow> jstring option" where
  "json_get_string v k = Option.bind (json_get v k) json_string"

text \<open>\<open>Number.isInteger(value)\<close> and the integer.\<close>

fun json_int :: "json \<Rightarrow> int option" where
  "json_int (JNum q) = (if of_int \<lfloor>q\<rfloor> = q then Some \<lfloor>q\<rfloor> else None)"
| "json_int _ = None"

text \<open>The answer of an HTTP request to Coolify: a response, or a failed request.\<close>

record response =
  status :: int
  data :: json

datatype post_result = Response response | PostError jstring

end
