(* ===== verification/Terminal_Auth.thy ===== *)
theory Terminal_Auth
  imports Js_Json
begin

text \<open>
  Authentication of terminal connections: the first part of
  \<open>docker/coolify-terminal/terminal-utils.js\<close> (session checks, auth headers, the WebSocket upgrade,
  rejected sockets, the environment of the SSH process) and \<open>verifyClient\<close>, \<open>parseResponseData\<close> of
  \<open>terminal-server.js\<close>. The cookie parser (package \<open>cookie\<close>), \<open>JSON.parse\<close> and the HTTP request
  are parameters.
\<close>

section \<open>Constants\<close>

definition MAX_TERMINAL_SESSION_TIMEOUT_SECONDS :: nat where
  "MAX_TERMINAL_SESSION_TIMEOUT_SECONDS = 8 * 60 * 60"

definition TERMINAL_IDLE_TIMEOUT_SECONDS :: nat where "TERMINAL_IDLE_TIMEOUT_SECONDS = 0"

definition TERMINAL_SESSION_CHECK_MAX_FAILURES :: nat where "TERMINAL_SESSION_CHECK_MAX_FAILURES = 3"

definition TERMINAL_SESSION_REVOKED_STATUSES :: "int list" where
  "TERMINAL_SESSION_REVOKED_STATUSES = [401, 403, 404, 419]"

definition AUTH_REJECTED :: int where "AUTH_REJECTED = 4401"
definition TOKEN_REJECTED :: int where "TOKEN_REJECTED = 4403"
definition AUTH_UNAVAILABLE :: int where "AUTH_UNAVAILABLE = 1011"

definition MAX_XSRF_TOKEN_CANDIDATES :: nat where "MAX_XSRF_TOKEN_CANDIDATES = 5"

definition getTerminalSessionTimeout :: nat where
  "getTerminalSessionTimeout = MAX_TERMINAL_SESSION_TIMEOUT_SECONDS"

section \<open>Session checks\<close>

datatype check_result = Active | Revoked | Failed

definition terminalSessionCheckResult :: "response option \<Rightarrow> check_result" where
  "terminalSessionCheckResult resp =
     (case resp of
        None \<Rightarrow> Failed
      | Some r \<Rightarrow>
          if status r = 200 \<and> json_get (data r) ''active'' = Some (JBool True) then Active
          else if status r \<in> set TERMINAL_SESSION_REVOKED_STATUSES then Revoked
          else Failed)"

section \<open>Authentication headers\<close>

record auth_headers =
  h_cookie :: jstring
  h_xsrf :: jstring

text \<open>\<open>parseCookie\<close> maps a cookie string to its first value of each name.\<close>

definition getTerminalAuthHeaders ::
    "(jstring \<Rightarrow> jstring \<Rightarrow> jstring option) \<Rightarrow> jstring option \<Rightarrow> auth_headers list" where
  "getTerminalAuthHeaders parseCookie cookieHeader =
     (case cookieHeader of
        None \<Rightarrow> []
      | Some header \<Rightarrow>
          if header = [] then []
          else
            (let xsrfTokens =
                   filter (\<lambda>t. t \<noteq> [])
                     (List.map_filter (\<lambda>pair. parseCookie pair ''XSRF-TOKEN'') (split_on CHR '';'' header))
             in map (\<lambda>t. \<lparr>h_cookie = header, h_xsrf = t\<rparr>)
                  (take MAX_XSRF_TOKEN_CANDIDATES (set_to_array xsrfTokens))))"

section \<open>The upgrade\<close>

text \<open>The two shapes of the result object; \<open>status\<close> and \<open>error\<close> are optional.\<close>

datatype auth_result =
    Authenticated auth_headers
  | NotAuthenticated int jstring "int option" "jstring option"

text \<open>The \<open>for\<close> loop, with the status of the last answer and the requests it made.\<close>

fun try_candidates ::
    "(jstring \<Rightarrow> auth_headers \<Rightarrow> post_result) \<Rightarrow> auth_headers list \<Rightarrow> int option \<Rightarrow>
     auth_result \<times> auth_headers list" where
  "try_candidates post [] st =
     (NotAuthenticated AUTH_REJECTED ''Unauthorized: Invalid credentials'' st None, [])"
| "try_candidates post (h # hs) st =
     (case post ''/terminal/auth'' h of
        PostError e \<Rightarrow>
          (NotAuthenticated AUTH_UNAVAILABLE ''Internal Server Error'' None (Some e), [h])
      | Response r \<Rightarrow>
          if status r = 200 then (Authenticated h, [h])
          else (let (res, reqs) = try_candidates post hs (Some (status r)) in (res, h # reqs)))"

definition authenticateTerminalUpgrade ::
    "auth_headers list \<Rightarrow> (jstring \<Rightarrow> auth_headers \<Rightarrow> post_result) \<Rightarrow> auth_result \<times> auth_headers list" where
  "authenticateTerminalUpgrade candidates post =
     (if candidates = []
      then (NotAuthenticated AUTH_REJECTED ''Unauthorized: Missing required tokens'' None None, [])
      else try_candidates post candidates None)"

text \<open>\<open>verifyClient\<close> also leaves the accepted headers on the request
  (\<open>req.terminalAuthHeaders\<close>).\<close>

definition verifyClient ::
    "(jstring \<Rightarrow> jstring \<Rightarrow> jstring option) \<Rightarrow> (jstring \<Rightarrow> auth_headers \<Rightarrow> post_result) \<Rightarrow>
     jstring option \<Rightarrow> auth_result \<times> auth_headers option" where
  "verifyClient parseCookie post cookie =
     (let result = fst (authenticateTerminalUpgrade (getTerminalAuthHeaders parseCookie cookie) post)
      in (result, case result of Authenticated h \<Rightarrow> Some h | NotAuthenticated _ _ _ _ \<Rightarrow> None))"

text \<open>\<open>parseResponseData\<close>: a syntax error of \<open>JSON.parse\<close> (parameter, \<open>None\<close>) rejects the request.\<close>

definition parseResponseData :: "(jstring \<Rightarrow> json option) \<Rightarrow> jstring \<Rightarrow> jstring \<Rightarrow> json option" where
  "parseResponseData json_parse contentType responseText =
     (if responseText = [] then Some JNull
      else if js_includes contentType ''application/json'' then json_parse responseText
      else Some (JStr responseText))"

section \<open>Rejected sockets\<close>

text \<open>A socket that \<open>rejectTerminalSocket\<close> closes: the close frame it sent, whether its
  terminate timer is armed, and whether it was terminated or has closed.\<close>

record rejected_socket =
  close_frame :: "int \<times> jstring"
  terminate_armed :: bool
  terminated :: bool
  peer_closed :: bool

definition rejectTerminalSocket :: "int \<Rightarrow> jstring \<Rightarrow> rejected_socket" where
  "rejectTerminalSocket closeCode reason =
     \<lparr>close_frame = (closeCode, reason), terminate_armed = True, terminated = False, peer_closed = False\<rparr>"

datatype socket_event = TimerFires | SocketError | SocketClose

text \<open>The three listeners. A terminated socket emits \<open>close\<close> next.\<close>

fun rejected_event :: "socket_event \<Rightarrow> rejected_socket \<Rightarrow> rejected_socket" where
  "rejected_event TimerFires s =
     (if terminate_armed s then s\<lparr>terminate_armed := False, terminated := True\<rparr> else s)"
| "rejected_event SocketError s = s\<lparr>terminated := True\<rparr>"
| "rejected_event SocketClose s = s\<lparr>terminate_armed := False, peer_closed := True\<rparr>"

text \<open>The effects of the HTTP \<open>upgrade\<close> listener.\<close>

datatype upgrade_effect =
    AnswerUnknownPath      \<comment> \<open>\<open>handleUpgrade\<close> with a callback that terminates the socket\<close>
  | DestroySocket
  | EmitConnection
  | OnRejected int jstring
  | RejectSocket int jstring

datatype auth_promise = Resolves auth_result | Rejects jstring

text \<open>\<open>socketErrors\<close>: the socket emits \<open>error\<close> while the session is checked;
  \<open>peerGone\<close>: the socket is destroyed for another reason before the check ends.\<close>

definition upgradeHandler :: "bool \<Rightarrow> auth_promise \<Rightarrow> bool \<Rightarrow> bool \<Rightarrow> upgrade_effect list" where
  "upgradeHandler shouldHandle promise socketErrors peerGone =
     (if \<not> shouldHandle then [AnswerUnknownPath]
      else
        (let destroyed = socketErrors \<or> peerGone;
             result = (case promise of
                         Resolves r \<Rightarrow> r
                       | Rejects e \<Rightarrow>
                           NotAuthenticated AUTH_UNAVAILABLE ''Internal Server Error'' None (Some e))
         in (if socketErrors then [DestroySocket] else []) @
            (if destroyed then []
             else (case result of
                     Authenticated h \<Rightarrow> [EmitConnection]
                   | NotAuthenticated closeCode reason _ _ \<Rightarrow>
                       [OnRejected closeCode reason, RejectSocket closeCode reason]))))"

section \<open>Environment of the SSH process\<close>

definition DEFAULT_TERMINAL_PATH :: jstring where
  "DEFAULT_TERMINAL_PATH = ''/usr/local/sbin:/usr/local/bin:/usr/sbin:/usr/bin:/sbin:/bin''"

definition ALLOWED_TERMINAL_ENV :: "jstring list" where
  "ALLOWED_TERMINAL_ENV = [''TUNNEL_SERVICE_TOKEN_ID'', ''TUNNEL_SERVICE_TOKEN_SECRET'']"

definition getTerminalProcessEnv :: "(jstring \<rightharpoonup> jstring) \<Rightarrow> (jstring \<rightharpoonup> jstring)" where
  "getTerminalProcessEnv environment =
     fold (\<lambda>name env. case environment name of
               Some v \<Rightarrow> if v \<noteq> [] then env(name \<mapsto> v) else env
             | None \<Rightarrow> env)
       ALLOWED_TERMINAL_ENV
       [''PATH'' \<mapsto> (case environment ''PATH'' of
                       Some p \<Rightarrow> if p \<noteq> [] then p else DEFAULT_TERMINAL_PATH
                     | None \<Rightarrow> DEFAULT_TERMINAL_PATH)]"

section \<open>Facts\<close>

lemma try_candidates_Authenticated:
  "try_candidates post hs st = (Authenticated h, reqs) \<longleftrightarrow>
     (\<exists>before rest r. hs = before @ h # rest \<and> reqs = before @ [h] \<and>
        post ''/terminal/auth'' h = Response r \<and> status r = 200 \<and>
        (\<forall>b \<in> set before. \<exists>r. post ''/terminal/auth'' b = Response r \<and> status r \<noteq> 200))"
proof (induction hs arbitrary: st reqs)
  case Nil
  then show ?case by simp
next
  case (Cons a hs)
  show ?case
  proof (cases "post ''/terminal/auth'' a")
    case (PostError e)
    then show ?thesis by (auto simp: Cons_eq_append_conv)
  next
    case (Response r)
    show ?thesis
    proof (cases "status r = 200")
      case True
      then show ?thesis using Response by (auto simp: Cons_eq_append_conv)
    next
      case False
      have "try_candidates post (a # hs) st = (Authenticated h, reqs) \<longleftrightarrow>
          (\<exists>reqs'. reqs = a # reqs' \<and> try_candidates post hs (Some (status r)) = (Authenticated h, reqs'))"
        using Response False by (auto split: prod.splits)
      also have "\<dots> \<longleftrightarrow> (\<exists>before rest r. a # hs = before @ h # rest \<and> reqs = before @ [h] \<and>
        post ''/terminal/auth'' h = Response r \<and> status r = 200 \<and>
        (\<forall>b \<in> set before. \<exists>r. post ''/terminal/auth'' b = Response r \<and> status r \<noteq> 200))"
        unfolding Cons.IH using Response False by (fastforce simp: Cons_eq_append_conv)
      finally show ?thesis .
    qed
  qed
qed

lemma try_candidates_NotAuthenticated:
  "try_candidates post hs st = (NotAuthenticated code reason s e, reqs) \<Longrightarrow>
     code = AUTH_REJECTED \<or> code = AUTH_UNAVAILABLE"
  by (induction hs arbitrary: st reqs) (auto split: post_result.splits if_splits prod.splits)

lemma dom_getTerminalProcessEnv:
  "dom (getTerminalProcessEnv environment) \<subseteq> insert ''PATH'' (set ALLOWED_TERMINAL_ENV)"
  by (auto simp: getTerminalProcessEnv_def ALLOWED_TERMINAL_ENV_def split: option.splits if_splits)

section \<open>Properties\<close>

text \<open>C14: A terminal upgrade authenticates with the first candidate that Coolify answers with 200:
  the candidates before it were all answered with another status, no later one is sent, and exactly
  these requests are made.\<close>

theorem authenticateTerminalUpgrade_first_accepted:
  "authenticateTerminalUpgrade candidates post = (Authenticated h, requests) \<longleftrightarrow>
     (\<exists>before rest r. candidates = before @ h # rest \<and> requests = before @ [h] \<and>
        post ''/terminal/auth'' h = Response r \<and> status r = 200 \<and>
        (\<forall>b \<in> set before. \<exists>r. post ''/terminal/auth'' b = Response r \<and> status r \<noteq> 200))"
  by (auto simp: authenticateTerminalUpgrade_def try_candidates_Authenticated)

definition sample_header :: "jstring \<Rightarrow> auth_headers" where
  "sample_header t = \<lparr>h_cookie = ''c'', h_xsrf = t\<rparr>"

definition sample_post :: "jstring \<Rightarrow> auth_headers \<Rightarrow> post_result" where
  "sample_post path h =
     (if h_xsrf h = ''coolify'' then Response \<lparr>status = 200, data = JNull\<rparr>
      else Response \<lparr>status = 419, data = JNull\<rparr>)"

theorem authenticateTerminalUpgrade_first_accepted_witness:
  "authenticateTerminalUpgrade (map sample_header [''sibling'', ''coolify'', ''other'']) sample_post =
     (Authenticated (sample_header ''coolify''), map sample_header [''sibling'', ''coolify''])"
  unfolding authenticateTerminalUpgrade_first_accepted
  by (rule exI [of _ "[sample_header ''sibling'']"], rule exI [of _ "[sample_header ''other'']"])
    (simp add: sample_header_def sample_post_def)

text \<open>The header candidates: at most five, each with the whole cookie header and a distinct
  non-empty token that some cookie pair carries; when there are at most five distinct tokens, every
  token of every pair is a candidate.\<close>

theorem getTerminalAuthHeaders_candidates:
  fixes parseCookie :: "jstring \<Rightarrow> jstring \<Rightarrow> jstring option"
  defines "tokens \<equiv> \<lambda>header. {t. t \<noteq> [] \<and> (\<exists>pair \<in> set (split_on CHR '';'' header).
             parseCookie pair ''XSRF-TOKEN'' = Some t)}"
  shows "length (getTerminalAuthHeaders parseCookie (Some header)) \<le> 5 \<and>
    distinct (map h_xsrf (getTerminalAuthHeaders parseCookie (Some header))) \<and>
    (\<forall>h \<in> set (getTerminalAuthHeaders parseCookie (Some header)).
       h_cookie h = header \<and> h_xsrf h \<in> tokens header) \<and>
    (header \<noteq> [] \<and> card (tokens header) \<le> 5 \<longrightarrow>
       h_xsrf ` set (getTerminalAuthHeaders parseCookie (Some header)) = tokens header)"
proof -
  let ?ts = "filter (\<lambda>t. t \<noteq> [])
    (List.map_filter (\<lambda>pair. parseCookie pair ''XSRF-TOKEN'') (split_on CHR '';'' header))"
  have set: "set ?ts = tokens header"
    by (auto simp: tokens_def List.map_filter_def image_iff)
  have "take 5 (set_to_array ?ts) = set_to_array ?ts" if "card (tokens header) \<le> 5"
    using that distinct_card [of "set_to_array ?ts"] set by simp
  moreover have "set (take 5 (set_to_array ?ts)) \<subseteq> tokens header"
    using set set_take_subset [of 5 "set_to_array ?ts"] by simp
  moreover have "map h_xsrf (map (\<lambda>t. \<lparr>h_cookie = header, h_xsrf = t\<rparr>) xs) = xs" for xs
    by (simp add: comp_def)
  ultimately show ?thesis using set
    by (auto simp: getTerminalAuthHeaders_def MAX_XSRF_TOKEN_CANDIDATES_def Let_def image_image
        distinct_take comp_def)
qed

definition sample_parseCookie :: "jstring \<Rightarrow> jstring \<Rightarrow> jstring option" where
  "sample_parseCookie pair name =
     (let p = trim pair in
      if starts_with p (name @ ''='') then Some (drop (length name + 1) p) else None)"

theorem getTerminalAuthHeaders_candidates_witness:
  "h_xsrf ` set (getTerminalAuthHeaders sample_parseCookie (Some ''XSRF-TOKEN=a; s=1; XSRF-TOKEN=b'')) =
     {''a'', ''b''}"
proof -
  have s: "set (split_on CHR '';'' ''XSRF-TOKEN=a; s=1; XSRF-TOKEN=b'') =
      {''XSRF-TOKEN=a'', '' s=1'', '' XSRF-TOKEN=b''}"
    by simp
  have t: "{t. t \<noteq> [] \<and> (\<exists>pair \<in> set (split_on CHR '';'' ''XSRF-TOKEN=a; s=1; XSRF-TOKEN=b'').
      sample_parseCookie pair ''XSRF-TOKEN'' = Some t)} = {''a'', ''b''}"
    unfolding s by (auto simp: sample_parseCookie_def Let_def trim_def js_space_def)
  have "card {''a'', ''b''} \<le> 5" by simp
  then show ?thesis
    using getTerminalAuthHeaders_candidates [of sample_parseCookie "''XSRF-TOKEN=a; s=1; XSRF-TOKEN=b''"]
    unfolding t by simp
qed

lemma verifyClient_accepted:
  "snd (verifyClient parseCookie post cookie) = Some h \<longleftrightarrow>
     fst (verifyClient parseCookie post cookie) = Authenticated h"
  by (auto simp: verifyClient_def Let_def split: auth_result.splits)

lemma verifyClient_Authenticated:
  assumes "fst (verifyClient parseCookie post cookie) = Authenticated h"
  shows "h \<in> set (getTerminalAuthHeaders parseCookie cookie) \<and>
    (\<exists>r. post ''/terminal/auth'' h = Response r \<and> status r = 200)"
proof -
  obtain reqs where "authenticateTerminalUpgrade (getTerminalAuthHeaders parseCookie cookie) post =
      (Authenticated h, reqs)"
    using assms by (cases "authenticateTerminalUpgrade (getTerminalAuthHeaders parseCookie cookie) post")
      (auto simp: verifyClient_def Let_def)
  then show ?thesis
    by (auto simp: authenticateTerminalUpgrade_def try_candidates_Authenticated split: if_splits)
qed

lemma verifyClient_code:
  assumes "fst (verifyClient parseCookie post cookie) = NotAuthenticated code reason st e"
  shows "code = AUTH_REJECTED \<or> code = AUTH_UNAVAILABLE"
  using assms try_candidates_NotAuthenticated
  by (cases "try_candidates post (getTerminalAuthHeaders parseCookie cookie) None")
    (auto simp: verifyClient_def authenticateTerminalUpgrade_def Let_def split: if_splits)

text \<open>Only an upgrade of the terminal path that the client has not abandoned and for which
  Coolify answered 200 to one of its header candidates reaches the connection handler, which then
  finds exactly those headers on the request; a rejected upgrade is closed with 4401 or 1011.\<close>

theorem upgradeHandler_of_verifyClient:
  fixes parseCookie post cookie shouldHandle socketErrors peerGone
  defines "v \<equiv> verifyClient parseCookie post cookie"
  defines "effects \<equiv> upgradeHandler shouldHandle (Resolves (fst v)) socketErrors peerGone"
  shows "(EmitConnection \<in> set effects \<longleftrightarrow>
      shouldHandle \<and> \<not> socketErrors \<and> \<not> peerGone \<and>
      (\<exists>h. snd v = Some h \<and> List.member (getTerminalAuthHeaders parseCookie cookie) h \<and>
        (\<exists>r. post ''/terminal/auth'' h = Response r \<and> status r = 200))) \<and>
    (RejectSocket code reason \<in> set effects \<longrightarrow>
      (code = AUTH_REJECTED \<or> code = AUTH_UNAVAILABLE) \<and> effects = [OnRejected code reason, RejectSocket code reason])"
proof (cases "fst v")
  case (Authenticated h)
  then show ?thesis
    using verifyClient_accepted [of parseCookie post cookie h] verifyClient_Authenticated [of parseCookie post cookie h]
    by (auto simp: effects_def v_def upgradeHandler_def Let_def)
next
  case (NotAuthenticated c r st e)
  then have "snd v = None"
    using verifyClient_accepted [of parseCookie post cookie] by (cases "snd v") (auto simp: v_def)
  with NotAuthenticated verifyClient_code [of parseCookie post cookie c r st e] show ?thesis
    by (auto simp: effects_def v_def upgradeHandler_def Let_def)
qed

theorem upgradeHandler_of_verifyClient_witness:
  "upgradeHandler True (Resolves (fst (verifyClient sample_parseCookie sample_post None))) False False =
     [OnRejected AUTH_REJECTED ''Unauthorized: Missing required tokens'',
      RejectSocket AUTH_REJECTED ''Unauthorized: Missing required tokens'']"
proof -
  have "RejectSocket AUTH_REJECTED ''Unauthorized: Missing required tokens''
      \<in> set (upgradeHandler True (Resolves (fst (verifyClient sample_parseCookie sample_post None))) False False)"
    by (simp add: upgradeHandler_def verifyClient_def getTerminalAuthHeaders_def
        authenticateTerminalUpgrade_def)
  then show ?thesis using upgradeHandler_of_verifyClient by blast
qed

text \<open>The SSH process sees no variable of the server but the two of cloudflared, with their
  values when they are not empty, and always a non-empty PATH.\<close>

theorem getTerminalProcessEnv_exact:
  "getTerminalProcessEnv environment name =
     (if name = ''PATH'' then
        Some (case environment ''PATH'' of Some p \<Rightarrow> if p = [] then DEFAULT_TERMINAL_PATH else p
              | None \<Rightarrow> DEFAULT_TERMINAL_PATH)
      else if name = ''TUNNEL_SERVICE_TOKEN_ID'' \<or> name = ''TUNNEL_SERVICE_TOKEN_SECRET'' then
        (case environment name of Some v \<Rightarrow> if v = [] then None else Some v | None \<Rightarrow> None)
      else None)"
  by (auto simp: getTerminalProcessEnv_def ALLOWED_TERMINAL_ENV_def split: option.splits)

end
