(* ===== verification/Ssh_Args.thy ===== *)
theory Ssh_Args
  imports Js_Prelude
begin

text \<open>
  The SSH command policy of the terminal server, \<open>docker/coolify-terminal/terminal-utils.js\<close>:
  how the server reads the argument vector, the here-document and the target host out of the shell
  command that Coolify generated, and how it decides whether the \<open>ssh\<close> client may be started
  with those arguments. Definitions carry the names of the source functions. Regular expressions
  are written out as scanners over the character list.
\<close>

section \<open>Characters of the shell syntax\<close>

abbreviation sq :: char where "sq \<equiv> CHR 0x27"
abbreviation dq :: char where "dq \<equiv> CHR 0x22"
abbreviation backslash :: char where "backslash \<equiv> CHR 0x5C"

text \<open>Line terminators, which \<open>.\<close> does not match.\<close>

definition is_line_end :: "char \<Rightarrow> bool" where
  "is_line_end c \<longleftrightarrow> c = CHR 0x0A \<or> c = CHR 0x0D"

text \<open>The class \<open>[a-zA-Z0-9_-]\<close>.\<close>

definition is_token_char :: "char \<Rightarrow> bool" where
  "is_token_char c \<longleftrightarrow> is_alnum c \<or> c = CHR ''_'' \<or> c = CHR ''-''"

text \<open>\<open>^[a-zA-Z0-9_-]+$\<close>\<close>

definition is_token :: "jstring \<Rightarrow> bool" where
  "is_token s \<longleftrightarrow> s \<noteq> [] \<and> list_all is_token_char s"

text \<open>\<open>^prefix[a-zA-Z0-9_-]+$\<close>\<close>

definition is_prefixed_token :: "jstring \<Rightarrow> jstring \<Rightarrow> bool" where
  "is_prefixed_token p s \<longleftrightarrow> starts_with s p \<and> is_token (drop (length p) s)"

text \<open>\<open>^\d+$\<close>\<close>

definition is_number :: "jstring \<Rightarrow> bool" where
  "is_number s \<longleftrightarrow> s \<noteq> [] \<and> list_all is_digit s"

section \<open>Reading the command\<close>

text \<open>\<open>/timeout (\d+)/\<close>: the leftmost match, all its digits. The value is exact; the
  source's \<open>parseInt\<close> rounds above \<open>2 ^ 53\<close>.\<close>

fun extractTimeout :: "jstring \<Rightarrow> nat option" where
  "extractTimeout [] = None"
| "extractTimeout (c # s) =
     (let rest = drop 8 (c # s); ds = takeWhile is_digit rest in
      if starts_with (c # s) ''timeout '' \<and> ds \<noteq> [] then Some (digits_val ds)
      else extractTimeout s)"

text \<open>\<open>docker\s+attach(?:\s|$)\<close> at the start of the string.\<close>

definition attach_here :: "jstring \<Rightarrow> bool" where
  "attach_here s \<longleftrightarrow>
     starts_with s ''docker'' \<and>
     (let r = drop 6 s; r' = dropWhile js_space r in
      r \<noteq> [] \<and> js_space (hd r) \<and> starts_with r' ''attach'' \<and>
      (drop 6 r' = [] \<or> js_space (hd (drop 6 r'))))"

fun attach_search :: "jstring \<Rightarrow> bool" where
  "attach_search [] = False"
| "attach_search (c # s) = ((js_space c \<and> attach_here s) \<or> attach_search s)"

text \<open>\<open>/(?:^|\s)docker\s+attach(?:\s|$)/.test(commandString || '')\<close>\<close>

definition isAttachCommand :: "jstring \<Rightarrow> bool" where
  "isAttachCommand s \<longleftrightarrow> attach_here s \<or> attach_search s"

text \<open>\<open>replace(/q([^q]*)q/g, '$1')\<close>: drops every pair of quotes, an unpaired last quote stays.\<close>

function strip_quote_pairs :: "char \<Rightarrow> jstring \<Rightarrow> jstring" where
  "strip_quote_pairs q [] = []"
| "strip_quote_pairs q (c # s) =
     (if c = q \<and> q \<in> set s
      then takeWhile (\<lambda>x. x \<noteq> q) s @ strip_quote_pairs q (tl (dropWhile (\<lambda>x. x \<noteq> q) s))
      else c # strip_quote_pairs q s)"
  by pat_completeness auto
termination
  by (relation "measure (\<lambda>(q, s). length s)")
     (auto simp: less_Suc_eq_le intro: le_trans [OF diff_le_self] length_dropWhile_le)

definition normalizeShellArgument :: "jstring \<Rightarrow> jstring" where
  "normalizeShellArgument argument =
     (if argument = [] then argument
      else strip_quote_pairs dq (strip_quote_pairs sq argument))"

text \<open>\<open>/ssh (.+?) '[^']+' << /\<close>: the remote command in quotes and the here-document marker, \dots\<close>

definition ssh_tail :: "jstring \<Rightarrow> bool" where
  "ssh_tail s \<longleftrightarrow>
     starts_with s [CHR '' '', sq] \<and>
     (let r = drop 2 s in
      takeWhile (\<lambda>x. x \<noteq> sq) r \<noteq> [] \<and>
      starts_with (dropWhile (\<lambda>x. x \<noteq> sq) r) (sq # '' << ''))"

text \<open>\dots the shortest group before it, \dots\<close>

fun lazy_group :: "jstring \<Rightarrow> jstring option" where
  "lazy_group [] = None"
| "lazy_group (c # s) =
     (if is_line_end c then None
      else if ssh_tail s then Some [c]
      else map_option ((#) c) (lazy_group s))"

text \<open>\dots and the leftmost \<open>ssh\<close> that has one.\<close>

fun match_ssh :: "jstring \<Rightarrow> jstring option" where
  "match_ssh [] = None"
| "match_ssh (c # s) =
     (case (if starts_with (c # s) ''ssh '' then lazy_group (drop 4 (c # s)) else None) of
        Some g \<Rightarrow> Some g
      | None \<Rightarrow> match_ssh s)"

text \<open>The tokenizer loop over \<open>argsString\<close>; the third argument is \<open>quoteChar\<close> while
  \<open>inQuotes\<close>, else \<open>None\<close>.\<close>

fun ssh_tokens :: "jstring \<Rightarrow> jstring \<Rightarrow> char option \<Rightarrow> jstring list \<Rightarrow> jstring list" where
  "ssh_tokens [] current q args = (if trim current \<noteq> [] then args @ [trim current] else args)"
| "ssh_tokens (c # s) current q args =
     (if q = None \<and> (c = dq \<or> c = sq) then ssh_tokens s (current @ [c]) (Some c) args
      else if q = Some c then ssh_tokens s (current @ [c]) None args
      else if q = None \<and> c = CHR '' '' then
        (if trim current \<noteq> [] then ssh_tokens s [] q (args @ [trim current])
         else ssh_tokens s current q args)
      else ssh_tokens s (current @ [c]) q args)"

definition extractSshArgs :: "jstring \<Rightarrow> jstring list" where
  "extractSshArgs commandString =
     (case match_ssh commandString of
        None \<Rightarrow> []
      | Some argsString \<Rightarrow>
          map (\<lambda>arg. if arg = ''RequestTTY=no'' then ''RequestTTY=yes'' else arg)
            (map normalizeShellArgument (ssh_tokens argsString [] None [])))"

text \<open>\<open>/<< (\S+)/\<close>\<close>

fun heredoc_delimiter :: "jstring \<Rightarrow> jstring option" where
  "heredoc_delimiter [] = None"
| "heredoc_delimiter (c # s) =
     (let d = takeWhile (\<lambda>x. \<not> js_space x) (drop 3 (c # s)) in
      if starts_with (c # s) ''<< '' \<and> d \<noteq> [] then Some d else heredoc_delimiter s)"

text \<open>\<open><< \\D([\s\S\.]*?)D\<close> with the escaped, hence literal, delimiter \<open>D\<close>.\<close>

fun heredoc_body :: "jstring \<Rightarrow> jstring \<Rightarrow> jstring option" where
  "heredoc_body d [] = None"
| "heredoc_body d (c # s) =
     (let start = ''<< '' @ backslash # d; rest = drop (length start) (c # s) in
      case (if starts_with (c # s) start then index_of d rest else None) of
        Some i \<Rightarrow> Some (take i rest)
      | None \<Rightarrow> heredoc_body d s)"

definition extractHereDocContent :: "jstring \<Rightarrow> jstring" where
  "extractHereDocContent commandString =
     (let delimiter = (case heredoc_delimiter commandString of None \<Rightarrow> [] | Some d \<Rightarrow> trim (drop 1 d)) in
      if delimiter = [] then []
      else (case heredoc_body delimiter commandString of None \<Rightarrow> [] | Some body \<Rightarrow> body))"

section \<open>Target hosts\<close>

text \<open>\<open>slice(1, -1)\<close> of a string of at least two characters\<close>

definition slice_inner :: "jstring \<Rightarrow> jstring" where
  "slice_inner s = butlast (tl s)"

definition is_quoted :: "jstring \<Rightarrow> bool" where
  "is_quoted s \<longleftrightarrow>
     2 \<le> length s \<and>
     ((starts_with s [sq] \<and> ends_with s [sq]) \<or> (starts_with s [dq] \<and> ends_with s [dq]))"

text \<open>The \<open>while\<close> loop of \<open>normalizeHostForAuthorization\<close>.\<close>

function strip_outer_quotes :: "jstring \<Rightarrow> jstring" where
  "strip_outer_quotes host =
     (if is_quoted host then strip_outer_quotes (trim (slice_inner host)) else host)"
  by pat_completeness auto
termination
proof (relation "measure length")
  fix host assume "is_quoted host"
  then have "2 \<le> length host" by (simp add: is_quoted_def)
  moreover have "length (trim (slice_inner host)) \<le> length (slice_inner host)"
    by (rule length_trim_le)
  ultimately show "(trim (slice_inner host), host) \<in> measure length"
    by (simp add: slice_inner_def)
qed simp

declare strip_outer_quotes.simps [simp del]

definition normalizeHostForAuthorization :: "jstring option \<Rightarrow> jstring option" where
  "normalizeHostForAuthorization host =
     (case host of
        None \<Rightarrow> None
      | Some h \<Rightarrow>
          if h = [] then None
          else
            (let n = strip_outer_quotes (trim h);
                 n' = (if starts_with n ''['' \<and> ends_with n '']'' then slice_inner n else n)
             in Some (js_lower n')))"

text \<open>\<open>/^[^@]+@[^@]+$/\<close>\<close>

definition is_user_at_host :: "jstring \<Rightarrow> bool" where
  "is_user_at_host arg \<longleftrightarrow>
     (let user = takeWhile (\<lambda>x. x \<noteq> CHR ''@'') arg; r = dropWhile (\<lambda>x. x \<noteq> CHR ''@'') arg in
      user \<noteq> [] \<and> r \<noteq> [] \<and> tl r \<noteq> [] \<and> CHR ''@'' \<notin> set (tl r))"

text \<open>\<open>userAtHost.slice(userAtHost.indexOf('@') + 1)\<close>\<close>

definition host_part :: "jstring \<Rightarrow> jstring" where
  "host_part arg = tl (dropWhile (\<lambda>x. x \<noteq> CHR ''@'') arg)"

definition extractTargetHost :: "jstring list \<Rightarrow> jstring option" where
  "extractTargetHost sshArgs =
     (case find (\<lambda>arg. \<not> js_includes arg ''storage/app/ssh/keys/'' \<and> is_user_at_host arg) sshArgs of
        None \<Rightarrow> None
      | Some userAtHost \<Rightarrow> normalizeHostForAuthorization (Some (host_part userAtHost)))"

definition isAuthorizedTargetHost :: "jstring option \<Rightarrow> jstring list \<Rightarrow> bool" where
  "isAuthorizedTargetHost targetHost authorizedHosts =
     (case normalizeHostForAuthorization targetHost of
        None \<Rightarrow> False
      | Some n \<Rightarrow>
          if n = [] then False
          else List.member (map (\<lambda>host. normalizeHostForAuthorization (Some host)) authorizedHosts) (Some n))"

section \<open>Printing commands the way Coolify does\<close>

text \<open>An argument is a sequence of bare and single-quoted segments, as in \<open>'root'@'10.0.0.5'\<close>.\<close>

datatype segment = Bare jstring | Quoted jstring

fun segment_text :: "segment \<Rightarrow> jstring" where
  "segment_text (Bare s) = s"
| "segment_text (Quoted s) = s"

fun print_segment :: "segment \<Rightarrow> jstring" where
  "print_segment (Bare s) = s"
| "print_segment (Quoted s) = sq # s @ [sq]"

text \<open>Segments hold no quotes, no line ends and no \<open><\<close>; bare segments hold no white space.\<close>

fun segment_ok :: "segment \<Rightarrow> bool" where
  "segment_ok (Bare s) = (list_all (\<lambda>c. c \<noteq> sq \<and> c \<noteq> dq \<and> c \<noteq> CHR ''<'' \<and> \<not> js_space c) s \<and> s \<noteq> [])"
| "segment_ok (Quoted s) = list_all (\<lambda>c. c \<noteq> sq \<and> c \<noteq> dq \<and> c \<noteq> CHR ''<'' \<and> \<not> is_line_end c) s"

definition print_arg :: "segment list \<Rightarrow> jstring" where
  "print_arg segs = concat (map print_segment segs)"

definition arg_text :: "segment list \<Rightarrow> jstring" where
  "arg_text segs = concat (map segment_text segs)"

definition arg_ok :: "segment list \<Rightarrow> bool" where
  "arg_ok segs \<longleftrightarrow> segs \<noteq> [] \<and> list_all segment_ok segs"

definition print_args :: "segment list list \<Rightarrow> jstring" where
  "print_args args = join_with '' '' (map print_arg args)"

text \<open>The whole command: what stands before \<open>ssh\<close>, the arguments, the quoted remote command and
  the here-document.\<close>

definition print_command :: "jstring \<Rightarrow> segment list list \<Rightarrow> jstring \<Rightarrow> jstring \<Rightarrow> jstring" where
  "print_command before args remote after =
     before @ ''ssh '' @ print_args args @ [CHR '' '', sq] @ remote @ sq # '' << '' @ after"

section \<open>Reading back what was printed\<close>

lemma line_end_space: "is_line_end c \<Longrightarrow> js_space c"
  by (auto simp: is_line_end_def js_space_def)

lemma special_chars [simp]:
  "js_space (CHR '' '')" "\<not> js_space sq" "\<not> js_space dq" "\<not> is_line_end sq" "\<not> is_line_end (CHR '' '')"
  by (simp_all add: js_space_def is_line_end_def)

lemma print_segment_chars:
  assumes "segment_ok s" and "c \<in> set (print_segment s)"
  shows "c \<noteq> CHR ''<'' \<and> \<not> is_line_end c \<and> c \<noteq> dq"
proof (cases s)
  case (Bare b)
  with assms have "c \<noteq> CHR ''<'' \<and> \<not> js_space c \<and> c \<noteq> dq" by (simp add: list_all_iff)
  then show ?thesis using line_end_space by blast
next
  case (Quoted b)
  with assms have "c = sq \<or> (c \<noteq> CHR ''<'' \<and> \<not> is_line_end c \<and> c \<noteq> dq)"
    by (auto simp: list_all_iff)
  then show ?thesis by auto
qed

lemma print_arg_chars:
  assumes "arg_ok segs" and "c \<in> set (print_arg segs)"
  shows "c \<noteq> CHR ''<'' \<and> \<not> is_line_end c \<and> c \<noteq> dq"
  using assms print_segment_chars by (fastforce simp: print_arg_def arg_ok_def list_all_iff)

lemma set_join_with: "set (join_with sep ps) \<subseteq> set sep \<union> \<Union> (set ` set ps)"
  by (induction sep ps rule: join_with.induct) auto

lemma print_args_chars:
  assumes "list_all arg_ok args" and "c \<in> set (print_args args)"
  shows "c \<noteq> CHR ''<'' \<and> \<not> is_line_end c"
proof -
  from assms(2) set_join_with [of "'' ''" "map print_arg args"] consider "c = CHR '' ''"
    | a where "a \<in> set args" "c \<in> set (print_arg a)"
    by (auto simp: print_args_def)
  then show ?thesis
    using assms(1) print_arg_chars by cases (auto simp: list_all_iff)
qed

text \<open>The first and last characters of a printed argument are not white space.\<close>

lemma print_segment_ends:
  assumes "segment_ok s"
  shows "print_segment s \<noteq> []" and "\<not> js_space (hd (print_segment s))"
    and "\<not> js_space (last (print_segment s))"
  using assms by (cases s; simp add: list_all_iff)+

lemma print_arg_ends:
  assumes "arg_ok segs"
  shows "print_arg segs \<noteq> []" and "\<not> js_space (hd (print_arg segs))" and "\<not> js_space (last (print_arg segs))"
proof -
  from assms obtain s ss where s: "segs = s # ss" "segment_ok s" by (cases segs) (auto simp: arg_ok_def)
  from assms obtain t ts where t: "segs = ts @ [t]" "segment_ok t"
    by (cases segs rule: rev_cases) (auto simp: arg_ok_def)
  show "print_arg segs \<noteq> []" "\<not> js_space (hd (print_arg segs))"
    using s print_segment_ends [OF s(2)] by (auto simp: print_arg_def)
  show "\<not> js_space (last (print_arg segs))"
    using t print_segment_ends [OF t(2)] by (auto simp: print_arg_def)
qed

lemma trim_print_arg: "arg_ok segs \<Longrightarrow> trim (print_arg segs) = print_arg segs"
  using print_arg_ends by (intro trim_no_outer_space) auto

text \<open>The tokenizer.\<close>

lemma ssh_tokens_plain:
  assumes "list_all (\<lambda>c. c \<noteq> sq \<and> c \<noteq> dq \<and> c \<noteq> CHR '' '') s"
  shows "ssh_tokens (s @ rest) cur None acc = ssh_tokens rest (cur @ s) None acc"
  using assms by (induction s arbitrary: cur) auto

lemma ssh_tokens_quoted:
  assumes "list_all (\<lambda>c. c \<noteq> sq) s"
  shows "ssh_tokens (s @ sq # rest) cur (Some sq) acc = ssh_tokens rest (cur @ s @ [sq]) None acc"
  using assms by (induction s arbitrary: cur) auto

lemma ssh_tokens_segment:
  assumes "segment_ok s"
  shows "ssh_tokens (print_segment s @ rest) cur None acc = ssh_tokens rest (cur @ print_segment s) None acc"
proof (cases s)
  case (Bare b)
  with assms have a: "\<forall>c \<in> set b. c \<noteq> sq \<and> c \<noteq> dq \<and> \<not> js_space c" by (simp add: list_all_iff)
  then have "CHR '' '' \<notin> set b" using special_chars(1) by blast
  with a have "list_all (\<lambda>c. c \<noteq> sq \<and> c \<noteq> dq \<and> c \<noteq> CHR '' '') b"
    unfolding list_all_iff by metis
  with Bare show ?thesis by (simp add: ssh_tokens_plain)
next
  case (Quoted q)
  with assms have "list_all (\<lambda>c. c \<noteq> sq) q" by (auto simp: list_all_iff)
  with Quoted show ?thesis by (simp add: ssh_tokens_quoted)
qed

lemma ssh_tokens_arg:
  assumes "list_all segment_ok segs"
  shows "ssh_tokens (print_arg segs @ rest) cur None acc = ssh_tokens rest (cur @ print_arg segs) None acc"
  using assms
proof (induction segs arbitrary: cur)
  case (Cons s segs)
  then show ?case by (simp add: print_arg_def ssh_tokens_segment)
qed (simp add: print_arg_def)

lemma ssh_tokens_args:
  assumes "list_all arg_ok args" and "args \<noteq> []"
  shows "ssh_tokens (print_args args) [] None acc = acc @ map print_arg args"
  using assms
proof (induction args arbitrary: acc rule: induct_list012)
  case (2 a)
  then show ?case
    using ssh_tokens_arg [of a "[]" "[]" acc] print_arg_ends(1) [of a]
    by (simp add: print_args_def arg_ok_def trim_print_arg)
next
  case (3 a b args)
  then have "print_args (a # b # args) = print_arg a @ CHR '' '' # print_args (b # args)"
    by (simp add: print_args_def)
  moreover have "ssh_tokens (print_arg a @ CHR '' '' # print_args (b # args)) [] None acc =
      ssh_tokens (print_args (b # args)) [] None (acc @ [print_arg a])"
    using 3 print_arg_ends(1) [of a] by (simp add: ssh_tokens_arg arg_ok_def trim_print_arg)
  ultimately show ?case using 3 by simp
qed simp

text \<open>Quote removal.\<close>

lemma strip_quote_pairs_absent: "q \<notin> set s \<Longrightarrow> strip_quote_pairs q s = s"
  by (induction s) auto

lemma strip_quote_pairs_plain: "q \<notin> set p \<Longrightarrow> strip_quote_pairs q (p @ s) = p @ strip_quote_pairs q s"
  by (induction p) auto

lemma strip_quote_pairs_print: "list_all segment_ok segs \<Longrightarrow> strip_quote_pairs sq (print_arg segs) = arg_text segs"
proof (induction segs)
  case (Cons s segs)
  show ?case
  proof (cases s)
    case (Bare b)
    with Cons.prems have "sq \<notin> set b" by (auto simp: list_all_iff)
    with Bare Cons show ?thesis by (simp add: print_arg_def arg_text_def strip_quote_pairs_plain)
  next
    case (Quoted b)
    with Cons.prems have "sq \<notin> set b" by (auto simp: list_all_iff)
    with Quoted Cons show ?thesis by (simp add: print_arg_def arg_text_def)
  qed
qed (simp add: print_arg_def arg_text_def)

lemma normalizeShellArgument_print:
  assumes "arg_ok segs"
  shows "normalizeShellArgument (print_arg segs) = arg_text segs"
proof -
  have "dq \<notin> set (segment_text s)" if "segment_ok s" for s
    using that by (cases s) (simp_all add: list_all_iff, blast+)
  with assms have "dq \<notin> set (arg_text segs)" by (auto simp: arg_text_def arg_ok_def list_all_iff)
  with assms print_arg_ends(1) [OF assms] show ?thesis
    by (simp add: normalizeShellArgument_def strip_quote_pairs_print strip_quote_pairs_absent arg_ok_def)
qed

text \<open>The match: inside the printed arguments no tail of the pattern can start, because the closing
  quote would have to be followed by \<open><\<close>.\<close>

lemma ssh_tailD:
  assumes "ssh_tail s"
  shows "\<exists>u v. s = [CHR '' '', sq] @ u @ sq # '' << '' @ v \<and> sq \<notin> set u"
proof -
  from assms obtain r where s: "s = [CHR '' '', sq] @ r"
    and p: "starts_with (dropWhile (\<lambda>x. x \<noteq> sq) r) (sq # '' << '')"
    by (auto simp: ssh_tail_def prefix_def Let_def)
  from p obtain v where "dropWhile (\<lambda>x. x \<noteq> sq) r = sq # '' << '' @ v" by (auto simp: prefix_def)
  then have "r = takeWhile (\<lambda>x. x \<noteq> sq) r @ sq # '' << '' @ v" by (metis takeWhile_dropWhile_id)
  moreover have "sq \<notin> set (takeWhile (\<lambda>x. x \<noteq> sq) r)" by (auto dest: set_takeWhileD)
  ultimately show ?thesis using s by blast
qed

lemma ssh_tail_here:
  assumes "sq \<notin> set remote" and "remote \<noteq> []"
  shows "ssh_tail ([CHR '' '', sq] @ remote @ sq # '' << '' @ after)"
  using assms by (simp add: ssh_tail_def)

lemma no_ssh_tail_inside:
  assumes body: "CHR ''<'' \<notin> set body" and "body \<noteq> []"
    and remote: "sq \<notin> set remote" "\<not> prefix '' << '' remote"
  shows "\<not> ssh_tail (body @ [CHR '' '', sq] @ remote @ sq # '' << '' @ after)"
proof
  assume "ssh_tail (body @ [CHR '' '', sq] @ remote @ sq # '' << '' @ after)"
  then obtain u v where eq: "body @ [CHR '' '', sq] @ remote @ sq # '' << '' @ after =
      [CHR '' '', sq] @ u @ sq # '' << '' @ v" and u: "sq \<notin> set u"
    by (blast dest: ssh_tailD)
  obtain b1 where b1: "body = [CHR '' '', sq] @ b1"
    using eq \<open>body \<noteq> []\<close> by (cases body; cases "tl body") auto
  with eq have eq1: "b1 @ [CHR '' '', sq] @ remote @ sq # '' << '' @ after = u @ sq # '' << '' @ v"
    by simp
  show False
  proof (cases "sq \<in> set b1")
    case True
    then obtain p q where p: "b1 = p @ sq # q" "sq \<notin> set p" by (metis split_list_first)
    then have "q @ [CHR '' '', sq] @ remote @ sq # '' << '' @ after = '' << '' @ v"
      using sep_unique [of p sq _ u] eq1 u by simp
    moreover have "CHR ''<'' \<notin> set q" using body b1 p by simp
    ultimately show False by (cases q; cases "tl q") auto
  next
    case False
    then have "remote @ sq # '' << '' @ after = '' << '' @ v"
      using sep_unique [of "b1 @ '' ''" sq _ u] eq1 u by simp
    with remote show False
      by (cases remote; cases "tl remote"; cases "tl (tl remote)"; cases "tl (tl (tl remote))") auto
  qed
qed

lemma lazy_group_body:
  assumes "body \<noteq> []" and "CHR ''<'' \<notin> set body" and "list_all (\<lambda>c. \<not> is_line_end c) body"
    and "sq \<notin> set remote" "remote \<noteq> []" "\<not> prefix '' << '' remote"
  shows "lazy_group (body @ [CHR '' '', sq] @ remote @ sq # '' << '' @ after) = Some body"
  using assms(1-3)
proof (induction body)
  case (Cons c body)
  show ?case
  proof (cases "body = []")
    case True
    then show ?thesis using Cons.prems ssh_tail_here [OF assms(4,5)] by simp
  next
    case False
    with Cons no_ssh_tail_inside [of body remote after] assms(4,6) show ?thesis by simp
  qed
qed simp

lemma match_ssh_skip: "\<not> prefix ''ssh '' (c # s) \<Longrightarrow> match_ssh (c # s) = match_ssh s"
  by (simp only: match_ssh.simps if_False option.case)

lemma match_ssh_before:
  assumes "index_of ''ssh '' (before @ ''ssh '') = Some (length before)"
    and "lazy_group s = Some g"
  shows "match_ssh (before @ ''ssh '' @ s) = Some g"
  using assms(1)
proof (induction before)
  case Nil
  then show ?case using assms(2) by simp
next
  case (Cons c before)
  note h = index_of_Cons_Suc [OF Cons.prems [unfolded append_Cons length_Cons]]
  note n = conjunct1 [OF h] and i = conjunct2 [OF h]
  moreover have "\<not> prefix ''ssh '' ((c # before) @ ''ssh '' @ s)"
  proof
    assume "prefix ''ssh '' ((c # before) @ ''ssh '' @ s)"
    then have "prefix ''ssh '' ((c # before @ ''ssh '') @ s)" by (simp only: append_Cons append_assoc)
    then have "prefix ''ssh '' (c # before @ ''ssh '')" by (rule prefix_of_append) simp
    with n show False by (rule notE)
  qed
  ultimately show ?case
    using Cons.IH [OF i] by (simp only: append_Cons match_ssh_skip not_False_eq_True)
qed

lemma print_args_not_Nil:
  assumes "list_all arg_ok args" and "args \<noteq> []"
  shows "print_args args \<noteq> []"
proof -
  obtain a as where "args = a # as" using assms(2) by (cases args) auto
  with assms(1) print_arg_ends(1) [of a] show ?thesis by (cases as) (simp_all add: print_args_def)
qed

lemma extractSshArgs_print:
  assumes "list_all arg_ok args" and "args \<noteq> []"
    and "sq \<notin> set remote" "remote \<noteq> []" "\<not> prefix '' << '' remote"
    and "index_of ''ssh '' (before @ ''ssh '') = Some (length before)"
  shows "extractSshArgs (print_command before args remote after) =
    map (\<lambda>arg. if arg = ''RequestTTY=no'' then ''RequestTTY=yes'' else arg) (map arg_text args)"
proof -
  have "list_all (\<lambda>c. \<not> is_line_end c) (print_args args)" "CHR ''<'' \<notin> set (print_args args)"
    using print_args_chars [OF assms(1)] by (auto simp: list_all_iff)
  then have "lazy_group (print_args args @ [CHR '' '', sq] @ remote @ sq # '' << '' @ after) =
      Some (print_args args)"
    using assms(3-5) print_args_not_Nil [OF assms(1,2)] by (intro lazy_group_body)
  then have "match_ssh (print_command before args remote after) = Some (print_args args)"
    unfolding print_command_def using assms(6) by (intro match_ssh_before)
  moreover have "map normalizeShellArgument (map print_arg args) = map arg_text args"
    using assms(1) by (simp add: list_all_iff normalizeShellArgument_print)
  ultimately show ?thesis
    using assms(1,2) by (simp add: extractSshArgs_def ssh_tokens_args del: map_map)
qed

text \<open>The here-document of a printed command.\<close>

lemma heredoc_body_first:
  assumes "d \<noteq> []" and "index_of d (content @ d) = Some (length content)"
  shows "heredoc_body d (''<< '' @ backslash # d @ content @ d @ after) = Some content"
  using index_of_extend [OF assms, of after] by simp

lemma heredoc_delimiter_before:
  assumes "index_of ''<< '' (before @ ''<< '') = Some (length before)"
    and "takeWhile (\<lambda>x. \<not> js_space x) s = d" and "d \<noteq> []"
  shows "heredoc_delimiter (before @ ''<< '' @ s) = Some d"
  using assms(1)
proof (induction before)
  case Nil
  then show ?case using assms(2,3) by (simp add: Let_def)
next
  case (Cons c before)
  note h = index_of_Cons_Suc [OF Cons.prems [unfolded append_Cons length_Cons]]
  have "\<not> prefix ''<< '' ((c # before @ ''<< '') @ s)"
    using h prefix_of_append [of "''<< ''" "c # before @ ''<< ''" s] by fastforce
  then have "\<not> prefix ''<< '' (c # before @ ''<< '' @ s)" by (simp only: append_Cons append_assoc not_False_eq_True)
  moreover have "heredoc_delimiter (c # t) = heredoc_delimiter t" if "\<not> prefix ''<< '' (c # t)" for t
    using that by (simp only: heredoc_delimiter.simps Let_def simp_thms if_False)
  ultimately show ?case using Cons.IH [OF conjunct2 [OF h]] by (simp only: append_Cons not_False_eq_True)
qed

lemma heredoc_body_before:
  assumes "index_of ''<< '' (before @ ''<< '') = Some (length before)"
    and "heredoc_body d (''<< '' @ s) = Some b"
  shows "heredoc_body d (before @ ''<< '' @ s) = Some b"
  using assms(1)
proof (induction before)
  case Nil
  then show ?case using assms(2) by simp
next
  case (Cons c before)
  note h = index_of_Cons_Suc [OF Cons.prems [unfolded append_Cons length_Cons]]
  have "\<not> prefix ''<< '' ((c # before @ ''<< '') @ s)"
    using h prefix_of_append [of "''<< ''" "c # before @ ''<< ''" s] by fastforce
  then have "\<not> prefix ''<< '' (c # before @ ''<< '' @ s)" by (simp only: append_Cons append_assoc not_False_eq_True)
  moreover have "heredoc_body d (c # t) = heredoc_body d t" if n: "\<not> prefix ''<< '' (c # t)" for t
  proof -
    have "\<not> prefix (''<< '' @ backslash # d) (c # t)" using n append_prefixD by blast
    then show ?thesis by (simp only: heredoc_body.simps Let_def if_False option.case)
  qed
  ultimately show ?case using Cons.IH [OF conjunct2 [OF h]] by (simp only: append_Cons not_False_eq_True)
qed

lemma slice_inner_wrap [simp]: "slice_inner (q # h @ [q]) = h"
  by (simp add: slice_inner_def)

lemma strip_outer_quotes_wrap:
  assumes "q = sq \<or> q = dq" and "trim h = h"
  shows "strip_outer_quotes (q # h @ [q]) = strip_outer_quotes h"
proof -
  have "is_quoted (q # h @ [q])"
    using assms(1) by (auto simp: is_quoted_def suffix_def)
  then show ?thesis using assms(2) by (subst strip_outer_quotes.simps) simp
qed

lemma trim_wrap:
  assumes "q = sq \<or> q = dq"
  shows "trim (q # h @ [q]) = q # h @ [q]"
  using assms by (intro trim_no_outer_space) auto

section \<open>Properties\<close>

text \<open>C13: Reading back a generated command. When every argument is printed as bare and
  single-quoted segments (the form that Coolify's shell escaping produces), \<open>extractSshArgs\<close>
  returns the unquoted arguments in order, except that \<open>RequestTTY=no\<close> becomes
  \<open>RequestTTY=yes\<close>.\<close>

theorem extractSshArgs_roundtrip:
  assumes "list_all arg_ok args" and "args \<noteq> []"
    and "sq \<notin> set remote" and "remote \<noteq> []" and "\<not> prefix '' << '' remote"
    and "index_of ''ssh '' (before @ ''ssh '') = Some (length before)"
  shows "extractSshArgs (print_command before args remote after) =
    map (\<lambda>arg. if arg = ''RequestTTY=no'' then ''RequestTTY=yes'' else arg) (map arg_text args)"
  using assms by (rule extractSshArgs_print)

definition sample_segments :: "segment list list" where
  "sample_segments =
     [[Bare ''-o''], [Bare ''ProxyCommand='', Quoted ''cloudflared access ssh --hostname %h''],
      [Bare ''-o''], [Bare ''RequestTTY=no''], [Bare ''--''],
      [Quoted ''root'', Bare ''@'', Quoted ''10.0.0.5'']]"

theorem extractSshArgs_roundtrip_witness:
  "extractSshArgs (print_command ''timeout 3600 '' sample_segments ''bash -se'' ''EOF'') =
     [''-o'', ''ProxyCommand=cloudflared access ssh --hostname %h'', ''-o'', ''RequestTTY=yes'', ''--'',
      ''root@10.0.0.5'']"
proof -
  have "list_all arg_ok sample_segments"
    by (simp add: sample_segments_def arg_ok_def js_space_def is_line_end_def)
  moreover have "sample_segments \<noteq> []" by (simp add: sample_segments_def)
  moreover have "sq \<notin> set ''bash -se''" "''bash -se'' \<noteq> []" "\<not> prefix '' << '' ''bash -se''" by simp_all
  moreover have "index_of ''ssh '' (''timeout 3600 '' @ ''ssh '') = Some (length ''timeout 3600 '')" by simp
  ultimately have "extractSshArgs (print_command ''timeout 3600 '' sample_segments ''bash -se'' ''EOF'') =
    map (\<lambda>arg. if arg = ''RequestTTY=no'' then ''RequestTTY=yes'' else arg) (map arg_text sample_segments)"
    by (rule extractSshArgs_roundtrip)
  then show ?thesis by (simp add: sample_segments_def arg_text_def)
qed

text \<open>The here-document of a generated command is its text between the backslash-escaped
  delimiter and the next occurrence of the delimiter, whatever follows.\<close>

theorem extractHereDocContent_roundtrip:
  assumes "index_of ''<< '' (before @ ''<< '') = Some (length before)"
    and "d \<noteq> []" and "list_all (\<lambda>x. \<not> js_space x) d" and "js_space c"
    and "index_of d ((c # content) @ d) = Some (length (c # content))"
  shows "extractHereDocContent (before @ ''<< '' @ backslash # d @ (c # content) @ d @ after) = c # content"
proof -
  let ?s = "backslash # d @ (c # content) @ d @ after"
  have "takeWhile (\<lambda>x. \<not> js_space x) (d @ (c # content) @ d @ after) = d"
    using assms(3,4) by (subst takeWhile_append2) (auto simp: list_all_iff)
  then have "takeWhile (\<lambda>x. \<not> js_space x) ?s = backslash # d"
    by (simp add: js_space_def)
  then have "heredoc_delimiter (before @ ''<< '' @ ?s) = Some (backslash # d)"
    using assms(1) by (intro heredoc_delimiter_before) simp_all
  moreover have "heredoc_body d (before @ ''<< '' @ ?s) = Some (c # content)"
    using assms(1,2,5) by (intro heredoc_body_before heredoc_body_first)
  moreover have "trim d = d" using assms(3) by (rule trim_no_space)
  ultimately show ?thesis using assms(2) by (simp only: extractHereDocContent_def option.case Let_def
        drop_Suc_Cons drop_0 One_nat_def if_False)
qed

theorem extractHereDocContent_roundtrip_witness:
  "extractHereDocContent (''ssh x '' @ ''<< '' @ backslash # ''EOF'' @ ('' echo hi '') @ ''EOF'' @ '' tail'') =
     '' echo hi ''"
proof -
  have "index_of ''<< '' (''ssh x '' @ ''<< '') = Some (length ''ssh x '')" by simp
  moreover have "''EOF'' \<noteq> []" "list_all (\<lambda>x. \<not> js_space x) ''EOF''" "js_space (CHR '' '')"
    by (simp_all add: js_space_def)
  moreover have "index_of ''EOF'' ((CHR '' '' # ''echo hi '') @ ''EOF'') = Some (length (CHR '' '' # ''echo hi ''))"
    by simp
  ultimately show ?thesis by (rule extractHereDocContent_roundtrip)
qed

text \<open>Host names are compared without the quotes that shell escaping puts around them: any
  nesting of single and double quotes around a trimmed host leaves the normalized host unchanged.\<close>

theorem normalizeHostForAuthorization_unwraps:
  assumes "trim h = h" and "h \<noteq> []" and "\<forall>q \<in> set qs. q = sq \<or> q = dq"
  shows "normalizeHostForAuthorization (Some (foldr (\<lambda>q s. q # s @ [q]) qs h)) =
    normalizeHostForAuthorization (Some h)"
proof -
  have "trim (foldr (\<lambda>q s. q # s @ [q]) qs h) = foldr (\<lambda>q s. q # s @ [q]) qs h \<and>
      strip_outer_quotes (foldr (\<lambda>q s. q # s @ [q]) qs h) = strip_outer_quotes h"
    using assms(3)
  proof (induction qs)
    case Nil
    then show ?case using assms(1) by simp
  next
    case (Cons q qs)
    then show ?case using strip_outer_quotes_wrap trim_wrap by simp
  qed
  moreover have "foldr (\<lambda>q s. q # s @ [q]) qs h \<noteq> []" using assms(2) by (cases qs) auto
  ultimately show ?thesis using assms(1,2) by (simp add: normalizeHostForAuthorization_def)
qed

theorem normalizeHostForAuthorization_unwraps_witness:
  "normalizeHostForAuthorization (Some (foldr (\<lambda>q s. q # s @ [q]) [dq, sq] ''DB.local'')) =
     Some ''db.local''"
proof -
  have "trim ''DB.local'' = ''DB.local''" "''DB.local'' \<noteq> []" "\<forall>q \<in> set [dq, sq]. q = sq \<or> q = dq"
    by (simp_all add: trim_def js_space_def)
  then have "normalizeHostForAuthorization (Some (foldr (\<lambda>q s. q # s @ [q]) [dq, sq] ''DB.local'')) =
      normalizeHostForAuthorization (Some ''DB.local'')"
    by (rule normalizeHostForAuthorization_unwraps)
  also have "\<dots> = Some ''db.local''" by code_simp
  finally show ?thesis .
qed

end
