(* ===== verification/Ssh_Policy.thy ===== *)
theory Ssh_Policy
  imports Ssh_Args
begin

text \<open>
  The argument policy of the terminal server (\<open>isAllowedSshOption\<close>, \<open>validateSshArgs\<close>,
  \<open>sanitizeSshArgs\<close> of \<open>terminal-utils.js\<close>) and its declarative specification: the accepted
  argument vectors are the words of a small grammar of option tokens, closed by \<open>--\<close> and one
  destination whose host is authorized.
\<close>

section \<open>Options\<close>

definition fixedOptions :: "(jstring \<times> jstring) list" where
  "fixedOptions =
     [(''PasswordAuthentication'', ''no''),
      (''IdentitiesOnly'', ''yes''),
      (''ClearAllForwardings'', ''yes''),
      (''ForwardAgent'', ''no''),
      (''LogLevel'', ''ERROR''),
      (''ControlMaster'', ''auto''),
      (''ProxyCommand'', ''cloudflared access ssh --hostname %h'')]"

definition isAllowedSshOption :: "jstring \<Rightarrow> jstring \<Rightarrow> bool" where
  "isAllowedSshOption name value =
     (case map_of fixedOptions name of
        Some fixed \<Rightarrow> value = fixed
      | None \<Rightarrow>
          if name = ''StrictHostKeyChecking'' then value = ''yes'' \<or> value = ''no''
          else if name = ''UserKnownHostsFile'' then
            value = ''/dev/null'' \<or>
            is_prefixed_token ''/var/www/html/storage/app/ssh/known_hosts/known_hosts_'' value
          else if name = ''HostKeyAlias'' then is_prefixed_token ''coolify-'' value
          else if name = ''RequestTTY'' then value = ''yes'' \<or> value = ''no''
          else if name = ''ConnectTimeout'' \<or> name = ''ServerAliveInterval'' \<or> name = ''ControlPersist''
          then is_number value \<and> 0 < digits_val value
          else if name = ''ControlPath''
          then is_prefixed_token ''/var/www/html/storage/app/ssh/mux/mux_'' value
          else False)"

definition REQUIRED_SSH_OPTIONS :: "jstring list" where
  "REQUIRED_SSH_OPTIONS =
     [''StrictHostKeyChecking'', ''UserKnownHostsFile'', ''PasswordAuthentication'',
      ''IdentitiesOnly'', ''ClearAllForwardings'', ''ForwardAgent'', ''ConnectTimeout'',
      ''ServerAliveInterval'', ''RequestTTY'', ''LogLevel'']"

definition multiplexingOptions :: "jstring list" where
  "multiplexingOptions = [''ControlMaster'', ''ControlPath'', ''ControlPersist'']"

section \<open>The argument scanner\<close>

text \<open>The local variables of the loop in \<open>validateSshArgs\<close>. The set \<open>seenOptions\<close> is a
  list without duplicates.\<close>

record ssh_scan =
  seenOptions :: "jstring list"
  hasIdentityFile :: bool
  hasPort :: bool
  hasConfigFile :: bool
  hasEndOfOptions :: bool
  targetHost :: "jstring option"

definition scan_start :: ssh_scan where
  "scan_start = \<lparr>seenOptions = [], hasIdentityFile = False, hasPort = False,
     hasConfigFile = False, hasEndOfOptions = False, targetHost = None\<rparr>"

text \<open>\<open>/[\0\r\n]/\<close>\<close>

definition has_control :: "jstring \<Rightarrow> bool" where
  "has_control a \<longleftrightarrow> CHR 0x00 \<in> set a \<or> CHR 0x0D \<in> set a \<or> CHR 0x0A \<in> set a"

text \<open>\<open>/^[a-zA-Z0-9_.][a-zA-Z0-9._-]*@[^@]+$/\<close>\<close>

definition is_destination :: "jstring \<Rightarrow> bool" where
  "is_destination a \<longleftrightarrow>
     (let user = takeWhile (\<lambda>x. x \<noteq> CHR ''@'') a; r = dropWhile (\<lambda>x. x \<noteq> CHR ''@'') a in
      user \<noteq> [] \<and>
      (is_alnum (hd user) \<or> hd user = CHR ''_'' \<or> hd user = CHR ''.'') \<and>
      list_all (\<lambda>x. is_token_char x \<or> x = CHR ''.'') (tl user) \<and>
      r \<noteq> [] \<and> tl r \<noteq> [] \<and> CHR ''@'' \<notin> set (tl r))"

text \<open>\<open>/^(?:[a-zA-Z0-9]|\[)/.test(targetHost ?? '')\<close>\<close>

definition is_plain_host :: "jstring option \<Rightarrow> bool" where
  "is_plain_host t \<longleftrightarrow>
     (case t of Some (c # _) \<Rightarrow> is_alnum c \<or> c = CHR ''['' | _ \<Rightarrow> False)"

definition is_identity_path :: "jstring \<Rightarrow> bool" where
  "is_identity_path f \<longleftrightarrow> is_prefixed_token ''/var/www/html/storage/app/ssh/keys/ssh_key@'' f"

text \<open>\<open>Number(port)\<close> of a string of digits is compared with 1 and 65535.\<close>

definition is_port :: "jstring \<Rightarrow> bool" where
  "is_port p \<longleftrightarrow> is_number p \<and> \<not> digits_val p < 1 \<and> \<not> digits_val p > 65535"

text \<open>The body of the \<open>-o\<close> branch: \<open>None\<close> is \<open>return false\<close>.\<close>

definition scan_option :: "jstring \<Rightarrow> ssh_scan \<Rightarrow> ssh_scan option" where
  "scan_option option st =
     (case index_of [CHR ''=''] option of
        None \<Rightarrow> None
      | Some separator \<Rightarrow>
          if separator < 1 then None
          else
            (let name = take separator option; value = drop (separator + 1) option in
             if name \<in> set (seenOptions st) \<or> \<not> isAllowedSshOption name value then None
             else Some (st\<lparr>seenOptions := seenOptions st @ [name]\<rparr>)))"

text \<open>The loop. An argument that an option letter expects is missing at the end of the vector,
  where the source reads \<open>undefined\<close> and returns false.\<close>

fun scan_args :: "jstring list \<Rightarrow> ssh_scan \<Rightarrow> ssh_scan option" where
  "scan_args [] st = Some st"
| "scan_args (argument # rest) st =
     (if has_control argument then None
      else if hasEndOfOptions st then
        (if targetHost st \<noteq> None \<or> \<not> is_destination argument then None
         else
           (let t = extractTargetHost [argument] in
            if \<not> is_plain_host t then None
            else scan_args rest (st\<lparr>targetHost := t\<rparr>)))
      else if argument = ''-i'' then
        (case rest of
           [] \<Rightarrow> None
         | identityFile # rest' \<Rightarrow>
             if hasIdentityFile st \<or> \<not> is_identity_path identityFile then None
             else scan_args rest' (st\<lparr>hasIdentityFile := True\<rparr>))
      else if argument = ''-p'' then
        (case rest of
           [] \<Rightarrow> None
         | port # rest' \<Rightarrow>
             if hasPort st \<or> \<not> is_port port then None
             else scan_args rest' (st\<lparr>hasPort := True\<rparr>))
      else if argument = ''-F'' then
        (case rest of
           [] \<Rightarrow> None
         | configFile # rest' \<Rightarrow>
             if hasConfigFile st \<or> configFile \<noteq> ''/dev/null'' then None
             else scan_args rest' (st\<lparr>hasConfigFile := True\<rparr>))
      else if argument = ''--'' then scan_args rest (st\<lparr>hasEndOfOptions := True\<rparr>)
      else if argument = ''-o'' then
        (case rest of
           [] \<Rightarrow> None
         | option # rest' \<Rightarrow>
             (case scan_option option st of
                None \<Rightarrow> None
              | Some st' \<Rightarrow> scan_args rest' st'))
      else None)"

definition hasRequiredOptions :: "ssh_scan \<Rightarrow> bool" where
  "hasRequiredOptions st \<longleftrightarrow> list_all (\<lambda>option. option \<in> set (seenOptions st)) REQUIRED_SSH_OPTIONS"

definition hasCompleteMultiplexingOptions :: "ssh_scan \<Rightarrow> bool" where
  "hasCompleteMultiplexingOptions st \<longleftrightarrow>
     \<not> list_ex (\<lambda>option. option \<in> set (seenOptions st)) multiplexingOptions \<or>
     list_all (\<lambda>option. option \<in> set (seenOptions st)) multiplexingOptions"

definition validateSshArgs :: "jstring list \<Rightarrow> jstring list \<Rightarrow> bool" where
  "validateSshArgs sshArgs authorizedHosts =
     (if sshArgs = [] then False
      else
        (case scan_args sshArgs scan_start of
           None \<Rightarrow> False
         | Some st \<Rightarrow>
             hasIdentityFile st \<and> hasPort st \<and> hasConfigFile st \<and> targetHost st \<noteq> None \<and>
             hasRequiredOptions st \<and> hasCompleteMultiplexingOptions st \<and>
             isAuthorizedTargetHost (targetHost st) authorizedHosts))"

text \<open>\<open>sshArgs[index + 1]?.split('=', 1)[0]\<close> is the part before the first equals sign; a missing
  argument gives \<open>undefined\<close>, which is in no set.\<close>

fun sanitizeSshArgs :: "jstring list \<Rightarrow> jstring list" where
  "sanitizeSshArgs [] = []"
| "sanitizeSshArgs [a] = [a]"
| "sanitizeSshArgs (a # b # rest) =
     (if a = ''-o'' \<and> takeWhile (\<lambda>c. c \<noteq> CHR ''='') b \<in> set multiplexingOptions
      then sanitizeSshArgs rest
      else a # sanitizeSshArgs (b # rest))"

section \<open>The grammar of accepted argument vectors\<close>

datatype ssh_token = Identity jstring | Port jstring | Config | Opt jstring jstring

fun token_args :: "ssh_token \<Rightarrow> jstring list" where
  "token_args (Identity f) = [''-i'', f]"
| "token_args (Port p) = [''-p'', p]"
| "token_args Config = [''-F'', ''/dev/null'']"
| "token_args (Opt name value) = [''-o'', name @ CHR ''='' # value]"

fun token_ok :: "ssh_token \<Rightarrow> bool" where
  "token_ok (Identity f) = is_identity_path f"
| "token_ok (Port p) = is_port p"
| "token_ok Config = True"
| "token_ok (Opt name value) = isAllowedSshOption name value"

text \<open>What may occur once: the identity file, the port, the configuration file, each option name.\<close>

fun token_key :: "ssh_token \<Rightarrow> jstring" where
  "token_key (Identity f) = ''-i''"
| "token_key (Port p) = ''-p''"
| "token_key Config = ''-F''"
| "token_key (Opt name value) = name"

definition option_names :: "ssh_token list \<Rightarrow> jstring list" where
  "option_names ts = List.map_filter (\<lambda>t. case t of Opt n v \<Rightarrow> Some n | _ \<Rightarrow> None) ts"

definition render_ssh :: "ssh_token list \<Rightarrow> jstring \<Rightarrow> jstring list" where
  "render_ssh ts dest = concat (map token_args ts) @ [''--'', dest]"

definition destination_ok :: "jstring \<Rightarrow> jstring list \<Rightarrow> bool" where
  "destination_ok dest hosts \<longleftrightarrow>
     \<not> has_control dest \<and> is_destination dest \<and>
     is_plain_host (extractTargetHost [dest]) \<and>
     isAuthorizedTargetHost (extractTargetHost [dest]) hosts"

text \<open>A policy-conforming vector: well-formed tokens, none twice, the required ones present, the
  multiplexing options all or none, and an authorized destination.\<close>

definition tokens_ok :: "ssh_token list \<Rightarrow> bool" where
  "tokens_ok ts \<longleftrightarrow>
     list_all token_ok ts \<and> distinct (map token_key ts) \<and>
     {''-i'', ''-p'', ''-F''} \<union> set REQUIRED_SSH_OPTIONS \<subseteq> set (map token_key ts) \<and>
     (set multiplexingOptions \<subseteq> set (map token_key ts) \<or>
      set multiplexingOptions \<inter> set (map token_key ts) = {})"

definition ssh_policy :: "jstring list \<Rightarrow> jstring list \<Rightarrow> bool" where
  "ssh_policy args hosts \<longleftrightarrow>
     (\<exists>ts dest. args = render_ssh ts dest \<and> tokens_ok ts \<and> destination_ok dest hosts)"

text \<open>Facts about the accepted options.\<close>

definition ssh_option_names :: "jstring list" where
  "ssh_option_names = map fst fixedOptions @
     [''StrictHostKeyChecking'', ''UserKnownHostsFile'', ''HostKeyAlias'', ''RequestTTY'',
      ''ConnectTimeout'', ''ServerAliveInterval'', ''ControlPersist'', ''ControlPath'']"

lemma allowed_option_name:
  assumes "isAllowedSshOption name value"
  shows "name \<in> set ssh_option_names"
proof (cases "map_of fixedOptions name")
  case None
  with assms show ?thesis
    by (auto simp: isAllowedSshOption_def ssh_option_names_def split: if_splits)
next
  case (Some v)
  then have "(name, v) \<in> set fixedOptions" by (rule map_of_SomeD)
  then show ?thesis by (force simp: ssh_option_names_def)
qed

lemma ssh_option_names_shape:
  "list_all (\<lambda>n. CHR ''='' \<notin> set n \<and> n \<noteq> [] \<and> hd n \<noteq> CHR ''-'') ssh_option_names"
  by (simp add: ssh_option_names_def fixedOptions_def)

lemma allowed_option_shape:
  assumes "isAllowedSshOption name value"
  shows "CHR ''='' \<notin> set name" and "name \<noteq> []" and "hd name \<noteq> CHR ''-''"
  using allowed_option_name [OF assms] ssh_option_names_shape by (auto simp: list_all_iff)

lemma index_of_option:
  assumes "CHR ''='' \<notin> set name"
  shows "index_of [CHR ''=''] (name @ CHR ''='' # value) = Some (length name)"
  using assms by (simp add: index_of_single)

text \<open>What the scanner has used up, and what one token adds.\<close>

definition used_keys :: "ssh_scan \<Rightarrow> jstring set" where
  "used_keys st =
     set (seenOptions st) \<union>
     (if hasIdentityFile st then {''-i''} else {}) \<union>
     (if hasPort st then {''-p''} else {}) \<union>
     (if hasConfigFile st then {''-F''} else {})"

fun apply_token :: "ssh_token \<Rightarrow> ssh_scan \<Rightarrow> ssh_scan" where
  "apply_token (Identity f) st = st\<lparr>hasIdentityFile := True\<rparr>"
| "apply_token (Port p) st = st\<lparr>hasPort := True\<rparr>"
| "apply_token Config st = st\<lparr>hasConfigFile := True\<rparr>"
| "apply_token (Opt name value) st = st\<lparr>seenOptions := seenOptions st @ [name]\<rparr>"

definition names_ok :: "ssh_scan \<Rightarrow> bool" where
  "names_ok st \<longleftrightarrow> (\<forall>n \<in> set (seenOptions st). hd n \<noteq> CHR ''-'')"

lemma used_keys_apply_token [simp]: "used_keys (apply_token t st) = insert (token_key t) (used_keys st)"
  by (cases t) (auto simp: used_keys_def)

lemma apply_token_frame [simp]:
  "hasEndOfOptions (apply_token t st) = hasEndOfOptions st"
  "targetHost (apply_token t st) = targetHost st"
  by (cases t; simp)+

lemma names_ok_apply_token: "token_ok t \<Longrightarrow> names_ok st \<Longrightarrow> names_ok (apply_token t st)"
  by (cases t) (auto simp: names_ok_def dest: allowed_option_shape)

lemma names_ok_flag_keys:
  assumes "names_ok st"
  shows "''-i'' \<in> used_keys st \<longleftrightarrow> hasIdentityFile st"
    and "''-p'' \<in> used_keys st \<longleftrightarrow> hasPort st"
    and "''-F'' \<in> used_keys st \<longleftrightarrow> hasConfigFile st"
  using assms by (auto simp: used_keys_def names_ok_def)

lemma names_ok_option_key: "hd n \<noteq> CHR ''-'' \<Longrightarrow> n \<in> used_keys st \<longleftrightarrow> n \<in> set (seenOptions st)"
  by (auto simp: used_keys_def)

text \<open>One token.\<close>

lemma scan_option_Some:
  assumes "scan_option option st = Some st'"
  obtains n v where "option = n @ CHR ''='' # v" and "isAllowedSshOption n v"
    and "n \<notin> set (seenOptions st)" and "st' = apply_token (Opt n v) st"
proof -
  from assms obtain i where i: "index_of [CHR ''=''] option = Some i"
    by (auto simp: scan_option_def split: option.splits)
  from index_of_SomeD [OF this] have "option = take i option @ CHR ''='' # drop (i + 1) option"
    by (auto simp: prefix_def) (metis add.commute append_take_drop_id drop_drop list.sel(3) plus_1_eq_Suc drop_Suc tl_drop)
  with assms i show thesis
    by (auto simp: scan_option_def Let_def split: if_splits intro: that)
qed

lemma scan_token:
  assumes "\<not> hasEndOfOptions st" and "names_ok st" and "token_ok t" and "token_key t \<notin> used_keys st"
  shows "scan_args (token_args t @ rest) st = scan_args rest (apply_token t st)"
proof (cases t)
  case (Opt n v)
  with assms(3) have shape: "CHR ''='' \<notin> set n" "n \<noteq> []" "hd n \<noteq> CHR ''-''"
    by (auto dest: allowed_option_shape)
  have "scan_option (n @ CHR ''='' # v) st = Some (apply_token t st)"
    using assms Opt shape
    by (simp add: scan_option_def index_of_option names_ok_option_key Suc_le_eq)
  then show ?thesis using assms Opt by (simp add: has_control_def)
qed (use assms in \<open>simp_all add: has_control_def names_ok_flag_keys\<close>)

lemma scan_args_step:
  assumes "scan_args (a # rest) st = Some st'" and "\<not> hasEndOfOptions st" and "names_ok st"
  shows "(\<exists>t rest'. a # rest = token_args t @ rest' \<and> token_ok t \<and> token_key t \<notin> used_keys st \<and>
            scan_args rest' (apply_token t st) = Some st') \<or>
         (a = ''--'' \<and> scan_args rest (st\<lparr>hasEndOfOptions := True\<rparr>) = Some st')"
proof -
  consider "a = ''-i''" | "a = ''-p''" | "a = ''-F''" | "a = ''--''" | "a = ''-o''"
    using assms by (auto split: if_splits)
  then show ?thesis
  proof cases
    case 1
    with assms obtain f rest' where "rest = f # rest'" "token_ok (Identity f)" "\<not> hasIdentityFile st"
      "scan_args rest' (apply_token (Identity f) st) = Some st'"
      by (auto split: if_splits list.splits)
    with 1 assms(3) show ?thesis
      by (intro disjI1 exI [of _ "Identity f"] exI [of _ rest']) (simp add: names_ok_flag_keys)
  next
    case 2
    with assms obtain f rest' where "rest = f # rest'" "token_ok (Port f)" "\<not> hasPort st"
      "scan_args rest' (apply_token (Port f) st) = Some st'"
      by (auto split: if_splits list.splits)
    with 2 assms(3) show ?thesis
      by (intro disjI1 exI [of _ "Port f"] exI [of _ rest']) (simp add: names_ok_flag_keys)
  next
    case 3
    with assms obtain rest' where "rest = ''/dev/null'' # rest'" "\<not> hasConfigFile st"
      "scan_args rest' (apply_token Config st) = Some st'"
      by (auto split: if_splits list.splits)
    with 3 assms(3) show ?thesis
      by (intro disjI1 exI [of _ Config] exI [of _ rest']) (simp add: names_ok_flag_keys)
  next
    case 4
    with assms show ?thesis by (auto split: if_splits)
  next
    case 5
    with assms obtain opt rest' st1 where r: "rest = opt # rest'" and o: "scan_option opt st = Some st1"
      and s: "scan_args rest' st1 = Some st'"
      by (auto split: if_splits list.splits option.splits)
    from o obtain n v where "opt = n @ CHR ''='' # v" "isAllowedSshOption n v"
      "n \<notin> set (seenOptions st)" "st1 = apply_token (Opt n v) st"
      by (rule scan_option_Some)
    with 5 r s show ?thesis
      by (intro disjI1 exI [of _ "Opt n v"] exI [of _ rest'])
        (simp add: names_ok_option_key allowed_option_shape)
  qed
qed

lemma scan_args_after_end:
  assumes "scan_args ds st = Some st'" and "hasEndOfOptions st" and "targetHost st = None"
  shows "(ds = [] \<and> st' = st) \<or>
    (\<exists>d. ds = [d] \<and> \<not> has_control d \<and> is_destination d \<and> is_plain_host (extractTargetHost [d]) \<and>
         st' = st\<lparr>targetHost := extractTargetHost [d]\<rparr>)"
proof (cases ds)
  case (Cons d ds')
  with assms have d: "\<not> has_control d" "is_destination d" "is_plain_host (extractTargetHost [d])"
    and r: "scan_args ds' (st\<lparr>targetHost := extractTargetHost [d]\<rparr>) = Some st'"
    by (auto simp: Let_def split: if_splits)
  from d(3) have "extractTargetHost [d] \<noteq> None" by (auto simp: is_plain_host_def split: option.splits)
  with r assms(2) have "ds' = []" by (cases ds') (auto split: if_splits)
  with Cons d r show ?thesis by simp
qed (use assms in simp)

text \<open>Every accepted scan reads a list of fresh, well-formed tokens, then possibly \<open>--\<close> and a
  destination.\<close>

lemma scan_args_sound:
  assumes "scan_args args st = Some st'" and "\<not> hasEndOfOptions st" and "targetHost st = None"
    and "names_ok st"
  shows "\<exists>ts tail. args = concat (map token_args ts) @ tail \<and> list_all token_ok ts \<and>
     distinct (map token_key ts) \<and> set (map token_key ts) \<inter> used_keys st = {} \<and>
     used_keys st' = used_keys st \<union> set (map token_key ts) \<and> names_ok st' \<and>
     (targetHost st' = None \<or>
      (\<exists>dest. tail = [''--'', dest] \<and> \<not> has_control dest \<and> is_destination dest \<and>
         is_plain_host (extractTargetHost [dest]) \<and> targetHost st' = extractTargetHost [dest]))"
  using assms
proof (induction args arbitrary: st rule: length_induct)
  case (1 args)
  show ?case
  proof (cases args)
    case Nil
    with "1.prems" show ?thesis by (intro exI [of _ "[]"]) auto
  next
    case (Cons a rest)
    from scan_args_step [OF "1.prems"(1) [unfolded Cons] "1.prems"(2,4)]
    consider (tok) t rest' where "args = token_args t @ rest'" "token_ok t" "token_key t \<notin> used_keys st"
        "scan_args rest' (apply_token t st) = Some st'"
      | (fin) "a = ''--''" "scan_args rest (st\<lparr>hasEndOfOptions := True\<rparr>) = Some st'"
      using Cons by auto
    then show ?thesis
    proof cases
      case tok
      then have "length rest' < length args" by (cases t) auto
      with "1.IH" tok "1.prems" names_ok_apply_token [OF tok(2) "1.prems"(4)] obtain ts tail where
        ih: "rest' = concat (map token_args ts) @ tail" "list_all token_ok ts"
          "distinct (map token_key ts)"
          "set (map token_key ts) \<inter> insert (token_key t) (used_keys st) = {}"
          "used_keys st' = insert (token_key t) (used_keys st) \<union> set (map token_key ts)"
          "names_ok st'"
          "targetHost st' = None \<or>
            (\<exists>dest. tail = [''--'', dest] \<and> \<not> has_control dest \<and> is_destination dest \<and>
               is_plain_host (extractTargetHost [dest]) \<and> targetHost st' = extractTargetHost [dest])"
        by (metis apply_token_frame used_keys_apply_token)
      have "args = concat (map token_args (t # ts)) @ tail" using tok(1) ih(1) by simp
      moreover have "distinct (map token_key (t # ts))" using ih(3,4) by auto
      ultimately show ?thesis using tok ih(2,4-7)
        by (intro exI [of _ "t # ts"] exI [of _ tail]) auto
    next
      case fin
      have frame: "used_keys (st\<lparr>hasEndOfOptions := True\<rparr>) = used_keys st"
        "names_ok (st\<lparr>hasEndOfOptions := True\<rparr>)"
        "used_keys (st\<lparr>hasEndOfOptions := True, targetHost := h\<rparr>) = used_keys st"
        "names_ok (st\<lparr>hasEndOfOptions := True, targetHost := h\<rparr>)" for h
        using "1.prems"(4) by (simp_all add: used_keys_def names_ok_def)
      from scan_args_after_end [OF fin(2)] "1.prems"(3)
      consider "rest = []" "st' = st\<lparr>hasEndOfOptions := True\<rparr>"
        | dest where "rest = [dest]" "\<not> has_control dest" "is_destination dest"
          "is_plain_host (extractTargetHost [dest])"
          "st' = st\<lparr>hasEndOfOptions := True, targetHost := extractTargetHost [dest]\<rparr>"
        by fastforce
      then show ?thesis
        by cases (use Cons fin(1) frame "1.prems"(3) in
          \<open>intro exI [of _ "[]"] exI [of _ args], simp\<close>)+
    qed
  qed
qed

text \<open>Conversely, fresh well-formed tokens are scanned one by one.\<close>

lemma scan_args_complete:
  assumes "\<not> hasEndOfOptions st" and "names_ok st" and "list_all token_ok ts"
    and "distinct (map token_key ts)" and "set (map token_key ts) \<inter> used_keys st = {}"
  shows "scan_args (concat (map token_args ts) @ rest) st = scan_args rest (fold apply_token ts st)"
  using assms
proof (induction ts arbitrary: st)
  case (Cons t ts)
  then have "scan_args (token_args t @ concat (map token_args ts) @ rest) st =
      scan_args (concat (map token_args ts) @ rest) (apply_token t st)"
    by (intro scan_token) auto
  also have "\<dots> = scan_args rest (fold apply_token ts (apply_token t st))"
    using Cons.prems by (intro Cons.IH) (auto intro: names_ok_apply_token)
  finally show ?case by simp
qed simp

lemma fold_apply_token:
  "used_keys (fold apply_token ts st) = used_keys st \<union> set (map token_key ts)"
  "hasEndOfOptions (fold apply_token ts st) = hasEndOfOptions st"
  "targetHost (fold apply_token ts st) = targetHost st"
  by (induction ts arbitrary: st) auto

lemma names_ok_fold: "list_all token_ok ts \<Longrightarrow> names_ok st \<Longrightarrow> names_ok (fold apply_token ts st)"
  by (induction ts arbitrary: st) (auto intro: names_ok_apply_token)

lemma scan_start_facts [simp]:
  "used_keys scan_start = {}" "names_ok scan_start" "\<not> hasEndOfOptions scan_start"
  "targetHost scan_start = None"
  by (simp_all add: scan_start_def used_keys_def names_ok_def)

text \<open>The final checks of \<open>validateSshArgs\<close> on the keys that the scan used.\<close>

lemma option_names_shape:
  "list_all (\<lambda>n. hd n \<noteq> CHR ''-'') (REQUIRED_SSH_OPTIONS @ multiplexingOptions)"
  by (simp add: REQUIRED_SSH_OPTIONS_def multiplexingOptions_def)

lemma final_checks_keys:
  assumes "names_ok st"
  shows "hasIdentityFile st \<and> hasPort st \<and> hasConfigFile st \<and> hasRequiredOptions st \<and>
       hasCompleteMultiplexingOptions st \<longleftrightarrow>
     {''-i'', ''-p'', ''-F''} \<union> set REQUIRED_SSH_OPTIONS \<subseteq> used_keys st \<and>
     (set multiplexingOptions \<subseteq> used_keys st \<or> set multiplexingOptions \<inter> used_keys st = {})"
proof -
  have "n \<in> used_keys st \<longleftrightarrow> n \<in> set (seenOptions st)"
    if "n \<in> set (REQUIRED_SSH_OPTIONS @ multiplexingOptions)" for n
    using that option_names_shape by (intro names_ok_option_key) (auto simp: list_all_iff)
  then have r: "set REQUIRED_SSH_OPTIONS \<subseteq> used_keys st \<longleftrightarrow> hasRequiredOptions st"
    and m: "set multiplexingOptions \<subseteq> used_keys st \<longleftrightarrow>
      list_all (\<lambda>option. option \<in> set (seenOptions st)) multiplexingOptions"
    and x: "set multiplexingOptions \<inter> used_keys st = {} \<longleftrightarrow>
      \<not> list_ex (\<lambda>option. option \<in> set (seenOptions st)) multiplexingOptions"
    by (auto simp: hasRequiredOptions_def list_all_iff list_ex_iff)
  show ?thesis
    unfolding hasCompleteMultiplexingOptions_def r [symmetric] m [symmetric] x [symmetric]
    using names_ok_flag_keys [OF assms] by auto
qed

lemma validate_iff_policy:
  "validateSshArgs sshArgs authorizedHosts \<longleftrightarrow> ssh_policy sshArgs authorizedHosts"
proof
  assume v: "validateSshArgs sshArgs authorizedHosts"
  then obtain st where st: "scan_args sshArgs scan_start = Some st" "targetHost st \<noteq> None"
      "isAuthorizedTargetHost (targetHost st) authorizedHosts"
    and c: "hasIdentityFile st \<and> hasPort st \<and> hasConfigFile st \<and> hasRequiredOptions st \<and>
       hasCompleteMultiplexingOptions st"
    by (auto simp: validateSshArgs_def split: if_splits option.splits)
  from scan_args_sound [OF st(1)] st(2) obtain ts dest where
    t: "sshArgs = concat (map token_args ts) @ [''--'', dest]" "list_all token_ok ts"
      "distinct (map token_key ts)" "used_keys st = set (map token_key ts)" "names_ok st"
      "\<not> has_control dest" "is_destination dest" "is_plain_host (extractTargetHost [dest])"
      "targetHost st = extractTargetHost [dest]"
    by auto
  have "tokens_ok ts" using final_checks_keys [OF t(5)] c t(2-4) by (simp add: tokens_ok_def)
  moreover have "destination_ok dest authorizedHosts" using t st(3) by (simp add: destination_ok_def)
  ultimately show "ssh_policy sshArgs authorizedHosts"
    using t(1) by (auto simp: ssh_policy_def render_ssh_def)
next
  assume "ssh_policy sshArgs authorizedHosts"
  then obtain ts dest where args: "sshArgs = concat (map token_args ts) @ [''--'', dest]"
    and t: "tokens_ok ts" and d: "destination_ok dest authorizedHosts"
    by (auto simp: ssh_policy_def render_ssh_def)
  let ?st = "fold apply_token ts scan_start"
  let ?st' = "?st\<lparr>hasEndOfOptions := True, targetHost := extractTargetHost [dest]\<rparr>"
  have n: "names_ok ?st" and n': "names_ok ?st'" and k: "used_keys ?st' = set (map token_key ts)"
  proof -
    show "names_ok ?st" using t by (intro names_ok_fold) (simp_all add: tokens_ok_def)
    then show "names_ok ?st'" by (simp add: names_ok_def)
    have "used_keys ?st' = used_keys ?st" by (simp add: used_keys_def)
    then show "used_keys ?st' = set (map token_key ts)" by (simp add: fold_apply_token)
  qed
  have "scan_args sshArgs scan_start = scan_args [''--'', dest] ?st"
    unfolding args using t by (intro scan_args_complete) (auto simp: tokens_ok_def)
  also have "\<dots> = Some ?st'"
    using d by (simp add: destination_ok_def fold_apply_token has_control_def)
  finally have scan: "scan_args sshArgs scan_start = Some ?st'" .
  have h: "extractTargetHost [dest] \<noteq> None"
    and auth: "isAuthorizedTargetHost (extractTargetHost [dest]) authorizedHosts"
    using d by (auto simp: destination_ok_def is_plain_host_def split: option.splits)
  have "sshArgs \<noteq> []" by (simp add: args)
  moreover have "hasIdentityFile ?st' \<and> hasPort ?st' \<and> hasConfigFile ?st' \<and> hasRequiredOptions ?st' \<and>
      hasCompleteMultiplexingOptions ?st'"
    unfolding final_checks_keys [OF n'] k using t by (simp add: tokens_ok_def)
  ultimately show "validateSshArgs sshArgs authorizedHosts"
    unfolding validateSshArgs_def scan using h auth by simp
qed

lemma concat_token_args_sanitize:
  assumes "list_all token_ok ts"
  shows "sanitizeSshArgs (concat (map token_args ts) @ ''--'' # rest) =
    concat (map token_args (filter (\<lambda>t. token_key t \<notin> set multiplexingOptions) ts)) @
    sanitizeSshArgs (''--'' # rest)"
  using assms
proof (induction ts)
  case (Cons t ts)
  have skip: "sanitizeSshArgs (b # concat (map token_args ts) @ ''--'' # rest) =
      b # sanitizeSshArgs (concat (map token_args ts) @ ''--'' # rest)" if "b \<noteq> ''-o''" for b
    using that by (cases "concat (map token_args ts) @ ''--'' # rest") auto
  have flags: "''-i'' \<notin> set multiplexingOptions" "''-p'' \<notin> set multiplexingOptions"
    "''-F'' \<notin> set multiplexingOptions"
    by (simp_all add: multiplexingOptions_def)
  show ?case
  proof (cases t)
    case (Identity f)
    with Cons.prems have "f \<noteq> ''-o''" by (auto simp: is_identity_path_def is_prefixed_token_def)
    with Identity Cons skip flags show ?thesis by simp
  next
    case (Port p)
    with Cons.prems have "p \<noteq> ''-o''" by (auto simp: is_port_def is_number_def is_digit_def)
    with Port Cons skip flags show ?thesis by simp
  next
    case Config
    with Cons skip flags show ?thesis by simp
  next
    case (Opt n v)
    with Cons.prems have "CHR ''='' \<notin> set n" by (auto dest: allowed_option_shape)
    moreover have "n @ CHR ''='' # v \<noteq> ''-o''"
    proof
      assume "n @ CHR ''='' # v = ''-o''"
      then have "CHR ''='' \<in> set ''-o''" by (metis in_set_conv_decomp)
      then show False by simp
    qed
    ultimately show ?thesis using Opt Cons skip by simp
  qed
qed simp

lemma sanitize_render:
  assumes "list_all token_ok ts"
  shows "sanitizeSshArgs (render_ssh ts dest) =
    render_ssh (filter (\<lambda>t. token_key t \<notin> set multiplexingOptions) ts) dest"
  using concat_token_args_sanitize [OF assms, of "[dest]"] by (simp add: render_ssh_def)

lemma tokens_ok_filter:
  assumes "tokens_ok ts"
  shows "tokens_ok (filter (\<lambda>t. token_key t \<notin> set multiplexingOptions) ts)"
proof -
  have "({''-i'', ''-p'', ''-F''} \<union> set REQUIRED_SSH_OPTIONS) \<inter> set multiplexingOptions = {}"
    by (simp add: REQUIRED_SSH_OPTIONS_def multiplexingOptions_def)
  with assms show ?thesis
    by (fastforce simp: tokens_ok_def list_all_iff distinct_map_filter)
qed

text \<open>Characters of the accepted arguments.\<close>

lemma not_space_classes:
  "is_token_char c \<Longrightarrow> \<not> has_control [c]" "is_digit c \<Longrightarrow> \<not> has_control [c]"
  by (auto simp: is_token_char_def is_alnum_def is_lower_az_def is_upper_az_def is_digit_def has_control_def)

lemma has_control_append [simp]: "has_control (a @ b) \<longleftrightarrow> has_control a \<or> has_control b"
  by (auto simp: has_control_def)

lemma has_control_list: "has_control a \<longleftrightarrow> (\<exists>c \<in> set a. has_control [c])"
  by (auto simp: has_control_def)

lemma has_control_Cons: "has_control (c # s) \<longleftrightarrow> has_control [c] \<or> has_control s"
  by (auto simp: has_control_def)

lemma prefixed_token_control:
  assumes "is_prefixed_token p s" and "\<not> has_control p"
  shows "\<not> has_control s"
proof -
  from assms(1) obtain r where "s = p @ r" "list_all is_token_char r"
    by (auto simp: is_prefixed_token_def is_token_def prefix_def)
  with assms(2) show ?thesis
    by (auto simp: has_control_list [of r] list_all_iff dest: not_space_classes)
qed

lemma number_control: "is_number s \<Longrightarrow> \<not> has_control s"
  by (auto simp: is_number_def list_all_iff has_control_list [of s] dest: not_space_classes)

lemma fixedOptions_control:
  "list_all (\<lambda>(n, v). \<not> has_control v) fixedOptions" "list_all (\<lambda>n. \<not> has_control n) ssh_option_names"
  by (simp_all add: fixedOptions_def ssh_option_names_def has_control_def)

lemma allowed_value_control:
  assumes "isAllowedSshOption n v"
  shows "\<not> has_control v"
proof (cases "map_of fixedOptions n")
  case (Some w)
  with assms have "v = w" by (simp add: isAllowedSshOption_def)
  with map_of_SomeD [OF Some] fixedOptions_control(1) show ?thesis by (auto simp: list_all_iff)
next
  case None
  with assms consider "v = ''yes''" | "v = ''no''" | "v = ''/dev/null''" | "is_number v"
    | p where "is_prefixed_token p v" "\<not> has_control p"
    by (auto simp: isAllowedSshOption_def has_control_def split: if_splits)
  then show ?thesis
    by cases (simp_all add: number_control prefixed_token_control, simp_all add: has_control_def)
qed

lemma token_args_control:
  assumes "token_ok t" and "a \<in> set (token_args t)"
  shows "\<not> has_control a"
proof (cases t)
  case (Identity f)
  have "\<not> has_control ''/var/www/html/storage/app/ssh/keys/ssh_key@''" by (simp add: has_control_def)
  with Identity assms have "\<not> has_control f"
    by (auto simp: is_identity_path_def dest: prefixed_token_control)
  with Identity assms show ?thesis by (auto simp: has_control_def [of "''-i''"])
next
  case (Port p)
  with assms show ?thesis by (auto simp: is_port_def number_control has_control_def [of "''-p''"])
next
  case Config
  with assms show ?thesis by (auto simp: has_control_def)
next
  case (Opt n v)
  then have "\<not> has_control n"
    using assms(1) fixedOptions_control(2) allowed_option_name by (auto simp: list_all_iff)
  with Opt assms show ?thesis
    by (auto simp: has_control_Cons [of _ v] allowed_value_control has_control_def [of "''-o''"]
        has_control_def [of "[_]"])
qed

lemma token_args_no_end:
  assumes "token_ok t"
  shows "''--'' \<notin> set (token_args t)"
proof (cases t)
  case (Identity f)
  with assms show ?thesis by (auto simp: is_identity_path_def is_prefixed_token_def)
next
  case (Port p)
  with assms show ?thesis by (auto simp: is_port_def is_number_def is_digit_def)
next
  case (Opt n v)
  then have "CHR ''='' \<in> set (n @ CHR ''='' # v)" "CHR ''='' \<notin> set ''--''" by simp_all
  then have "n @ CHR ''='' # v \<noteq> ''--''" by metis
  with Opt show ?thesis by simp
qed simp

lemma destination_user_at_host: "is_destination a \<Longrightarrow> is_user_at_host a"
  by (simp add: is_destination_def is_user_at_host_def Let_def)

lemma extractTargetHost_single:
  "extractTargetHost [a] = Some h \<Longrightarrow> is_user_at_host a \<and> normalizeHostForAuthorization (Some (host_part a)) = Some h"
  by (auto simp: extractTargetHost_def split: if_splits)

lemma isAuthorizedTargetHost_iff:
  "isAuthorizedTargetHost t hosts \<longleftrightarrow>
     (\<exists>n. normalizeHostForAuthorization t = Some n \<and> n \<noteq> [] \<and>
       (\<exists>host \<in> set hosts. normalizeHostForAuthorization (Some host) = Some n))"
  by (auto simp: isAuthorizedTargetHost_def split: option.splits) (metis imageI)

section \<open>Properties\<close>

text \<open>A vector that Coolify generates for a server with connection sharing.\<close>

definition sample_tokens :: "ssh_token list" where
  "sample_tokens =
     [Identity ''/var/www/html/storage/app/ssh/keys/ssh_key@k1'', Config,
      Opt ''ControlMaster'' ''auto'', Opt ''ControlPath'' ''/var/www/html/storage/app/ssh/mux/mux_k1'',
      Opt ''ControlPersist'' ''3600'',
      Opt ''StrictHostKeyChecking'' ''no'', Opt ''UserKnownHostsFile'' ''/dev/null'',
      Opt ''PasswordAuthentication'' ''no'', Opt ''IdentitiesOnly'' ''yes'',
      Opt ''ClearAllForwardings'' ''yes'', Opt ''ForwardAgent'' ''no'', Opt ''ConnectTimeout'' ''10'',
      Opt ''ServerAliveInterval'' ''20'', Opt ''RequestTTY'' ''yes'', Opt ''LogLevel'' ''ERROR'', Port ''22'']"

definition sample_args :: "jstring list" where
  "sample_args = render_ssh sample_tokens ''root@10.0.0.5''"

lemma sample_tokens_ok: "tokens_ok sample_tokens"
proof -
  have "list_all token_ok sample_tokens"
    by (simp add: sample_tokens_def is_identity_path_def isAllowedSshOption_def fixedOptions_def
        is_prefixed_token_def is_token_def is_token_char_def is_alnum_def is_lower_az_def is_upper_az_def
        is_digit_def is_number_def is_port_def digits_val_def digit_val_def)
  then show ?thesis
    by (simp add: tokens_ok_def sample_tokens_def REQUIRED_SSH_OPTIONS_def multiplexingOptions_def)
qed

lemma sample_accepted: "validateSshArgs sample_args [''10.0.0.4'', ''10.0.0.5'']"
proof -
  have "destination_ok ''root@10.0.0.5'' [''10.0.0.4'', ''10.0.0.5'']" by code_simp
  with sample_tokens_ok show ?thesis
    unfolding validate_iff_policy ssh_policy_def sample_args_def by blast
qed


text \<open>C2: An accepted vector confines \<open>ssh\<close> to one authorized host: it ends in \<open>--\<close> and a
  single \<open>user@host\<close>, no other argument ends the options, and the host is, up to the source's
  normalization, an entry of the list of authorized hosts.\<close>

theorem validateSshArgs_confines_host:
  assumes "validateSshArgs sshArgs authorizedHosts"
  shows "\<exists>front dest. sshArgs = front @ [''--'', dest] \<and> ''--'' \<notin> set front \<and> is_user_at_host dest \<and>
    (\<exists>host \<in> set authorizedHosts.
       normalizeHostForAuthorization (Some host) =
       normalizeHostForAuthorization (normalizeHostForAuthorization (Some (host_part dest))))"
proof -
  from assms obtain ts dest where a: "sshArgs = concat (map token_args ts) @ [''--'', dest]"
    and t: "tokens_ok ts" and d: "destination_ok dest authorizedHosts"
    by (auto simp: validate_iff_policy ssh_policy_def render_ssh_def)
  from t have "''--'' \<notin> set (concat (map token_args ts))"
    by (auto simp: tokens_ok_def list_all_iff dest: token_args_no_end)
  moreover from d obtain h where h: "extractTargetHost [dest] = Some h"
    by (auto simp: destination_ok_def is_plain_host_def split: option.splits)
  moreover have "isAuthorizedTargetHost (Some h) authorizedHosts" using d h by (simp add: destination_ok_def)
  ultimately show ?thesis using a extractTargetHost_single [OF h]
    by (auto simp: isAuthorizedTargetHost_iff)
qed

theorem validateSshArgs_confines_host_witness:
  "\<exists>front dest. sample_args = front @ [''--'', dest] \<and> ''--'' \<notin> set front \<and> is_user_at_host dest \<and>
    (\<exists>host \<in> set [''10.0.0.4'', ''10.0.0.5''].
       normalizeHostForAuthorization (Some host) =
       normalizeHostForAuthorization (normalizeHostForAuthorization (Some (host_part dest))))"
proof -
  show ?thesis using sample_accepted by (rule validateSshArgs_confines_host)
qed

text \<open>No argument of an accepted vector has a NUL, a carriage return or a line feed, the
  option values and file names that the loop does not test itself included.\<close>

theorem validateSshArgs_no_control:
  assumes "validateSshArgs sshArgs authorizedHosts" and "a \<in> set sshArgs"
  shows "\<not> has_control a"
proof -
  from assms(1) obtain ts dest where v: "sshArgs = concat (map token_args ts) @ [''--'', dest]"
    and t: "tokens_ok ts" and d: "destination_ok dest authorizedHosts"
    by (auto simp: validate_iff_policy ssh_policy_def render_ssh_def)
  from assms(2) v consider t where "t \<in> set ts" "a \<in> set (token_args t)" | "a = ''--''" | "a = dest"
    by auto
  then show ?thesis
  proof cases
    case 1
    from t \<open>t \<in> set ts\<close> have "token_ok t" by (simp add: tokens_ok_def list_all_iff)
    then show ?thesis using \<open>a \<in> set (token_args t)\<close> by (rule token_args_control)
  qed (use d in \<open>simp_all add: destination_ok_def has_control_def\<close>)
qed

theorem validateSshArgs_no_control_witness: "\<not> has_control ''root@10.0.0.5''"
proof (rule validateSshArgs_no_control)
  show "validateSshArgs sample_args [''10.0.0.4'', ''10.0.0.5'']" by (rule sample_accepted)
  show "''root@10.0.0.5'' \<in> set sample_args" by (simp add: sample_args_def render_ssh_def)
qed

text \<open>C12: On an accepted vector \<open>sanitizeSshArgs\<close> removes exactly the multiplexing options: every
  other token and the destination keep their place, and the result is accepted again.\<close>

theorem sanitizeSshArgs_of_accepted:
  assumes "validateSshArgs sshArgs authorizedHosts"
  shows "validateSshArgs (sanitizeSshArgs sshArgs) authorizedHosts \<and>
    (\<exists>ts dest. sshArgs = render_ssh ts dest \<and> tokens_ok ts \<and>
       sanitizeSshArgs sshArgs = render_ssh (filter (\<lambda>t. token_key t \<notin> set multiplexingOptions) ts) dest)"
proof -
  from assms obtain ts dest where a: "sshArgs = render_ssh ts dest"
    and t: "tokens_ok ts" and d: "destination_ok dest authorizedHosts"
    by (auto simp: validate_iff_policy ssh_policy_def)
  then have "sanitizeSshArgs sshArgs = render_ssh (filter (\<lambda>t. token_key t \<notin> set multiplexingOptions) ts) dest"
    by (simp add: sanitize_render tokens_ok_def)
  with a t d tokens_ok_filter [OF t] show ?thesis
    by (auto simp: validate_iff_policy ssh_policy_def)
qed

theorem sanitizeSshArgs_of_accepted_witness:
  "validateSshArgs (sanitizeSshArgs sample_args) [''10.0.0.4'', ''10.0.0.5''] \<and>
    (\<exists>ts dest. sample_args = render_ssh ts dest \<and> tokens_ok ts \<and>
       sanitizeSshArgs sample_args = render_ssh (filter (\<lambda>t. token_key t \<notin> set multiplexingOptions) ts) dest) \<and>
   length sample_args = 34 \<and> length (sanitizeSshArgs sample_args) = 28"
proof -
  note r = sanitizeSshArgs_of_accepted [OF sample_accepted]
  have "length sample_args = 34" and "length (sanitizeSshArgs sample_args) = 28"
    by (simp_all add: sample_args_def sample_tokens_def render_ssh_def multiplexingOptions_def)
  with r show ?thesis by blast
qed

end
