(* ===== verification/Terminal_Session.thy ===== *)
theory Terminal_Session
  imports Terminal_Auth Ssh_Policy
begin

text \<open>
  One terminal WebSocket connection of \<open>docker/coolify-terminal/terminal-server.js\<close>, with
  \<open>detachPtyProcess\<close> of \<open>terminal-utils.js\<close>: its session object, the entry of \<open>userSessions\<close>, the
  PTYs it started, and the asynchronous work that is under way. Every handler is a function from
  connection state to connection state; \<open>conn_out\<close> logs what it sends to the browser, to the PTYs
  and to Coolify. Code after an \<open>await\<close> is the continuation stored with the pending timer, request
  or exit listener (see \<open>task\<close>, \<open>redeeming\<close>, \<open>w_checking\<close>); as in the JavaScript event loop,
  it runs in the step that settles the promise. User ids are unique, so connections share no state.
  Assumed of the packages: a PTY exits once, writing to a PTY does not throw, \<open>ws.send\<close> does nothing
  unless the socket is open. Logging (\<open>logTerminal\<close>) has no effect on the state.
\<close>

section \<open>State\<close>

datatype end_reason = Replaced | Disconnected | MaxDuration | Idle | SessionRevoked | Exited | RejectedStart

datatype ready_state = Open | Closing | Closed

datatype effect =
    WsSend jstring
  | WsBinary jstring
  | WsClose int jstring
  | WsPing
  | WsTerminate
  | PtySpawn nat "jstring list"
  | PtyWrite nat jstring
  | PtyResize nat int int
  | PtyPause nat
  | PtyResume nat
  | PtyKill nat
  | PostSession jstring
  | PostCheck jstring
  | ReportEnd nat jstring end_reason

text \<open>The handle \<open>terminalSessionTimer\<close> of the maximum-duration timer of a PTY.\<close>

datatype session_timer = Armed nat | Fired nat

text \<open>Who awaits the result of \<open>killPtyProcess\<close>: \<open>handleCommand\<close> for a redeemed token and its
  command, \<open>handleClose\<close>, or code that does nothing more.\<close>

datatype awaiter = AwaitCommand nat jstring | AwaitClose | AwaitNothing

text \<open>Pending timers: the kill loop with \<open>killAttempts\<close>, and the detach loop of a PTY with
  \<open>attempts\<close> and whether the local client was already killed.\<close>

datatype task =
    KillLoop nat awaiter
  | DetachLoop nat nat bool awaiter

text \<open>A started PTY and its session watch (\<open>watchTerminalSession\<close>).\<close>

record pty =
  p_alive :: bool
  p_token :: nat
  w_live :: bool
  w_failed :: nat
  w_checking :: bool

text \<open>A redeemed token: the closure variables \<open>terminalSessionId\<close> and \<open>endReported\<close>.\<close>

record redemption =
  r_session :: "jstring option"
  r_reported :: bool

type_synonym entries = "(jstring \<times> json) list"

record conn =
  ws_state :: ready_state
  ws_alive :: bool
  in_sessions :: bool
  ips_pending :: bool
  ptyProcess :: "nat option"
  isActive :: bool
  authorizedIPs :: "jstring list"
  authReady :: bool
  pendingMessages :: "json option list"
  terminalSessionTimer :: "session_timer option"
  endReason :: "end_reason option"
  lastActivityAt :: nat
  isAttach :: bool
  ptys :: "pty list"
  tokens :: "redemption list"
  redeeming :: "nat list"
  tasks :: "task list"
  spawn_ok :: bool
  clock :: nat
  conn_out :: "effect list"

definition new_conn :: conn where
  "new_conn = \<lparr>ws_state = Open, ws_alive = True, in_sessions = False, ips_pending = False, ptyProcess = None,
     isActive = False, authorizedIPs = [], authReady = False, pendingMessages = [],
     terminalSessionTimer = None, endReason = None, lastActivityAt = 0, isAttach = False,
     ptys = [], tokens = [], redeeming = [], tasks = [], spawn_ok = True, clock = 0, conn_out = []\<rparr>"

section \<open>Effects\<close>

definition emit :: "effect list \<Rightarrow> conn \<Rightarrow> conn" where
  "emit es c = c\<lparr>conn_out := conn_out c @ es\<rparr>"

definition ws_send :: "effect \<Rightarrow> conn \<Rightarrow> conn" where
  "ws_send e c = (if ws_state c = Open then emit [e] c else c)"

definition ws_close :: "int \<Rightarrow> jstring \<Rightarrow> conn \<Rightarrow> conn" where
  "ws_close code reason c =
     (if ws_state c = Open then emit [WsClose code reason] (c\<lparr>ws_state := Closing\<rparr>) else c)"

definition clear_timer :: "conn \<Rightarrow> conn" where
  "clear_timer c = c\<lparr>terminalSessionTimer := None\<rparr>"

text \<open>\<open>reportEnd\<close> of \<open>handleTerminalToken\<close>, with \<open>reportTerminalSessionEnd\<close>.\<close>

definition reportEnd :: "nat \<Rightarrow> end_reason \<Rightarrow> conn \<Rightarrow> conn" where
  "reportEnd r reason c =
     (case r_session (tokens c ! r) of
        Some sid \<Rightarrow>
          if r_reported (tokens c ! r) then c
          else emit [ReportEnd r sid reason] (c\<lparr>tokens := (tokens c)[r := (tokens c ! r)\<lparr>r_reported := True\<rparr>]\<rparr>)
      | None \<Rightarrow> c)"

definition rejectTerminalToken :: "jstring \<Rightarrow> conn \<Rightarrow> conn" where
  "rejectTerminalToken message = ws_close TOKEN_REJECTED message"

section \<open>Starting a PTY\<close>

definition spawn_pty :: "nat \<Rightarrow> jstring list \<Rightarrow> jstring \<Rightarrow> conn \<Rightarrow> conn" where
  "spawn_pty r sshArgs hereDocContent c =
     (let p = length (ptys c);
          c1 = emit [PtySpawn p (sanitizeSshArgs sshArgs @ [hereDocContent])] c;
          c2 = c1\<lparr>ptyProcess := Some p, isActive := True, endReason := None, lastActivityAt := clock c1,
                 ptys := ptys c1 @ [\<lparr>p_alive = True, p_token = r, w_live = True, w_failed = 0, w_checking = False\<rparr>],
                 isAttach := isAttachCommand hereDocContent\<rparr>;
          c3 = ws_send (WsSend ''pty-ready'') c2
      in c3\<lparr>terminalSessionTimer := Some (Armed p)\<rparr>)"

text \<open>\<open>handleCommand\<close> after the previous PTY is gone, with the \<open>reportEnd('rejected')\<close> of its caller
  when it returns false, and the caller's \<open>catch\<close> when \<open>pty.spawn\<close> throws.\<close>

definition startCommand :: "nat \<Rightarrow> jstring \<Rightarrow> conn \<Rightarrow> conn" where
  "startCommand r command c0 =
     (let c = clear_timer c0;
          commandString = join_with '' '' (split_on CHR 0x0A command);
          sshArgs = extractSshArgs commandString;
          hereDocContent = extractHereDocContent commandString
      in case extractTargetHost sshArgs of
           None \<Rightarrow> reportEnd r RejectedStart (ws_send (WsSend ''Invalid SSH command: No target host found'') c)
         | Some host \<Rightarrow>
             if host = [] then
               reportEnd r RejectedStart (ws_send (WsSend ''Invalid SSH command: No target host found'') c)
             else if \<not> isAuthorizedTargetHost (Some host) (authorizedIPs c) then
               reportEnd r RejectedStart
                 (ws_send (WsSend (''Unauthorized: Target host '' @ host @ '' not in authorized list'')) c)
             else if \<not> validateSshArgs sshArgs (authorizedIPs c) then
               reportEnd r RejectedStart (ws_send (WsSend ''Invalid SSH command: Unsupported SSH arguments'') c)
             else if spawn_ok c then spawn_pty r sshArgs hereDocContent c
             else rejectTerminalToken ''Unauthorized: Terminal token was rejected'' (reportEnd r RejectedStart c))"

section \<open>Ending a PTY\<close>

text \<open>What the awaiting code does with the result of \<open>killPtyProcess\<close>.\<close>

fun resume_awaiter :: "awaiter \<Rightarrow> bool \<Rightarrow> conn \<Rightarrow> conn" where
  "resume_awaiter (AwaitCommand r command) result c =
     (if result then startCommand r command c
      else reportEnd r RejectedStart (ws_send (WsSend ''unprocessable'') c))"
| "resume_awaiter AwaitClose result c = c\<lparr>in_sessions := False\<rparr>"
| "resume_awaiter AwaitNothing result c = c"

definition detachPtyProcess :: "awaiter \<Rightarrow> conn \<Rightarrow> conn" where
  "detachPtyProcess w c =
     (case ptyProcess c of
        None \<Rightarrow> resume_awaiter w True c
      | Some p \<Rightarrow>
          if \<not> isActive c then resume_awaiter w True c
          else emit [PtyWrite p [CHR 0x10, CHR 0x11]] (c\<lparr>tasks := tasks c @ [DetachLoop p 1 False w]\<rparr>))"

text \<open>Ctrl-C, then the shell's kill command.\<close>

definition kill_writes :: "nat \<Rightarrow> effect list" where
  "kill_writes p =
     [PtyWrite p [CHR 0x03],
      PtyWrite p (''set +o history'' @ CHR 0x0A # ''kill -TERM -$$ && exit'' @ CHR 0x0A # ''set -o history'' @ [CHR 0x0A])]"

definition killPtyProcess :: "awaiter \<Rightarrow> conn \<Rightarrow> conn" where
  "killPtyProcess w c =
     (if \<not> in_sessions c then resume_awaiter w False c
      else case ptyProcess c of
        None \<Rightarrow> resume_awaiter w False c
      | Some p \<Rightarrow>
          if isAttach c then detachPtyProcess w c
          else emit (kill_writes p) (c\<lparr>tasks := tasks c @ [KillLoop 1 w]\<rparr>))"

definition drop_task :: "nat \<Rightarrow> conn \<Rightarrow> conn" where
  "drop_task i c = c\<lparr>tasks := take i (tasks c) @ drop (Suc i) (tasks c)\<rparr>"

text \<open>The 500 ms timer of the kill loop at index \<open>i\<close>.\<close>

definition kill_timer :: "nat \<Rightarrow> conn \<Rightarrow> conn" where
  "kill_timer i c =
     (case tasks c ! i of
        DetachLoop p n k w \<Rightarrow> c
      | KillLoop attempts w \<Rightarrow>
          (case ptyProcess c of
             None \<Rightarrow> resume_awaiter w True (clear_timer (drop_task i c))
           | Some p \<Rightarrow>
               if \<not> isActive c then resume_awaiter w True (clear_timer (drop_task i c))
               else if attempts < 5
               then emit (kill_writes p) (c\<lparr>tasks := (tasks c)[i := KillLoop (attempts + 1) w]\<rparr>)
               else resume_awaiter w False (emit [PtyKill p] (drop_task i c))))"

text \<open>The timers of the detach loop at index \<open>i\<close>: 500 ms between attempts, 1000 ms after the kill.\<close>

definition detach_timer :: "nat \<Rightarrow> conn \<Rightarrow> conn" where
  "detach_timer i c =
     (case tasks c ! i of
        KillLoop n w \<Rightarrow> c
      | DetachLoop p attempts killed w \<Rightarrow>
          if killed then resume_awaiter w False (drop_task i c)
          else if attempts < 3 then
            emit [PtyWrite p [CHR 0x10, CHR 0x11]]
              (c\<lparr>tasks := (tasks c)[i := DetachLoop p (attempts + 1) False w]\<rparr>)
          else emit [PtyKill p] (c\<lparr>tasks := (tasks c)[i := DetachLoop p attempts True w]\<rparr>))"

definition markDisconnected :: "conn \<Rightarrow> conn" where
  "markDisconnected c =
     (if in_sessions c \<and> isActive c then c\<lparr>endReason := Some Disconnected\<rparr> else c)"

definition endTerminalSession :: "nat \<Rightarrow> end_reason \<Rightarrow> jstring \<Rightarrow> conn \<Rightarrow> conn" where
  "endTerminalSession p reason notice c =
     (if \<not> isActive c \<or> ptyProcess c \<noteq> Some p then c
      else killPtyProcess AwaitNothing
             (ws_send (WsSend (''Terminal session ended: '' @ notice)) (c\<lparr>endReason := Some reason\<rparr>)))"

section \<open>Events of a PTY\<close>

definition pty_data :: "nat \<Rightarrow> jstring \<Rightarrow> conn \<Rightarrow> conn" where
  "pty_data p d c =
     (if ptyProcess c \<noteq> Some p then c
      else ws_send (WsBinary d) (c\<lparr>lastActivityAt := clock c\<rparr>))"

text \<open>The \<open>onExit\<close> listener that \<open>handleCommand\<close> registers, \dots\<close>

definition exit_listener :: "nat \<Rightarrow> conn \<Rightarrow> conn" where
  "exit_listener p c0 =
     (let c = c0\<lparr>ptys := (ptys c0)[p := (ptys c0 ! p)\<lparr>p_alive := False, w_live := False\<rparr>]\<rparr>;
          r = p_token (ptys c ! p)
      in if ptyProcess c \<noteq> Some p then reportEnd r Replaced c
         else
           (let c1 = reportEnd r (case endReason c of Some e \<Rightarrow> e | None \<Rightarrow> Exited) c;
                c2 = ws_send (WsSend ''pty-exited'') c1
            in clear_timer (c2\<lparr>isActive := False\<rparr>)))"

text \<open>\dots and those of the detach loops of this PTY (\<open>finish(true)\<close>), whose awaiting code runs after
  all listeners.\<close>

definition detaches :: "nat \<Rightarrow> task \<Rightarrow> bool" where
  "detaches p t = (case t of DetachLoop q _ _ _ \<Rightarrow> q = p | KillLoop _ _ \<Rightarrow> False)"

definition task_awaiter :: "task \<Rightarrow> awaiter" where
  "task_awaiter t = (case t of DetachLoop _ _ _ w \<Rightarrow> w | KillLoop _ w \<Rightarrow> w)"

definition detach_finish :: "nat \<Rightarrow> conn \<Rightarrow> conn" where
  "detach_finish p c =
     (if ptyProcess c = Some p
      then clear_timer (c\<lparr>isActive := False, ptyProcess := None\<rparr>) else c)"

definition pty_exit :: "nat \<Rightarrow> conn \<Rightarrow> conn" where
  "pty_exit p c =
     (let c1 = exit_listener p c;
          loops = filter (detaches p) (tasks c1);
          c2 = (if loops = [] then c1
                else detach_finish p (c1\<lparr>tasks := filter (\<lambda>t. \<not> detaches p t) (tasks c1)\<rparr>))
      in fold (\<lambda>t. resume_awaiter (task_awaiter t) True) loops c2)"

section \<open>Session watch and maximum duration\<close>

definition max_duration_timer :: "nat \<Rightarrow> conn \<Rightarrow> conn" where
  "max_duration_timer p c =
     endTerminalSession p MaxDuration ''it reached the maximum duration of 8 hours.''
       (c\<lparr>terminalSessionTimer := Some (Fired p)\<rparr>)"

definition watch_tick :: "nat \<Rightarrow> conn \<Rightarrow> conn" where
  "watch_tick p c =
     (if ptyProcess c \<noteq> Some p then c
      else if TERMINAL_IDLE_TIMEOUT_SECONDS > 0 \<and>
              clock c - lastActivityAt c \<ge> TERMINAL_IDLE_TIMEOUT_SECONDS * 1000
      then endTerminalSession p Idle ''no input or output for 0 minutes.'' c
      else if w_checking (ptys c ! p) then c
      else emit [PostCheck (case r_session (tokens c ! p_token (ptys c ! p)) of Some s \<Rightarrow> s | None \<Rightarrow> [])]
             (c\<lparr>ptys := (ptys c)[p := (ptys c ! p)\<lparr>w_checking := True\<rparr>]\<rparr>))"

text \<open>The answer to a session check; a failed request is \<open>None\<close>.\<close>

definition check_answer :: "nat \<Rightarrow> response option \<Rightarrow> conn \<Rightarrow> conn" where
  "check_answer p resp c0 =
     (let c = c0\<lparr>ptys := (ptys c0)[p := (ptys c0 ! p)\<lparr>w_checking := False\<rparr>]\<rparr>
      in case terminalSessionCheckResult resp of
           Active \<Rightarrow> c\<lparr>ptys := (ptys c)[p := (ptys c ! p)\<lparr>w_failed := 0\<rparr>]\<rparr>
         | Revoked \<Rightarrow> endTerminalSession p SessionRevoked ''access to this terminal was revoked.'' c
         | Failed \<Rightarrow>
             (let failedChecks = w_failed (ptys c ! p) + 1;
                  c1 = c\<lparr>ptys := (ptys c)[p := (ptys c ! p)\<lparr>w_failed := failedChecks\<rparr>]\<rparr>
              in if failedChecks \<ge> TERMINAL_SESSION_CHECK_MAX_FAILURES
                 then endTerminalSession p SessionRevoked ''Coolify could not verify access to this terminal.'' c1
                 else c1))"

section \<open>Messages of the browser\<close>

text \<open>\<open>/^[a-zA-Z0-9]{64}$/\<close>\<close>

definition is_terminal_token :: "jstring \<Rightarrow> bool" where
  "is_terminal_token t \<longleftrightarrow> length t = 64 \<and> list_all is_alnum t"

text \<open>\<open>handleTerminalToken\<close> up to its request, \dots\<close>

definition handleTerminalToken :: "json \<Rightarrow> conn \<Rightarrow> conn" where
  "handleTerminalToken token c =
     (case token of
        JStr t \<Rightarrow>
          if is_terminal_token t
          then emit [PostSession t]
                 (c\<lparr>tokens := tokens c @ [\<lparr>r_session = None, r_reported = False\<rparr>],
                    redeeming := redeeming c @ [length (tokens c)]\<rparr>)
          else rejectTerminalToken ''Unauthorized: Invalid terminal token'' c
      | _ \<Rightarrow> rejectTerminalToken ''Unauthorized: Invalid terminal token'' c)"

text \<open>\dots \<open>handleCommand\<close> up to its first \<open>await\<close> (a deregistered session is \<open>undefined\<close>, whose
  \<open>terminalSessionTimer\<close> throws), \dots\<close>

definition handleCommand :: "nat \<Rightarrow> jstring \<Rightarrow> conn \<Rightarrow> conn" where
  "handleCommand r command c =
     (if in_sessions c \<and> isActive c
      then killPtyProcess (AwaitCommand r command) (c\<lparr>endReason := Some Replaced\<rparr>)
      else if \<not> in_sessions c
      then rejectTerminalToken ''Unauthorized: Terminal token was rejected'' (reportEnd r RejectedStart c)
      else startCommand r command c)"

text \<open>\dots and the answer to the request.\<close>

definition token_answer :: "nat \<Rightarrow> post_result \<Rightarrow> conn \<Rightarrow> conn" where
  "token_answer r ans c0 =
     (let c = c0\<lparr>redeeming := removeAll r (redeeming c0)\<rparr>
      in case ans of
           PostError e \<Rightarrow>
             rejectTerminalToken ''Unauthorized: Terminal token was rejected'' (reportEnd r RejectedStart c)
         | Response resp \<Rightarrow>
             (let sid = json_get_string (data resp) ''session_id'';
                  c1 = c\<lparr>tokens := (tokens c)[r := (tokens c ! r)\<lparr>r_session := sid\<rparr>]\<rparr>
              in case json_get_string (data resp) ''command'' of
                   None \<Rightarrow> rejectTerminalToken ''Unauthorized: Terminal token was rejected'' c1
                 | Some command \<Rightarrow>
                     if status resp \<noteq> 200 \<or> sid = None
                     then rejectTerminalToken ''Unauthorized: Terminal token was rejected'' c1
                     else handleCommand r command c1))"

definition terminalDimension :: "json option \<Rightarrow> int \<Rightarrow> int" where
  "terminalDimension v fallback =
     (case Option.bind v json_int of
        Some n \<Rightarrow> if n > 0 \<and> n \<le> 1000 then n else fallback
      | None \<Rightarrow> fallback)"

definition js_bool_string :: "bool \<Rightarrow> jstring" where
  "js_bool_string b = (if b then ''true'' else ''false'')"

text \<open>One entry of a message: the gate of \<open>handleMessage\<close>, then the handler of \<open>messageHandlers\<close>.
  A missing PTY makes the handler throw, which \<open>runMessageHandler\<close> catches.\<close>

definition handle_entry :: "jstring \<times> json \<Rightarrow> conn \<Rightarrow> conn" where
  "handle_entry kv c =
     (let (key, val) = kv in
      if key = ''checkActive'' then
        (if val = JStr ''force'' \<and> isActive c
         then killPtyProcess AwaitNothing (c\<lparr>endReason := Some Replaced\<rparr>)
         else ws_send (WsSend (js_bool_string (isActive c))) c)
      else if key = ''terminalToken'' then handleTerminalToken val c
      else if key = ''ping'' then ws_send (WsSend ''pong'') c
      else if \<not> isActive c then c
      else case ptyProcess c of
             None \<Rightarrow> (if key = ''message'' \<and> json_string val \<noteq> None then c\<lparr>lastActivityAt := clock c\<rparr> else c)
           | Some p \<Rightarrow>
               if key = ''message'' then
                 (case json_string val of
                    None \<Rightarrow> c
                  | Some s \<Rightarrow> emit [PtyWrite p s] (c\<lparr>lastActivityAt := clock c\<rparr>))
               else if key = ''resize'' then
                 emit [PtyResize p (terminalDimension (json_get val ''cols'') 80)
                                   (terminalDimension (json_get val ''rows'') 30)] c
               else if key = ''pause'' then emit [PtyPause p] c
               else if key = ''resume'' then emit [PtyResume p] c
               else c)"

text \<open>The argument is the parsed message, \<open>None\<close> where \<open>JSON.parse\<close> throws.\<close>

definition handleMessage :: "json option \<Rightarrow> conn \<Rightarrow> conn" where
  "handleMessage m c =
     (case m of
        Some (JObj kvs) \<Rightarrow> fold handle_entry kvs c
      | _ \<Rightarrow> c)"

section \<open>The connection\<close>

definition ws_message :: "json option \<Rightarrow> conn \<Rightarrow> conn" where
  "ws_message m c =
     (if authReady c then handleMessage m c
      else c\<lparr>pendingMessages := pendingMessages c @ [m]\<rparr>)"

text \<open>The \<open>connection\<close> listener up to its request for the authorized hosts.\<close>

definition connect :: "auth_headers option \<Rightarrow> conn" where
  "connect authHeaders =
     (case authHeaders of
        None \<Rightarrow> ws_close AUTH_REJECTED ''Unauthorized: Missing required tokens'' new_conn
      | Some h \<Rightarrow> new_conn\<lparr>ips_pending := True\<rparr>)"

text \<open>\<open>response.data.ipAddresses || []\<close>: \<open>None\<close> where reading the property of \<open>null\<close> throws. Coolify
  answers a list of strings.\<close>

definition ip_addresses :: "json \<Rightarrow> jstring list option" where
  "ip_addresses d =
     (if d = JNull then None
      else case json_get d ''ipAddresses'' of
             Some (JArr xs) \<Rightarrow> Some (List.map_filter json_string xs)
           | _ \<Rightarrow> Some [])"

definition ips_answer :: "post_result \<Rightarrow> conn \<Rightarrow> conn" where
  "ips_answer ans c0 =
     (let c = c0\<lparr>ips_pending := False\<rparr>;
          failed = ws_close 1011 ''Failed to fetch terminal authorization data'' c
      in case ans of
           PostError e \<Rightarrow> failed
         | Response resp \<Rightarrow>
             if status resp \<noteq> 200 then failed
             else case ip_addresses (data resp) of
                    None \<Rightarrow> failed
                  | Some ips \<Rightarrow>
                      fold handleMessage (pendingMessages c)
                        (c\<lparr>authorizedIPs := ips, in_sessions := True, authReady := True, pendingMessages := []\<rparr>))"

definition handleError :: "conn \<Rightarrow> conn" where
  "handleError c = killPtyProcess AwaitNothing (markDisconnected c)"

definition handleClose :: "conn \<Rightarrow> conn" where
  "handleClose c = killPtyProcess AwaitClose (markDisconnected (c\<lparr>ws_state := Closed\<rparr>))"

section \<open>Heartbeat\<close>

definition pong :: "conn \<Rightarrow> conn" where
  "pong c = c\<lparr>ws_alive := True\<rparr>"

text \<open>One socket of the heartbeat interval. A terminated socket emits \<open>close\<close> later.\<close>

definition heartbeat_tick :: "conn \<Rightarrow> conn" where
  "heartbeat_tick c =
     (if \<not> ws_alive c then emit [WsTerminate] (c\<lparr>ws_state := Closing\<rparr>)
      else ws_send WsPing (c\<lparr>ws_alive := False\<rparr>))"

section \<open>Events\<close>

datatype event =
    Message "json option"
  | Close
  | Error
  | Pong
  | Heartbeat
  | IpsAnswer post_result
  | TokenAnswer nat post_result
  | KillTimer nat
  | DetachTimer nat
  | PtyExit nat
  | PtyData nat jstring
  | MaxDurationTimer nat
  | WatchTick nat
  | CheckAnswer nat "response option"
  | ClockTick
  | SpawnOk bool

text \<open>When the event loop can run the handler of an event.\<close>

fun enabled :: "event \<Rightarrow> conn \<Rightarrow> bool" where
  "enabled (Message m) c = (ws_state c \<noteq> Closed)"
| "enabled Close c = (ws_state c \<noteq> Closed)"
| "enabled Error c = (ws_state c \<noteq> Closed)"
| "enabled Pong c = (ws_state c \<noteq> Closed)"
| "enabled Heartbeat c = (ws_state c \<noteq> Closed)"
| "enabled (IpsAnswer ans) c = ips_pending c"
| "enabled (TokenAnswer r ans) c = (r \<in> set (redeeming c))"
| "enabled (KillTimer i) c =
     (i < length (tasks c) \<and> (case tasks c ! i of KillLoop _ _ \<Rightarrow> True | DetachLoop _ _ _ _ \<Rightarrow> False))"
| "enabled (DetachTimer i) c =
     (i < length (tasks c) \<and> (case tasks c ! i of KillLoop _ _ \<Rightarrow> False | DetachLoop _ _ _ _ \<Rightarrow> True))"
| "enabled (PtyExit p) c = (p < length (ptys c) \<and> p_alive (ptys c ! p))"
| "enabled (PtyData p d) c = (p < length (ptys c) \<and> p_alive (ptys c ! p))"
| "enabled (MaxDurationTimer p) c = (terminalSessionTimer c = Some (Armed p))"
| "enabled (WatchTick p) c = (p < length (ptys c) \<and> w_live (ptys c ! p))"
| "enabled (CheckAnswer p resp) c = (p < length (ptys c) \<and> w_checking (ptys c ! p))"
| "enabled ClockTick c = True"
| "enabled (SpawnOk b) c = True"

fun apply_event :: "event \<Rightarrow> conn \<Rightarrow> conn" where
  "apply_event (Message m) c = ws_message m c"
| "apply_event Close c = handleClose c"
| "apply_event Error c = handleError c"
| "apply_event Pong c = pong c"
| "apply_event Heartbeat c = heartbeat_tick c"
| "apply_event (IpsAnswer ans) c = ips_answer ans c"
| "apply_event (TokenAnswer r ans) c = token_answer r ans c"
| "apply_event (KillTimer i) c = kill_timer i c"
| "apply_event (DetachTimer i) c = detach_timer i c"
| "apply_event (PtyExit p) c = pty_exit p c"
| "apply_event (PtyData p d) c = pty_data p d c"
| "apply_event (MaxDurationTimer p) c = max_duration_timer p c"
| "apply_event (WatchTick p) c = watch_tick p c"
| "apply_event (CheckAnswer p resp) c = check_answer p resp c"
| "apply_event ClockTick c = c\<lparr>clock := clock c + 1\<rparr>"
| "apply_event (SpawnOk b) c = c\<lparr>spawn_ok := b\<rparr>"

text \<open>The states a connection can reach.\<close>

inductive reachable :: "conn \<Rightarrow> bool" where
  accept: "reachable (connect authHeaders)"
| step: "reachable c \<Longrightarrow> enabled e c \<Longrightarrow> reachable (apply_event e c)"

end
