(* ===== verification/Terminal_Invariants.thy ===== *)
theory Terminal_Invariants
  imports Terminal_Session "HOL-Library.Multiset"
begin

text \<open>
  Invariants of a terminal connection: well-formedness of its state, and an interface for further
  invariants. A property of the part of the state that ends up outside the process (the PTYs, the
  redeemed tokens, the spawns and reports sent) is invariant as soon as it is kept by the few
  primitives that touch that part; the locale \<open>conn_invariant\<close> carries this to every event once, and
  each invariant is an interpretation of it.
\<close>

named_theorems conn_frame "fields that the operations on a connection keep"

section \<open>The part of the state that invariants speak of\<close>

definition critical :: "effect \<Rightarrow> bool" where
  "critical e = (case e of PtySpawn _ _ \<Rightarrow> True | ReportEnd _ _ _ \<Rightarrow> True | _ \<Rightarrow> False)"

text \<open>The tokens that a suspended \<open>handleCommand\<close> holds.\<close>

fun awaited :: "awaiter \<Rightarrow> nat list" where
  "awaited (AwaitCommand r command) = [r]"
| "awaited AwaitClose = []"
| "awaited AwaitNothing = []"

definition pty_core :: "pty \<Rightarrow> bool \<times> nat" where
  "pty_core x = (p_alive x, p_token x)"

definition same_core :: "conn \<Rightarrow> conn \<Rightarrow> bool" where
  "same_core c c' \<longleftrightarrow>
     in_sessions c' = in_sessions c \<and> ips_pending c' = ips_pending c \<and> ptyProcess c' = ptyProcess c \<and>
     isActive c' = isActive c \<and> authorizedIPs c' = authorizedIPs c \<and> authReady c' = authReady c \<and>
     map pty_core (ptys c') = map pty_core (ptys c) \<and> tokens c' = tokens c \<and> redeeming c' = redeeming c \<and>
     map task_awaiter (tasks c') = map task_awaiter (tasks c) \<and>
     filter critical (conn_out c') = filter critical (conn_out c)"

definition live :: "conn \<Rightarrow> nat \<Rightarrow> bool" where
  "live c p \<longleftrightarrow> p < length (ptys c) \<and> p_alive (ptys c ! p)"

subsection \<open>Frames\<close>

lemma emit_frame [simp]:
  "ws_state (emit es c) = ws_state c" "in_sessions (emit es c) = in_sessions c"
  "ips_pending (emit es c) = ips_pending c" "ptyProcess (emit es c) = ptyProcess c"
  "isActive (emit es c) = isActive c" "authorizedIPs (emit es c) = authorizedIPs c"
  "authReady (emit es c) = authReady c" "isAttach (emit es c) = isAttach c"
  "ptys (emit es c) = ptys c" "tokens (emit es c) = tokens c" "redeeming (emit es c) = redeeming c"
  "tasks (emit es c) = tasks c" "endReason (emit es c) = endReason c"
  "conn_out (emit es c) = conn_out c @ es" "clock (emit es c) = clock c" "spawn_ok (emit es c) = spawn_ok c"
  "pendingMessages (emit es c) = pendingMessages c" "terminalSessionTimer (emit es c) = terminalSessionTimer c"
  by (simp_all add: emit_def)

lemma ws_send_frame [simp]:
  "ws_state (ws_send e c) = ws_state c" "in_sessions (ws_send e c) = in_sessions c"
  "ips_pending (ws_send e c) = ips_pending c" "ptyProcess (ws_send e c) = ptyProcess c"
  "isActive (ws_send e c) = isActive c" "authorizedIPs (ws_send e c) = authorizedIPs c"
  "authReady (ws_send e c) = authReady c" "isAttach (ws_send e c) = isAttach c"
  "ptys (ws_send e c) = ptys c" "tokens (ws_send e c) = tokens c" "redeeming (ws_send e c) = redeeming c"
  "tasks (ws_send e c) = tasks c" "endReason (ws_send e c) = endReason c" "clock (ws_send e c) = clock c"
  "spawn_ok (ws_send e c) = spawn_ok c" "pendingMessages (ws_send e c) = pendingMessages c"
  "terminalSessionTimer (ws_send e c) = terminalSessionTimer c"
  by (simp_all add: ws_send_def)

lemma ws_close_frame [simp]:
  "in_sessions (ws_close k m c) = in_sessions c"
  "ips_pending (ws_close k m c) = ips_pending c" "ptyProcess (ws_close k m c) = ptyProcess c"
  "isActive (ws_close k m c) = isActive c" "authorizedIPs (ws_close k m c) = authorizedIPs c"
  "authReady (ws_close k m c) = authReady c" "isAttach (ws_close k m c) = isAttach c"
  "ptys (ws_close k m c) = ptys c" "tokens (ws_close k m c) = tokens c" "redeeming (ws_close k m c) = redeeming c"
  "tasks (ws_close k m c) = tasks c" "endReason (ws_close k m c) = endReason c"
  "spawn_ok (ws_close k m c) = spawn_ok c" "pendingMessages (ws_close k m c) = pendingMessages c"
  by (simp_all add: ws_close_def)

lemma rejectTerminalToken_frame [simp]: "rejectTerminalToken m c = ws_close TOKEN_REJECTED m c"
  by (simp add: rejectTerminalToken_def)

lemma clear_timer_frame [simp]:
  "ws_state (clear_timer c) = ws_state c" "in_sessions (clear_timer c) = in_sessions c"
  "ips_pending (clear_timer c) = ips_pending c" "ptyProcess (clear_timer c) = ptyProcess c"
  "isActive (clear_timer c) = isActive c" "authorizedIPs (clear_timer c) = authorizedIPs c"
  "authReady (clear_timer c) = authReady c" "isAttach (clear_timer c) = isAttach c"
  "ptys (clear_timer c) = ptys c" "tokens (clear_timer c) = tokens c" "redeeming (clear_timer c) = redeeming c"
  "tasks (clear_timer c) = tasks c" "endReason (clear_timer c) = endReason c" "conn_out (clear_timer c) = conn_out c"
  "spawn_ok (clear_timer c) = spawn_ok c" "pendingMessages (clear_timer c) = pendingMessages c"
  "terminalSessionTimer (clear_timer c) = None"
  by (simp_all add: clear_timer_def)

lemma reportEnd_frame [simp]:
  "ws_state (reportEnd r x c) = ws_state c" "in_sessions (reportEnd r x c) = in_sessions c"
  "ips_pending (reportEnd r x c) = ips_pending c" "ptyProcess (reportEnd r x c) = ptyProcess c"
  "isActive (reportEnd r x c) = isActive c" "authorizedIPs (reportEnd r x c) = authorizedIPs c"
  "authReady (reportEnd r x c) = authReady c" "isAttach (reportEnd r x c) = isAttach c"
  "ptys (reportEnd r x c) = ptys c" "length (tokens (reportEnd r x c)) = length (tokens c)"
  "redeeming (reportEnd r x c) = redeeming c" "tasks (reportEnd r x c) = tasks c"
  "endReason (reportEnd r x c) = endReason c" "spawn_ok (reportEnd r x c) = spawn_ok c"
  "pendingMessages (reportEnd r x c) = pendingMessages c"
  by (simp_all add: reportEnd_def split: option.splits)

lemma critical_ws_send [simp]: "\<not> critical e \<Longrightarrow> filter critical (conn_out (ws_send e c)) = filter critical (conn_out c)"
  by (simp add: ws_send_def)

lemma critical_ws_close [simp]: "filter critical (conn_out (ws_close k m c)) = filter critical (conn_out c)"
  by (simp add: ws_close_def critical_def)

lemma critical_simps [simp]:
  "\<not> critical (WsSend s)" "\<not> critical (WsBinary s)" "\<not> critical (WsClose k m)" "\<not> critical WsPing"
  "\<not> critical WsTerminate" "\<not> critical (PtyWrite p s)" "\<not> critical (PtyResize p i j)" "\<not> critical (PtyPause p)"
  "\<not> critical (PtyResume p)" "\<not> critical (PtyKill p)" "\<not> critical (PostSession s)" "\<not> critical (PostCheck s)"
  "critical (PtySpawn p a)" "critical (ReportEnd r s x)"
  by (simp_all add: critical_def)

lemma critical_kill_writes [simp]: "filter critical (kill_writes p) = []"
  by (simp add: kill_writes_def)

lemma spawn_pty_frame [simp]:
  "in_sessions (spawn_pty r a h c) = in_sessions c" "ips_pending (spawn_pty r a h c) = ips_pending c"
  "authorizedIPs (spawn_pty r a h c) = authorizedIPs c" "authReady (spawn_pty r a h c) = authReady c"
  "tokens (spawn_pty r a h c) = tokens c" "redeeming (spawn_pty r a h c) = redeeming c"
  "tasks (spawn_pty r a h c) = tasks c" "ws_state (spawn_pty r a h c) = ws_state c"
  "ptyProcess (spawn_pty r a h c) = Some (length (ptys c))" "isActive (spawn_pty r a h c)"
  "ptys (spawn_pty r a h c) =
     ptys c @ [\<lparr>p_alive = True, p_token = r, w_live = True, w_failed = 0, w_checking = False\<rparr>]"
  by (simp_all add: spawn_pty_def Let_def)

text \<open>\<open>startCommand\<close> either rejects the command or spawns a PTY with accepted arguments.\<close>

lemma startCommand_dest:
  "(\<exists>x. startCommand r command c = reportEnd r RejectedStart (ws_send (WsSend x) (clear_timer c))) \<or>
   startCommand r command c =
     ws_close TOKEN_REJECTED ''Unauthorized: Terminal token was rejected'' (reportEnd r RejectedStart (clear_timer c)) \<or>
   (\<exists>a h. startCommand r command c = spawn_pty r a h (clear_timer c) \<and> validateSshArgs a (authorizedIPs c))"
  apply (unfold startCommand_def Let_def clear_timer_frame rejectTerminalToken_frame)
  apply (split option.split if_split)+
  apply blast
  done

lemma startCommand_cases:
  obtains (reject) x where "startCommand r command c = reportEnd r RejectedStart (ws_send (WsSend x) (clear_timer c))"
  | (throw) "startCommand r command c =
      ws_close TOKEN_REJECTED ''Unauthorized: Terminal token was rejected'' (reportEnd r RejectedStart (clear_timer c))"
  | (spawn) a h where "startCommand r command c = spawn_pty r a h (clear_timer c)"
      "validateSshArgs a (authorizedIPs c)"
  using startCommand_dest [of r command c] by blast

lemma same_core_refl [simp]: "same_core c c"
  by (simp add: same_core_def)

lemma same_core_ws_send [simp]: "\<not> critical e \<Longrightarrow> same_core c (ws_send e c)"
  by (simp add: same_core_def)

lemma same_core_ws_close [simp]: "same_core c (ws_close k m c)"
  by (simp add: same_core_def)

lemma same_core_clear_timer [simp]: "same_core c (clear_timer c)"
  by (simp add: same_core_def)

lemma same_core_trans: "same_core a b \<Longrightarrow> same_core b c \<Longrightarrow> same_core a c"
  by (simp add: same_core_def)

lemma resume_awaiter_authReady [simp]: "authReady (resume_awaiter w b c) = authReady c"
proof (cases w)
  case (AwaitCommand r command)
  then show ?thesis by (cases rule: startCommand_cases [of r command c]) (auto simp: spawn_pty_def Let_def)
qed simp_all

lemma kill_authReady [simp]: "authReady (killPtyProcess w c) = authReady c"
  by (simp add: killPtyProcess_def detachPtyProcess_def split: option.split)

lemma handle_entry_authReady [simp]: "authReady (handle_entry kv c) = authReady c"
  by (cases kv) (simp add: handle_entry_def handleTerminalToken_def split: option.split json.split)

section \<open>Invariants of a connection\<close>

text \<open>A predicate on the tokens that the running code holds and the connection, kept by the
  primitive changes of the core.\<close>

locale conn_invariant =
  fixes I :: "nat list \<Rightarrow> conn \<Rightarrow> bool"
  assumes init: "I [] (connect auth)"
    and quiet: "I rs c \<Longrightarrow> same_core c c' \<Longrightarrow> I rs c'"
    and ready: "I [] c \<Longrightarrow> ips_pending c \<Longrightarrow>
      I [] (c\<lparr>ips_pending := False, authorizedIPs := ips, in_sessions := True, authReady := True,
             pendingMessages := []\<rparr>)"
    and failed: "I [] c \<Longrightarrow> ips_pending c \<Longrightarrow> I [] (c\<lparr>ips_pending := False\<rparr>)"
    and redeem: "I rs c \<Longrightarrow> authReady c \<Longrightarrow>
      I rs (c\<lparr>tokens := tokens c @ [\<lparr>r_session = None, r_reported = False\<rparr>],
              redeeming := redeeming c @ [length (tokens c)]\<rparr>)"
    and unredeemed: "I rs c \<Longrightarrow> r \<in> set (redeeming c) \<Longrightarrow> r < length (tokens c) \<and> r_session (tokens c ! r) = None"
    and refuse: "I rs c \<Longrightarrow> r \<in> set (redeeming c) \<Longrightarrow>
      I rs (c\<lparr>redeeming := removeAll r (redeeming c),
              tokens := (tokens c)[r := (tokens c ! r)\<lparr>r_session := sid\<rparr>]\<rparr>)"
    and settle: "I rs c \<Longrightarrow> r \<in> set (redeeming c) \<Longrightarrow>
      I (r # rs) (c\<lparr>redeeming := removeAll r (redeeming c),
              tokens := (tokens c)[r := (tokens c ! r)\<lparr>r_session := Some s\<rparr>]\<rparr>)"
    and report: "I (r # rs) c \<Longrightarrow> I rs (reportEnd r x c)"
    and spawn: "I (r # rs) c \<Longrightarrow> validateSshArgs a (authorizedIPs c) \<Longrightarrow> I rs (spawn_pty r a h c)"
    and park: "I (awaited w @ rs) c \<Longrightarrow> task_awaiter t = w \<Longrightarrow> I rs (c\<lparr>tasks := tasks c @ [t]\<rparr>)"
    and unpark: "I rs c \<Longrightarrow> mset (map task_awaiter (tasks c)) = mset (map task_awaiter ts) + mset ws \<Longrightarrow>
      I (concat (map awaited ws) @ rs) (c\<lparr>tasks := ts\<rparr>)"
    and exit: "I rs c \<Longrightarrow> live c p \<Longrightarrow> I rs (exit_listener p c)"
    and deactivate: "I rs c \<Longrightarrow> I rs (detach_finish p c)"
    and deregister: "I rs c \<Longrightarrow> I rs (c\<lparr>in_sessions := False\<rparr>)"
begin

lemma quiet_send [intro]:
  assumes "I rs c"
  shows "I rs (ws_send (WsSend s) c)" "I rs (ws_send (WsBinary s) c)" "I rs (ws_send WsPing c)"
    "I rs (ws_close k m c)" "I rs (clear_timer c)"
  by (rule quiet [OF assms], simp)+

lemma quiet_emit: "I rs c \<Longrightarrow> filter critical es = [] \<Longrightarrow> I rs (emit es c)"
  by (erule quiet) (simp add: same_core_def)

lemma startCommand_keeps: "I (r # rs) c \<Longrightarrow> I rs (startCommand r command c)"
proof (cases rule: startCommand_cases [of r command c])
  case (spawn a h)
  then show "I (r # rs) c \<Longrightarrow> ?thesis"
    by (simp add: conn_invariant.spawn [OF conn_invariant_axioms] quiet_send)
qed (auto intro!: report)

lemma resume_keeps: "I (awaited w @ rs) c \<Longrightarrow> I rs (resume_awaiter w b c)"
  by (cases w) (auto intro!: startCommand_keeps report deregister quiet_send)

lemma detach_keeps: "I (awaited w @ rs) c \<Longrightarrow> I rs (detachPtyProcess w c)"
  unfolding detachPtyProcess_def
  by (auto intro!: resume_keeps quiet_emit park simp: task_awaiter_def split: option.split)

lemma kill_keeps: "I (awaited w @ rs) c \<Longrightarrow> I rs (killPtyProcess w c)"
  unfolding killPtyProcess_def
  by (auto intro!: resume_keeps detach_keeps quiet_emit park simp: task_awaiter_def split: option.split)

lemma mset_drop_nth: "i < length ts \<Longrightarrow> mset (take i ts @ drop (Suc i) ts) + {#ts ! i#} = mset ts"
  by (metis Cons_nth_drop_Suc add_mset_add_single append_take_drop_id mset.simps(2) mset_append union_mset_add_mset_right)

lemma drop_task_keeps:
  assumes "I rs c" and "i < length (tasks c)"
  shows "I (awaited (task_awaiter (tasks c ! i)) @ rs) (drop_task i c)"
proof -
  have "mset (map task_awaiter (tasks c)) =
      mset (map task_awaiter (take i (tasks c) @ drop (Suc i) (tasks c))) + mset [task_awaiter (tasks c ! i)]"
    using mset_drop_nth [of i "map task_awaiter (tasks c)"] assms(2)
    by (simp add: take_map drop_map)
  from unpark [OF assms(1) this] show ?thesis by (simp add: drop_task_def)
qed

lemma kill_timer_keeps: "I rs c \<Longrightarrow> enabled (KillTimer i) c \<Longrightarrow> I rs (kill_timer i c)"
  using drop_task_keeps [of rs c i]
  unfolding kill_timer_def
  by (auto intro!: resume_keeps quiet_send intro: quiet simp: same_core_def task_awaiter_def map_update
      list_update_same_conv split: task.splits option.splits)

lemma detach_timer_keeps: "I rs c \<Longrightarrow> enabled (DetachTimer i) c \<Longrightarrow> I rs (detach_timer i c)"
  using drop_task_keeps [of rs c i]
  unfolding detach_timer_def
  by (auto intro!: resume_keeps intro: quiet simp: same_core_def task_awaiter_def map_update
      list_update_same_conv split: task.splits option.splits)

lemma pty_exit_keeps:
  assumes "I rs c" and "live c p"
  shows "I rs (pty_exit p c)"
proof -
  let ?c1 = "exit_listener p c"
  let ?ls = "filter (detaches p) (tasks ?c1)"
  have c1: "I rs ?c1" using exit [OF assms] .
  have fold: "I (concat (map (\<lambda>t. awaited (task_awaiter t)) ts) @ rs) d \<Longrightarrow>
      I rs (fold (\<lambda>t. resume_awaiter (task_awaiter t) True) ts d)" for ts d
    by (induction ts arbitrary: d) (auto intro: resume_keeps)
  show ?thesis
  proof (cases "?ls = []")
    case True
    then show ?thesis using c1 by (simp add: pty_exit_def Let_def)
  next
    case False
    have "mset (map task_awaiter (tasks ?c1)) =
        mset (map task_awaiter (filter (\<lambda>t. \<not> detaches p t) (tasks ?c1))) + mset (map task_awaiter ?ls)"
      by (metis image_mset_union mset_filter mset_map multiset_partition add.commute)
    from unpark [OF c1 this] have "I (concat (map (\<lambda>t. awaited (task_awaiter t)) ?ls) @ rs)
        (?c1\<lparr>tasks := filter (\<lambda>t. \<not> detaches p t) (tasks ?c1)\<rparr>)"
      by (simp add: comp_def)
    from fold [OF deactivate [OF this]] False show ?thesis
      by (simp add: pty_exit_def Let_def)
  qed
qed

lemma markDisconnected_keeps: "I rs c \<Longrightarrow> I rs (markDisconnected c)"
  by (auto simp: markDisconnected_def same_core_def elim!: quiet)

lemma endTerminalSession_keeps:
  assumes "I rs c" shows "I rs (endTerminalSession p x n c)"
proof -
  have "I rs (c\<lparr>endReason := Some x\<rparr>)" by (rule quiet [OF assms]) (simp add: same_core_def)
  then show ?thesis using assms by (auto simp: endTerminalSession_def intro!: kill_keeps quiet_send)
qed

lemma watch_update_keeps:
  assumes "I rs c" "pty_core y = pty_core (ptys c ! p)"
  shows "I rs (c\<lparr>ptys := (ptys c)[p := y]\<rparr>)"
  by (rule quiet [OF assms(1)])
     (cases "p < length (ptys c)"; simp add: same_core_def map_update assms(2) list_update_same_conv list_update_beyond)

lemma watch_tick_keeps: "I rs c \<Longrightarrow> I rs (watch_tick p c)"
  unfolding watch_tick_def
  by (auto intro!: endTerminalSession_keeps quiet_emit watch_update_keeps simp: pty_core_def)

lemma check_answer_keeps: "I rs c \<Longrightarrow> I rs (check_answer p resp c)"
proof -
  assume "I rs c"
  then have c: "I rs (c\<lparr>ptys := (ptys c)[p := (ptys c ! p)\<lparr>w_checking := False\<rparr>]\<rparr>)" (is "I rs ?c")
    by (rule watch_update_keeps) (simp add: pty_core_def)
  have c1: "I rs (?c\<lparr>ptys := (ptys ?c)[p := (ptys ?c ! p)\<lparr>w_failed := n\<rparr>]\<rparr>)" for n
    by (rule watch_update_keeps [OF c]) (simp add: pty_core_def)
  show ?thesis unfolding check_answer_def Let_def
    using c c1 endTerminalSession_keeps [OF c] endTerminalSession_keeps [OF c1]
    by (simp only: split: check_result.split if_split) blast
qed

lemma max_duration_keeps: "I rs c \<Longrightarrow> I rs (max_duration_timer p c)"
  unfolding max_duration_timer_def
  by (rule endTerminalSession_keeps, erule quiet) (simp add: same_core_def)

lemma pty_data_keeps: "I rs c \<Longrightarrow> I rs (pty_data p d c)"
  unfolding pty_data_def by (auto intro!: quiet_send elim: quiet simp: same_core_def)

lemma handleCommand_keeps:
  assumes "I (r # rs) c" shows "I rs (handleCommand r command c)"
proof -
  have "I (r # rs) (c\<lparr>endReason := Some Replaced\<rparr>)" by (rule quiet [OF assms]) (simp add: same_core_def)
  then show ?thesis using assms unfolding handleCommand_def
    by (auto intro!: kill_keeps startCommand_keeps report quiet_send)
qed

lemma token_answer_keeps:
  assumes "I rs c" and "r \<in> set (redeeming c)"
  shows "I rs (token_answer r ans c)"
proof -
  let ?m = "''Unauthorized: Terminal token was rejected''"
  let ?c = "c\<lparr>redeeming := removeAll r (redeeming c)\<rparr>"
  have none: "r_session (tokens c ! r) = None" and r: "r < length (tokens c)" using unredeemed assms by blast+
  have refused: "I rs (?c\<lparr>tokens := (tokens ?c)[r := (tokens ?c ! r)\<lparr>r_session := sid\<rparr>]\<rparr>)" for sid
    using refuse [OF assms, of sid] by simp
  show ?thesis
  proof (cases ans)
    case (PostError e)
    have "(tokens c ! r)\<lparr>r_session := None\<rparr> = tokens c ! r" using none by simp
    then have "I rs ?c" using refused [of None] by (simp add: list_update_same_conv r)
    then show ?thesis
      using PostError none by (auto simp: token_answer_def reportEnd_def intro!: quiet_send)
  next
    case (Response resp)
    show ?thesis
    proof (cases "\<exists>s command. json_get_string (data resp) ''session_id'' = Some s \<and>
        json_get_string (data resp) ''command'' = Some command \<and> status resp = 200")
      case True
      then show ?thesis
        using Response settle [OF assms] by (auto simp: token_answer_def intro!: handleCommand_keeps)
    next
      case False
      then have "token_answer r ans c = ws_close TOKEN_REJECTED ?m
          (?c\<lparr>tokens := (tokens ?c)[r := (tokens ?c ! r)\<lparr>r_session := json_get_string (data resp) ''session_id''\<rparr>]\<rparr>)"
        using Response by (auto simp: token_answer_def Let_def split: option.split)
      then show ?thesis using refused by (auto intro!: quiet_send)
    qed
  qed
qed

lemma handleTerminalToken_keeps: "I rs c \<Longrightarrow> authReady c \<Longrightarrow> I rs (handleTerminalToken v c)"
  unfolding handleTerminalToken_def
  by (auto intro!: quiet_send quiet_emit redeem split: json.split)

lemma if_keeps: "(P \<Longrightarrow> I rs a) \<Longrightarrow> (\<not> P \<Longrightarrow> I rs b) \<Longrightarrow> I rs (if P then a else b)"
  by simp

lemma option_keeps:
  "(v = None \<Longrightarrow> I rs a) \<Longrightarrow> (\<And>x. v = Some x \<Longrightarrow> I rs (f x)) \<Longrightarrow>
   I rs (case v of None \<Rightarrow> a | Some x \<Rightarrow> f x)"
  by (cases v) simp_all

lemma handle_entry_keeps:
  assumes "I rs c" and "authReady c"
  shows "I rs (handle_entry kv c)"
proof -
  obtain key val where kv: "kv = (key, val)" by (cases kv)
  have upd: "I rs (c\<lparr>endReason := x\<rparr>)" "I rs (c\<lparr>lastActivityAt := n\<rparr>)" for x n
    by (rule quiet [OF assms(1)], simp add: same_core_def)+
  show ?thesis
    unfolding handle_entry_def kv Let_def prod.case
    by (intro if_keeps option_keeps kill_keeps quiet_send quiet_emit handleTerminalToken_keeps upd assms;
        simp add: assms upd)
qed

lemma handleMessage_keeps:
  assumes "I rs c" and "authReady c"
  shows "I rs (handleMessage m c)" and "authReady (handleMessage m c)"
proof -
  have "I rs (fold handle_entry kvs d) \<and> authReady (fold handle_entry kvs d)" if "I rs d" "authReady d" for kvs d
    using that by (induction kvs arbitrary: d) (simp_all only: fold_simps comp_apply id_apply handle_entry_keeps handle_entry_authReady simp_thms)
  then show "I rs (handleMessage m c)" "authReady (handleMessage m c)"
    using assms by (auto simp: handleMessage_def split: option.split json.split)
qed

lemma ips_answer_keeps:
  assumes "I [] c" and "ips_pending c"
  shows "I [] (ips_answer ans c)"
proof -
  have msgs: "I [] (fold handleMessage ms d)" if "I [] d" "authReady d" for ms d
    using that by (induction ms arbitrary: d) (auto intro: handleMessage_keeps)
  have "I [] (fold handleMessage (pendingMessages c) (c\<lparr>ips_pending := False, authorizedIPs := ips,
      in_sessions := True, authReady := True, pendingMessages := []\<rparr>))" for ips
    by (rule msgs [OF ready [OF assms]]) simp
  then show ?thesis
    using failed [OF assms] unfolding ips_answer_def Let_def
    by (auto intro!: quiet_send split: post_result.split option.split)
qed

lemma apply_event_keeps:
  assumes "I [] c" and "enabled e c"
  shows "I [] (apply_event e c)"
proof (cases e)
  case (Message m)
  have "I [] (c\<lparr>pendingMessages := ms\<rparr>)" for ms by (rule quiet [OF assms(1)]) (simp add: same_core_def)
  then show ?thesis using Message assms by (simp add: ws_message_def handleMessage_keeps)
next
  case Close
  have "I [] (c\<lparr>ws_state := Closed\<rparr>)" by (rule quiet [OF assms(1)]) (simp add: same_core_def)
  then show ?thesis using Close by (simp add: handleClose_def kill_keeps markDisconnected_keeps)
next
  case Error
  then show ?thesis using assms by (simp add: handleError_def kill_keeps markDisconnected_keeps)
next
  case Pong
  then show ?thesis using quiet [OF assms(1)] by (simp add: pong_def same_core_def)
next
  case Heartbeat
  have "I [] (c\<lparr>ws_alive := False\<rparr>)" "I [] (c\<lparr>ws_state := Closing\<rparr>)"
    by (rule quiet [OF assms(1)], simp add: same_core_def)+
  then show ?thesis using Heartbeat by (auto simp: heartbeat_tick_def intro!: quiet_send quiet_emit)
next
  case ClockTick
  then show ?thesis using quiet [OF assms(1)] by (simp add: same_core_def)
next
  case (SpawnOk b)
  then show ?thesis using quiet [OF assms(1)] by (simp add: same_core_def)
qed (use assms in \<open>auto intro: ips_answer_keeps token_answer_keeps kill_timer_keeps detach_timer_keeps
      pty_exit_keeps pty_data_keeps max_duration_keeps watch_tick_keeps check_answer_keeps simp: live_def\<close>)

lemma reachable_invariant: "reachable c \<Longrightarrow> I [] c"
  by (induction rule: reachable.induct) (rule init, rule apply_event_keeps)

end

section \<open>Well-formed connections\<close>

text \<open>The tokens held: by the running code, by a request, by a suspended command, by a PTY.\<close>

definition awaiting :: "conn \<Rightarrow> nat list" where
  "awaiting c = concat (map awaited (map task_awaiter (tasks c)))"

definition pty_tokens :: "conn \<Rightarrow> nat list" where
  "pty_tokens c = map snd (map pty_core (ptys c))"

definition holders :: "nat list \<Rightarrow> conn \<Rightarrow> nat \<Rightarrow> nat" where
  "holders rs c r = count_list rs r + count_list (redeeming c) r + count_list (awaiting c) r +
     count_list (pty_tokens c) r"

definition held :: "nat list \<Rightarrow> conn \<Rightarrow> nat set" where
  "held rs c = set rs \<union> set (awaiting c) \<union> set (pty_tokens c)"

definition pty_wf :: "conn \<Rightarrow> bool" where
  "pty_wf c \<longleftrightarrow> (isActive c \<longrightarrow> (\<exists>p. ptyProcess c = Some p \<and> live c p)) \<and>
     (\<forall>p. ptyProcess c = Some p \<longrightarrow> p < length (ptys c))"

definition auth_wf :: "conn \<Rightarrow> bool" where
  "auth_wf c \<longleftrightarrow> (in_sessions c \<longrightarrow> authReady c) \<and> (ips_pending c \<longrightarrow> \<not> authReady c) \<and>
     (\<not> authReady c \<longrightarrow> ptys c = [] \<and> tokens c = [] \<and> filter critical (conn_out c) = [])"

definition token_wf :: "nat list \<Rightarrow> conn \<Rightarrow> bool" where
  "token_wf rs c \<longleftrightarrow> (\<forall>r. holders rs c r \<le> (if r < length (tokens c) then 1 else 0)) \<and>
     (\<forall>r. (r \<in> set (redeeming c) \<longrightarrow> r_session (tokens c ! r) = None) \<and>
          (r \<in> held rs c \<longrightarrow> r_session (tokens c ! r) \<noteq> None))"

definition conn_wf :: "nat list \<Rightarrow> conn \<Rightarrow> bool" where
  "conn_wf rs c \<longleftrightarrow> pty_wf c \<and> auth_wf c \<and> token_wf rs c"

lemma same_core_views:
  assumes "same_core c c'"
  shows "live c' = live c" "awaiting c' = awaiting c" "pty_tokens c' = pty_tokens c" "holders rs c' = holders rs c"
    "length (ptys c') = length (ptys c)" "ptys c' = [] \<longleftrightarrow> ptys c = []" "held rs c' = held rs c"
proof -
  have *: "map pty_core (ptys c') = map pty_core (ptys c)" and **: "length (ptys c') = length (ptys c)"
    using assms unfolding same_core_def by (auto dest: map_eq_imp_length_eq)
  have "p_alive (ptys c' ! p) = p_alive (ptys c ! p)" if "p < length (ptys c)" for p
    using arg_cong [OF *, of "\<lambda>l. fst (l ! p)"] that ** by (simp add: pty_core_def)
  then show "live c' = live c" by (auto simp: live_def ** fun_eq_iff)
  show "awaiting c' = awaiting c" "pty_tokens c' = pty_tokens c" "holders rs c' = holders rs c"
    "length (ptys c') = length (ptys c)" "ptys c' = [] \<longleftrightarrow> ptys c = []" "held rs c' = held rs c"
    using assms * ** by (auto simp: same_core_def awaiting_def pty_tokens_def holders_def held_def fun_eq_iff)
qed

lemma conn_wf_quiet: "conn_wf rs c \<Longrightarrow> same_core c c' \<Longrightarrow> conn_wf rs c'"
  unfolding conn_wf_def pty_wf_def auth_wf_def token_wf_def
  by (simp only: same_core_views) (simp add: same_core_def)

lemma reportEnd_session [simp]: "r_session (tokens (reportEnd r x c) ! q) = r_session (tokens c ! q)"
  by (cases "q = r"; cases "r < length (tokens c)")
     (simp_all add: reportEnd_def list_update_beyond split: option.split)

lemma reportEnd_views [simp]:
  "live (reportEnd r x c) = live c" "awaiting (reportEnd r x c) = awaiting c"
  "pty_tokens (reportEnd r x c) = pty_tokens c"
  by (simp_all add: live_def awaiting_def pty_tokens_def fun_eq_iff)

lemma token_wf_holds:
  assumes "token_wf rs c" "r \<in> held rs c \<union> set (redeeming c)"
  shows "r < length (tokens c)" and "holders rs c r = 1"
proof -
  have "holders rs c r \<noteq> 0"
    using assms(2) unfolding holders_def held_def by (auto simp: count_list_0_iff)
  moreover have "holders rs c r \<le> (if r < length (tokens c) then 1 else 0)"
    using assms(1) by (simp add: token_wf_def)
  ultimately show "r < length (tokens c)" "holders rs c r = 1" by (auto split: if_splits)
qed

text \<open>A change that hands tokens on, without taking new ones.\<close>

lemma token_wf_pass:
  assumes "token_wf rs c" "\<And>r. holders rs' c' r \<le> holders rs c r" "length (tokens c') = length (tokens c)"
    "\<And>r. r_session (tokens c' ! r) = r_session (tokens c ! r)"
    "redeeming c' = redeeming c" "held rs' c' \<subseteq> held rs c"
  shows "token_wf rs' c'"
  using assms(1) unfolding token_wf_def assms(3,4,5)
  by (blast intro: order_trans [OF assms(2)] subsetD [OF assms(6)])

lemma conn_wf_ready: "conn_wf rs c \<Longrightarrow> r \<in> set rs \<Longrightarrow> authReady c"
  using token_wf_holds(1) [of rs c r] by (auto simp: conn_wf_def auth_wf_def held_def)

lemma conn_wf_report:
  assumes "conn_wf (r # rs) c" shows "conn_wf rs (reportEnd r x c)"
proof -
  have "token_wf rs (reportEnd r x c)"
    by (rule token_wf_pass [of "r # rs" c]) (use assms in \<open>auto simp: conn_wf_def holders_def held_def\<close>)
  moreover have "authReady c" by (rule conn_wf_ready [OF assms, of r]) simp
  ultimately show ?thesis using assms by (simp add: conn_wf_def pty_wf_def auth_wf_def)
qed

lemma conn_wf_park:
  assumes "conn_wf (awaited w @ rs) c" "task_awaiter t = w"
  shows "conn_wf rs (c\<lparr>tasks := tasks c @ [t]\<rparr>)"
proof -
  have "token_wf rs (c\<lparr>tasks := tasks c @ [t]\<rparr>)"
    by (rule token_wf_pass [of "awaited w @ rs" c])
       (use assms in \<open>auto simp: conn_wf_def holders_def held_def awaiting_def pty_tokens_def\<close>)
  then show ?thesis
    using assms by (simp add: conn_wf_def pty_wf_def auth_wf_def live_def)
qed

lemma count_awaited:
  assumes "mset us = mset ts + mset ws"
  shows "count_list (concat (map awaited us)) r =
    count_list (concat (map awaited ts)) r + count_list (concat (map awaited ws)) r"
proof -
  have "count_list (concat (map awaited xs)) r = (\<Sum>w\<in>#mset xs. count_list (awaited w) r)" for xs
    by (induction xs) simp_all
  then show ?thesis using assms by simp
qed

lemma conn_wf_unpark:
  assumes "conn_wf rs c" "mset (map task_awaiter (tasks c)) = mset (map task_awaiter ts) + mset ws"
  shows "conn_wf (concat (map awaited ws) @ rs) (c\<lparr>tasks := ts\<rparr>)" (is "conn_wf ?rs ?c")
proof -
  have sets: "set (map task_awaiter (tasks c)) = set (map task_awaiter ts) \<union> set ws"
    using arg_cong [OF assms(2), of set_mset] by simp
  have "set (awaiting c) = set (awaiting ?c) \<union> set (concat (map awaited ws))"
    using arg_cong [OF sets, of "\<lambda>S. \<Union>w\<in>S. set (awaited w)"] by (simp add: awaiting_def)
  then have "held ?rs ?c = held rs c" by (auto simp: held_def pty_tokens_def)
  moreover have "holders ?rs ?c r = holders rs c r" for r
    using count_awaited [OF assms(2), of r] by (simp add: holders_def awaiting_def pty_tokens_def)
  ultimately have "token_wf ?rs ?c"
    by (auto intro!: token_wf_pass [of rs c] assms(1) [unfolded conn_wf_def, THEN conjunct2, THEN conjunct2])
  then show ?thesis
    using assms(1) by (simp add: conn_wf_def pty_wf_def auth_wf_def live_def)
qed

lemma conn_wf_spawn:
  assumes "conn_wf (r # rs) c" shows "conn_wf rs (spawn_pty r a h c)"
proof -
  have "token_wf rs (spawn_pty r a h c)"
    by (rule token_wf_pass [of "r # rs" c])
       (use assms in \<open>auto simp: conn_wf_def holders_def held_def awaiting_def pty_tokens_def pty_core_def\<close>)
  moreover have "authReady c" by (rule conn_wf_ready [OF assms, of r]) simp
  ultimately show ?thesis using assms by (simp add: conn_wf_def pty_wf_def auth_wf_def live_def)
qed

lemma exit_listener_frame [simp]:
  "in_sessions (exit_listener p c) = in_sessions c" "ips_pending (exit_listener p c) = ips_pending c"
  "authorizedIPs (exit_listener p c) = authorizedIPs c" "authReady (exit_listener p c) = authReady c"
  "length (tokens (exit_listener p c)) = length (tokens c)" "redeeming (exit_listener p c) = redeeming c"
  "tasks (exit_listener p c) = tasks c" "ptyProcess (exit_listener p c) = ptyProcess c"
  "ptys (exit_listener p c) = (ptys c)[p := (ptys c ! p)\<lparr>p_alive := False, w_live := False\<rparr>]"
  "isActive (exit_listener p c) = (isActive c \<and> ptyProcess c \<noteq> Some p)"
  "r_session (tokens (exit_listener p c) ! q) = r_session (tokens c ! q)"
  by (simp_all add: exit_listener_def Let_def)

lemma conn_wf_exit:
  assumes "conn_wf rs c" "live c p" shows "conn_wf rs (exit_listener p c)"
proof -
  have "p < length (ptys c)" using assms(2) by (simp add: live_def)
  then have tokens: "pty_tokens (exit_listener p c) = pty_tokens c"
    by (simp add: pty_tokens_def map_update pty_core_def list_update_same_conv)
  have "token_wf rs (exit_listener p c)"
    by (rule token_wf_pass [of rs c])
       (use assms tokens in \<open>auto simp: conn_wf_def holders_def held_def awaiting_def\<close>)
  moreover have "authReady c" using assms by (auto simp: conn_wf_def auth_wf_def live_def)
  ultimately show ?thesis
    using assms by (auto simp: conn_wf_def pty_wf_def auth_wf_def live_def nth_list_update)
qed

lemma conn_wf_deactivate: "conn_wf rs c \<Longrightarrow> conn_wf rs (detach_finish p c)"
  by (auto simp: detach_finish_def conn_wf_def pty_wf_def auth_wf_def live_def token_wf_def holders_def
      held_def awaiting_def pty_tokens_def)

lemma conn_wf_deregister: "conn_wf rs c \<Longrightarrow> conn_wf rs (c\<lparr>in_sessions := False\<rparr>)"
  by (auto simp: conn_wf_def pty_wf_def auth_wf_def live_def token_wf_def holders_def
      held_def awaiting_def pty_tokens_def)

lemma conn_wf_redeem:
  assumes "conn_wf rs c" "authReady c"
  shows "conn_wf rs (c\<lparr>tokens := tokens c @ [\<lparr>r_session = None, r_reported = False\<rparr>],
      redeeming := redeeming c @ [length (tokens c)]\<rparr>)" (is "conn_wf rs ?c")
proof -
  let ?n = "length (tokens c)"
  have tw: "token_wf rs c" using assms(1) by (simp add: conn_wf_def)
  have held: "held rs ?c = held rs c" by (simp add: held_def awaiting_def pty_tokens_def)
  have old: "r < ?n" if "r \<in> held rs c \<union> set (redeeming c)" for r
    using token_wf_holds(1) [OF tw that] .
  have "holders rs ?c r \<le> (if r < length (tokens ?c) then 1 else 0)" for r
  proof -
    have "holders rs ?c r = holders rs c r + (if r = ?n then 1 else 0)"
      by (simp add: holders_def awaiting_def pty_tokens_def)
    moreover have "holders rs c r \<le> (if r < ?n then 1 else 0)" using tw by (simp add: token_wf_def)
    ultimately show ?thesis by (auto split: if_splits)
  qed
  moreover have "r_session (tokens ?c ! r) = (if r = ?n then None else r_session (tokens c ! r))" if "r \<le> ?n" for r
    using that by (simp add: nth_append)
  ultimately have "token_wf rs ?c"
    using tw old unfolding token_wf_def held by (auto simp: nth_append dest!: old)
  then show ?thesis using assms by (simp add: conn_wf_def pty_wf_def auth_wf_def live_def)
qed

text \<open>A request that is answered: its token is given up, or taken with its session.\<close>

lemma conn_wf_answer:
  assumes "conn_wf rs c" "r \<in> set (redeeming c)" and ws: "ws = rs \<or> ws = r # rs \<and> sid \<noteq> None"
  shows "conn_wf ws (c\<lparr>redeeming := removeAll r (redeeming c),
      tokens := (tokens c)[r := (tokens c ! r)\<lparr>r_session := sid\<rparr>]\<rparr>)" (is "conn_wf ws ?c")
proof -
  have tw: "token_wf rs c" using assms(1) by (simp add: conn_wf_def)
  have r: "r < length (tokens c)" and one: "holders rs c r = 1"
    using token_wf_holds [OF tw, of r] assms(2) by auto
  have free: "r \<notin> held rs c"
  proof -
    have "count_list (redeeming c) r \<noteq> 0" using assms(2) by (simp add: count_list_0_iff)
    then have "count_list rs r = 0" "count_list (awaiting c) r = 0" "count_list (pty_tokens c) r = 0"
      using one unfolding holders_def by linarith+
    then show ?thesis by (simp add: count_list_0_iff held_def)
  qed
  have count: "count_list (removeAll r xs) q = (if q = r then 0 else count_list xs q)" for q xs
    by (induction xs) auto
  have "holders ws ?c q \<le> holders rs c q" for q
    using ws one free by (auto simp: holders_def awaiting_def pty_tokens_def count held_def)
  then have "holders ws ?c q \<le> (if q < length (tokens ?c) then 1 else 0)" for q
    using order_trans [of "holders ws ?c q" "holders rs c q" "if q < length (tokens c) then 1 else 0"] tw
    by (simp add: token_wf_def)
  moreover have "held ws ?c \<subseteq> insert r (held rs c)"  "r \<in> held ws ?c \<Longrightarrow> sid \<noteq> None"
    using ws free by (auto simp: held_def awaiting_def pty_tokens_def)
  ultimately have "token_wf ws ?c"
    using tw r unfolding token_wf_def by (auto simp: nth_list_update)
  then show ?thesis
    using assms r by (auto simp: conn_wf_def pty_wf_def auth_wf_def live_def)
qed

lemma new_conn_wf: "conn_wf [] (connect auth)"
  by (simp add: connect_def ws_close_def new_conn_def conn_wf_def pty_wf_def auth_wf_def token_wf_def
      holders_def held_def awaiting_def pty_tokens_def emit_def live_def split: option.split)

lemma conn_wf_auth:
  assumes "conn_wf rs c" "ips_pending c"
  shows "conn_wf rs (c\<lparr>ips_pending := False, authorizedIPs := ips, in_sessions := True, authReady := True,
      pendingMessages := []\<rparr>)" (is "conn_wf rs ?c")
    and "conn_wf rs (c\<lparr>ips_pending := False\<rparr>)" (is "conn_wf rs ?d")
proof -
  have "token_wf rs ?c"
    by (rule token_wf_pass [of rs c])
       (use assms in \<open>simp_all add: conn_wf_def holders_def held_def awaiting_def pty_tokens_def\<close>)
  then show "conn_wf rs ?c"
    using assms by (auto simp: conn_wf_def pty_wf_def auth_wf_def live_def)
  have "token_wf rs ?d"
    by (rule token_wf_pass [of rs c])
       (use assms in \<open>simp_all add: conn_wf_def holders_def held_def awaiting_def pty_tokens_def\<close>)
  then show "conn_wf rs ?d"
    using assms by (auto simp: conn_wf_def pty_wf_def auth_wf_def live_def)
qed

lemma conn_wf_unredeemed:
  "conn_wf rs c \<Longrightarrow> r \<in> set (redeeming c) \<Longrightarrow> r < length (tokens c) \<and> r_session (tokens c ! r) = None"
  using token_wf_holds(1) [of rs c r] by (auto simp: conn_wf_def token_wf_def)

interpretation wf_inv: conn_invariant conn_wf
  by unfold_locales
     (auto intro: new_conn_wf conn_wf_quiet conn_wf_auth conn_wf_redeem conn_wf_answer conn_wf_report
       conn_wf_spawn conn_wf_park conn_wf_unpark conn_wf_exit conn_wf_deactivate conn_wf_deregister
       dest: conn_wf_unredeemed)

lemma reachable_wf: "reachable c \<Longrightarrow> conn_wf [] c"
  by (rule wf_inv.reachable_invariant)

section \<open>Every PTY runs an authorized command\<close>

definition spawn_ok_effect :: "jstring list \<Rightarrow> effect \<Rightarrow> bool" where
  "spawn_ok_effect ips e =
     (case e of
        PtySpawn p args \<Rightarrow> (\<exists>a h. args = sanitizeSshArgs a @ [h] \<and> validateSshArgs a ips)
      | _ \<Rightarrow> True)"

definition spawns_ok :: "conn \<Rightarrow> bool" where
  "spawns_ok c \<longleftrightarrow> list_all (spawn_ok_effect (authorizedIPs c)) (filter critical (conn_out c))"

lemma reportEnd_out:
  "conn_out (reportEnd r x c) = conn_out c \<or>
   (\<exists>s. r_session (tokens c ! r) = Some s \<and> \<not> r_reported (tokens c ! r) \<and>
        conn_out (reportEnd r x c) = conn_out c @ [ReportEnd r s x])"
  by (simp add: reportEnd_def split: option.split)

lemma spawns_ok_report: "spawns_ok c \<Longrightarrow> spawns_ok (reportEnd r x c)"
  using reportEnd_out [of r x c] by (auto simp: spawns_ok_def spawn_ok_effect_def)

lemma spawn_pty_out:
  "filter critical (conn_out (spawn_pty r a h c)) =
   filter critical (conn_out c) @ [PtySpawn (length (ptys c)) (sanitizeSshArgs a @ [h])]"
  by (simp add: spawn_pty_def Let_def)

lemma exit_listener_out:
  "\<exists>x. tokens (exit_listener p c) = tokens (reportEnd (p_token (ptys c ! p)) x c) \<and>
      filter critical (conn_out (exit_listener p c)) = filter critical (conn_out (reportEnd (p_token (ptys c ! p)) x c))"
  by (cases "p < length (ptys c)")
     (auto simp: exit_listener_def Let_def reportEnd_def list_update_beyond split: option.split)

lemma exit_listener_spawns: "spawns_ok c \<Longrightarrow> spawns_ok (exit_listener p c)"
  using exit_listener_out [of p c] spawns_ok_report [of c "p_token (ptys c ! p)"]
  by (auto simp: spawns_ok_def)

interpretation spawn_inv: conn_invariant "\<lambda>rs c. conn_wf rs c \<and> spawns_ok c"
proof (unfold_locales, goal_cases)
  case (1 auth)
  then show ?case using wf_inv.init
    by (auto simp: spawns_ok_def connect_def ws_close_def new_conn_def emit_def split: option.split)
next
  case (2 rs c c')
  then show ?case using wf_inv.quiet by (auto simp: spawns_ok_def same_core_def)
next
  case (3 c ips)
  then show ?case using wf_inv.ready [of c ips] by (auto simp: spawns_ok_def conn_wf_def auth_wf_def)
qed (auto simp: spawns_ok_report exit_listener_spawns intro: wf_inv.failed wf_inv.redeem wf_inv.refuse wf_inv.settle
      wf_inv.report wf_inv.spawn wf_inv.park wf_inv.unpark wf_inv.exit wf_inv.deactivate wf_inv.deregister
      dest: wf_inv.unredeemed, auto simp: spawns_ok_def spawn_pty_out detach_finish_def spawn_ok_effect_def)

section \<open>Every session end is reported once\<close>

definition is_report :: "nat \<Rightarrow> effect \<Rightarrow> bool" where
  "is_report r e = (case e of ReportEnd q s x \<Rightarrow> q = r | _ \<Rightarrow> False)"

definition reports :: "nat \<Rightarrow> conn \<Rightarrow> effect list" where
  "reports r c = filter (is_report r) (filter critical (conn_out c))"

definition reported :: "conn \<Rightarrow> nat \<Rightarrow> bool" where
  "reported c r \<longleftrightarrow> r < length (tokens c) \<and> r_reported (tokens c ! r)"

definition report_ok :: "conn \<Rightarrow> nat \<Rightarrow> bool" where
  "report_ok c r \<longleftrightarrow>
     (if reported c r then \<exists>s x. reports r c = [ReportEnd r s x] \<and> r_session (tokens c ! r) = Some s
      else reports r c = [])"

definition exits_reported :: "conn \<Rightarrow> bool" where
  "exits_reported c \<longleftrightarrow> list_all (\<lambda>(alive, r). alive \<or> reported c r) (map pty_core (ptys c))"

definition reports_ok :: "conn \<Rightarrow> bool" where
  "reports_ok c \<longleftrightarrow> (\<forall>r. report_ok c r) \<and> exits_reported c"

lemma reports_ok_change:
  assumes "reports_ok c" "filter critical (conn_out c') = filter critical (conn_out c)"
    "map pty_core (ptys c') = map pty_core (ptys c)" "reported c' = reported c"
    "\<And>r. reported c r \<Longrightarrow> r_session (tokens c' ! r) = r_session (tokens c ! r)"
  shows "reports_ok c'"
proof -
  have reps: "reports r c' = reports r c" for r by (simp only: reports_def assms(2))
  have ok: "report_ok c r" for r using assms(1) by (simp add: reports_ok_def)
  have "report_ok c' r" for r
    using ok [of r] by (cases "reported c r") (simp_all add: report_ok_def assms(4,5) reps)
  then show ?thesis using assms(1) by (simp only: reports_ok_def exits_reported_def assms(3,4)) simp
qed

lemma reported_reportEnd:
  "reported (reportEnd r x c) q \<longleftrightarrow>
     reported c q \<or> q = r \<and> r < length (tokens c) \<and> r_session (tokens c ! r) \<noteq> None"
  by (cases "r < length (tokens c)")
     (auto simp: reported_def reportEnd_def nth_list_update list_update_beyond split: option.split)

lemma reports_reportEnd:
  "reports q (reportEnd r x c) = reports q c @
    (case r_session (tokens c ! r) of
       Some s \<Rightarrow> if q = r \<and> \<not> r_reported (tokens c ! r) then [ReportEnd r s x] else []
     | None \<Rightarrow> [])"
  by (auto simp: reports_def reportEnd_def is_report_def split: option.split)

lemma report_ok_reportEnd:
  assumes "report_ok c q" "r < length (tokens c)" shows "report_ok (reportEnd r x c) q"
proof (cases "\<exists>s. r_session (tokens c ! r) = Some s \<and> \<not> r_reported (tokens c ! r)")
  case True
  then have "\<not> reported c r" by (simp add: reported_def)
  with True assms show ?thesis
    by (cases "q = r") (auto simp: report_ok_def reported_reportEnd reports_reportEnd)
next
  case False
  then have "reportEnd r x c = c" by (auto simp: reportEnd_def split: option.split)
  then show ?thesis using assms by simp
qed

lemma reports_ok_reportEnd:
  assumes "reports_ok c" "r < length (tokens c)" shows "reports_ok (reportEnd r x c)"
proof -
  have "exits_reported (reportEnd r x c)"
    using assms(1) by (auto simp: exits_reported_def reports_ok_def reported_reportEnd list_all_iff)
  then show ?thesis using assms by (simp add: reports_ok_def report_ok_reportEnd)
qed

lemma reports_ok_exit:
  assumes "reports_ok c" "conn_wf rs c" "live c p" shows "reports_ok (exit_listener p c)"
proof -
  let ?r = "p_token (ptys c ! p)"
  have p: "p < length (ptys c)" using assms(3) by (simp add: live_def)
  then have "?r \<in> held rs c" by (auto simp: held_def pty_tokens_def pty_core_def)
  then have r: "?r < length (tokens c)" "r_session (tokens c ! ?r) \<noteq> None"
    using assms(2) token_wf_holds(1) [of rs c ?r] by (auto simp: conn_wf_def token_wf_def)
  obtain x where t: "tokens (exit_listener p c) = tokens (reportEnd ?r x c)"
    and o: "filter critical (conn_out (exit_listener p c)) = filter critical (conn_out (reportEnd ?r x c))"
    using exit_listener_out by blast
  have rep: "reported (exit_listener p c) = reported (reportEnd ?r x c)"
    by (intro ext) (simp only: reported_def t)
  have "report_ok (exit_listener p c) q = report_ok (reportEnd ?r x c) q" for q
    by (simp only: report_ok_def reports_def rep t o)
  moreover have "exits_reported (exit_listener p c)"
    using assms(1) p r unfolding exits_reported_def rep reports_ok_def
    by (auto simp: reported_reportEnd list_all_length nth_list_update pty_core_def map_update)
  ultimately show ?thesis using assms(1) r(1) by (simp add: reports_ok_def report_ok_reportEnd)
qed

lemma reports_ok_spawn: "reports_ok c \<Longrightarrow> reports_ok (spawn_pty r a h c)"
proof -
  assume c: "reports_ok c"
  have reps: "reports q (spawn_pty r a h c) = reports q c" for q
    by (simp add: reports_def spawn_pty_out is_report_def del: filter_filter)
  have rep: "reported (spawn_pty r a h c) = reported c" by (intro ext) (simp add: reported_def)
  have "report_ok (spawn_pty r a h c) q = report_ok c q" for q by (simp add: report_ok_def reps rep)
  then show ?thesis using c by (simp add: reports_ok_def rep exits_reported_def pty_core_def)
qed

lemma reports_ok_frame [simp]:
  "reports_ok (c\<lparr>tasks := ts\<rparr>) = reports_ok c" "reports_ok (c\<lparr>in_sessions := b\<rparr>) = reports_ok c"
  "reports_ok (c\<lparr>ips_pending := b\<rparr>) = reports_ok c" "reports_ok (c\<lparr>authorizedIPs := ips\<rparr>) = reports_ok c"
  "reports_ok (c\<lparr>authReady := b\<rparr>) = reports_ok c" "reports_ok (c\<lparr>pendingMessages := ms\<rparr>) = reports_ok c"
  "reports_ok (c\<lparr>isActive := b\<rparr>) = reports_ok c" "reports_ok (c\<lparr>ptyProcess := q\<rparr>) = reports_ok c"
  "reports_ok (c\<lparr>terminalSessionTimer := t\<rparr>) = reports_ok c"
  by (simp_all add: reports_ok_def report_ok_def exits_reported_def reports_def reported_def)

lemma reports_ok_detach [simp]: "reports_ok (detach_finish p c) = reports_ok c"
  by (simp add: detach_finish_def clear_timer_def)

lemma reports_ok_redeem:
  assumes "reports_ok c"
  shows "reports_ok (c\<lparr>tokens := tokens c @ [\<lparr>r_session = None, r_reported = False\<rparr>], redeeming := m\<rparr>)"
    (is "reports_ok ?c")
  by (rule reports_ok_change [OF assms]) (auto simp: reported_def fun_eq_iff nth_append)

lemma reports_ok_answer:
  assumes "reports_ok c" "r < length (tokens c) \<and> r_session (tokens c ! r) = None"
  shows "reports_ok (c\<lparr>redeeming := m, tokens := (tokens c)[r := (tokens c ! r)\<lparr>r_session := sid\<rparr>]\<rparr>)"
proof (rule reports_ok_change [OF assms(1)])
  have "report_ok c r" using assms(1) by (simp add: reports_ok_def)
  then have "\<not> reported c r" using assms(2) by (auto simp: report_ok_def)
  then show "r_session (tokens (c\<lparr>redeeming := m, tokens := (tokens c)[r := (tokens c ! r)\<lparr>r_session := sid\<rparr>]\<rparr>) ! q) =
      r_session (tokens c ! q)" if "reported c q" for q
    using that by (cases "q = r") auto
qed (use assms in \<open>auto simp: reported_def fun_eq_iff nth_list_update\<close>)

interpretation report_inv: conn_invariant "\<lambda>rs c. conn_wf rs c \<and> reports_ok c"
proof (unfold_locales, goal_cases)
  case (1 auth)
  then show ?case using wf_inv.init
    by (auto simp: reports_ok_def report_ok_def reports_def reported_def exits_reported_def is_report_def
        connect_def ws_close_def new_conn_def emit_def split: option.split)
next
  case (2 rs c c')
  then show ?case using wf_inv.quiet reports_ok_change [of c c']
    by (auto simp: same_core_def reported_def fun_eq_iff)
next
  case (9 r rs c x)
  then have "r < length (tokens c)"
    using token_wf_holds(1) [of "r # rs" c r] by (auto simp: conn_wf_def held_def)
  then show ?case using 9 by (simp add: wf_inv.report reports_ok_reportEnd)
next
  case (13 rs c p)
  then show ?case by (blast intro: wf_inv.exit reports_ok_exit)
next
  case (6 rs c r)
  then show ?case by (blast dest: wf_inv.unredeemed)
next
  case (7 rs c r sid)
  then show ?case using reports_ok_answer [OF _ wf_inv.unredeemed] by (blast intro: wf_inv.refuse)
next
  case (8 rs c r s)
  then show ?case using reports_ok_answer [OF _ wf_inv.unredeemed] by (blast intro: wf_inv.settle)
next
  case (11 w rs c t)
  then show ?case by (simp add: wf_inv.park [of w])
qed (simp_all add: wf_inv.ready wf_inv.failed wf_inv.redeem wf_inv.spawn 
      wf_inv.unpark wf_inv.deactivate wf_inv.deregister reports_ok_spawn reports_ok_redeem)

section \<open>A sample run\<close>

fun enabled_run :: "event list \<Rightarrow> conn \<Rightarrow> bool" where
  "enabled_run [] c = True"
| "enabled_run (e # es) c = (enabled e c \<and> enabled_run es (apply_event e c))"

lemma reachable_run: "reachable c \<Longrightarrow> enabled_run es c \<Longrightarrow> reachable (fold apply_event es c)"
  by (induction es arbitrary: c) (auto intro: reachable.step)

definition sample_command :: jstring where
  "sample_command = print_command [] (map (\<lambda>a. [Quoted a]) sample_args) ''bash -se'' ''EOF''"

definition sample_hosts :: "jstring list" where
  "sample_hosts = [''10.0.0.4'', ''10.0.0.5'']"

lemma sample_command_args: "extractSshArgs sample_command = sample_args"
proof -
  have "list_all arg_ok (map (\<lambda>a. [Quoted a]) sample_args)"
    by (simp add: sample_args_def sample_tokens_def render_ssh_def arg_ok_def js_space_def is_line_end_def)
  moreover have "map (\<lambda>a. [Quoted a]) sample_args \<noteq> []" by (simp add: sample_args_def render_ssh_def)
  moreover have "sq \<notin> set ''bash -se''" "''bash -se'' \<noteq> []" "\<not> prefix '' << '' ''bash -se''" by simp_all
  moreover have "index_of ''ssh '' ([] @ ''ssh '') = Some (length ([] :: jstring))" by simp
  ultimately have "extractSshArgs sample_command =
      map (\<lambda>arg. if arg = ''RequestTTY=no'' then ''RequestTTY=yes'' else arg)
        (map arg_text (map (\<lambda>a. [Quoted a]) sample_args))"
    unfolding sample_command_def by (rule extractSshArgs_print)
  then show ?thesis
    by (simp add: sample_args_def sample_tokens_def render_ssh_def arg_text_def)
qed

lemma sample_command_line: "join_with '' '' (split_on CHR 0x0A sample_command) = sample_command"
proof -
  have "list_all arg_ok (map (\<lambda>a. [Quoted a]) sample_args)"
    by (simp add: sample_args_def sample_tokens_def render_ssh_def arg_ok_def js_space_def is_line_end_def)
  then have "CHR 0x0A \<notin> set (print_args (map (\<lambda>a. [Quoted a]) sample_args))"
    using print_args_chars by (fastforce simp: is_line_end_def)
  then have "CHR 0x0A \<notin> set sample_command"
    by (simp add: sample_command_def print_command_def)
  then show ?thesis by (simp add: split_on_absent)
qed

lemma sample_host: "extractTargetHost sample_args = Some ''10.0.0.5''"
  by code_simp

lemma sample_host_authorized: "isAuthorizedTargetHost (Some ''10.0.0.5'') sample_hosts"
  by code_simp

lemma startCommand_sample:
  "authorizedIPs c = sample_hosts \<Longrightarrow> spawn_ok c \<Longrightarrow>
   startCommand r sample_command c = spawn_pty r sample_args (extractHereDocContent sample_command) (clear_timer c)"
  using sample_accepted sample_host_authorized
  by (simp add: startCommand_def Let_def sample_command_line sample_command_args sample_host flip: sample_hosts_def)

definition sample_token :: jstring where
  "sample_token = replicate 64 CHR ''a''"

definition sample_ips :: post_result where
  "sample_ips = Response \<lparr>status = 200, data = JObj [(''ipAddresses'', JArr (map JStr sample_hosts))]\<rparr>"

definition sample_redeemed :: post_result where
  "sample_redeemed = Response \<lparr>status = 200,
     data = JObj [(''session_id'', JStr ''s1''), (''command'', JStr sample_command)]\<rparr>"

definition send_token :: event where
  "send_token = Message (Some (JObj [(''terminalToken'', JStr sample_token)]))"

definition sample_socket :: conn where
  "sample_socket = connect (Some \<lparr>h_cookie = ''c'', h_xsrf = ''x''\<rparr>)"

lemmas run_defs = ws_message_def handleMessage_def handle_entry_def handleTerminalToken_def ips_answer_def
  token_answer_def handleCommand_def handleClose_def markDisconnected_def killPtyProcess_def
  sample_ips_def sample_redeemed_def send_token_def sample_socket_def ip_addresses_def json_get_string_def

lemma sample_token_ok: "is_terminal_token sample_token"
  by code_simp

lemma sample_socket_sel:
  "sample_socket = new_conn\<lparr>ips_pending := True\<rparr>"
  by (simp add: sample_socket_def connect_def)

text \<open>The state after the hosts and the token.\<close>

definition sample_waiting :: "conn \<Rightarrow> conn" where
  "sample_waiting c = c\<lparr>ips_pending := False, authorizedIPs := sample_hosts, in_sessions := True, authReady := True,
     pendingMessages := [], tokens := [\<lparr>r_session = None, r_reported = False\<rparr>], redeeming := [0],
     conn_out := conn_out c @ [PostSession sample_token]\<rparr>"

lemma sample_hosts_step:
  "ips_answer sample_ips c = fold handleMessage (pendingMessages c)
     (c\<lparr>ips_pending := False, authorizedIPs := sample_hosts, in_sessions := True, authReady := True,
       pendingMessages := []\<rparr>)"
  by (simp add: ips_answer_def sample_ips_def ip_addresses_def Let_def sample_hosts_def )

lemma sample_token_step:
  "handleMessage (Some (JObj [(''terminalToken'', JStr sample_token)])) c =
     emit [PostSession sample_token] (c\<lparr>tokens := tokens c @ [\<lparr>r_session = None, r_reported = False\<rparr>],
        redeeming := redeeming c @ [length (tokens c)]\<rparr>)"
  using sample_token_ok by (simp add: handleMessage_def handle_entry_def handleTerminalToken_def)

lemma sample_redeem_step:
  assumes "in_sessions c" "\<not> isActive c" "authorizedIPs c = sample_hosts" "spawn_ok c" "redeeming c = [r]"
  shows "token_answer r sample_redeemed c =
    spawn_pty r sample_args (extractHereDocContent sample_command)
      (clear_timer (c\<lparr>redeeming := [], tokens := (tokens c)[r := (tokens c ! r)\<lparr>r_session := Some ''s1''\<rparr>]\<rparr>))"
  using assms by (simp add: token_answer_def sample_redeemed_def json_get_string_def  handleCommand_def
      startCommand_sample Let_def)

definition sample_start :: "event list" where
  "sample_start = [IpsAnswer sample_ips, send_token, TokenAnswer 0 sample_redeemed]"

definition sample_late :: "event list" where
  "sample_late = [send_token, Close, IpsAnswer sample_ips, TokenAnswer 0 sample_redeemed]"

lemma sample_start_run: "enabled_run sample_start sample_socket"
  by (simp add: sample_start_def sample_socket_sel new_conn_def sample_hosts_step send_token_def ws_message_def
      sample_token_step)

lemma sample_late_run: "enabled_run sample_late sample_socket"
  by (simp add: sample_late_def sample_socket_sel new_conn_def sample_hosts_step send_token_def ws_message_def
      sample_token_step handleClose_def markDisconnected_def killPtyProcess_def)

end
