(* ===== verification/Terminal_Safety.thy ===== *)
theory Terminal_Safety
  imports Terminal_Invariants
begin

text \<open>
  What a terminal connection promises: its loops end, messages that wait for the authorized hosts are
  replayed, every PTY runs an authorized command, every token is used once and every session end is
  reported once. A sample run shows that the states of these statements are reached.
\<close>

section \<open>Loops and checks\<close>

lemma kill_timer_again:
  assumes "tasks c = ts1 @ KillLoop n w # ts2" "ptyProcess c = Some p" "isActive c" "n < 5"
  shows "kill_timer (length ts1) c = emit (kill_writes p) (c\<lparr>tasks := ts1 @ KillLoop (n + 1) w # ts2\<rparr>)"
  using assms by (simp add: kill_timer_def)

lemma kill_timer_last:
  assumes "tasks c = ts1 @ KillLoop 5 w # ts2" "ptyProcess c = Some p" "isActive c"
  shows "kill_timer (length ts1) c = resume_awaiter w False (emit [PtyKill p] (c\<lparr>tasks := ts1 @ ts2\<rparr>))"
  using assms by (simp add: kill_timer_def drop_task_def)

lemma kill_timer_ended:
  assumes "tasks c = ts1 @ KillLoop n w # ts2" "ptyProcess c = None \<or> \<not> isActive c"
  shows "kill_timer (length ts1) c = resume_awaiter w True (clear_timer (c\<lparr>tasks := ts1 @ ts2\<rparr>))"
  using assms by (auto simp: kill_timer_def drop_task_def split: option.split)

lemma emit_emit [simp]: "emit es (emit fs c) = emit (fs @ es) c"
  by (simp add: emit_def)

lemma emit_tasks [simp]: "(emit es c)\<lparr>tasks := ts\<rparr> = emit es (c\<lparr>tasks := ts\<rparr>)"
  by (simp add: emit_def)

text \<open>C9: The kill loop ends after at most five attempts: while the PTY stays, each of the remaining
  timers writes the kill sequence once more, the last one kills the local client, and the awaiting
  code resumes with \<open>false\<close>.\<close>

theorem kill_loop_bounded:
  assumes "tasks c = ts1 @ KillLoop n w # ts2" "ptyProcess c = Some p" "isActive c" "1 \<le> n" "n \<le> 5"
  shows "(kill_timer (length ts1) ^^ (6 - n)) c =
    resume_awaiter w False
      (emit (concat (replicate (5 - n) (kill_writes p)) @ [PtyKill p]) (c\<lparr>tasks := ts1 @ ts2\<rparr>))"
  using assms
proof (induction "5 - n" arbitrary: n c)
  case 0
  then have "n = 5" by simp
  with 0 show ?case by (simp add: kill_timer_last)
next
  case (Suc k)
  let ?d = "emit (kill_writes p) (c\<lparr>tasks := ts1 @ KillLoop (n + 1) w # ts2\<rparr>)"
  have n: "6 - n = Suc (6 - (n + 1))" "5 - n = Suc (5 - (n + 1))" using Suc.hyps(2) by auto
  have "kill_timer (length ts1) c = ?d" using Suc by (intro kill_timer_again) auto
  moreover have "(kill_timer (length ts1) ^^ (6 - (n + 1))) ?d =
      resume_awaiter w False
        (emit (concat (replicate (5 - (n + 1)) (kill_writes p)) @ [PtyKill p]) (?d\<lparr>tasks := ts1 @ ts2\<rparr>))"
    using Suc.hyps(2) Suc.prems by (intro Suc.hyps(1)) auto
  ultimately show ?case unfolding n by (simp add: funpow_Suc_right del: funpow.simps)
qed

text \<open>The detach loop of an attach session ends the same way: three detach sequences, the kill of
  the local client, and \<open>false\<close> when the PTY still has not exited.\<close>

theorem detach_loop_bounded:
  assumes "tasks c = ts1 @ DetachLoop p n False w # ts2" "1 \<le> n" "n \<le> 3"
  shows "(detach_timer (length ts1) ^^ (5 - n)) c =
    resume_awaiter w False
      (emit (replicate (3 - n) (PtyWrite p [CHR 0x10, CHR 0x11]) @ [PtyKill p]) (c\<lparr>tasks := ts1 @ ts2\<rparr>))"
  using assms
proof (induction "3 - n" arbitrary: n c)
  case 0
  then have n: "n = 3" "5 - n = Suc (Suc 0)" by simp_all
  show ?case unfolding n using 0 n by (simp add: detach_timer_def drop_task_def numeral_2_eq_2)
next
  case (Suc k)
  let ?d = "emit [PtyWrite p [CHR 0x10, CHR 0x11]] (c\<lparr>tasks := ts1 @ DetachLoop p (n + 1) False w # ts2\<rparr>)"
  have n: "5 - n = Suc (5 - (n + 1))" "3 - n = Suc (3 - (n + 1))" using Suc.hyps(2) by auto
  have "detach_timer (length ts1) c = ?d" using Suc by (simp add: detach_timer_def)
  moreover have "(detach_timer (length ts1) ^^ (5 - (n + 1))) ?d =
      resume_awaiter w False
        (emit (replicate (3 - (n + 1)) (PtyWrite p [CHR 0x10, CHR 0x11]) @ [PtyKill p]) (?d\<lparr>tasks := ts1 @ ts2\<rparr>))"
    using Suc.hyps(2) Suc.prems by (intro Suc.hyps(1)) auto
  ultimately show ?case unfolding n by (simp add: funpow_Suc_right del: funpow.simps)
qed

lemma handleMessage_authReady [simp]: "authReady (handleMessage m c) = authReady c"
proof -
  have "authReady (fold handle_entry kvs d) = authReady d" for kvs d
    by (induction kvs arbitrary: d) (simp_all del: split_paired_All)
  then show ?thesis by (simp add: handleMessage_def split: option.split json.split)
qed

lemma ws_messages_ready: "authReady c \<Longrightarrow> fold ws_message ms c = fold handleMessage ms c"
  by (induction ms arbitrary: c) (simp_all add: ws_message_def)

lemma ws_messages_buffered:
  "\<not> authReady c \<Longrightarrow> fold ws_message ms c = c\<lparr>pendingMessages := pendingMessages c @ ms\<rparr>"
  by (induction ms arbitrary: c) (simp_all add: ws_message_def)

definition killing_conn :: conn where
  "killing_conn = new_conn\<lparr>ws_state := Closed, in_sessions := True, authReady := True, isActive := True,
     ptyProcess := Some 0, tasks := [KillLoop 4 AwaitClose]\<rparr>"

theorem kill_loop_bounded_witness:
  "(kill_timer 0 ^^ 2) killing_conn =
    killing_conn\<lparr>in_sessions := False, tasks := [], conn_out := kill_writes 0 @ [PtyKill 0]\<rparr>"
  using kill_loop_bounded [of killing_conn "[]" 4 AwaitClose "[]" 0]
  by (simp add: killing_conn_def new_conn_def emit_def)

theorem detach_loop_bounded_witness:
  "(detach_timer 0 ^^ 3) (killing_conn\<lparr>tasks := [DetachLoop 0 2 False AwaitClose]\<rparr>) =
    killing_conn\<lparr>in_sessions := False, tasks := [], conn_out := [PtyWrite 0 [CHR 0x10, CHR 0x11], PtyKill 0]\<rparr>"
  using detach_loop_bounded [of "killing_conn\<lparr>tasks := [DetachLoop 0 2 False AwaitClose]\<rparr>" "[]" 0 2 AwaitClose "[]"]
  by (simp add: killing_conn_def new_conn_def emit_def)

text \<open>C10: Messages that arrive before the hosts are known are neither lost nor reordered: buffering
  them and then taking Coolify's answer is the same as taking the answer first.\<close>

theorem buffered_messages_replayed:
  assumes "\<not> authReady c" "authReady (ips_answer ans (c\<lparr>pendingMessages := []\<rparr>))" "pendingMessages c = []"
  shows "ips_answer ans (fold ws_message ms c) = fold ws_message ms (ips_answer ans c)"
proof -
  have c: "c\<lparr>pendingMessages := []\<rparr> = c" using assms(3) by simp
  have fold_ready: "authReady (fold handleMessage ns d) = authReady d" for ns d
    by (induction ns arbitrary: d) simp_all
  obtain resp ips where ok: "ans = Response resp" "status resp = 200" "ip_addresses (data resp) = Some ips"
    using assms(1,2) unfolding c
    by (auto simp: ips_answer_def Let_def split: post_result.splits option.splits if_splits)
  have "ips_answer ans (fold ws_message ms c) = fold handleMessage ms
      (c\<lparr>ips_pending := False, authorizedIPs := ips, in_sessions := True, authReady := True, pendingMessages := []\<rparr>)"
    using assms(1,3) ok by (simp add: ws_messages_buffered ips_answer_def Let_def)
  moreover have "ips_answer ans c =
      c\<lparr>ips_pending := False, authorizedIPs := ips, in_sessions := True, authReady := True, pendingMessages := []\<rparr>"
    using assms(3) ok by (simp add: ips_answer_def Let_def)
  ultimately show ?thesis by (simp add: ws_messages_ready)
qed

theorem buffered_messages_replayed_witness:
  "ips_answer sample_ips (fold ws_message [Some (JObj [(''ping'', JNull)]), None] sample_socket) =
   fold ws_message [Some (JObj [(''ping'', JNull)]), None] (ips_answer sample_ips sample_socket)"
  by (rule buffered_messages_replayed) (simp_all add: sample_socket_sel new_conn_def sample_hosts_step)

section \<open>Reachable connections\<close>

definition sample_running :: conn where
  "sample_running = fold apply_event sample_start sample_socket"

lemma sample_running_reachable: "reachable sample_running"
  unfolding sample_running_def
  by (rule reachable_run [OF _ sample_start_run]) (simp add: sample_socket_def reachable.accept)

lemma sample_running_state:
  "isActive sample_running" "ptyProcess sample_running = Some 0" "authorizedIPs sample_running = sample_hosts"
  "ptys sample_running = [\<lparr>p_alive = True, p_token = 0, w_live = True, w_failed = 0, w_checking = False\<rparr>]"
  "PtySpawn 0 (sanitizeSshArgs sample_args @ [extractHereDocContent sample_command]) \<in> set (conn_out sample_running)"
  "tokens sample_running = [\<lparr>r_session = Some ''s1'', r_reported = False\<rparr>]" "tasks sample_running = []"
  "redeeming sample_running = []" "endReason sample_running = None"
  by (simp_all add: sample_running_def sample_start_def sample_socket_sel new_conn_def sample_hosts_step send_token_def
      ws_message_def sample_token_step sample_redeem_step clear_timer_def)
     (simp add: spawn_pty_def Let_def ws_send_def)+


lemma distinct_count_list: "(\<And>r. count_list xs r \<le> 1) \<Longrightarrow> distinct xs"
proof (induction xs)
  case (Cons x xs)
  have "count_list xs r \<le> 1" for r using Cons.prems [of r] by (auto split: if_splits)
  moreover have "count_list xs x = 0" using Cons.prems [of x] by simp
  ultimately show ?case using Cons.IH by (simp add: count_list_0_iff)
qed simp

text \<open>C3: Every process that a connection starts is \<open>ssh\<close> with arguments that passed
  \<open>validateSshArgs\<close> for the hosts Coolify authorized for this user, sanitized, followed by one
  here-document; whatever the browser sends, and in whatever order answers, timers and exits come.\<close>

theorem spawned_ptys_authorized:
  assumes "reachable c" and "PtySpawn p args \<in> set (conn_out c)"
  shows "\<exists>sshArgs hereDoc. args = sanitizeSshArgs sshArgs @ [hereDoc] \<and>
    validateSshArgs sshArgs (authorizedIPs c)"
proof -
  have "spawn_ok_effect (authorizedIPs c) (PtySpawn p args)"
    using spawn_inv.reachable_invariant [OF assms(1)] assms(2) by (simp add: spawns_ok_def list_all_iff)
  then show ?thesis by (auto simp: spawn_ok_effect_def)
qed

theorem spawned_ptys_authorized_witness:
  "\<exists>sshArgs hereDoc. sanitizeSshArgs sample_args @ [extractHereDocContent sample_command] =
      sanitizeSshArgs sshArgs @ [hereDoc] \<and>
    validateSshArgs sshArgs [''10.0.0.4'', ''10.0.0.5'']"
  using spawned_ptys_authorized [OF sample_running_reachable sample_running_state(5)]
  by (simp add: sample_running_state sample_hosts_def)


text \<open>C8: A session that is marked active has a current PTY, and that PTY is running.\<close>

theorem active_pty_runs:
  assumes "reachable c" and "isActive c"
  shows "\<exists>p. ptyProcess c = Some p \<and> live c p"
  using reachable_wf [OF assms(1)] assms(2) by (simp add: conn_wf_def pty_wf_def)

text \<open>C6: The end of a session is reported to Coolify at most once, under the session id of its token,
  and the exit of its PTY is always reported.\<close>

theorem session_end_reported_once:
  assumes "reachable c"
  shows "length (filter (is_report r) (conn_out c)) \<le> 1 \<and>
    (\<forall>p < length (ptys c). \<not> p_alive (ptys c ! p) \<longrightarrow>
       (\<exists>s reason. filter (is_report (p_token (ptys c ! p))) (conn_out c) =
           [ReportEnd (p_token (ptys c ! p)) s reason] \<and>
         r_session (tokens c ! p_token (ptys c ! p)) = Some s))"
proof -
  have reps: "reports q c = filter (is_report q) (conn_out c)" for q
    unfolding reports_def filter_filter by (rule filter_cong) (auto simp: is_report_def split: effect.splits)
  have ok: "reports_ok c" using report_inv.reachable_invariant [OF assms] by blast
  then have r: "report_ok c q" for q by (simp add: reports_ok_def)
  have "length (reports r c) \<le> 1" using r [of r] by (auto simp: report_ok_def split: if_splits)
  moreover have "reported c (p_token (ptys c ! p))" if "p < length (ptys c)" "\<not> p_alive (ptys c ! p)" for p
    using ok that by (auto simp: reports_ok_def exits_reported_def list_all_length pty_core_def)
  ultimately show ?thesis using r unfolding reps [symmetric] report_ok_def by metis
qed


theorem active_pty_runs_witness: "live sample_running 0"
  using active_pty_runs [OF sample_running_reachable] by (simp add: sample_running_state)

theorem session_end_reported_once_witness:
  "filter (is_report 0) (conn_out (pty_exit 0 sample_running)) = [ReportEnd 0 ''s1'' Exited]"
proof -
  let ?c = "pty_exit 0 sample_running"
  have "reachable (apply_event (PtyExit 0) sample_running)"
    by (rule reachable.step [OF sample_running_reachable]) (simp add: sample_running_state)
  then have r: "reachable ?c" by simp
  have s: "ptys ?c = [\<lparr>p_alive = False, p_token = 0, w_live = False, w_failed = 0, w_checking = False\<rparr>]"
    by (simp add: pty_exit_def Let_def sample_running_state)
  have t: "ReportEnd 0 ''s1'' Exited \<in> set (conn_out ?c)"
    by (simp add: pty_exit_def Let_def sample_running_state exit_listener_def reportEnd_def ws_send_def)
  obtain x reason where f: "filter (is_report 0) (conn_out ?c) = [ReportEnd 0 x reason]"
    using session_end_reported_once [OF r, of 0] s by auto
  have "ReportEnd 0 ''s1'' Exited \<in> set (filter (is_report 0) (conn_out ?c))"
    using t by (simp add: is_report_def)
  then show ?thesis unfolding f by simp
qed

text \<open>C11: A socket that closes before Coolify has answered for its hosts: the answer registers the session
  all the same, the buffered token is redeemed, and a PTY runs for a closed socket. No kill loop is
  under way and no \<open>close\<close> event is left to start one.\<close>

theorem late_answer_starts_pty:
  "\<exists>c. reachable c \<and> ws_state c = Closed \<and> in_sessions c \<and> isActive c \<and> ptyProcess c = Some 0 \<and> live c 0 \<and>
     tasks c = [] \<and> redeeming c = []"
proof -
  let ?c = "fold apply_event sample_late sample_socket"
  have "reachable ?c"
    by (rule reachable_run [OF _ sample_late_run]) (simp add: sample_socket_def reachable.accept)
  moreover have "ws_state ?c = Closed \<and> in_sessions ?c \<and> isActive ?c \<and> ptyProcess ?c = Some 0 \<and> live ?c 0 \<and>
     tasks ?c = [] \<and> redeeming ?c = []"
    by (simp add: sample_late_def sample_socket_sel new_conn_def sample_hosts_step send_token_def ws_message_def
      sample_token_step handleClose_def markDisconnected_def killPtyProcess_def sample_redeem_step clear_timer_def
      live_def)
  ultimately show ?thesis by blast
qed

end
