(* ===== verification/Terminal_Client.thy ===== *)
theory Terminal_Client
  imports Js_Json
begin

text \<open>
  The browser side of a terminal: the connection state of the Alpine component of
  \<open>resources/js/terminal.js\<close> with the session-start methods of \<open>resources/js/terminal-connection.js\<close>.
  The component is one record; every handler maps the component to the component, and what it sends
  or dispatches is appended to \<open>k_out\<close>. Timers are the identifiers the code keeps: \<open>None\<close> for
  \<open>null\<close>, and for the intervals and timeouts that the code clears or lets fire without resetting the
  identifier, whether they still run; \<open>first_connect\<close> is the 100 ms timer of \<open>init\<close>. \<open>Math.random()\<close> is the argument \<open>rnd\<close>. Layout, focus,
  fullscreen and the theme are not modelled; drawing in the xterm is, as far as \<open>pendingWrites\<close>.
\<close>

section \<open>Reading the server\<close>

definition CLOSE_NORMAL :: int where "CLOSE_NORMAL = 1000"
definition CLIENT_AUTH_REJECTED :: int where "CLIENT_AUTH_REJECTED = 4401"
definition CLIENT_TOKEN_REJECTED :: int where "CLIENT_TOKEN_REJECTED = 4403"

definition TERMINAL_CONNECT_TIMEOUT_MS :: nat where "TERMINAL_CONNECT_TIMEOUT_MS = 15000"

definition ERR_authRejected :: jstring where
  "ERR_authRejected = ''Terminal access was rejected. Reload the page and try again.''"
definition ERR_connectionFailed :: jstring where
  "ERR_connectionFailed = ''Could not connect to the terminal server. Reload the page and try again.''"
definition ERR_timeout :: jstring where
  "ERR_timeout = ''Timed out while connecting to the terminal. Reload the page and try again.''"

definition isTerminalAuthRejectionCode :: "int \<Rightarrow> bool" where
  "isTerminalAuthRejectionCode code \<longleftrightarrow> code = CLIENT_AUTH_REJECTED \<or> code = CLIENT_TOKEN_REJECTED"

text \<open>A WebSocket message: PTY output in a binary frame, or a control message as text.\<close>

datatype frame = Binary jstring | Text jstring

fun isTerminalOutputFrame :: "frame \<Rightarrow> bool" where
  "isTerminalOutputFrame (Binary d) = True"
| "isTerminalOutputFrame (Text s) = False"

fun isTerminalStartupRejection :: "frame \<Rightarrow> bool" where
  "isTerminalStartupRejection (Text s) = (starts_with s ''Unauthorized:'' \<or> starts_with s ''Invalid SSH command:'')"
| "isTerminalStartupRejection (Binary d) = False"

fun isTerminalSessionEndedNotice :: "frame \<Rightarrow> bool" where
  "isTerminalSessionEndedNotice (Text s) = starts_with s ''Terminal session ended:''"
| "isTerminalSessionEndedNotice (Binary d) = False"

record close_outcome =
  o_authRejected :: bool
  o_reconnect :: bool
  o_error :: "jstring option"

definition resolveTerminalCloseOutcome :: "int \<Rightarrow> bool \<Rightarrow> nat \<Rightarrow> nat \<Rightarrow> close_outcome" where
  "resolveTerminalCloseOutcome code sessionPending reconnectAttempts maxReconnectAttempts =
     (if isTerminalAuthRejectionCode code
      then \<lparr>o_authRejected = True, o_reconnect = False, o_error = Some ERR_authRejected\<rparr>
      else if code = CLOSE_NORMAL
      then \<lparr>o_authRejected = False, o_reconnect = False, o_error = None\<rparr>
      else
        (let reconnect = reconnectAttempts < maxReconnectAttempts
         in \<lparr>o_authRejected = False, o_reconnect = reconnect,
             o_error = (if sessionPending \<or> \<not> reconnect then Some ERR_connectionFailed else None)\<rparr>))"

section \<open>State\<close>

datatype connection_state = Connecting | Connected | Disconnected | Reconnecting

datatype socket_state = SConnecting | SOpen | SClosing | SClosed

text \<open>The two uses of \<open>pingTimeoutId\<close>: heartbeat monitoring and the probe after the tab became visible.\<close>

datatype ping_timer = HeartbeatTimer | VisibilityProbe

datatype client_effect =
    Send json
  | Dispatch jstring "jstring option"
  | NewSocket
  | CloseSocket int jstring
  | TermWrite jstring
  | TermReset
  | TermOpen

record client =
  hasTerm :: bool
  term_initialized :: bool
  terminalActive :: bool
  starting :: bool
  message :: jstring
  socket :: "socket_state option"
  commandBuffer :: jstring
  pendingWrites :: nat
  paused :: bool
  keepAliveInterval :: "bool option"
  reconnectInterval :: bool
  connectionState :: connection_state
  reconnectAttempts :: nat
  connectionTimeoutId :: "nat option"
  connectionError :: "jstring option"
  authRejected :: bool
  sessionStartTimeoutId :: bool
  pingTimeoutId :: "(ping_timer \<times> bool) option"
  heartbeatMissed :: nat
  pendingCommand :: "json option"
  isDocumentVisible :: bool
  wasConnectedBeforeHidden :: bool
  sessionStartedAt :: "nat option"
  remainingSeconds :: "rat option"
  countdownInterval :: bool
  consoleMode :: bool
  consoleCommand :: jstring
  consoleHistory :: "jstring list"
  consoleHistoryIndex :: int
  consolePendingLines :: "jstring list"
  terminalModifier :: "jstring option"
  first_connect :: bool
  socket_ok :: bool
  now_ms :: nat
  k_out :: "client_effect list"

definition MAX_PENDING_WRITES :: nat where "MAX_PENDING_WRITES = 5"
definition maxReconnectAttempts :: nat where "maxReconnectAttempts = 10"
definition baseReconnectDelay :: rat where "baseReconnectDelay = 1000"
definition maxReconnectDelay :: rat where "maxReconnectDelay = 30000"
definition connectionTimeout :: nat where "connectionTimeout = 10000"
definition maxHeartbeatMisses :: nat where "maxHeartbeatMisses = 3"

definition new_client :: "bool \<Rightarrow> bool \<Rightarrow> bool \<Rightarrow> client" where
  "new_client term autoStart attach =
     \<lparr>hasTerm = term, term_initialized = False, terminalActive = False, starting = autoStart,
      message = ''(connection closed)'', socket = None, commandBuffer = [], pendingWrites = 0, paused = False,
      keepAliveInterval = None, reconnectInterval = False, connectionState = Disconnected, reconnectAttempts = 0,
      connectionTimeoutId = None, connectionError = None, authRejected = False, sessionStartTimeoutId = autoStart,
      pingTimeoutId = None, heartbeatMissed = 0, pendingCommand = None, isDocumentVisible = True,
      wasConnectedBeforeHidden = False, sessionStartedAt = None, remainingSeconds = None, countdownInterval = False,
      consoleMode = attach, consoleCommand = [], consoleHistory = [], consoleHistoryIndex = -1,
      consolePendingLines = [], terminalModifier = None, first_connect = True, socket_ok = True, now_ms = 0, k_out = []\<rparr>"

definition put :: "client_effect list \<Rightarrow> client \<Rightarrow> client" where
  "put es k = k\<lparr>k_out := k_out k @ es\<rparr>"

section \<open>Starting a session\<close>

definition isTerminalSessionPending :: "client \<Rightarrow> bool" where
  "isTerminalSessionPending k \<longleftrightarrow> starting k \<and> \<not> terminalActive k"

definition clearSessionStartTimeout :: "client \<Rightarrow> client" where
  "clearSessionStartTimeout k = k\<lparr>sessionStartTimeoutId := False\<rparr>"

definition has_error :: "client \<Rightarrow> bool" where
  "has_error k \<longleftrightarrow> (case connectionError k of Some e \<Rightarrow> e \<noteq> [] | None \<Rightarrow> False)"

definition failTerminalConnection :: "jstring \<Rightarrow> bool \<Rightarrow> client \<Rightarrow> client" where
  "failTerminalConnection msg override k =
     (let k1 = clearSessionStartTimeout (k\<lparr>starting := False\<rparr>)
      in if connectionError k1 = Some msg \<or> has_error k1 \<and> \<not> override then k1
         else put [Dispatch ''error'' (Some msg)] (k1\<lparr>connectionError := Some msg\<rparr>))"

definition armTerminalSessionStartTimeout :: "client \<Rightarrow> client" where
  "armTerminalSessionStartTimeout k = (clearSessionStartTimeout k)\<lparr>sessionStartTimeoutId := True\<rparr>"

text \<open>The session-start timer fires.\<close>

definition sessionStartTimeout :: "client \<Rightarrow> client" where
  "sessionStartTimeout k0 =
     (let k = k0\<lparr>sessionStartTimeoutId := False\<rparr>
      in if isTerminalSessionPending k
         then failTerminalConnection ERR_timeout False (k\<lparr>pendingCommand := None\<rparr>)
         else k)"

definition completeTerminalSessionStart :: "client \<Rightarrow> client" where
  "completeTerminalSessionStart k = clearSessionStartTimeout (k\<lparr>starting := False, connectionError := None\<rparr>)"

definition failTerminalSessionStart :: "jstring option \<Rightarrow> client \<Rightarrow> client" where
  "failTerminalSessionStart msg k =
     failTerminalConnection
       (case msg of Some m \<Rightarrow> if m \<noteq> [] then m else ERR_connectionFailed | None \<Rightarrow> ERR_connectionFailed)
       True (k\<lparr>pendingCommand := None\<rparr>)"

definition cancelTerminalAutoStart :: "client \<Rightarrow> client" where
  "cancelTerminalAutoStart k =
     (if terminalActive k \<or> pendingCommand k \<noteq> None then k
      else clearSessionStartTimeout (k\<lparr>starting := False\<rparr>))"

section \<open>Timers and the countdown\<close>

definition clearAllTimers :: "client \<Rightarrow> client" where
  "clearAllTimers k = k\<lparr>keepAliveInterval := None, reconnectInterval := False, connectionTimeoutId := None,
     pingTimeoutId := None, countdownInterval := False\<rparr>"

definition resetTerminalSessionCountdown :: "client \<Rightarrow> client" where
  "resetTerminalSessionCountdown k =
     k\<lparr>sessionStartedAt := None, remainingSeconds := None, countdownInterval := False\<rparr>"

definition MAX_TERMINAL_SESSION_SECONDS :: nat where "MAX_TERMINAL_SESSION_SECONDS = 8 * 60 * 60"

definition updateTerminalSessionCountdown :: "client \<Rightarrow> client" where
  "updateTerminalSessionCountdown k =
     (case sessionStartedAt k of
        Some t \<Rightarrow>
          if t \<noteq> 0 then
            k\<lparr>remainingSeconds := Some (max 0 (of_nat MAX_TERMINAL_SESSION_SECONDS - (of_nat (now_ms k) - of_nat t) / 1000))\<rparr>
          else k\<lparr>remainingSeconds := None\<rparr>
      | None \<Rightarrow> k\<lparr>remainingSeconds := None\<rparr>)"

definition startTerminalSessionCountdown :: "client \<Rightarrow> client" where
  "startTerminalSessionCountdown k0 =
     (let k = resetTerminalSessionCountdown k0
      in (updateTerminalSessionCountdown (k\<lparr>sessionStartedAt := Some (now_ms k)\<rparr>))\<lparr>countdownInterval := True\<rparr>)"

definition resetPingTimeout :: "client \<Rightarrow> client" where
  "resetPingTimeout k = k\<lparr>pingTimeoutId := Some (HeartbeatTimer, True)\<rparr>"

text \<open>The watcher of \<open>terminalActive\<close>: the interval is cleared, its identifier is kept.\<close>

definition watch_active :: "bool \<Rightarrow> client \<Rightarrow> client" where
  "watch_active active k =
     (if terminalActive k \<noteq> active
      then (k\<lparr>terminalActive := active\<rparr>)
             \<lparr>keepAliveInterval :=
                (if \<not> active \<and> keepAliveInterval k \<noteq> None then Some False else keepAliveInterval k)\<rparr>
      else k)"

section \<open>The socket\<close>

text \<open>\<open>socket.close\<close>; the \<open>close\<close> event follows.\<close>

definition close_socket :: "int \<Rightarrow> jstring \<Rightarrow> client \<Rightarrow> client" where
  "close_socket code reason k =
     (if socket k = Some SConnecting \<or> socket k = Some SOpen
      then put [CloseSocket code reason] (k\<lparr>socket := Some SClosing\<rparr>) else k)"

definition sendMessage :: "json \<Rightarrow> client \<Rightarrow> client" where
  "sendMessage m k = (if socket k = Some SOpen then put [Send m] k else k)"

definition isWebSocketReady :: "client \<Rightarrow> bool" where
  "isWebSocketReady k \<longleftrightarrow> connectionState k = Connected \<and> socket k = Some SOpen"

definition sendCommandWhenReady :: "json \<Rightarrow> client \<Rightarrow> client" where
  "sendCommandWhenReady m k = (if isWebSocketReady k then sendMessage m k else k\<lparr>pendingCommand := Some m\<rparr>)"

text \<open>The delay of the next attempt: exponential back-off with jitter.\<close>

definition reconnectDelay :: "nat \<Rightarrow> rat \<Rightarrow> rat" where
  "reconnectDelay attempts rnd = min (baseReconnectDelay * 2 ^ attempts + rnd * 1000) maxReconnectDelay"

definition scheduleReconnect :: "client \<Rightarrow> client" where
  "scheduleReconnect k =
     (if authRejected k then k
      else if reconnectAttempts k \<ge> maxReconnectAttempts
      then failTerminalConnection ERR_connectionFailed False
             (k\<lparr>message := ''(connection failed - max retries exceeded)''\<rparr>)
      else if reconnectInterval k then k
      else k\<lparr>connectionState := Reconnecting, reconnectInterval := True\<rparr>)"

definition handleConnectionError :: "client \<Rightarrow> client" where
  "handleConnectionError k0 =
     (let k = k0\<lparr>connectionState := Disconnected\<rparr>
      in scheduleReconnect
           (if isTerminalSessionPending k \<or> reconnectAttempts k \<ge> 2
            then failTerminalConnection ERR_connectionFailed False k else k))"

text \<open>\<open>socket_ok\<close>: whether \<open>new WebSocket(url)\<close> throws.\<close>

definition initializeWebSocket :: "client \<Rightarrow> client" where
  "initializeWebSocket k0 =
     (if socket k0 \<noteq> None \<and> socket k0 \<noteq> Some SClosed then k0
      else
        (let k = clearAllTimers (k0\<lparr>connectionState := Connecting\<rparr>)
         in if \<not> socket_ok k then handleConnectionError k
            else put [NewSocket]
                   (k\<lparr>socket := Some SConnecting,
                      connectionTimeoutId :=
                        Some (if reconnectAttempts k = 0 then TERMINAL_CONNECT_TIMEOUT_MS else connectionTimeout)\<rparr>)))"

definition connectTimeout :: "client \<Rightarrow> client" where
  "connectTimeout k0 =
     (let k = k0\<lparr>connectionTimeoutId := None\<rparr>
      in if connectionState k = Connecting
         then close_socket 1005 []
                (if isTerminalSessionPending k then failTerminalConnection ERR_timeout False k else k)
         else k)"

definition reconnectTimer :: "client \<Rightarrow> client" where
  "reconnectTimer k =
     initializeWebSocket (k\<lparr>reconnectInterval := False, reconnectAttempts := reconnectAttempts k + 1\<rparr>)"

definition ensureWebSocketConnection :: "client \<Rightarrow> client" where
  "ensureWebSocketConnection k =
     (if socket k \<noteq> None \<and> socket k \<noteq> Some SClosed then k
      else initializeWebSocket (k\<lparr>reconnectInterval := False, reconnectAttempts := 0\<rparr>))"

definition beginTerminalSessionStart :: "client \<Rightarrow> client" where
  "beginTerminalSessionStart k =
     ensureWebSocketConnection
       (armTerminalSessionStartTimeout (k\<lparr>starting := True, connectionError := None, authRejected := False\<rparr>))"

definition handleSocketOpen :: "client \<Rightarrow> client" where
  "handleSocketOpen k0 =
     (let k1 = k0\<lparr>connectionState := Connected, reconnectAttempts := 0, heartbeatMissed := 0,
                  connectionTimeoutId := None\<rparr>;
          k2 = (case pendingCommand k1 of
                  None \<Rightarrow> k1
                | Some m \<Rightarrow>
                    (sendMessage m k1)\<lparr>pendingCommand := None, connectionError := None, starting := True\<rparr>);
          k3 = (if keepAliveInterval k2 = None then k2\<lparr>keepAliveInterval := Some True\<rparr> else k2)
      in put [Dispatch ''terminal-websocket-ready'' None] (resetPingTimeout k3))"

definition handleSocketError :: "client \<Rightarrow> client" where
  "handleSocketError k =
     (if isTerminalSessionPending k then failTerminalConnection ERR_connectionFailed False k else k)"

definition resetTerminal :: "client \<Rightarrow> client" where
  "resetTerminal k =
     (if \<not> hasTerm k then k
      else put [Dispatch ''terminalDisconnected'' None]
             (resetTerminalSessionCountdown
               ((put [Dispatch ''error'' (Some ''Terminal websocket connection lost. Reconnecting...''),
                      TermWrite ''Connection lost, reconnecting...''] k)
                \<lparr>pendingWrites := 0, paused := False, commandBuffer := [], pendingCommand := None\<rparr>)))"

definition handleSocketClose :: "int \<Rightarrow> client \<Rightarrow> client" where
  "handleSocketClose code k0 =
     (let outcome = resolveTerminalCloseOutcome code (isTerminalSessionPending k0) (reconnectAttempts k0)
                      maxReconnectAttempts;
          k = resetTerminalSessionCountdown (clearAllTimers (k0\<lparr>connectionState := Disconnected\<rparr>))
      in if o_authRejected outcome then
           (let k1 = k\<lparr>authRejected := True, pendingCommand := None\<rparr>;
                k2 = (if terminalActive k1
                      then put [Dispatch ''terminalDisconnected'' None] (watch_active False k1) else k1)
            in case o_error outcome of
                 Some e \<Rightarrow> failTerminalConnection e True k2
               | None \<Rightarrow> k2)
         else if code \<noteq> 1000 then
           (let k1 = (if reconnectAttempts k > 0
                      then watch_active False ((resetTerminal k)\<lparr>message := ''(connection closed)''\<rparr>) else k);
                k2 = (case o_error outcome of Some e \<Rightarrow> failTerminalConnection e False k1 | None \<Rightarrow> k1)
            in scheduleReconnect k2)
         else k)"

definition keepAlive :: "client \<Rightarrow> client" where
  "keepAlive k =
     (if socket k = Some SOpen then sendMessage (JObj [(''ping'', JBool True)]) k
      else if connectionState k = Disconnected \<and> \<not> authRejected k then initializeWebSocket k
      else k)"

definition pingTimeout :: "client \<Rightarrow> client" where
  "pingTimeout k0 =
     (let k = k0\<lparr>pingTimeoutId := Some (HeartbeatTimer, False), heartbeatMissed := heartbeatMissed k0 + 1\<rparr>
      in if heartbeatMissed k \<ge> maxHeartbeatMisses then close_socket 1001 ''Heartbeat timeout'' k else k)"

definition visibilityProbe :: "client \<Rightarrow> client" where
  "visibilityProbe k = close_socket 4000 ''Visibility-resume timeout'' (k\<lparr>pingTimeoutId := Some (VisibilityProbe, False)\<rparr>)"

definition handleVisibilityChange :: "bool \<Rightarrow> client \<Rightarrow> client" where
  "handleVisibilityChange hidden k0 =
     (let wasVisible = isDocumentVisible k0;
          k = k0\<lparr>isDocumentVisible := \<not> hidden\<rparr>
      in if hidden then
           k\<lparr>wasConnectedBeforeHidden := (connectionState k = Connected), pingTimeoutId := None\<rparr>
         else if \<not> wasVisible then
           (if wasConnectedBeforeHidden k \<and> socket k = Some SOpen
            then (sendMessage (JObj [(''ping'', JBool True)]) (k\<lparr>heartbeatMissed := 0\<rparr>))
                   \<lparr>pingTimeoutId := Some (VisibilityProbe, True)\<rparr>
            else if wasConnectedBeforeHidden k \<and> connectionState k \<noteq> Connected \<and> \<not> authRejected k
            then initializeWebSocket (k\<lparr>reconnectAttempts := 0\<rparr>)
            else k)
         else k)"

section \<open>Messages of the server\<close>

definition writeTerminalOutput :: "jstring \<Rightarrow> client \<Rightarrow> client" where
  "writeTerminalOutput d k =
     (if hasTerm k then put [TermWrite d] (k\<lparr>pendingWrites := pendingWrites k + 1\<rparr>) else k)"

definition flowControlCallback :: "client \<Rightarrow> client" where
  "flowControlCallback k0 =
     (let k = k0\<lparr>pendingWrites := pendingWrites k0 - 1\<rparr>
      in if pendingWrites k > MAX_PENDING_WRITES \<and> \<not> paused k
         then sendMessage (JObj [(''pause'', JBool True)]) (k\<lparr>paused := True\<rparr>)
         else if pendingWrites k \<le> MAX_PENDING_WRITES div 2 \<and> paused k
         then sendMessage (JObj [(''resume'', JBool True)]) (k\<lparr>paused := False\<rparr>)
         else k)"

text \<open>Without a terminal element \<open>this.term\<close> is \<open>null\<close>, and the code that uses it throws.\<close>

definition handleSocketMessage :: "frame \<Rightarrow> client \<Rightarrow> client" where
  "handleSocketMessage f k =
     (case f of
        Binary d \<Rightarrow> writeTerminalOutput d k
      | Text s \<Rightarrow>
          if s = ''pong'' then resetPingTimeout (k\<lparr>heartbeatMissed := 0\<rparr>)
          else if s = ''pty-ready'' then
            (let k1 = completeTerminalSessionStart k
             in if \<not> hasTerm k1 then k1
                else
                  (let k2 = (if term_initialized k1 then put [TermWrite ''Reconnected''] k1
                             else put [TermOpen] (k1\<lparr>term_initialized := True\<rparr>))
                   in put [Dispatch ''terminalConnected'' None]
                        (startTerminalSessionCountdown (watch_active True k2))))
          else if s = ''unprocessable'' then
            (let k1 = clearSessionStartTimeout (k\<lparr>starting := False\<rparr>);
                 k2 = (if hasTerm k1 then put [TermReset] k1 else k1)
             in put [Dispatch ''terminalDisconnected'' None]
                  ((resetTerminalSessionCountdown (watch_active False k2))
                   \<lparr>message := ''(sorry, something went wrong, please try again)''\<rparr>))
          else if s = ''pty-exited'' then
            (let k1 = resetTerminalSessionCountdown (watch_active False (k\<lparr>starting := False\<rparr>))
             in if \<not> hasTerm k1 then k1
                else put [TermReset, Dispatch ''terminalDisconnected'' None] (k1\<lparr>commandBuffer := []\<rparr>))
          else if isTerminalSessionEndedNotice f then put [Dispatch ''error'' (Some s)] k
          else if isTerminalStartupRejection f then
            failTerminalConnection s True
              (resetTerminalSessionCountdown (watch_active False (k\<lparr>pendingCommand := None\<rparr>)))
          else k)"

definition checkIfProcessIsRunningAndKillIt :: "client \<Rightarrow> client" where
  "checkIfProcessIsRunningAndKillIt k = sendMessage (JObj [(''checkActive'', JStr ''force'')]) k"

text \<open>\<open>cleanup\<close>, when the page is left.\<close>

definition cleanup :: "client \<Rightarrow> client" where
  "cleanup k =
     (let k1 = clearSessionStartTimeout (clearAllTimers (checkIfProcessIsRunningAndKillIt k))
      in close_socket 1000 ''Client cleanup''
           (resetTerminalSessionCountdown (k1\<lparr>connectionState := Disconnected, pendingCommand := None\<rparr>)))"

section \<open>Console mode\<close>

text \<open>\<open>/[\x00-\x1f\x7f]/.test\<close>\<close>

definition has_control_char :: "jstring \<Rightarrow> bool" where
  "has_control_char s \<longleftrightarrow> list_ex (\<lambda>c. of_char c < (32 :: nat) \<or> of_char c = (127 :: nat)) s"

definition newline :: jstring where "newline = [CHR 0x0A]"

definition console_message :: "jstring \<Rightarrow> json" where
  "console_message line = JObj [(''message'', JStr (line @ newline))]"

definition loadConsoleHistory :: "client \<Rightarrow> client" where
  "loadConsoleHistory k = k\<lparr>consoleHistory := [], consoleHistoryIndex := -1, consoleCommand := [], consolePendingLines := []\<rparr>"

definition applyConsoleMode :: "client \<Rightarrow> client" where
  "applyConsoleMode k = (if consoleMode k then loadConsoleHistory k else k)"

definition canSubmitConsoleCommand :: "client \<Rightarrow> bool" where
  "canSubmitConsoleCommand k \<longleftrightarrow> consolePendingLines k \<noteq> [] \<or> trim (consoleCommand k) \<noteq> []"

definition line_ok :: "jstring \<Rightarrow> bool" where
  "line_ok line \<longleftrightarrow> trim line \<noteq> [] \<and> \<not> has_control_char line"

text \<open>\<open>slice(-50)\<close> after \<open>push\<close>\<close>

definition remember :: "jstring \<Rightarrow> jstring list \<Rightarrow> jstring list" where
  "remember line history =
     (if history \<noteq> [] \<and> last history = line then history
      else (let h = history @ [line] in drop (length h - 50) h))"

definition sendConsoleLine :: "jstring \<Rightarrow> client \<Rightarrow> bool \<times> client" where
  "sendConsoleLine line k =
     (if \<not> line_ok line then (False, k)
      else (True, (sendMessage (console_message line) k)\<lparr>consoleHistory := remember line (consoleHistory k)\<rparr>))"

text \<open>\<open>lines.filter((line) => this.sendConsoleLine(line)).length\<close>\<close>

fun sendConsoleLines :: "jstring list \<Rightarrow> client \<Rightarrow> nat \<times> client" where
  "sendConsoleLines [] k = (0, k)"
| "sendConsoleLines (line # lines) k =
     (let (sent, k1) = sendConsoleLine line k; (n, k2) = sendConsoleLines lines k1
      in (if sent then n + 1 else n, k2))"

definition submitConsoleCommand :: "client \<Rightarrow> client" where
  "submitConsoleCommand k =
     (if \<not> terminalActive k \<or> \<not> consoleMode k then k
      else
        (let lines = (if consolePendingLines k \<noteq> [] then consolePendingLines k else [consoleCommand k]);
             (sent, k1) = sendConsoleLines lines k;
             k2 = k1\<lparr>consolePendingLines := [], consoleHistoryIndex := -1\<rparr>
         in if sent > 0 then k2\<lparr>consoleCommand := []\<rparr> else k2))"

text \<open>\<open>text.split(/\r?\n|\r/)\<close>\<close>

fun split_lines :: "jstring \<Rightarrow> jstring list" where
  "split_lines [] = [[]]"
| "split_lines (c # s) =
     (if c = CHR 0x0A then [] # split_lines s
      else if c = CHR 0x0D then
        (case s of d # s' \<Rightarrow> if d = CHR 0x0A then [] # split_lines s' else [] # split_lines s
         | [] \<Rightarrow> [] # split_lines s)
      else (case split_lines s of [] \<Rightarrow> [[c]] | p # ps \<Rightarrow> (c # p) # ps))"

text \<open>Assigning \<open>lines[0]\<close> of an empty array reads \<open>undefined\<close> and appends the element.\<close>

definition first_line :: "jstring list \<Rightarrow> jstring" where
  "first_line lines = (case lines of [] \<Rightarrow> ''undefined'' | l # ls \<Rightarrow> l)"

definition pasteConsoleText :: "jstring \<Rightarrow> client \<Rightarrow> client" where
  "pasteConsoleText text k =
     (if \<not> list_ex (\<lambda>c. c = CHR 0x0D \<or> c = CHR 0x0A) text then k
      else
        (let lines = filter (\<lambda>line. trim line \<noteq> []) (split_lines text)
         in if length lines = 1 then k\<lparr>consoleCommand := consoleCommand k @ hd lines\<rparr>
            else
              (let lines1 = (if trim (consoleCommand k) \<noteq> []
                             then (consoleCommand k @ first_line lines) # tl lines else lines)
               in k\<lparr>consolePendingLines := lines1, consoleCommand := []\<rparr>)))"

definition cancelConsoleInput :: "client \<Rightarrow> client" where
  "cancelConsoleInput k =
     (if consolePendingLines k \<noteq> [] then k\<lparr>consolePendingLines := []\<rparr>
      else k\<lparr>consoleCommand := [], consoleHistoryIndex := -1\<rparr>)"

definition recallConsoleCommand :: "int \<Rightarrow> client \<Rightarrow> client" where
  "recallConsoleCommand direction k =
     (if consoleHistory k = [] then k
      else
        (let len = int (length (consoleHistory k));
             start = (if consoleHistoryIndex k = -1 then len else consoleHistoryIndex k);
             index = max 0 (min len (start + direction))
         in k\<lparr>consoleHistoryIndex := index,
              consoleCommand := (if index \<ge> len then [] else consoleHistory k ! nat index)\<rparr>))"

section \<open>Keys\<close>

definition input_message :: "jstring \<Rightarrow> json" where
  "input_message s = JObj [(''message'', JStr s)]"

text \<open>The \<open>onData\<close> listener of the xterm.\<close>

definition termData :: "jstring \<Rightarrow> client \<Rightarrow> client" where
  "termData s k =
     (if consoleMode k then k
      else (sendMessage (input_message s) k)
             \<lparr>commandBuffer := (if s = [CHR 0x0D] then [] else commandBuffer k @ s)\<rparr>)"

definition sendTerminalInput :: "jstring \<Rightarrow> client \<Rightarrow> client" where
  "sendTerminalInput s k =
     (if \<not> hasTerm k \<or> \<not> terminalActive k then k
      else if consoleMode k then k
      else sendMessage (input_message s) k)"

definition terminalSequences :: "(jstring \<times> jstring) list" where
  "terminalSequences =
     [(''arrowUp'', CHR 0x1B # ''[A''), (''arrowDown'', CHR 0x1B # ''[B''), (''arrowRight'', CHR 0x1B # ''[C''),
      (''arrowLeft'', CHR 0x1B # ''[D''), (''tab'', [CHR 0x09]), (''escape'', [CHR 0x1B]), (''ctrlC'', [CHR 0x03]),
      (''ctrlD'', [CHR 0x04]), (''ctrlBackslash'', [CHR 0x1C]), (''ctrlS'', [CHR 0x13]), (''ctrlZ'', [CHR 0x1A])]"

definition sendTerminalControl :: "jstring \<Rightarrow> client \<Rightarrow> client" where
  "sendTerminalControl sequence k =
     (case map_of terminalSequences sequence of
        Some s \<Rightarrow> sendTerminalInput s (k\<lparr>terminalModifier := None\<rparr>)
      | None \<Rightarrow> k)"

definition toggleTerminalModifier :: "jstring \<Rightarrow> client \<Rightarrow> client" where
  "toggleTerminalModifier modifier k =
     k\<lparr>terminalModifier := (if terminalModifier k = Some modifier then None else Some modifier)\<rparr>"

text \<open>\<open>key.toUpperCase().charCodeAt(0)\<close> for Latin-1 keys.\<close>

definition upper_code :: "char \<Rightarrow> nat" where
  "upper_code c =
     (let n = of_char c
      in if 97 \<le> n \<and> n \<le> 122 \<or> 224 \<le> n \<and> n \<le> 254 \<and> n \<noteq> 247 then n - 32
         else if n = 181 then 924 else if n = 223 then 83 else if n = 255 then 376 else n)"

definition control_key :: "jstring \<Rightarrow> jstring" where
  "control_key key = [char_of (case key of [] \<Rightarrow> 0 | c # s \<Rightarrow> upper_code c mod 32)]"

definition sendTerminalKey :: "jstring \<Rightarrow> client \<Rightarrow> client" where
  "sendTerminalKey key k =
     (let input = (if terminalModifier k = Some ''ctrl'' then control_key key
                   else if terminalModifier k = Some ''alt'' then CHR 0x1B # key
                   else key)
      in sendTerminalInput input (k\<lparr>terminalModifier := None\<rparr>))"

text \<open>The result of \<open>clipboard.readText\<close>: \<open>None\<close> when it is refused.\<close>

definition pasteFromClipboard :: "bool \<Rightarrow> jstring option \<Rightarrow> client \<Rightarrow> client" where
  "pasteFromClipboard available text k =
     (if \<not> available
      then put [Dispatch ''error'' (Some ''Clipboard paste is not available in this browser.'')] k
      else case text of
             Some s \<Rightarrow> if s \<noteq> [] then sendTerminalInput s k else k
           | None \<Rightarrow> put [Dispatch ''error'' (Some ''Clipboard paste permission was denied.'')] k)"

text \<open>\<open>resizeTerminal\<close> after \<open>fit\<close>, from the previous to the fitted size.\<close>

definition resizeTerminal :: "int \<times> int \<Rightarrow> int \<times> int \<Rightarrow> client \<Rightarrow> client" where
  "resizeTerminal previous fitted k =
     (if \<not> terminalActive k \<or> \<not> hasTerm k then k
      else if fst fitted > 0 \<and> snd fitted > 0 \<and> fitted \<noteq> previous
      then sendMessage (JObj [(''resize'', JObj [(''cols'', JNum (of_int (fst fitted))),
                                              (''rows'', JNum (of_int (snd fitted)))])]) k
      else k)"

section \<open>The events of the component\<close>

definition token_message :: "jstring \<Rightarrow> json" where
  "token_message t = JObj [(''terminalToken'', JStr t)]"

definition wireToken :: "jstring \<Rightarrow> client \<Rightarrow> client" where
  "wireToken t k =
     (if authRejected k then k
      else sendCommandWhenReady (token_message t) (beginTerminalSessionStart (applyConsoleMode k)))"

datatype client_event =
    FirstConnect
  | SocketOpen
  | SocketMessage frame
  | SocketErrorEvent
  | SocketClose int
  | ConnectTimeout
  | ReconnectTimer
  | KeepAlive
  | PingTimeout
  | ProbeTimeout
  | SessionStartTimeout
  | Countdown
  | WriteDone
  | WireToken jstring
  | WireStart
  | WireFailed "jstring option"
  | WireCancelled
  | Visibility bool
  | TermData jstring
  | TermKey jstring
  | TermControl jstring
  | TermModifier jstring
  | Resized "int \<times> int" "int \<times> int"
  | ClipboardPaste bool "jstring option"
  | ConsoleSubmit
  | ConsolePaste jstring
  | ConsoleCancel
  | ConsoleRecall int
  | ConsoleType jstring
  | ModeChange bool
  | ConstructorOk bool
  | Tick nat
  | Leave

fun client_enabled :: "client_event \<Rightarrow> client \<Rightarrow> bool" where
  "client_enabled FirstConnect k = first_connect k"
| "client_enabled SocketOpen k = (socket k = Some SConnecting)"
| "client_enabled (SocketMessage f) k = (socket k = Some SOpen \<or> socket k = Some SClosing)"
| "client_enabled SocketErrorEvent k = (socket k = Some SConnecting \<or> socket k = Some SOpen \<or> socket k = Some SClosing)"
| "client_enabled (SocketClose code) k = (socket k = Some SConnecting \<or> socket k = Some SOpen \<or> socket k = Some SClosing)"
| "client_enabled ConnectTimeout k = (connectionTimeoutId k \<noteq> None)"
| "client_enabled ReconnectTimer k = reconnectInterval k"
| "client_enabled KeepAlive k = (keepAliveInterval k = Some True)"
| "client_enabled PingTimeout k = (pingTimeoutId k = Some (HeartbeatTimer, True))"
| "client_enabled ProbeTimeout k = (pingTimeoutId k = Some (VisibilityProbe, True))"
| "client_enabled SessionStartTimeout k = sessionStartTimeoutId k"
| "client_enabled Countdown k = countdownInterval k"
| "client_enabled (TermData s) k = hasTerm k"
| "client_enabled e k = True"

fun client_step :: "client_event \<Rightarrow> client \<Rightarrow> client" where
  "client_step FirstConnect k = initializeWebSocket (k\<lparr>first_connect := False\<rparr>)"
| "client_step SocketOpen k = handleSocketOpen (k\<lparr>socket := Some SOpen\<rparr>)"
| "client_step (SocketMessage f) k = handleSocketMessage f k"
| "client_step SocketErrorEvent k = handleSocketError k"
| "client_step (SocketClose code) k = handleSocketClose code (k\<lparr>socket := Some SClosed\<rparr>)"
| "client_step ConnectTimeout k = connectTimeout k"
| "client_step ReconnectTimer k = reconnectTimer k"
| "client_step KeepAlive k = keepAlive k"
| "client_step PingTimeout k = pingTimeout k"
| "client_step ProbeTimeout k = visibilityProbe k"
| "client_step SessionStartTimeout k = sessionStartTimeout k"
| "client_step Countdown k = updateTerminalSessionCountdown k"
| "client_step WriteDone k = flowControlCallback k"
| "client_step (WireToken t) k = wireToken t k"
| "client_step WireStart k = beginTerminalSessionStart k"
| "client_step (WireFailed m) k = failTerminalSessionStart m k"
| "client_step WireCancelled k = cancelTerminalAutoStart k"
| "client_step (Visibility hidden) k = handleVisibilityChange hidden k"
| "client_step (TermData s) k = termData s k"
| "client_step (TermKey s) k = sendTerminalKey s k"
| "client_step (TermControl s) k = sendTerminalControl s k"
| "client_step (TermModifier s) k = toggleTerminalModifier s k"
| "client_step (Resized p f) k = resizeTerminal p f k"
| "client_step (ClipboardPaste a s) k = pasteFromClipboard a s k"
| "client_step ConsoleSubmit k = submitConsoleCommand k"
| "client_step (ConsolePaste s) k = pasteConsoleText s k"
| "client_step ConsoleCancel k = cancelConsoleInput k"
| "client_step (ConsoleRecall d) k = recallConsoleCommand d k"
| "client_step (ConsoleType s) k = k\<lparr>consoleCommand := s\<rparr>"
| "client_step (ModeChange attach) k = k\<lparr>consoleMode := attach\<rparr>"
| "client_step (ConstructorOk b) k = k\<lparr>socket_ok := b\<rparr>"
| "client_step (Tick n) k = k\<lparr>now_ms := now_ms k + n\<rparr>"
| "client_step Leave k = cleanup k"

text \<open>Runs of a component, with their events.\<close>

inductive client_run :: "client_event list \<Rightarrow> client \<Rightarrow> bool" where
  start: "client_run [] (new_client term autoStart attach)"
| step: "client_run es k \<Longrightarrow> client_enabled e k \<Longrightarrow> client_run (es @ [e]) (client_step e k)"

end
