(* ===== verification/Terminal_Client_Invariants.thy ===== *)
theory Terminal_Client_Invariants
  imports Terminal_Client
begin

text \<open>
  What the browser side of a terminal promises over a whole run of events. As for the server, an
  invariant is a predicate that the primitive changes of the component keep: the locale
  \<open>client_invariant\<close> carries it through every handler once, and each invariant is an interpretation.
\<close>

section \<open>The tracked part of the component\<close>

definition is_token_message :: "json \<Rightarrow> bool" where
  "is_token_message m =
     (case m of JObj [(key, JStr t)] \<Rightarrow> key = ''terminalToken'' | _ \<Rightarrow> False)"

fun tracked :: "client_effect \<Rightarrow> bool" where
  "tracked (Send m) = is_token_message m"
| "tracked (CloseSocket code reason) = (code = 1001)"
| "tracked _ = False"

definition same_view :: "client \<Rightarrow> client \<Rightarrow> bool" where
  "same_view k k' \<longleftrightarrow>
     heartbeatMissed k' = heartbeatMissed k \<and> pingTimeoutId k' = pingTimeoutId k \<and>
     reconnectAttempts k' = reconnectAttempts k \<and> reconnectInterval k' = reconnectInterval k \<and>
     authRejected k' = authRejected k \<and> pendingCommand k' = pendingCommand k \<and>
     consoleHistory k' = consoleHistory k \<and> consoleHistoryIndex k' = consoleHistoryIndex k \<and>
     filter tracked (k_out k') = filter tracked (k_out k)"

lemma is_token_message_simps [simp]:
  "is_token_message (token_message t)" "\<not> is_token_message (input_message s)"
  "\<not> is_token_message (console_message s)" "\<not> is_token_message (JObj [(''ping'', v)])"
  "\<not> is_token_message (JObj [(''pause'', v)])" "\<not> is_token_message (JObj [(''resume'', v)])"
  "\<not> is_token_message (JObj [(''resize'', v)])" "\<not> is_token_message (JObj [(''checkActive'', v)])"
  by (simp_all add: is_token_message_def token_message_def input_message_def console_message_def split: json.split)

locale client_invariant =
  fixes I :: "client_event list \<Rightarrow> client \<Rightarrow> bool"
  assumes init: "I [] (new_client term autoStart attach)"
    and quiet: "I es k \<Longrightarrow> same_view k k' \<Longrightarrow> I es k'"
    and other_event: "I es k \<Longrightarrow> (\<And>t. e \<noteq> WireToken t) \<Longrightarrow> I (es @ [e]) k"
    and ignored: "I es k \<Longrightarrow> I (es @ [WireToken t]) k"
    and issue: "I es k \<Longrightarrow> I (es @ [WireToken t]) (k\<lparr>pendingCommand := Some (token_message t)\<rparr>)"
    and issue_send: "I es k \<Longrightarrow> I (es @ [WireToken t]) (put [Send (token_message t)] k)"
    and drop_command: "I es k \<Longrightarrow> I es (k\<lparr>pendingCommand := None\<rparr>)"
    and send_command: "I es k \<Longrightarrow> pendingCommand k = Some m \<Longrightarrow> I es ((put [Send m] k)\<lparr>pendingCommand := None\<rparr>)"
    and no_attempts: "I es k \<Longrightarrow> I es (k\<lparr>reconnectAttempts := 0\<rparr>)"
    and unschedule: "I es k \<Longrightarrow> I es (k\<lparr>reconnectInterval := False\<rparr>)"
    and schedule: "I es k \<Longrightarrow> \<not> authRejected k \<Longrightarrow> reconnectAttempts k < maxReconnectAttempts \<Longrightarrow>
      I es (k\<lparr>reconnectInterval := True\<rparr>)"
    and next_attempt: "I es k \<Longrightarrow> reconnectInterval k \<Longrightarrow>
      I es (k\<lparr>reconnectInterval := False, reconnectAttempts := reconnectAttempts k + 1\<rparr>)"
    and allow: "I es k \<Longrightarrow> I es (k\<lparr>authRejected := False\<rparr>)"
    and reject: "I es k \<Longrightarrow> \<not> reconnectInterval k \<Longrightarrow> I es (k\<lparr>authRejected := True\<rparr>)"
    and heard: "I es k \<Longrightarrow> I es (k\<lparr>heartbeatMissed := 0\<rparr>)"
    and arm_ping: "I es k \<Longrightarrow> heartbeatMissed k = 0 \<Longrightarrow> I es (k\<lparr>pingTimeoutId := Some (HeartbeatTimer, True)\<rparr>)"
    and other_ping: "I es k \<Longrightarrow> x \<noteq> Some (HeartbeatTimer, True) \<Longrightarrow> I es (k\<lparr>pingTimeoutId := x\<rparr>)"
    and missed: "I es k \<Longrightarrow> pingTimeoutId k = Some (HeartbeatTimer, True) \<Longrightarrow> I es (pingTimeout k)"
    and remembered: "I es k \<Longrightarrow> I es (k\<lparr>consoleHistory := remember line (consoleHistory k)\<rparr>)"
    and recalled: "I es k \<Longrightarrow> -1 \<le> i \<Longrightarrow> i \<le> int (length (consoleHistory k)) \<Longrightarrow>
      I es (k\<lparr>consoleHistoryIndex := i\<rparr>)"
    and forgotten: "I es k \<Longrightarrow> I es (k\<lparr>consoleHistory := [], consoleHistoryIndex := -1\<rparr>)"
begin

lemma update [intro]:
  assumes "I es k"
  shows "I es (k\<lparr>starting := b\<rparr>)" "I es (k\<lparr>sessionStartTimeoutId := b\<rparr>)" "I es (k\<lparr>connectionError := e\<rparr>)"
    "I es (k\<lparr>connectionState := s\<rparr>)" "I es (k\<lparr>message := m\<rparr>)" "I es (k\<lparr>socket := ss\<rparr>)"
    "I es (k\<lparr>connectionTimeoutId := c\<rparr>)" "I es (k\<lparr>keepAliveInterval := ka\<rparr>)" "I es (k\<lparr>countdownInterval := b\<rparr>)"
    "I es (k\<lparr>sessionStartedAt := sa\<rparr>)" "I es (k\<lparr>remainingSeconds := rm\<rparr>)" "I es (k\<lparr>pendingWrites := n\<rparr>)"
    "I es (k\<lparr>paused := b\<rparr>)" "I es (k\<lparr>commandBuffer := m\<rparr>)" "I es (k\<lparr>terminalActive := b\<rparr>)"
    "I es (k\<lparr>isDocumentVisible := b\<rparr>)" "I es (k\<lparr>wasConnectedBeforeHidden := b\<rparr>)" "I es (k\<lparr>term_initialized := b\<rparr>)"
    "I es (k\<lparr>consoleCommand := m\<rparr>)" "I es (k\<lparr>consolePendingLines := ls\<rparr>)" "I es (k\<lparr>terminalModifier := tm\<rparr>)"
    "I es (k\<lparr>consoleMode := b\<rparr>)" "I es (k\<lparr>socket_ok := b\<rparr>)" "I es (k\<lparr>now_ms := n\<rparr>)" "I es (k\<lparr>first_connect := b\<rparr>)"
  by (rule quiet [OF assms], simp add: same_view_def)+

lemma put_untracked: "I es k \<Longrightarrow> filter tracked xs = [] \<Longrightarrow> I es (put xs k)"
  by (erule quiet) (simp add: same_view_def put_def)

lemma sendMessage_keeps: "I es k \<Longrightarrow> \<not> is_token_message m \<Longrightarrow> I es (sendMessage m k)"
  by (simp add: sendMessage_def put_untracked)

lemma clearSessionStartTimeout_keeps [intro]: "I es k \<Longrightarrow> I es (clearSessionStartTimeout k)"
  by (auto simp: clearSessionStartTimeout_def)

lemma failTerminalConnection_keeps [intro]: "I es k \<Longrightarrow> I es (failTerminalConnection m b k)"
  unfolding failTerminalConnection_def Let_def by (auto intro!: put_untracked)

lemma sessionStartTimeout_keeps: "I es k \<Longrightarrow> I es (sessionStartTimeout k)"
  unfolding sessionStartTimeout_def Let_def by (auto intro!: drop_command)

lemma start_ends_keep:
  assumes "I es k"
  shows "I es (completeTerminalSessionStart k)" "I es (failTerminalSessionStart m k)" "I es (cancelTerminalAutoStart k)"
    "I es (armTerminalSessionStartTimeout k)"
  using assms by (auto simp: completeTerminalSessionStart_def failTerminalSessionStart_def cancelTerminalAutoStart_def
      armTerminalSessionStartTimeout_def intro!: drop_command)

lemma clearAllTimers_keeps: assumes "I es k" shows "I es (clearAllTimers k)"
proof -
  have "I es (((((k\<lparr>keepAliveInterval := None\<rparr>)\<lparr>reconnectInterval := False\<rparr>)\<lparr>connectionTimeoutId := None\<rparr>)
      \<lparr>pingTimeoutId := None\<rparr>)\<lparr>countdownInterval := False\<rparr>)"
    using assms by (intro update other_ping unschedule) simp_all
  then show ?thesis by (simp add: clearAllTimers_def)
qed

lemma countdown_keeps:
  assumes "I es k"
  shows "I es (resetTerminalSessionCountdown k)" "I es (updateTerminalSessionCountdown k)"
    "I es (startTerminalSessionCountdown k)"
  by (rule quiet [OF assms],
      simp add: same_view_def resetTerminalSessionCountdown_def updateTerminalSessionCountdown_def
        startTerminalSessionCountdown_def Let_def split: option.split)+

lemma watch_active_keeps: "I es k \<Longrightarrow> I es (watch_active b k)"
  by (auto simp: watch_active_def)

lemma close_socket_keeps: "I es k \<Longrightarrow> code \<noteq> 1001 \<Longrightarrow> I es (close_socket code m k)"
  by (auto simp: close_socket_def intro!: put_untracked)

lemma scheduleReconnect_keeps: "I es k \<Longrightarrow> I es (scheduleReconnect k)"
  unfolding scheduleReconnect_def by (auto intro!: schedule)

lemma handleConnectionError_keeps: "I es k \<Longrightarrow> I es (handleConnectionError k)"
  unfolding handleConnectionError_def Let_def by (auto intro!: scheduleReconnect_keeps)

lemma initializeWebSocket_keeps: "I es k \<Longrightarrow> I es (initializeWebSocket k)"
  unfolding initializeWebSocket_def Let_def
  by (auto intro!: handleConnectionError_keeps clearAllTimers_keeps put_untracked)

lemma connectTimeout_keeps: "I es k \<Longrightarrow> I es (connectTimeout k)"
  unfolding connectTimeout_def Let_def by (auto intro!: close_socket_keeps)

lemma reconnectTimer_keeps: "I es k \<Longrightarrow> reconnectInterval k \<Longrightarrow> I es (reconnectTimer k)"
  unfolding reconnectTimer_def by (rule initializeWebSocket_keeps, rule next_attempt)

lemma ensureWebSocketConnection_keeps: assumes "I es k" shows "I es (ensureWebSocketConnection k)"
proof -
  have "I es ((k\<lparr>reconnectInterval := False\<rparr>)\<lparr>reconnectAttempts := 0\<rparr>)"
    using assms by (intro no_attempts unschedule)
  then show ?thesis using assms by (auto simp: ensureWebSocketConnection_def intro: initializeWebSocket_keeps)
qed

lemma beginTerminalSessionStart_keeps: assumes "I es k" shows "I es (beginTerminalSessionStart k)"
proof -
  have "I es (((k\<lparr>starting := True\<rparr>)\<lparr>connectionError := None\<rparr>)\<lparr>authRejected := False\<rparr>)"
    using assms by (intro allow update)
  then show ?thesis
    by (auto simp: beginTerminalSessionStart_def intro!: ensureWebSocketConnection_keeps start_ends_keep)
qed

lemma handleSocketError_keeps: "I es k \<Longrightarrow> I es (handleSocketError k)"
  unfolding handleSocketError_def by auto

lemma ping_armed: "I es k \<Longrightarrow> heartbeatMissed k = 0 \<Longrightarrow> I es (resetPingTimeout k)"
  by (simp add: resetPingTimeout_def arm_ping)

lemma handleSocketOpen_keeps:
  assumes "I es k" shows "I es (handleSocketOpen k)"
proof -
  let ?k1 = "k\<lparr>connectionState := Connected, reconnectAttempts := 0, heartbeatMissed := 0, connectionTimeoutId := None\<rparr>"
  let ?k2 = "case pendingCommand ?k1 of None \<Rightarrow> ?k1
    | Some m \<Rightarrow> (sendMessage m ?k1)\<lparr>pendingCommand := None, connectionError := None, starting := True\<rparr>"
  let ?k3 = "if keepAliveInterval ?k2 = None then ?k2\<lparr>keepAliveInterval := Some True\<rparr> else ?k2"
  have "I es ((((k\<lparr>connectionState := Connected\<rparr>)\<lparr>reconnectAttempts := 0\<rparr>)\<lparr>heartbeatMissed := 0\<rparr>)\<lparr>connectionTimeoutId := None\<rparr>)"
    using assms by (intro update no_attempts heard)
  then have k1: "I es ?k1" by simp
  have "I es ((sendMessage m ?k1)\<lparr>pendingCommand := None\<rparr>)" if "pendingCommand ?k1 = Some m" for m
    using drop_command [OF k1] send_command [OF k1 that] by (simp add: sendMessage_def put_def)
  then have "I es (((sendMessage m ?k1)\<lparr>pendingCommand := None\<rparr>)\<lparr>connectionError := None\<rparr>\<lparr>starting := True\<rparr>)"
    if "pendingCommand ?k1 = Some m" for m using that by (intro update) blast
  then have k2: "I es ?k2" using k1 by (auto split: option.split)
  have "heartbeatMissed ?k2 = 0" by (simp add: sendMessage_def put_def split: option.split)
  then have "I es (resetPingTimeout ?k3)" using k2 by (intro ping_armed) (auto simp del: select_convs)
  then show ?thesis unfolding handleSocketOpen_def Let_def by (intro put_untracked) simp_all
qed

lemma resetTerminal_keeps: assumes "I es k" shows "I es (resetTerminal k)"
proof -
  let ?k = "put [Dispatch ''error'' (Some ''Terminal websocket connection lost. Reconnecting...''),
    TermWrite ''Connection lost, reconnecting...''] k"
  have "I es ((((?k\<lparr>pendingWrites := 0\<rparr>)\<lparr>paused := False\<rparr>)\<lparr>commandBuffer := []\<rparr>)\<lparr>pendingCommand := None\<rparr>)"
    using assms by (intro drop_command update put_untracked) simp_all
  then show ?thesis using assms
    by (auto simp: resetTerminal_def intro!: put_untracked countdown_keeps)
qed

lemma cleared_no_timer: "\<not> reconnectInterval (resetTerminalSessionCountdown (clearAllTimers k))"
  by (simp add: resetTerminalSessionCountdown_def clearAllTimers_def)

lemma handleSocketClose_keeps: assumes "I es k0" shows "I es (handleSocketClose code k0)"
proof -
  let ?k = "resetTerminalSessionCountdown (clearAllTimers (k0\<lparr>connectionState := Disconnected\<rparr>))"
  have k: "I es ?k" using assms by (intro countdown_keeps clearAllTimers_keeps update)
  have "I es ((?k\<lparr>authRejected := True\<rparr>)\<lparr>pendingCommand := None\<rparr>)"
    using k by (intro drop_command reject) (simp_all add: cleared_no_timer)
  then have k1: "I es (?k\<lparr>authRejected := True, pendingCommand := None\<rparr>)" by simp
  have k2: "I es ((resetTerminal ?k)\<lparr>message := m\<rparr>)" for m
    using resetTerminal_keeps [OF k] by blast
  show ?thesis
    using k k1 k2 unfolding handleSocketClose_def Let_def
    by (auto split: option.split intro!: failTerminalConnection_keeps put_untracked watch_active_keeps
        scheduleReconnect_keeps)
qed

lemma keepAlive_keeps: "I es k \<Longrightarrow> I es (keepAlive k)"
  unfolding keepAlive_def by (auto intro!: sendMessage_keeps initializeWebSocket_keeps)

lemma visibilityProbe_keeps: "I es k \<Longrightarrow> I es (visibilityProbe k)"
  unfolding visibilityProbe_def by (auto intro!: close_socket_keeps other_ping)

lemma handleVisibilityChange_keeps: assumes "I es k0" shows "I es (handleVisibilityChange hidden k0)"
proof -
  let ?k = "k0\<lparr>isDocumentVisible := \<not> hidden\<rparr>"
  have k: "I es ?k" using assms by blast
  have "I es ((?k\<lparr>wasConnectedBeforeHidden := b\<rparr>)\<lparr>pingTimeoutId := None\<rparr>)" for b
    using assms by (intro other_ping update) simp_all
  moreover have "I es ((sendMessage (JObj [(''ping'', JBool True)]) (?k\<lparr>heartbeatMissed := 0\<rparr>))
      \<lparr>pingTimeoutId := Some (VisibilityProbe, True)\<rparr>)"
    by (intro other_ping sendMessage_keeps heard k) simp_all
  ultimately show ?thesis
    using k assms unfolding handleVisibilityChange_def Let_def
    by (auto intro!: initializeWebSocket_keeps no_attempts)
qed

lemma writeTerminalOutput_keeps: "I es k \<Longrightarrow> I es (writeTerminalOutput d k)"
  unfolding writeTerminalOutput_def by (auto intro!: put_untracked)

lemma flowControlCallback_keeps: assumes "I es k" shows "I es (flowControlCallback k)"
  unfolding flowControlCallback_def Let_def using assms by (auto intro!: sendMessage_keeps)

lemma handleSocketMessage_keeps: assumes "I es k" shows "I es (handleSocketMessage f k)"
proof -
  have 1: "I es (resetPingTimeout (k\<lparr>heartbeatMissed := 0\<rparr>))"
    using assms by (intro ping_armed heard) simp_all
  have 2: "I es (completeTerminalSessionStart k)" using start_ends_keep(1) [OF assms] .
  then have 3: "I es (put [TermWrite m] (completeTerminalSessionStart k))"
    "I es (put [TermOpen] ((completeTerminalSessionStart k)\<lparr>term_initialized := True\<rparr>))" for m
    by (auto intro!: put_untracked)
  show ?thesis
    using assms 1 2 3 unfolding handleSocketMessage_def Let_def
    by (simp split: frame.split if_split del: isTerminalStartupRejection.simps isTerminalSessionEndedNotice.simps)
       (intro conjI impI allI; (intro put_untracked countdown_keeps watch_active_keeps writeTerminalOutput_keeps
          failTerminalConnection_keeps clearSessionStartTimeout_keeps drop_command update)?; simp)
qed

lemma cleanup_keeps: assumes "I es k" shows "I es (cleanup k)"
proof -
  let ?k = "clearSessionStartTimeout (clearAllTimers (checkIfProcessIsRunningAndKillIt k))"
  have "I es (checkIfProcessIsRunningAndKillIt k)"
    unfolding checkIfProcessIsRunningAndKillIt_def using assms by (intro sendMessage_keeps) simp_all
  then have "I es ((?k\<lparr>connectionState := Disconnected\<rparr>)\<lparr>pendingCommand := None\<rparr>)"
    by (intro drop_command update clearAllTimers_keeps clearSessionStartTimeout_keeps)
  then show ?thesis
    unfolding cleanup_def Let_def by (intro close_socket_keeps countdown_keeps) simp_all
qed

lemma sendConsoleLine_keeps:
  assumes "I es k" "sendConsoleLine line k = (b, k')" shows "I es k'"
proof -
  have "I es (k1\<lparr>consoleHistory := remember line (consoleHistory k1)\<rparr>)" if "I es k1" for k1
    using that by (rule remembered)
  moreover have "consoleHistory (sendMessage m k) = consoleHistory k" for m
    by (simp add: sendMessage_def put_def)
  ultimately have "I es ((sendMessage (console_message line) k)\<lparr>consoleHistory := remember line (consoleHistory k)\<rparr>)"
    using sendMessage_keeps [OF assms(1), of "console_message line"] by (metis is_token_message_simps(3))
  then show ?thesis using assms by (auto simp: sendConsoleLine_def split: if_splits)
qed

lemma sendConsoleLines_keeps: "I es k \<Longrightarrow> sendConsoleLines lines k = (n, k') \<Longrightarrow> I es k'"
proof (induction lines arbitrary: k n k')
  case (Cons line lines)
  obtain b k1 where 1: "sendConsoleLine line k = (b, k1)" by (cases "sendConsoleLine line k")
  obtain m k2 where 2: "sendConsoleLines lines k1 = (m, k2)" by (cases "sendConsoleLines lines k1")
  have "I es k1" by (rule sendConsoleLine_keeps [OF Cons.prems(1) 1])
  from Cons.IH [OF this 2] show ?case using Cons.prems(2) by (simp add: 1 2)
qed simp

lemma submitConsoleCommand_keeps: assumes "I es k" shows "I es (submitConsoleCommand k)"
proof -
  have reset: "I es (k1\<lparr>consolePendingLines := [], consoleHistoryIndex := -1\<rparr>)" if "I es k1" for k1
  proof -
    have "I es ((k1\<lparr>consolePendingLines := []\<rparr>)\<lparr>consoleHistoryIndex := -1\<rparr>)"
      using that by (intro recalled update) simp_all
    then show ?thesis by simp
  qed
  obtain sent k1 where lines: "sendConsoleLines (if consolePendingLines k \<noteq> [] then consolePendingLines k
      else [consoleCommand k]) k = (sent, k1)" by (metis surj_pair)
  have "I es (k1\<lparr>consolePendingLines := [], consoleHistoryIndex := -1\<rparr>)"
    by (rule reset, rule sendConsoleLines_keeps [OF assms lines])
  then show ?thesis
    unfolding submitConsoleCommand_def Let_def lines using assms update(19) by (auto simp del: update_convs)
qed

lemma applyConsoleMode_keeps: assumes "I es k" shows "I es (applyConsoleMode k)"
proof -
  have "I es (((k\<lparr>consoleHistory := [], consoleHistoryIndex := -1\<rparr>)\<lparr>consoleCommand := []\<rparr>)\<lparr>consolePendingLines := []\<rparr>)"
    using assms by (intro update forgotten)
  then show ?thesis using assms by (simp add: applyConsoleMode_def loadConsoleHistory_def)
qed

lemma recallConsoleCommand_keeps: assumes "I es k" shows "I es (recallConsoleCommand d k)"
proof -
  have "I es ((k\<lparr>consoleHistoryIndex := i\<rparr>)\<lparr>consoleCommand := m\<rparr>)"
    if "-1 \<le> i" "i \<le> int (length (consoleHistory k))" for i m
    using assms that by (intro update recalled)
  then show ?thesis using assms by (simp add: recallConsoleCommand_def Let_def)
qed

lemma console_edit_keeps:
  assumes "I es k" shows "I es (pasteConsoleText text k)" "I es (cancelConsoleInput k)"
proof -
  have p: "I es ((k\<lparr>consolePendingLines := ls\<rparr>)\<lparr>consoleCommand := m\<rparr>)" for ls m
    using assms by (intro update)
  show "I es (pasteConsoleText text k)"
    unfolding pasteConsoleText_def Let_def using assms p by (auto simp del: update_convs)
  have "I es ((k\<lparr>consoleCommand := []\<rparr>)\<lparr>consoleHistoryIndex := -1\<rparr>)"
    using assms by (intro recalled update) simp_all
  then show "I es (cancelConsoleInput k)"
    unfolding cancelConsoleInput_def using assms by auto
qed

lemma sendTerminalInput_keeps: "I es k \<Longrightarrow> I es (sendTerminalInput m k)"
  unfolding sendTerminalInput_def by (simp add: sendMessage_keeps)

lemma input_keeps:
  assumes "I es k"
  shows "I es (termData m k)" "I es (sendTerminalKey m k)" "I es (sendTerminalControl m k)"
    "I es (toggleTerminalModifier m k)" "I es (pasteFromClipboard b x k)" "I es (resizeTerminal p f k)"
proof -
  show "I es (termData m k)" using assms by (simp add: termData_def sendMessage_keeps update)
  show "I es (sendTerminalKey m k)"
    unfolding sendTerminalKey_def Let_def using assms by (intro sendTerminalInput_keeps update)
  show "I es (sendTerminalControl m k)"
    using assms by (auto simp: sendTerminalControl_def split: option.split intro!: sendTerminalInput_keeps)
  show "I es (toggleTerminalModifier m k)" using assms by (auto simp: toggleTerminalModifier_def)
  show "I es (pasteFromClipboard b x k)" using assms
    by (auto simp: pasteFromClipboard_def split: option.split intro!: sendTerminalInput_keeps put_untracked)
  show "I es (resizeTerminal p f k)" using assms by (simp add: resizeTerminal_def sendMessage_keeps)
qed

lemma wireToken_keeps: assumes "I es k" shows "I (es @ [WireToken t]) (wireToken t k)"
proof -
  have "I es (beginTerminalSessionStart (applyConsoleMode k))"
    using assms by (intro beginTerminalSessionStart_keeps applyConsoleMode_keeps)
  from issue [OF this, of t] issue_send [OF this, of t] ignored [OF this, of t] ignored [OF assms, of t]
  show ?thesis by (simp add: wireToken_def sendCommandWhenReady_def sendMessage_def)
qed

lemma client_step_keeps:
  assumes "I es k" "client_enabled e k" shows "I (es @ [e]) (client_step e k)"
proof (cases "\<exists>t. e = WireToken t")
  case True
  then show ?thesis using wireToken_keeps [OF assms(1)] by auto
next
  case False
  have "I es (client_step e k)"
  proof (cases e)
    case PingTimeout
    then show ?thesis using assms missed by simp
  next
    case ReconnectTimer
    then show ?thesis using assms reconnectTimer_keeps by simp
  qed (use assms(1) False in \<open>auto intro: initializeWebSocket_keeps handleSocketOpen_keeps handleSocketMessage_keeps
    handleSocketError_keeps handleSocketClose_keeps connectTimeout_keeps keepAlive_keeps visibilityProbe_keeps
    sessionStartTimeout_keeps countdown_keeps flowControlCallback_keeps beginTerminalSessionStart_keeps
    start_ends_keep handleVisibilityChange_keeps input_keeps submitConsoleCommand_keeps console_edit_keeps
    recallConsoleCommand_keeps cleanup_keeps\<close>)
  then show ?thesis using False by (blast intro: other_event)
qed

lemma run_keeps: "client_run es k \<Longrightarrow> I es k"
  by (induction rule: client_run.induct) (blast intro: init client_step_keeps)+

end

end
