(* ===== verification/Terminal_Client_Safety.thy ===== *)
theory Terminal_Client_Safety
  imports Terminal_Client_Invariants
begin

text \<open>
  Promises of the browser side of a terminal: tokens are single use, reconnecting is bounded and stops
  when authentication is rejected, flow control resumes, and console mode sends printable lines only.
\<close>

section \<open>Single-use tokens\<close>

definition token_uses :: "jstring \<Rightarrow> client \<Rightarrow> nat" where
  "token_uses t k = count_list (k_out k) (Send (token_message t)) +
     (if pendingCommand k = Some (token_message t) then 1 else 0)"

lemma count_list_filter: "P x \<Longrightarrow> count_list (filter P xs) x = count_list xs x"
  by (induction xs) auto

lemma token_message_inject [simp]: "token_message t = token_message u \<longleftrightarrow> t = u"
  by (simp add: token_message_def)

lemma same_view_uses: assumes "same_view k k'" shows "token_uses t k' = token_uses t k"
proof -
  have "count_list (k_out k') (Send (token_message t)) = count_list (k_out k) (Send (token_message t))"
    using assms count_list_filter [of tracked "Send (token_message t)"] unfolding same_view_def
    by (metis is_token_message_simps(1) tracked.simps(1))
  then show ?thesis using assms by (simp add: token_uses_def same_view_def)
qed

lemma pingTimeout_fields [simp]:
  "pendingCommand (pingTimeout k) = pendingCommand k" "reconnectAttempts (pingTimeout k) = reconnectAttempts k"
  "reconnectInterval (pingTimeout k) = reconnectInterval k" "authRejected (pingTimeout k) = authRejected k"
  "consoleHistory (pingTimeout k) = consoleHistory k" "consoleHistoryIndex (pingTimeout k) = consoleHistoryIndex k"
  "heartbeatMissed (pingTimeout k) = heartbeatMissed k + 1" "pingTimeoutId (pingTimeout k) = Some (HeartbeatTimer, False)"
  "count_list (k_out (pingTimeout k)) (Send m) = count_list (k_out k) (Send m)"
  by (simp_all add: pingTimeout_def close_socket_def put_def Let_def)

lemma put_fields [simp]:
  "pendingCommand (put xs k) = pendingCommand k" "reconnectAttempts (put xs k) = reconnectAttempts k"
  "reconnectInterval (put xs k) = reconnectInterval k" "authRejected (put xs k) = authRejected k"
  "consoleHistory (put xs k) = consoleHistory k" "consoleHistoryIndex (put xs k) = consoleHistoryIndex k"
  "heartbeatMissed (put xs k) = heartbeatMissed k" "pingTimeoutId (put xs k) = pingTimeoutId k"
  "k_out (put xs k) = k_out k @ xs" "socket (put xs k) = socket k" "paused (put xs k) = paused k"
  "pendingWrites (put xs k) = pendingWrites k"
  by (simp_all add: put_def)

lemma token_uses_simps [simp]:
  "token_uses t (k\<lparr>reconnectAttempts := n\<rparr>) = token_uses t k" "token_uses t (k\<lparr>reconnectInterval := b\<rparr>) = token_uses t k"
  "token_uses t (k\<lparr>authRejected := b\<rparr>) = token_uses t k" "token_uses t (k\<lparr>heartbeatMissed := n\<rparr>) = token_uses t k"
  "token_uses t (k\<lparr>pingTimeoutId := p\<rparr>) = token_uses t k" "token_uses t (k\<lparr>consoleHistory := h\<rparr>) = token_uses t k"
  "token_uses t (k\<lparr>consoleHistoryIndex := i\<rparr>) = token_uses t k" "token_uses t (pingTimeout k) = token_uses t k"
  "token_uses t (new_client term autoStart attach) = 0"
  by (simp_all add: token_uses_def new_client_def)

lemma token_uses_changes:
  "token_uses t (k\<lparr>pendingCommand := None\<rparr>) \<le> token_uses t k"
  "token_uses t (k\<lparr>pendingCommand := Some (token_message u)\<rparr>) \<le> token_uses t k + (if u = t then 1 else 0)"
  "token_uses t (put [Send (token_message u)] k) = token_uses t k + (if u = t then 1 else 0)"
  "pendingCommand k = Some m \<Longrightarrow> token_uses t ((put [Send m] k)\<lparr>pendingCommand := None\<rparr>) = token_uses t k"
  by (auto simp: token_uses_def)

definition tokens_bounded :: "client_event list \<Rightarrow> client \<Rightarrow> bool" where
  "tokens_bounded es k \<longleftrightarrow> (\<forall>t. token_uses t k \<le> count_list es (WireToken t))"

interpretation token_inv: client_invariant tokens_bounded
proof (unfold_locales, goal_cases)
  case (5 es k t)
  then show ?case unfolding tokens_bounded_def
    using order_trans [OF token_uses_changes(2)] by (fastforce simp: add_mono)
next
  case (6 es k t)
  then show ?case by (auto simp: tokens_bounded_def token_uses_changes(3))
next
  case (7 es k)
  then show ?case unfolding tokens_bounded_def by (blast intro: order_trans [OF token_uses_changes(1)])
next
  case (8 es k m)
  then show ?case by (simp add: tokens_bounded_def token_uses_changes(4))
qed (simp_all add: tokens_bounded_def same_view_uses le_SucI)

section \<open>Heartbeat\<close>

interpretation heartbeat: client_invariant
  "\<lambda>es k. heartbeatMissed k \<le> 1 \<and> (pingTimeoutId k = Some (HeartbeatTimer, True) \<longrightarrow> heartbeatMissed k = 0) \<and>
     (\<forall>reason. CloseSocket 1001 reason \<notin> set (filter tracked (k_out k)))"
  by unfold_locales
     (auto simp: same_view_def new_client_def pingTimeout_def maxHeartbeatMisses_def)

section \<open>Reconnecting\<close>

interpretation reconnecting: client_invariant
  "\<lambda>es k. reconnectAttempts k \<le> maxReconnectAttempts \<and>
     (reconnectInterval k \<longrightarrow> reconnectAttempts k < maxReconnectAttempts \<and> \<not> authRejected k)"
  by unfold_locales
     (auto simp: same_view_def new_client_def maxReconnectAttempts_def)

section \<open>Console history\<close>

interpretation history: client_invariant
  "\<lambda>es k. length (consoleHistory k) \<le> 50 \<and> -1 \<le> consoleHistoryIndex k \<and>
     consoleHistoryIndex k \<le> int (length (consoleHistory k))"
  by unfold_locales (auto simp: same_view_def new_client_def remember_def Let_def)

section \<open>Properties\<close>

text \<open>A sample run: a token is issued, the first socket fails, the second opens.\<close>

definition sample_events :: "client_event list" where
  "sample_events = [WireToken ''tok'', SocketErrorEvent, SocketClose 1006, ReconnectTimer, SocketOpen]"

fun client_enabled_run :: "client_event list \<Rightarrow> client \<Rightarrow> bool" where
  "client_enabled_run [] k = True"
| "client_enabled_run (e # es) k = (client_enabled e k \<and> client_enabled_run es (client_step e k))"

lemma client_run_fold:
  "client_run ds k \<Longrightarrow> client_enabled_run es k \<Longrightarrow> client_run (ds @ es) (fold client_step es k)"
proof (induction es arbitrary: ds k)
  case (Cons e es)
  then have "client_run (ds @ [e]) (client_step e k)" by (auto intro: client_run.step)
  from Cons.IH [OF this] Cons.prems(2) show ?case by simp
qed simp

lemmas client_eval = wireToken_def applyConsoleMode_def beginTerminalSessionStart_def armTerminalSessionStartTimeout_def
  clearSessionStartTimeout_def ensureWebSocketConnection_def initializeWebSocket_def clearAllTimers_def
  sendCommandWhenReady_def isWebSocketReady_def handleSocketError_def isTerminalSessionPending_def
  failTerminalConnection_def has_error_def handleSocketClose_def resolveTerminalCloseOutcome_def
  resetTerminalSessionCountdown_def scheduleReconnect_def reconnectTimer_def handleSocketOpen_def
  sendMessage_def resetPingTimeout_def new_client_def put_def isTerminalAuthRejectionCode_def
  CLIENT_AUTH_REJECTED_def CLIENT_TOKEN_REJECTED_def CLOSE_NORMAL_def maxReconnectAttempts_def

definition sample_client :: client where
  "sample_client = fold client_step sample_events (new_client True False False)"

lemma sample_client_run: "client_run sample_events sample_client"
proof -
  have "client_enabled_run sample_events (new_client True False False)"
    by (simp add: sample_events_def client_eval Let_def)
  from client_run_fold [OF client_run.start this] show ?thesis by (simp add: sample_client_def)
qed

lemma sample_client_state:
  "k_out sample_client = [NewSocket, Dispatch ''error'' (Some ERR_connectionFailed), NewSocket,
     Send (token_message ''tok''), Dispatch ''terminal-websocket-ready'' None]"
  "starting sample_client" "\<not> terminalActive sample_client" "\<not> sessionStartTimeoutId sample_client"
  "socket sample_client = Some SOpen" "reconnectAttempts sample_client = 0"
  by (simp_all add: sample_client_def sample_events_def client_eval Let_def)

text \<open>C15: A terminal token is sent at most as often as Coolify issued it, however often the socket
  closes and reopens: an issued token is never replayed.\<close>

theorem token_never_replayed:
  assumes "client_run es k"
  shows "count_list (k_out k) (Send (token_message t)) \<le> count_list es (WireToken t)"
  using token_inv.run_keeps [OF assms] unfolding tokens_bounded_def token_uses_def
  by (meson add_leD1)

theorem token_never_replayed_witness:
  "count_list (k_out sample_client) (Send (token_message ''tok'')) = 1 \<and>
   count_list (k_out sample_client) (Send (token_message ''tok'')) \<le> count_list sample_events (WireToken ''tok'')"
  using token_never_replayed [OF sample_client_run, of "''tok''"] by (simp add: sample_client_state)

lemma reconnectDelay_bounds:
  assumes "0 \<le> rnd" shows "1000 \<le> reconnectDelay n rnd \<and> reconnectDelay n rnd \<le> 30000"
proof -
  have "(1 :: rat) \<le> 2 ^ n" by simp
  then have "1000 \<le> 1000 * 2 ^ n + rnd * 1000" using assms by (simp add: add_increasing2)
  then show ?thesis by (simp add: reconnectDelay_def baseReconnectDelay_def maxReconnectDelay_def)
qed

text \<open>C17: Reconnecting is bounded: at most ten attempts in a row, none scheduled after the server
  rejected authentication, and each delay between one and thirty seconds.\<close>

theorem reconnects_bounded:
  assumes "client_run es k" and "0 \<le> rnd"
  shows "reconnectAttempts k \<le> 10 \<and> (reconnectInterval k \<longrightarrow> reconnectAttempts k < 10 \<and> \<not> authRejected k) \<and>
    1000 \<le> reconnectDelay (reconnectAttempts k) rnd \<and> reconnectDelay (reconnectAttempts k) rnd \<le> 30000"
  using reconnecting.run_keeps [OF assms(1)] reconnectDelay_bounds [OF assms(2)] by (simp add: maxReconnectAttempts_def)

theorem reconnects_bounded_witness:
  "reconnectAttempts sample_client \<le> 10 \<and> reconnectDelay (reconnectAttempts sample_client) (1 / 2) = 1500"
  using reconnects_bounded [OF sample_client_run, of "1 / 2"]
  by (simp add: sample_client_state reconnectDelay_def baseReconnectDelay_def maxReconnectDelay_def)

text \<open>The heartbeat monitor never closes a socket. Every path that arms its timer has just reset
  the number of missed pongs and the timer does not arm itself again, so the number stays below
  three and the close with code 1001 is unreachable.\<close>

theorem heartbeat_monitor_never_closes:
  assumes "client_run es k"
  shows "heartbeatMissed k \<le> 1 \<and> CloseSocket 1001 reason \<notin> set (k_out k)"
  using heartbeat.run_keeps [OF assms] by auto

theorem heartbeat_monitor_never_closes_witness:
  "heartbeatMissed (client_step PingTimeout sample_client) = 1 \<and>
   CloseSocket 1001 ''Heartbeat timeout'' \<notin> set (k_out (client_step PingTimeout sample_client))"
proof -
  have "client_enabled PingTimeout sample_client" "heartbeatMissed sample_client = 0"
    by (simp_all add: sample_client_def sample_events_def client_eval Let_def)
  moreover from this(1) have "client_run (sample_events @ [PingTimeout]) (client_step PingTimeout sample_client)"
    by (rule client_run.step [OF sample_client_run])
  ultimately show ?thesis
    using heartbeat_monitor_never_closes [of _ "client_step PingTimeout sample_client"] by simp
qed

text \<open>After a failed first attempt the component can wait for a session without a timer: the user
  was told that the connection failed, the kept token is sent when the socket reopens, and
  \<open>connecting\<close> is shown with no session-start timeout armed.\<close>

theorem connecting_without_timeout:
  "\<exists>es k. client_run es k \<and> isTerminalSessionPending k \<and> \<not> sessionStartTimeoutId k \<and>
     Dispatch ''error'' (Some ERR_connectionFailed) \<in> set (k_out k) \<and> last (butlast (k_out k)) = Send (token_message ''tok'')"
proof (intro exI conjI)
  show "client_run sample_events sample_client" by (rule sample_client_run)
qed (simp_all add: sample_client_state isTerminalSessionPending_def)

text \<open>The console keeps at most fifty commands and a recall index between -1 and their number.\<close>

theorem console_history_bounded:
  assumes "client_run es k"
  shows "length (consoleHistory k) \<le> 50 \<and> -1 \<le> consoleHistoryIndex k \<and>
    consoleHistoryIndex k \<le> int (length (consoleHistory k))"
  using history.run_keeps [OF assms] .

theorem console_history_bounded_witness:
  "length (consoleHistory (client_step (ConsoleRecall (- 1)) sample_client)) \<le> 50"
  using console_history_bounded [OF client_run.step [OF sample_client_run, of "ConsoleRecall (- 1)"]] by simp

section \<open>After a rejection\<close>

text \<open>How many sockets the component has opened.\<close>

definition sockets :: "client \<Rightarrow> nat" where
  "sockets k = count_list (k_out k) NewSocket"

lemma sockets_updates [simp]:
  "sockets (k\<lparr>starting := b\<rparr>) = sockets k" "sockets (k\<lparr>sessionStartTimeoutId := b\<rparr>) = sockets k"
  "sockets (k\<lparr>connectionError := e\<rparr>) = sockets k" "sockets (k\<lparr>connectionState := s\<rparr>) = sockets k"
  "sockets (k\<lparr>message := m\<rparr>) = sockets k" "sockets (k\<lparr>socket := ss\<rparr>) = sockets k"
  "sockets (k\<lparr>connectionTimeoutId := c\<rparr>) = sockets k" "sockets (k\<lparr>keepAliveInterval := ka\<rparr>) = sockets k"
  "sockets (k\<lparr>countdownInterval := b\<rparr>) = sockets k" "sockets (k\<lparr>sessionStartedAt := sa\<rparr>) = sockets k"
  "sockets (k\<lparr>remainingSeconds := rm\<rparr>) = sockets k" "sockets (k\<lparr>pendingWrites := n\<rparr>) = sockets k"
  "sockets (k\<lparr>paused := b\<rparr>) = sockets k" "sockets (k\<lparr>commandBuffer := m\<rparr>) = sockets k"
  "sockets (k\<lparr>terminalActive := b\<rparr>) = sockets k" "sockets (k\<lparr>isDocumentVisible := b\<rparr>) = sockets k"
  "sockets (k\<lparr>wasConnectedBeforeHidden := b\<rparr>) = sockets k" "sockets (k\<lparr>term_initialized := b\<rparr>) = sockets k"
  "sockets (k\<lparr>consoleCommand := m\<rparr>) = sockets k" "sockets (k\<lparr>consolePendingLines := ls\<rparr>) = sockets k"
  "sockets (k\<lparr>terminalModifier := tm\<rparr>) = sockets k" "sockets (k\<lparr>pendingCommand := pc\<rparr>) = sockets k"
  "sockets (k\<lparr>authRejected := b\<rparr>) = sockets k" "sockets (k\<lparr>heartbeatMissed := n\<rparr>) = sockets k"
  "sockets (k\<lparr>pingTimeoutId := p\<rparr>) = sockets k" "sockets (k\<lparr>reconnectInterval := b\<rparr>) = sockets k"
  "sockets (k\<lparr>reconnectAttempts := n\<rparr>) = sockets k" "sockets (k\<lparr>consoleHistory := h\<rparr>) = sockets k"
  "sockets (k\<lparr>consoleHistoryIndex := i\<rparr>) = sockets k" "sockets (k\<lparr>consoleMode := b\<rparr>) = sockets k"
  "sockets (k\<lparr>socket_ok := b\<rparr>) = sockets k" "sockets (k\<lparr>now_ms := n\<rparr>) = sockets k"
  "sockets (put xs k) = sockets k + count_list xs NewSocket"
  by (simp_all add: sockets_def put_def)

definition rejected_at :: "nat \<Rightarrow> client \<Rightarrow> bool" where
  "rejected_at n k \<longleftrightarrow> authRejected k \<and> sockets k = n"

lemma rejected_updates [simp]:
  "rejected_at n (k\<lparr>starting := b\<rparr>) = rejected_at n k" "rejected_at n (k\<lparr>sessionStartTimeoutId := b\<rparr>) = rejected_at n k"
  "rejected_at n (k\<lparr>connectionError := e\<rparr>) = rejected_at n k" "rejected_at n (k\<lparr>connectionState := s\<rparr>) = rejected_at n k"
  "rejected_at n (k\<lparr>message := m\<rparr>) = rejected_at n k" "rejected_at n (k\<lparr>socket := ss\<rparr>) = rejected_at n k"
  "rejected_at n (k\<lparr>connectionTimeoutId := c\<rparr>) = rejected_at n k" "rejected_at n (k\<lparr>keepAliveInterval := ka\<rparr>) = rejected_at n k"
  "rejected_at n (k\<lparr>countdownInterval := b\<rparr>) = rejected_at n k" "rejected_at n (k\<lparr>sessionStartedAt := sa\<rparr>) = rejected_at n k"
  "rejected_at n (k\<lparr>remainingSeconds := rm\<rparr>) = rejected_at n k" "rejected_at n (k\<lparr>pendingWrites := w\<rparr>) = rejected_at n k"
  "rejected_at n (k\<lparr>paused := b\<rparr>) = rejected_at n k" "rejected_at n (k\<lparr>commandBuffer := m\<rparr>) = rejected_at n k"
  "rejected_at n (k\<lparr>terminalActive := b\<rparr>) = rejected_at n k" "rejected_at n (k\<lparr>isDocumentVisible := b\<rparr>) = rejected_at n k"
  "rejected_at n (k\<lparr>wasConnectedBeforeHidden := b\<rparr>) = rejected_at n k" "rejected_at n (k\<lparr>term_initialized := b\<rparr>) = rejected_at n k"
  "rejected_at n (k\<lparr>consoleCommand := m\<rparr>) = rejected_at n k" "rejected_at n (k\<lparr>consolePendingLines := ls\<rparr>) = rejected_at n k"
  "rejected_at n (k\<lparr>terminalModifier := tm\<rparr>) = rejected_at n k" "rejected_at n (k\<lparr>pendingCommand := pc\<rparr>) = rejected_at n k"
  "rejected_at n (k\<lparr>heartbeatMissed := w\<rparr>) = rejected_at n k" "rejected_at n (k\<lparr>pingTimeoutId := p\<rparr>) = rejected_at n k"
  "rejected_at n (k\<lparr>reconnectInterval := b\<rparr>) = rejected_at n k" "rejected_at n (k\<lparr>reconnectAttempts := w\<rparr>) = rejected_at n k"
  "rejected_at n (k\<lparr>consoleHistory := h\<rparr>) = rejected_at n k" "rejected_at n (k\<lparr>consoleHistoryIndex := i\<rparr>) = rejected_at n k"
  "rejected_at n (k\<lparr>consoleMode := b\<rparr>) = rejected_at n k" "rejected_at n (k\<lparr>socket_ok := b\<rparr>) = rejected_at n k"
  "rejected_at n (k\<lparr>now_ms := w\<rparr>) = rejected_at n k"
  "rejected_at n (k\<lparr>authRejected := True\<rparr>) \<longleftrightarrow> sockets k = n"
  "NewSocket \<notin> set xs \<Longrightarrow> rejected_at n (put xs k) = rejected_at n k"
  by (simp_all add: rejected_at_def count_list_0_iff)

lemma rejected_handlers [simp]:
  "rejected_at n (sendMessage m k) = rejected_at n k" "rejected_at n (clearSessionStartTimeout k) = rejected_at n k"
  "rejected_at n (failTerminalConnection s b k) = rejected_at n k" "rejected_at n (clearAllTimers k) = rejected_at n k"
  "rejected_at n (resetTerminalSessionCountdown k) = rejected_at n k" "rejected_at n (watch_active b k) = rejected_at n k"
  "rejected_at n (close_socket code s k) = rejected_at n k" "rejected_at n (resetPingTimeout k) = rejected_at n k"
  "rejected_at n (updateTerminalSessionCountdown k) = rejected_at n k"
  "rejected_at n (scheduleReconnect k) = rejected_at n k" "rejected_at n (resetTerminal k) = rejected_at n k"
  by (simp_all add: sendMessage_def clearSessionStartTimeout_def failTerminalConnection_def Let_def
      clearAllTimers_def resetTerminalSessionCountdown_def watch_active_def close_socket_def resetPingTimeout_def
      updateTerminalSessionCountdown_def scheduleReconnect_def resetTerminal_def split: option.split)

lemma rejected_lines: "sendConsoleLines ls k = (m, k') \<Longrightarrow> rejected_at n k' = rejected_at n k"
  by (induction ls arbitrary: k m k') (auto simp: sendConsoleLine_def split: if_splits prod.splits)

lemma rejected_input [simp]: "rejected_at n (sendTerminalInput s k) = rejected_at n k"
  by (simp add: sendTerminalInput_def)

lemma rejected_input_handlers [simp]:
  "rejected_at n (termData s k) = rejected_at n k" "rejected_at n (sendTerminalKey s k) = rejected_at n k"
  "rejected_at n (sendTerminalControl s k) = rejected_at n k" "rejected_at n (toggleTerminalModifier s k) = rejected_at n k"
  "rejected_at n (pasteFromClipboard b v k) = rejected_at n k" "rejected_at n (resizeTerminal p f k) = rejected_at n k"
  "rejected_at n (pasteConsoleText s k) = rejected_at n k" "rejected_at n (cancelConsoleInput k) = rejected_at n k"
  "rejected_at n (recallConsoleCommand d k) = rejected_at n k" "rejected_at n (flowControlCallback k) = rejected_at n k"
  "rejected_at n (writeTerminalOutput s k) = rejected_at n k" "rejected_at n (sessionStartTimeout k) = rejected_at n k"
  "rejected_at n (completeTerminalSessionStart k) = rejected_at n k"
  "rejected_at n (failTerminalSessionStart v k) = rejected_at n k"
  "rejected_at n (cancelTerminalAutoStart k) = rejected_at n k" "rejected_at n (cleanup k) = rejected_at n k"
  "rejected_at n (handleSocketError k) = rejected_at n k" "rejected_at n (startTerminalSessionCountdown k) = rejected_at n k"
  by (simp_all add: termData_def sendTerminalKey_def Let_def sendTerminalControl_def toggleTerminalModifier_def
      pasteFromClipboard_def resizeTerminal_def pasteConsoleText_def cancelConsoleInput_def recallConsoleCommand_def
      flowControlCallback_def writeTerminalOutput_def sessionStartTimeout_def completeTerminalSessionStart_def
      failTerminalSessionStart_def cancelTerminalAutoStart_def cleanup_def checkIfProcessIsRunningAndKillIt_def
      handleSocketError_def startTerminalSessionCountdown_def split: option.split)

lemma rejected_socket_handlers:
  assumes "rejected_at n k"
  shows "rejected_at n (handleSocketOpen k)" "rejected_at n (handleSocketMessage f k)"
    "rejected_at n (handleSocketClose code k)" "rejected_at n (connectTimeout k)" "rejected_at n (pingTimeout k)"
    "rejected_at n (visibilityProbe k)" "rejected_at n (submitConsoleCommand k)"
proof -
  show "rejected_at n (handleSocketOpen k)"
    using assms by (simp add: handleSocketOpen_def Let_def split: option.split)
  show "rejected_at n (handleSocketMessage f k)"
    using assms by (simp add: handleSocketMessage_def Let_def split: frame.split)
  have "sockets (resetTerminalSessionCountdown (clearAllTimers (k\<lparr>connectionState := Disconnected\<rparr>))) = n"
    using assms by (simp add: rejected_at_def resetTerminalSessionCountdown_def clearAllTimers_def)
  then show "rejected_at n (handleSocketClose code k)"
    using assms by (simp add: handleSocketClose_def Let_def split: option.split)
  show "rejected_at n (connectTimeout k)" using assms by (simp add: connectTimeout_def Let_def)
  show "rejected_at n (pingTimeout k)" using assms by (simp add: pingTimeout_def Let_def)
  show "rejected_at n (visibilityProbe k)" using assms by (simp add: visibilityProbe_def)
  show "rejected_at n (submitConsoleCommand k)"
    using assms by (auto simp: submitConsoleCommand_def Let_def rejected_lines simp del: sendConsoleLines.simps split: prod.splits)
qed

lemma rejected_step:
  assumes "rejected_at n k" "client_enabled e k" "\<not> reconnectInterval k" "e \<noteq> WireStart" "e \<noteq> FirstConnect"
  shows "rejected_at n (client_step e k)"
proof -
  have r: "authRejected k" using assms(1) by (simp add: rejected_at_def)
  show ?thesis
  proof (cases e)
    case KeepAlive
    then show ?thesis using assms r by (simp add: keepAlive_def)
  next
    case (Visibility hidden)
    then show ?thesis using assms r by (simp add: handleVisibilityChange_def Let_def)
  next
    case (WireToken t)
    then show ?thesis using assms r by (simp add: wireToken_def)
  qed (use assms in \<open>simp_all add: rejected_socket_handlers\<close>)
qed

text \<open>C16: Once the server has rejected authentication, no event but a start by the user (or the first
  connection of a new page) opens another socket or clears the rejection: not the reconnect timer,
  the keep-alive interval, a tab that becomes visible, or a token that was already on its way.\<close>

theorem rejection_is_final:
  assumes "client_run es k" "authRejected k" "client_enabled e k" "e \<noteq> WireStart" "e \<noteq> FirstConnect"
  shows "authRejected (client_step e k) \<and> sockets (client_step e k) = sockets k"
  using rejected_step [of "sockets k" k e] reconnecting.run_keeps [OF assms(1)] assms(2-5)
  by (auto simp: rejected_at_def)

theorem rejection_is_final_witness:
  "authRejected (client_step (WireToken ''t2'') (client_step (SocketClose 4401) sample_client)) \<and>
   sockets (client_step (WireToken ''t2'') (client_step (SocketClose 4401) sample_client)) = 2"
proof -
  have run: "client_run (sample_events @ [SocketClose 4401]) (client_step (SocketClose 4401) sample_client)"
    by (rule client_run.step [OF sample_client_run]) (simp add: sample_client_state)
  have rej: "authRejected (client_step (SocketClose 4401) sample_client)"
    and n: "sockets (client_step (SocketClose 4401) sample_client) = 2"
    using rejected_socket_handlers(3) sample_client_state
    by (simp_all add: handleSocketClose_def Let_def resolveTerminalCloseOutcome_def isTerminalAuthRejectionCode_def
        CLIENT_AUTH_REJECTED_def failTerminalConnection_def clearSessionStartTimeout_def has_error_def sockets_def
        resetTerminalSessionCountdown_def clearAllTimers_def split: option.split)
  show ?thesis using rejection_is_final [OF run rej, of "WireToken ''t2''"] n by simp
qed

section \<open>Flow control\<close>

lemma flow_quiet:
  "\<not> paused k \<Longrightarrow> pendingWrites k \<le> MAX_PENDING_WRITES \<Longrightarrow>
   flowControlCallback k = k\<lparr>pendingWrites := pendingWrites k - 1\<rparr>"
  by (simp add: flowControlCallback_def Let_def)

lemma flow_idle:
  assumes "\<not> paused k" "pendingWrites k \<le> MAX_PENDING_WRITES"
  shows "k_out ((flowControlCallback ^^ n) k) = k_out k \<and> \<not> paused ((flowControlCallback ^^ n) k) \<and>
    pendingWrites ((flowControlCallback ^^ n) k) = pendingWrites k - n"
proof (induction n)
  case (Suc n)
  then have "flowControlCallback ((flowControlCallback ^^ n) k) =
      ((flowControlCallback ^^ n) k)\<lparr>pendingWrites := pendingWrites ((flowControlCallback ^^ n) k) - 1\<rparr>"
    using assms by (intro flow_quiet) auto
  with Suc show ?case by simp
qed (use assms in simp)

lemma flow_resumes:
  assumes "paused k" "socket k = Some SOpen" "0 < pendingWrites k"
  shows "k_out ((flowControlCallback ^^ pendingWrites k) k) = k_out k @ [Send (JObj [(''resume'', JBool True)])] \<and>
    \<not> paused ((flowControlCallback ^^ pendingWrites k) k) \<and> pendingWrites ((flowControlCallback ^^ pendingWrites k) k) = 0"
  using assms
proof (induction "pendingWrites k" arbitrary: k)
  case (Suc n)
  let ?d = "flowControlCallback k"
  have eq: "(flowControlCallback ^^ pendingWrites k) k = (flowControlCallback ^^ n) ?d"
    using Suc.hyps(2) by (metis comp_apply funpow_Suc_right)
  show ?case
  proof (cases "n \<le> MAX_PENDING_WRITES div 2")
    case True
    have d: "?d = sendMessage (JObj [(''resume'', JBool True)]) (k\<lparr>pendingWrites := n, paused := False\<rparr>)"
      using Suc.hyps(2) [symmetric] Suc.prems(1) True by (simp add: flowControlCallback_def Let_def)
    then have "\<not> paused ?d" "pendingWrites ?d = n" "k_out ?d = k_out k @ [Send (JObj [(''resume'', JBool True)])]"
      using Suc.prems by (simp_all add: sendMessage_def)
    then show ?thesis using flow_idle [of ?d n] True unfolding eq by (simp add: MAX_PENDING_WRITES_def)
  next
    case False
    then have d: "?d = k\<lparr>pendingWrites := n\<rparr>"
      using Suc.hyps(2) [symmetric] Suc.prems(1) by (simp add: flowControlCallback_def Let_def)
    have "pendingWrites ?d = n" "0 < n" using d False by (simp_all add: MAX_PENDING_WRITES_def)
    then show ?thesis using Suc.hyps(1) [of ?d] Suc.prems unfolding eq by (simp add: d)
  qed
qed simp

text \<open>C18: A paused terminal resumes: once every outstanding write is done, exactly one resume has been
  sent, however many writes were outstanding, and the terminal is no longer paused.\<close>

theorem flow_control_resumes:
  assumes "paused k" "socket k = Some SOpen" "0 < pendingWrites k"
  shows "k_out ((flowControlCallback ^^ pendingWrites k) k) = k_out k @ [Send (JObj [(''resume'', JBool True)])] \<and>
    \<not> paused ((flowControlCallback ^^ pendingWrites k) k) \<and> pendingWrites ((flowControlCallback ^^ pendingWrites k) k) = 0"
  using assms by (rule flow_resumes)

theorem flow_control_resumes_witness:
  "k_out ((flowControlCallback ^^ 4) (sample_client\<lparr>paused := True, pendingWrites := 4\<rparr>)) =
   k_out sample_client @ [Send (JObj [(''resume'', JBool True)])]"
  using flow_control_resumes [of "sample_client\<lparr>paused := True, pendingWrites := 4\<rparr>"]
  by (simp add: sample_client_state(5))

section \<open>Console mode\<close>

lemma sendConsoleLine_open:
  assumes "socket k = Some SOpen"
  shows "\<exists>k'. sendConsoleLine line k = (line_ok line, k') \<and> socket k' = Some SOpen \<and>
    k_out k' = k_out k @ (if line_ok line then [Send (console_message line)] else [])"
  using assms by (simp add: sendConsoleLine_def sendMessage_def)

lemma sendConsoleLines_out:
  assumes "socket k = Some SOpen"
  shows "k_out (snd (sendConsoleLines lines k)) = k_out k @ map (\<lambda>l. Send (console_message l)) (filter line_ok lines)"
  using assms
proof (induction lines arbitrary: k)
  case (Cons line lines)
  obtain k' where k': "sendConsoleLine line k = (line_ok line, k')" "socket k' = Some SOpen"
    "k_out k' = k_out k @ (if line_ok line then [Send (console_message line)] else [])"
    using sendConsoleLine_open [OF Cons.prems] by blast
  show ?case using Cons.IH [OF k'(2)] k' by (simp add: case_prod_beta)
qed simp

lemma submit_out:
  assumes "terminalActive k" "consoleMode k" "socket k = Some SOpen"
  shows "k_out (submitConsoleCommand k) = k_out k @ map (\<lambda>l. Send (console_message l))
    (filter line_ok (if consolePendingLines k \<noteq> [] then consolePendingLines k else [consoleCommand k]))"
  using assms(1,2) sendConsoleLines_out [OF assms(3)]
  by (simp add: submitConsoleCommand_def Let_def case_prod_beta del: sendConsoleLines.simps)

lemma submit_pending:
  assumes "terminalActive k" "consoleMode k" "socket k = Some SOpen" "consolePendingLines k = ls" "ls \<noteq> []"
  shows "k_out (submitConsoleCommand k) = k_out k @ map (\<lambda>l. Send (console_message l)) (filter line_ok ls)"
  using submit_out [OF assms(1-3)] assms(4,5) by simp

text \<open>A multi-line paste into an empty command box, confirmed with Enter, sends exactly the
  printable lines of the text, in their order, each followed by one line feed; blank lines and lines
  with control characters are left out.\<close>

theorem console_paste_submit:
  assumes "terminalActive k" "consoleMode k" "socket k = Some SOpen"
    and "trim (consoleCommand k) = []" "list_ex (\<lambda>c. c = CHR 0x0D \<or> c = CHR 0x0A) text"
    and "2 \<le> length (filter (\<lambda>line. trim line \<noteq> []) (split_lines text))"
  shows "k_out (submitConsoleCommand (pasteConsoleText text k)) =
    k_out k @ map (\<lambda>l. Send (console_message l)) (filter line_ok (split_lines text))"
proof -
  let ?ls = "filter (\<lambda>line. trim line \<noteq> []) (split_lines text)"
  have p: "pasteConsoleText text k = k\<lparr>consolePendingLines := ?ls, consoleCommand := []\<rparr>"
    using assms(4-6) by (auto simp: pasteConsoleText_def Let_def)
  have ne: "?ls \<noteq> []" using assms(6) by auto
  have f: "filter line_ok ?ls = filter line_ok (split_lines text)"
    unfolding filter_filter by (rule filter_cong) (auto simp: line_ok_def)
  have "k_out (submitConsoleCommand (pasteConsoleText text k)) =
      k_out (pasteConsoleText text k) @ map (\<lambda>l. Send (console_message l)) (filter line_ok ?ls)"
    by (rule submit_pending) (use assms(1-3) ne p in simp_all)
  then show ?thesis unfolding f by (simp add: p)
qed

definition sample_console :: client where
  "sample_console = (new_client True False True)\<lparr>terminalActive := True, socket := Some SOpen\<rparr>"

definition sample_paste :: jstring where
  "sample_paste = ''ls'' @ [CHR 0x0D, CHR 0x0A, CHR 0x0A] @ ''pwd'' @ [CHR 0x0D]"

lemma sample_paste_lines: "split_lines sample_paste = [''ls'', [], ''pwd'', []]"
  by (simp add: sample_paste_def)

theorem console_paste_submit_witness:
  "k_out (submitConsoleCommand (pasteConsoleText sample_paste sample_console)) =
   [Send (console_message ''ls''), Send (console_message ''pwd'')]"
proof -
  have t: "trim ''ls'' = ''ls''" "trim ''pwd'' = ''pwd''" "trim [] = []" by code_simp+
  have ok: "line_ok ''ls''" "line_ok ''pwd''" "\<not> line_ok []" by code_simp+
  have "k_out (submitConsoleCommand (pasteConsoleText sample_paste sample_console)) =
      k_out sample_console @ map (\<lambda>l. Send (console_message l)) (filter line_ok (split_lines sample_paste))"
  proof (rule console_paste_submit)
    show "terminalActive sample_console" "consoleMode sample_console" "socket sample_console = Some SOpen"
      "trim (consoleCommand sample_console) = []"
      by (simp_all add: sample_console_def new_client_def t)
    show "list_ex (\<lambda>c. c = CHR 0x0D \<or> c = CHR 0x0A) sample_paste" by (simp add: sample_paste_def)
    show "2 \<le> length (filter (\<lambda>line. trim line \<noteq> []) (split_lines sample_paste))"
      by (simp add: sample_paste_lines t)
  qed
  then show ?thesis by (simp add: sample_paste_lines ok sample_console_def new_client_def)
qed

text \<open>A paste of blank lines only, into a command box that holds text, leaves the text followed by
  the word \<open>undefined\<close> as the line to confirm.\<close>

theorem console_blank_paste:
  assumes "list_ex (\<lambda>c. c = CHR 0x0D \<or> c = CHR 0x0A) text" "list_all (\<lambda>line. trim line = []) (split_lines text)"
    and "trim (consoleCommand k) \<noteq> []"
  shows "consolePendingLines (pasteConsoleText text k) = [consoleCommand k @ ''undefined''] \<and>
    consoleCommand (pasteConsoleText text k) = []"
proof -
  have "filter (\<lambda>line. trim line \<noteq> []) (split_lines text) = []"
    using assms(2) by (simp add: filter_empty_conv list_all_iff)
  then show ?thesis using assms(1,3) by (simp add: pasteConsoleText_def first_line_def)
qed

theorem console_blank_paste_witness:
  "consolePendingLines (pasteConsoleText [CHR 0x0A, CHR 0x0A] (sample_console\<lparr>consoleCommand := ''restart''\<rparr>)) =
   [''restartundefined'']"
proof -
  have "trim ''restart'' \<noteq> []" by code_simp
  then show ?thesis
    using console_blank_paste [of "[CHR 0x0A, CHR 0x0A]" "sample_console\<lparr>consoleCommand := ''restart''\<rparr>"]
    by (simp add: trim_def)
qed

end
