(* ===== verification/Runtime_Logs.thy ===== *)
theory Runtime_Logs
  imports Js_Json "HOL-Library.Word" "HOL-Library.Char_ord" "HOL-Library.List_Lexorder" "HOL-Library.AList"
begin

text \<open>
  The runtime log viewer, \<open>resources/js/runtime-logs.js\<close>: parsing of \<open>docker logs -t\<close> output, the
  level of a line, merging of streamed output with the lines already shown, filters and search
  highlighting, and the component state that loads, streams and trims lines. JavaScript compares
  strings by code units, which is the lexicographic order of \<open>List_Lexorder\<close>. The regular expressions
  are written as scanners. The virtual scroller, scrolling and the date formatter are not modelled.
\<close>

section \<open>Lines\<close>

datatype log_level = LvlError | LvlWarning | LvlDebug | LvlInfo

record log_line =
  l_id :: nat
  l_ts :: jstring
  l_text :: jstring
  l_source :: jstring
  l_color :: jstring
  l_lower :: jstring
  l_level :: log_level

definition MAX_CLIENT_LOG_LINES :: nat where "MAX_CLIENT_LOG_LINES = 50000"

definition SOURCE_COLORS :: "jstring list" where
  "SOURCE_COLORS = [''#6f6c78'', ''#6d7ea8'', ''#6e8b74'', ''#a98462'', ''#8d7398'', ''#6f8f95'']"

text \<open>\<open>hash = (hash * 31 + code) >>> 0\<close> on 32-bit words.\<close>

definition source_hash :: "jstring \<Rightarrow> 32 word" where
  "source_hash label = foldl (\<lambda>hash c. hash * 31 + of_nat (of_char c)) 0 label"

definition sourceColor :: "jstring \<Rightarrow> jstring" where
  "sourceColor label = SOURCE_COLORS ! (unat (source_hash label) mod length SOURCE_COLORS)"

text \<open>\<open>/^([^\t]+)\t(.*)$/s\<close>\<close>

definition match_source :: "jstring \<Rightarrow> (jstring \<times> jstring) option" where
  "match_source raw =
     (let source = takeWhile (\<lambda>c. c \<noteq> CHR 0x09) raw; rest = dropWhile (\<lambda>c. c \<noteq> CHR 0x09) raw
      in if source = [] \<or> rest = [] then None else Some (source, tl rest))"

text \<open>\<open>/^(\d{4}-\d{2}-\d{2}T\d{2}:\d{2}:\d{2}(?:\.\d+)?Z) (.*)$/s\<close>\<close>

definition ts_shape :: "(char \<Rightarrow> bool) list" where
  "ts_shape =
     (let d = is_digit; lit = (\<lambda>c x. x = c)
      in [d, d, d, d, lit CHR ''-'', d, d, lit CHR ''-'', d, d, lit CHR ''T'', d, d, lit CHR '':'', d, d,
          lit CHR '':'', d, d])"

definition match_timestamp :: "jstring \<Rightarrow> (jstring \<times> jstring) option" where
  "match_timestamp body =
     (let base = take 19 body; s = drop 19 body;
          frac = (case s of
                    c # s' \<Rightarrow> if c = CHR ''.'' \<and> takeWhile is_digit s' \<noteq> [] then c # takeWhile is_digit s' else []
                  | [] \<Rightarrow> []);
          rest = drop (length frac) s
      in if list_all2 (\<lambda>p c. p c) ts_shape base \<and> prefix ''Z '' rest
         then Some (base @ frac @ ''Z'', drop 2 rest) else None)"

section \<open>Levels\<close>

text \<open>\<open>/\b(?:level|lvl|severity|loglevel)"?\s*[=:]\s*"?([a-z]+)\b/\<close>, tried at the start of a word; a key
  ends at a word boundary, since no word character may follow it.\<close>

definition opt_quote :: "jstring \<Rightarrow> jstring" where
  "opt_quote s = (case s of c # s' \<Rightarrow> if c = CHR 0x22 then s' else s | [] \<Rightarrow> [])"

definition LEVEL_KEYS :: "jstring list" where
  "LEVEL_KEYS = [''level'', ''lvl'', ''severity'', ''loglevel'']"

definition level_field_at :: "jstring \<Rightarrow> jstring option" where
  "level_field_at s =
     (if takeWhile is_word_char s \<notin> set LEVEL_KEYS then None
      else case dropWhile js_space (opt_quote (dropWhile is_word_char s)) of
             [] \<Rightarrow> None
           | c # s1 \<Rightarrow>
               if c \<noteq> CHR ''='' \<and> c \<noteq> CHR '':'' then None
               else (let s2 = opt_quote (dropWhile js_space s1); name = takeWhile is_lower_az s2;
                         after = dropWhile is_lower_az s2
                     in if name = [] \<or> (after \<noteq> [] \<and> is_word_char (hd after)) then None else Some name))"

fun level_field :: "bool \<Rightarrow> jstring \<Rightarrow> jstring option" where
  "level_field in_word [] = None"
| "level_field in_word (c # s) =
     (case (if in_word then None else level_field_at (c # s)) of
        Some name \<Rightarrow> Some name
      | None \<Rightarrow> level_field (is_word_char c) s)"

text \<open>\<open>/^(?:\S*\d\S*\s+){0,3}[[(<]?([a-z]+)[\])>:]?(?:\s|$)/\<close>: up to three leading tokens with a digit
  are skipped. A skipped token cannot match the rest of the pattern itself, so there is no backtracking.\<close>

fun skip_tokens :: "nat \<Rightarrow> jstring \<Rightarrow> jstring" where
  "skip_tokens 0 s = s"
| "skip_tokens (Suc n) s =
     (let token = takeWhile (\<lambda>c. \<not> js_space c) s; rest = dropWhile (\<lambda>c. \<not> js_space c) s
      in if list_ex is_digit token \<and> rest \<noteq> [] then skip_tokens n (dropWhile js_space rest) else s)"

definition leading_level :: "jstring \<Rightarrow> jstring option" where
  "leading_level content =
     (let s = skip_tokens 3 content;
          s1 = (case s of c # s' \<Rightarrow> if c \<in> {CHR ''['', CHR ''('', CHR ''<''} then s' else s | [] \<Rightarrow> []);
          name = takeWhile is_lower_az s1; s2 = dropWhile is_lower_az s1;
          s3 = (case s2 of c # s' \<Rightarrow> if c \<in> {CHR '']'', CHR '')'', CHR ''>'', CHR '':''} then s' else s2 | [] \<Rightarrow> [])
      in if name \<noteq> [] \<and> (s3 = [] \<or> js_space (hd s3)) then Some name else None)"

definition LEVEL_NAMES :: "(log_level \<times> jstring list) list" where
  "LEVEL_NAMES =
     [(LvlError, [''error'', ''err'', ''fatal'', ''panic'', ''critical'', ''crit'', ''alert'', ''emerg'', ''emergency'']),
      (LvlWarning, [''warn'', ''warning'', ''wrn'']),
      (LvlDebug, [''debug'', ''dbg'', ''trace'', ''verbose'']),
      (LvlInfo, [''info'', ''inf'', ''information'', ''notice''])]"

definition declared_level :: "jstring option \<Rightarrow> log_level option" where
  "declared_level declared =
     (case declared of
        None \<Rightarrow> None
      | Some name \<Rightarrow> map_option fst (find (\<lambda>(level, names). name \<in> set names) LEVEL_NAMES))"

text \<open>The words of a text: its maximal runs of word characters. \<open>/\b(w1|w2|...)\b/\<close> tests whether one of
  the keywords is a word of the text.\<close>

function words :: "jstring \<Rightarrow> jstring list" where
  "words [] = []"
| "words (c # s) =
     (if is_word_char c then (c # takeWhile is_word_char s) # words (dropWhile is_word_char s) else words s)"
  by pat_completeness auto
termination by (relation "measure length") (auto simp: le_imp_less_Suc length_dropWhile_le)

definition has_keyword :: "jstring list \<Rightarrow> jstring \<Rightarrow> bool" where
  "has_keyword keywords content \<longleftrightarrow> list_ex (\<lambda>w. w \<in> set keywords) (words content)"

definition getLogLevel :: "jstring \<Rightarrow> log_level" where
  "getLogLevel content =
     (case declared_level (level_field False content) of
        Some level \<Rightarrow> level
      | None \<Rightarrow>
          (case declared_level (leading_level content) of
             Some level \<Rightarrow> level
           | None \<Rightarrow>
               if has_keyword [''error'', ''err'', ''failed'', ''failure'', ''exception'', ''fatal'', ''panic'', ''critical''] content
               then LvlError
               else if has_keyword [''warn'', ''warning'', ''wrn'', ''caution''] content then LvlWarning
               else if has_keyword [''debug'', ''dbg'', ''trace'', ''verbose''] content then LvlDebug
               else LvlInfo))"

section \<open>Parsing\<close>

definition parse_line :: "nat \<Rightarrow> jstring \<Rightarrow> log_line" where
  "parse_line n raw =
     (let (source, body) = (case match_source raw of Some (s, b) \<Rightarrow> (s, b) | None \<Rightarrow> ([], raw));
          (ts, text) = (case match_timestamp body of Some (t, x) \<Rightarrow> (t, x) | None \<Rightarrow> ([], body))
      in \<lparr>l_id = n, l_ts = ts, l_text = text, l_source = source,
          l_color = (if source = [] then [] else sourceColor source),
          l_lower = js_lower (source @ CHR 0x0A # text), l_level = getLogLevel (js_lower text)\<rparr>)"

text \<open>\<open>nextId\<close> is the counter \<open>lineId\<close>: the last id in, the last id out.\<close>

fun parse_raws :: "jstring list \<Rightarrow> nat \<Rightarrow> log_line list \<times> nat" where
  "parse_raws [] n = ([], n)"
| "parse_raws (raw # raws) n =
     (if trim raw = [] then parse_raws raws n
      else (let (ls, m) = parse_raws raws (n + 1) in (parse_line (n + 1) raw # ls, m)))"

definition parseLogLines :: "jstring option \<Rightarrow> nat \<Rightarrow> log_line list \<times> nat" where
  "parseLogLines output n = parse_raws (split_on CHR 0x0A (case output of Some s \<Rightarrow> s | None \<Rightarrow> [])) n"

section \<open>Merging streamed output\<close>

text \<open>The last non-empty timestamp.\<close>

definition lastTimestamp :: "log_line list \<Rightarrow> jstring option" where
  "lastTimestamp lines = map_option l_ts (find (\<lambda>l. l_ts l \<noteq> []) (rev lines))"

text \<open>\<open>seenAtBoundary\<close> is a map from texts to counts; a missing key counts 0.\<close>

definition seenAtBoundary :: "jstring \<Rightarrow> log_line list \<Rightarrow> jstring \<Rightarrow> nat" where
  "seenAtBoundary lastTs existing text =
     count_list (map l_text (takeWhile (\<lambda>l. l_ts l = lastTs) (rev existing))) text"

fun filter_seen :: "jstring \<Rightarrow> (jstring \<Rightarrow> nat) \<Rightarrow> log_line list \<Rightarrow> log_line list" where
  "filter_seen lastTs seen [] = []"
| "filter_seen lastTs seen (l # ls) =
     (if l_ts l = [] then l # filter_seen lastTs seen ls
      else if l_ts l < lastTs then filter_seen lastTs seen ls
      else if l_ts l > lastTs then l # filter_seen lastTs seen ls
      else if seen (l_text l) = 0 then l # filter_seen lastTs seen ls
      else filter_seen lastTs (seen(l_text l := seen (l_text l) - 1)) ls)"

definition linesSinceBoundary :: "log_line list \<Rightarrow> log_line list \<Rightarrow> log_line list" where
  "linesSinceBoundary existing incoming =
     (case lastTimestamp existing of
        None \<Rightarrow> incoming
      | Some lastTs \<Rightarrow> filter_seen lastTs (seenAtBoundary lastTs existing) incoming)"

text \<open>\<open>groupLinesBySource\<close> keeps the sources in the order of their first line.\<close>

definition groupLinesBySource :: "log_line list \<Rightarrow> (jstring \<times> log_line list) list" where
  "groupLinesBySource entries =
     map (\<lambda>s. (s, filter (\<lambda>l. l_source l = s) entries)) (set_to_array (map l_source entries))"

text \<open>The comparator of \<open>fresh.sort\<close>, with \<open>localeCompare\<close> as a parameter, and the stable sort of
  ECMAScript: \<open>y\<close> comes before \<open>x\<close> only when the comparator says so.\<close>

definition compare_lines :: "(jstring \<Rightarrow> jstring \<Rightarrow> int) \<Rightarrow> log_line \<Rightarrow> log_line \<Rightarrow> int" where
  "compare_lines localeCompare x y =
     (if l_ts x = l_ts y then localeCompare (l_source x) (l_source y)
      else if l_ts x = [] then 1
      else if l_ts y = [] then -1
      else if l_ts x < l_ts y then -1 else 1)"

definition newLinesSince :: "(jstring \<Rightarrow> jstring \<Rightarrow> int) \<Rightarrow> log_line list \<Rightarrow> log_line list \<Rightarrow> log_line list" where
  "newLinesSince localeCompare existing incoming =
     (if \<not> list_ex (\<lambda>l. l_source l \<noteq> []) existing \<and> \<not> list_ex (\<lambda>l. l_source l \<noteq> []) incoming
      then linesSinceBoundary existing incoming
      else
        (let existingBySource = map_of (groupLinesBySource existing);
             fresh = concat (map (\<lambda>(source, group).
               linesSinceBoundary (case existingBySource source of Some g \<Rightarrow> g | None \<Rightarrow> []) group)
               (groupLinesBySource incoming))
         in js_sort (compare_lines localeCompare) fresh))"

section \<open>Filters and search\<close>

type_synonym log_filters = "log_level \<Rightarrow> bool"

fun level_key :: "log_level \<Rightarrow> jstring" where
  "level_key LvlError = ''error''"
| "level_key LvlWarning = ''warning''"
| "level_key LvlDebug = ''debug''"
| "level_key LvlInfo = ''info''"

text \<open>The argument is the parsed saved value, \<open>None\<close> where \<open>JSON.parse\<close> throws.\<close>

definition readLogFilters :: "json option \<Rightarrow> log_filters" where
  "readLogFilters saved level =
     (case saved of
        None \<Rightarrow> True
      | Some v \<Rightarrow> (case json_get v (level_key level) of Some (JBool b) \<Rightarrow> b | _ \<Rightarrow> True))"

definition filterLogLines :: "log_line list \<Rightarrow> log_filters \<Rightarrow> jstring \<Rightarrow> log_line list" where
  "filterLogLines lines filters query =
     (let needle = js_lower (trim query)
      in filter (\<lambda>l. filters (l_level l) \<and> (needle = [] \<or> js_includes (l_lower l) needle)) lines)"

record segment_part =
  s_text :: jstring
  s_match :: bool

lemma index_of_length: "index_of p s = Some i \<Longrightarrow> i + length p \<le> length s"
  by (induction s arbitrary: i) (auto split: if_splits dest: prefix_length_le)

text \<open>The loop of \<open>highlightSegments\<close> from \<open>lastIndex\<close>, on the rest of the text and of its lower case.\<close>

function highlight_from :: "jstring \<Rightarrow> jstring \<Rightarrow> jstring \<Rightarrow> segment_part list" where
  "highlight_from needle text lowerText =
     (case (if needle = [] then None else index_of needle lowerText) of
        None \<Rightarrow> if text = [] then [] else [\<lparr>s_text = text, s_match = False\<rparr>]
      | Some i \<Rightarrow>
          (if i > 0 then [\<lparr>s_text = take i text, s_match = False\<rparr>] else []) @
          \<lparr>s_text = take (length needle) (drop i text), s_match = True\<rparr> #
          highlight_from needle (drop (i + length needle) text) (drop (i + length needle) lowerText))"
  by pat_completeness auto

termination
proof (relation "measure (\<lambda>(needle, text, lowerText). length lowerText)", goal_cases)
  case (2 needle s lowerText i)
  then have "needle \<noteq> []" "index_of needle lowerText = Some i" by (auto split: if_splits)
  then show ?case using index_of_length [of needle lowerText i] by (cases needle) auto
qed simp

declare highlight_from.simps [simp del]

definition highlightSegments :: "jstring \<Rightarrow> jstring \<Rightarrow> segment_part list" where
  "highlightSegments text query =
     (let needle = js_lower (trim query)
      in if needle = [] then [\<lparr>s_text = text, s_match = False\<rparr>] else highlight_from needle text (js_lower text))"

definition isFindShortcut :: "bool \<Rightarrow> bool \<Rightarrow> bool \<Rightarrow> bool \<Rightarrow> jstring option \<Rightarrow> bool" where
  "isFindShortcut ctrlKey metaKey altKey shiftKey key \<longleftrightarrow>
     (ctrlKey \<or> metaKey) \<and> \<not> altKey \<and> \<not> shiftKey \<and> map_option js_lower key = Some ''f''"

definition prefersTextView :: "jstring option \<Rightarrow> bool" where
  "prefersTextView stored \<longleftrightarrow> stored \<noteq> Some ''false''"

text \<open>\<open>JSON.stringify(JSON.parse(trimmed), null, 2)\<close> is a parameter, \<open>None\<close> where it throws.\<close>

definition formatLogDetails :: "(jstring \<Rightarrow> jstring option) \<Rightarrow> jstring \<Rightarrow> jstring" where
  "formatLogDetails reformat content =
     (let trimmed = trim content
      in if \<not> starts_with trimmed ''{'' \<and> \<not> starts_with trimmed ''['' then content
         else case reformat trimmed of Some s \<Rightarrow> s | None \<Rightarrow> content)"

definition isExpandableLog :: "(jstring \<Rightarrow> jstring option) \<Rightarrow> jstring \<Rightarrow> bool \<Rightarrow> bool" where
  "isExpandableLog reformat content truncated \<longleftrightarrow> truncated \<or> formatLogDetails reformat content \<noteq> content"

section \<open>The viewer\<close>

text \<open>\<open>inflight\<close> is the request that runs while \<open>loading\<close> is set.\<close>

datatype log_request = RefreshRequest bool | ShowAllRequest | StreamRequest

record viewer =
  v_lines :: "log_line list"
  v_filtered :: "log_line list"
  v_lineId :: nat
  v_loading :: "log_request option"
  v_loadingLines :: bool
  v_loadingAll :: bool
  v_allLines :: bool
  v_expanded :: bool
  v_destroyed :: bool
  v_streamLogs :: bool
  v_hidden :: bool
  v_filters :: log_filters
  v_query :: jstring
  v_appliedQuery :: jstring
  v_matchCount :: nat
  v_lineCount :: nat
  v_multipleSources :: bool
  v_expandedLogs :: "nat list"
  v_textView :: bool
  v_fullscreen :: bool
  v_alwaysScroll :: bool
  v_followManuallyDisabled :: bool
  v_isScrolling :: bool
  v_lastTouchY :: real
  v_colorLogs :: bool
  v_scrollDebounce :: bool

definition applyFilters :: "viewer \<Rightarrow> viewer" where
  "applyFilters v =
     (let f = filterLogLines (v_lines v) (v_filters v) (v_query v); q = trim (v_query v)
      in v\<lparr>v_filtered := f, v_appliedQuery := q, v_matchCount := (if q \<noteq> [] then length f else 0),
           v_lineCount := length (v_lines v),
           v_multipleSources := (length (set_to_array (filter (\<lambda>s. s \<noteq> []) (map l_source f))) > 1)\<rparr>)"

definition replaceLines :: "jstring option \<Rightarrow> viewer \<Rightarrow> viewer" where
  "replaceLines output v =
     (if v_destroyed v then v
      else (let (ls, n) = parseLogLines output (v_lineId v)
            in applyFilters (v\<lparr>v_lines := ls, v_lineId := n, v_expandedLogs := []\<rparr>)))"

definition appendLines :: "log_line list \<Rightarrow> viewer \<Rightarrow> viewer" where
  "appendLines newLines v =
     (if newLines = [] then v
      else (let ls = v_lines v @ newLines
            in applyFilters (v\<lparr>v_lines := drop (length ls - MAX_CLIENT_LOG_LINES) ls\<rparr>)))"

text \<open>\<open>sinceArgument\<close>: nothing, the last timestamp, or the last timestamp of each source.\<close>

datatype since = SinceNone | SinceTs jstring | SinceBySource "(jstring \<times> jstring) list"

fun since_scan :: "log_line list \<Rightarrow> jstring option \<Rightarrow> (jstring \<times> jstring) list \<Rightarrow> since" where
  "since_scan [] prev bySource =
     (if bySource \<noteq> [] then SinceBySource bySource
      else case prev of None \<Rightarrow> SinceNone | Some ts \<Rightarrow> SinceTs ts)"
| "since_scan (l # ls) prev bySource =
     (if l_ts l = [] then since_scan ls prev bySource
      else since_scan ls (Some (l_ts l))
             (if l_source l \<noteq> [] then AList.update (l_source l) (l_ts l) bySource else bySource))"

definition sinceArgument :: "viewer \<Rightarrow> since" where
  "sinceArgument v = since_scan (v_lines v) None []"

definition startRefresh :: "bool \<Rightarrow> viewer \<Rightarrow> viewer" where
  "startRefresh withLines v =
     (if v_loading v \<noteq> None then v
      else v\<lparr>v_loading := Some (RefreshRequest withLines), v_loadingLines := (withLines \<or> v_loadingLines v)\<rparr>)"

definition startShowAll :: "viewer \<Rightarrow> viewer" where
  "startShowAll v =
     (if v_loading v \<noteq> None then v else v\<lparr>v_loading := Some ShowAllRequest, v_loadingAll := True\<rparr>)"

definition streamTick :: "viewer \<Rightarrow> viewer" where
  "streamTick v =
     (if v_destroyed v \<or> v_loading v \<noteq> None \<or> \<not> v_expanded v \<or> v_hidden v \<or> \<not> v_streamLogs v then v
      else if sinceArgument v = SinceNone then startRefresh False v
      else v\<lparr>v_loading := Some StreamRequest\<rparr>)"

text \<open>The answer of the request under way; \<open>None\<close> where it is rejected.\<close>

definition requestAnswer :: "(jstring \<Rightarrow> jstring \<Rightarrow> int) \<Rightarrow> jstring option option \<Rightarrow> viewer \<Rightarrow> viewer" where
  "requestAnswer localeCompare answer v =
     (case v_loading v of
        None \<Rightarrow> v
      | Some (RefreshRequest withLines) \<Rightarrow>
          (let v1 = (case answer of Some output \<Rightarrow> replaceLines output v | None \<Rightarrow> v)
           in v1\<lparr>v_loading := None, v_loadingLines := (if withLines then False else v_loadingLines v1)\<rparr>)
      | Some ShowAllRequest \<Rightarrow>
          (let v1 = (case answer of Some output \<Rightarrow> (replaceLines output v)\<lparr>v_allLines := True\<rparr> | None \<Rightarrow> v)
           in v1\<lparr>v_loading := None, v_loadingAll := False\<rparr>)
      | Some StreamRequest \<Rightarrow>
          (let v1 = (case answer of
                       Some output \<Rightarrow>
                         if v_destroyed v \<or> \<not> v_streamLogs v then v
                         else (let (ls, n) = parseLogLines output (v_lineId v)
                               in appendLines (newLinesSince localeCompare (v_lines v) ls) (v\<lparr>v_lineId := n\<rparr>))
                     | None \<Rightarrow> v)
           in v1\<lparr>v_loading := None\<rparr>))"

definition toggleLogFilter :: "log_level \<Rightarrow> viewer \<Rightarrow> viewer" where
  "toggleLogFilter level v = applyFilters (v\<lparr>v_filters := (v_filters v)(level := \<not> v_filters v level)\<rparr>)"

definition setQuery :: "jstring \<Rightarrow> viewer \<Rightarrow> viewer" where
  "setQuery q v = applyFilters (v\<lparr>v_query := q\<rparr>)"

definition toggleLogDetails :: "nat \<Rightarrow> bool \<Rightarrow> bool \<Rightarrow> viewer \<Rightarrow> viewer" where
  "toggleLogDetails lineId selected expandable v =
     (if v_textView v \<or> selected then v
      else if lineId \<notin> set (v_expandedLogs v) \<and> \<not> expandable then v
      else v\<lparr>v_expandedLogs :=
               (if lineId \<in> set (v_expandedLogs v) then removeAll lineId (v_expandedLogs v)
                else lineId # v_expandedLogs v)\<rparr>)"

definition isLogExpanded :: "nat \<Rightarrow> viewer \<Rightarrow> bool" where
  "isLogExpanded lineId v \<longleftrightarrow> \<not> v_textView v \<and> lineId \<in> set (v_expandedLogs v)"

definition makeFullscreen :: "viewer \<Rightarrow> viewer" where
  "makeFullscreen v =
     v\<lparr>v_fullscreen := \<not> v_fullscreen v, v_alwaysScroll := \<not> v_fullscreen v \<and> v_alwaysScroll v\<rparr>"

section \<open>Following the newest line\<close>

text \<open>\<open>scrollToBottom\<close> marks its own scroll for 50 ms; \<open>mounted\<close> says that the virtual scroller exists.
  \<open>scrollSettled\<close> is the end of the 150 ms pause that \<open>handleScroll\<close> starts.\<close>

definition scrollToBottom :: "bool \<Rightarrow> viewer \<Rightarrow> viewer" where
  "scrollToBottom mounted v =
     (if v_destroyed v \<or> \<not> mounted \<or> v_filtered v = [] then v else v\<lparr>v_isScrolling := True\<rparr>)"

definition scrollEnds :: "viewer \<Rightarrow> viewer" where
  "scrollEnds v = v\<lparr>v_isScrolling := False\<rparr>"

definition toggleScroll :: "bool \<Rightarrow> viewer \<Rightarrow> viewer" where
  "toggleScroll mounted v =
     (let always = \<not> v_alwaysScroll v;
          w = v\<lparr>v_alwaysScroll := always, v_followManuallyDisabled := \<not> always\<rparr>
      in if always then scrollToBottom mounted w else w)"

definition disableFollow :: "viewer \<Rightarrow> viewer" where
  "disableFollow v = v\<lparr>v_alwaysScroll := False\<rparr>"

definition handleWheel :: "real \<Rightarrow> viewer \<Rightarrow> viewer" where
  "handleWheel deltaY v = (if v_alwaysScroll v \<and> deltaY < 0 then disableFollow v else v)"

definition handleTouchStart :: "real \<Rightarrow> viewer \<Rightarrow> viewer" where
  "handleTouchStart clientY v = v\<lparr>v_lastTouchY := clientY\<rparr>"

definition handleTouchMove :: "real \<Rightarrow> viewer \<Rightarrow> viewer" where
  "handleTouchMove clientY v =
     (if \<not> v_alwaysScroll v then v
      else (if clientY > v_lastTouchY v then disableFollow v else v)\<lparr>v_lastTouchY := clientY\<rparr>)"

definition handleKeyScroll :: "jstring \<Rightarrow> viewer \<Rightarrow> viewer" where
  "handleKeyScroll key v =
     (if v_alwaysScroll v \<and> key \<in> set [''ArrowUp'', ''PageUp'', ''Home''] then disableFollow v else v)"

definition handleScroll :: "viewer \<Rightarrow> viewer" where
  "handleScroll v = (if v_isScrolling v \<or> v_destroyed v then v else v\<lparr>v_scrollDebounce := True\<rparr>)"

definition scrollSettled :: "real \<Rightarrow> real \<Rightarrow> real \<Rightarrow> viewer \<Rightarrow> viewer" where
  "scrollSettled scrollHeight scrollTop clientHeight v =
     (if \<not> v_scrollDebounce v then v
      else
        (let w = v\<lparr>v_scrollDebounce := False\<rparr>;
             distanceFromBottom = scrollHeight - scrollTop - clientHeight;
             overflows = scrollHeight - clientHeight > 10
         in if v_destroyed v then w
            else if \<not> v_alwaysScroll v \<and> \<not> v_followManuallyDisabled v \<and> overflows \<and> scrollTop > 0 \<and>
                    distanceFromBottom \<le> 10
            then w\<lparr>v_alwaysScroll := True\<rparr> else w))"

text \<open>\<open>destroy\<close> clears the pause and the stream timer.\<close>

definition destroy :: "viewer \<Rightarrow> viewer" where
  "destroy v = v\<lparr>v_destroyed := True, v_scrollDebounce := False\<rparr>"

definition toggleColorLogs :: "viewer \<Rightarrow> viewer" where
  "toggleColorLogs v = v\<lparr>v_colorLogs := \<not> v_colorLogs v\<rparr>"

definition toggleTextView :: "bool \<Rightarrow> viewer \<Rightarrow> viewer" where
  "toggleTextView mounted v =
     (let w = v\<lparr>v_textView := \<not> v_textView v\<rparr> in if v_alwaysScroll v then scrollToBottom mounted w else w)"

section \<open>Export and the find shortcut\<close>

text \<open>\<open>visibleText\<close>, with the date formatter as a parameter.\<close>

definition visibleText :: "(jstring \<Rightarrow> jstring) \<Rightarrow> bool \<Rightarrow> log_line list \<Rightarrow> jstring" where
  "visibleText formatTimestamp withTime source =
     (let showSource = length (set_to_array (filter (\<lambda>s. s \<noteq> []) (map l_source source))) > 1
      in join_with [CHR 0x0A]
           (map (\<lambda>l. let body = (if withTime \<and> l_ts l \<noteq> [] then formatTimestamp (l_ts l) @ '' '' @ l_text l else l_text l)
                     in if showSource \<and> l_source l \<noteq> [] then l_source l @ '' | '' @ body else body) source))"

text \<open>\<open>downloadLogs\<close> from the redacted copy of the server; \<open>None\<close> where the request fails or answers
  nothing. The result is the text of the downloaded file.\<close>

definition exportText :: "(jstring \<Rightarrow> jstring) \<Rightarrow> bool \<Rightarrow> jstring option \<Rightarrow> viewer \<Rightarrow> jstring option" where
  "exportText formatTimestamp withTime logs v =
     (case logs of
        None \<Rightarrow> None
      | Some s \<Rightarrow>
          if s = [] then None
          else Some (visibleText formatTimestamp withTime
                 (filterLogLines (fst (parseLogLines (Some s) 0)) (v_filters v) (v_query v)) @ [CHR 0x0A]))"

text \<open>What has the focus, for \<open>ownsFindShortcut\<close>; \<open>is_target\<close> says that this viewer is the fullscreen one
  or else the first open one.\<close>

datatype focus = OwnSearch | InViewer | OtherViewer | OtherField | Elsewhere

definition ownsFindShortcut :: "focus \<Rightarrow> bool \<Rightarrow> viewer \<Rightarrow> bool" where
  "ownsFindShortcut active is_target v =
     (if \<not> v_expanded v then False
      else case active of
             OwnSearch \<Rightarrow> False
           | InViewer \<Rightarrow> True
           | OtherViewer \<Rightarrow> False
           | OtherField \<Rightarrow> False
           | Elsewhere \<Rightarrow> is_target)"

text \<open>\<open>handleKeyDown\<close>: the new state, and whether the search field takes the focus.\<close>

definition handleKeyDown :: "bool \<Rightarrow> bool \<Rightarrow> bool \<Rightarrow> bool \<Rightarrow> jstring \<Rightarrow> focus \<Rightarrow> bool \<Rightarrow> viewer \<Rightarrow> viewer \<times> bool" where
  "handleKeyDown ctrlKey metaKey altKey shiftKey key active is_target v =
     (let w = (if key = ''Escape'' \<and> v_fullscreen v then makeFullscreen v else v)
      in (w, isFindShortcut ctrlKey metaKey altKey shiftKey (Some key) \<and> ownsFindShortcut active is_target w))"

end
