(* ===== verification/Runtime_Logs_Safety.thy ===== *)
theory Runtime_Logs_Safety
  imports Runtime_Logs
begin

text \<open>
  What the log viewer guarantees: streaming from a timestamp or from one timestamp per source neither
  loses nor repeats a line, search highlighting is lossless, and the viewer's derived fields follow its
  lines in every reachable state.
\<close>

section \<open>Streaming loses and repeats nothing\<close>

text \<open>A line without its id, which the viewer assigns anew to every parsed line.\<close>

definition strip :: "log_line \<Rightarrow> log_line" where
  "strip l = l\<lparr>l_id := 0\<rparr>"

lemma strip_sel [simp]:
  "l_ts (strip l) = l_ts l" "l_text (strip l) = l_text l" "l_source (strip l) = l_source l"
  by (simp_all add: strip_def)

lemma filter_seen_strip: "map strip (filter_seen T seen ls) = filter_seen T seen (map strip ls)"
  by (induction ls arbitrary: seen) auto

lemma filter_seen_later:
  "list_all (\<lambda>l. l_ts l \<noteq> [] \<and> T \<le> l_ts l) ls \<Longrightarrow> filter_seen T (\<lambda>t. 0) ls = ls"
  by (induction ls) auto

lemma filter_seen_boundary:
  assumes "list_all (\<lambda>l. l_ts l = T) bs" "T \<noteq> []"
  shows "filter_seen T (count_list (map l_text bs)) (bs @ xs) = filter_seen T (\<lambda>t. 0) xs"
  using assms
proof (induction bs)
  case Nil
  have "count_list (map l_text []) = (\<lambda>t. 0)" by auto
  then show ?case by simp
next
  case (Cons b bs)
  let ?f = "count_list (map l_text (b # bs))"
  have eq: "?f(l_text b := ?f (l_text b) - 1) = count_list (map l_text bs)" by auto
  have step: "filter_seen T ?f ((b # bs) @ xs) = filter_seen T (?f(l_text b := ?f (l_text b) - 1)) (bs @ xs)"
    using Cons.prems by (simp del: fun_upd_apply add: count_list_0_iff)
  show ?case unfolding step eq using Cons by simp
qed

lemma sorted_boundary:
  assumes "sorted (map l_ts ls)" "list_all (\<lambda>l. l_ts l \<noteq> []) ls" "ls \<noteq> []" "T = l_ts (last ls)"
  defines "bs \<equiv> rev (takeWhile (\<lambda>l. l_ts l = T) (rev ls))"
  shows "lastTimestamp ls = Some T" "seenAtBoundary T ls = count_list (map l_text bs)"
    "list_all (\<lambda>l. l_ts l = T) bs" "filter (\<lambda>l. T \<le> l_ts l) ls = bs"
proof -
  have revls: "rev ls = last ls # rev (butlast ls)"
    using assms(3) by (metis append_butlast_last_id rev.simps(2) rev_rev_ident)
  have "l_ts (last ls) \<noteq> []" using assms(2,3) by (simp add: list_all_iff)
  then show "lastTimestamp ls = Some T"
    by (simp add: lastTimestamp_def revls assms(4))
  have "count_list (rev xs) t = count_list xs t" for xs and t :: jstring
    by (induction xs) (simp_all add: count_list_append)
  then show "seenAtBoundary T ls = count_list (map l_text bs)"
    by (auto simp: seenAtBoundary_def bs_def rev_map [symmetric] fun_eq_iff)
  show "list_all (\<lambda>l. l_ts l = T) bs"
    by (auto simp: bs_def list_all_iff dest: set_takeWhileD)
  define as where "as = rev (dropWhile (\<lambda>l. l_ts l = T) (rev ls))"
  have ls: "ls = as @ bs"
  proof -
    have "ls = rev (takeWhile (\<lambda>l. l_ts l = T) (rev ls) @ dropWhile (\<lambda>l. l_ts l = T) (rev ls))"
      by (simp only: takeWhile_dropWhile_id rev_rev_ident)
    then show ?thesis by (simp only: rev_append as_def bs_def)
  qed
  have front: "ls = butlast ls @ [last ls]" using assms(3) by simp
  have "sorted (map l_ts (butlast ls @ [last ls]))" using assms(1) front by simp
  then have "\<forall>l \<in> set (butlast ls). l_ts l \<le> T" by (simp add: sorted_append assms(4))
  moreover have "set ls = insert (last ls) (set (butlast ls))"
    by (subst front) (simp del: append_butlast_last_id)
  ultimately have le: "l_ts l \<le> T" if "l \<in> set ls" for l using that assms(4) by auto
  have "l_ts l < T" if "l \<in> set as" for l
  proof (cases "dropWhile (\<lambda>l. l_ts l = T) (rev ls)")
    case Nil
    then have "as = []" by (simp only: as_def rev.simps(1))
    then show ?thesis using that by simp
  next
    case (Cons d ds)
    then have "last as = d" "as \<noteq> []" by (simp_all add: as_def)
    moreover have "\<not> l_ts d = T" using hd_dropWhile [of "\<lambda>l. l_ts l = T" "rev ls"] Cons by simp
    ultimately have neq: "l_ts (last as) \<noteq> T" by simp
    have "last as \<in> set ls" using \<open>as \<noteq> []\<close> by (simp add: ls)
    then have less: "l_ts (last as) < T" using le neq by (simp add: order.not_eq_order_implies_strict)
    have "as = butlast as @ [last as]" using \<open>as \<noteq> []\<close> by simp
    then have "sorted (map l_ts (butlast as @ [last as]))" using assms(1) by (simp add: ls sorted_append)
    then have "\<forall>x \<in> set (butlast as). l_ts x \<le> l_ts (last as)" by (simp add: sorted_append)
    moreover have "l \<in> set (butlast as) \<or> l = last as"
      using that \<open>as \<noteq> []\<close> by (metis in_set_butlast_appendI in_set_conv_decomp append_butlast_last_id UnE set_append set_ConsD empty_iff empty_set)
    ultimately show ?thesis using less by (auto intro: le_less_trans)
  qed
  then have "filter (\<lambda>l. T \<le> l_ts l) as = []" by (force simp: filter_empty_conv dest: leD)
  moreover have "filter (\<lambda>l. T \<le> l_ts l) bs = bs"
    by (auto simp: bs_def filter_id_conv dest: set_takeWhileD)
  ultimately show "filter (\<lambda>l. T \<le> l_ts l) ls = bs" by (simp add: ls)
qed

text \<open>The lines that a \<open>--since\<close> request for the last shown timestamp returns.\<close>

definition since_lines :: "log_line list \<Rightarrow> log_line list \<Rightarrow> log_line list" where
  "since_lines shown stream =
     (case lastTimestamp shown of
        None \<Rightarrow> stream
      | Some ts \<Rightarrow> filter (\<lambda>l. ts \<le> l_ts l) stream)"

lemma lines_since_exact:
  assumes "sorted (map l_ts (shown @ rest))" "list_all (\<lambda>l. l_ts l \<noteq> []) (shown @ rest)"
    and "map strip incoming = map strip (since_lines shown (shown @ rest))"
  shows "map strip (linesSinceBoundary shown incoming) = map strip rest"
proof (cases "shown = []")
  case True
  then show ?thesis using assms(3) by (simp add: linesSinceBoundary_def lastTimestamp_def since_lines_def)
next
  case False
  define T where "T = l_ts (last shown)"
  define bs where "bs = rev (takeWhile (\<lambda>l. l_ts l = T) (rev shown))"
  have s: "sorted (map l_ts shown)" "list_all (\<lambda>l. l_ts l \<noteq> []) shown"
    using assms(1,2) by (simp_all add: sorted_append)
  note b = sorted_boundary [OF s False T_def, folded bs_def]
  have ge: "list_all (\<lambda>l. l_ts l \<noteq> [] \<and> T \<le> l_ts l) rest"
    using assms(1,2) False by (auto simp: T_def list_all_iff sorted_append)
  then have "filter (\<lambda>l. T \<le> l_ts l) rest = rest" by (simp add: filter_id_conv list_all_iff)
  then have inc: "map strip incoming = map strip bs @ map strip rest"
    unfolding assms(3) since_lines_def b(1) option.case filter_append b(4) map_append by simp
  have "T \<noteq> []" using s(2) False by (simp add: list_all_iff T_def)
  then have "filter_seen T (count_list (map l_text (map strip bs))) (map strip bs @ map strip rest) =
      filter_seen T (\<lambda>t. 0) (map strip rest)"
    using b(3) by (intro filter_seen_boundary) (simp_all only: list_all_iff set_map ball_simps strip_sel not_False_eq_True)
  also have "\<dots> = map strip rest" using ge by (intro filter_seen_later) (simp add: list_all_iff)
  finally have "filter_seen T (count_list (map l_text bs)) (map strip incoming) = map strip rest"
    unfolding inc by (simp add: comp_def)
  then show ?thesis
    unfolding linesSinceBoundary_def b(1) option.case b(2) filter_seen_strip .
qed

text \<open>C28: Streaming neither loses nor repeats a line: from a log in time order of which the viewer shows a
  prefix, the answer to a \<open>--since\<close> request for the last shown timestamp is reduced to exactly the
  lines that are not shown yet, in their order, however many lines share that timestamp or text.\<close>

theorem stream_exact:
  assumes "sorted (map l_ts (shown @ rest))" "list_all (\<lambda>l. l_ts l \<noteq> []) (shown @ rest)"
    and "map strip incoming = map strip (since_lines shown (shown @ rest))"
  shows "map strip (shown @ linesSinceBoundary shown incoming) = map strip (shown @ rest)"
  using lines_since_exact [OF assms] by simp

definition sample_line :: "nat \<Rightarrow> jstring \<Rightarrow> jstring \<Rightarrow> log_line" where
  "sample_line n ts s = \<lparr>l_id = n, l_ts = ts, l_text = s, l_source = [], l_color = [], l_lower = [], l_level = LvlInfo\<rparr>"

theorem stream_exact_witness:
  "map strip ([sample_line 1 ''t1'' ''a'', sample_line 2 ''t2'' ''x''] @
      linesSinceBoundary [sample_line 1 ''t1'' ''a'', sample_line 2 ''t2'' ''x'']
        [sample_line 3 ''t2'' ''x'', sample_line 4 ''t2'' ''x'', sample_line 5 ''t3'' ''b'']) =
   map strip [sample_line 1 ''t1'' ''a'', sample_line 2 ''t2'' ''x'', sample_line 4 ''t2'' ''x'', sample_line 5 ''t3'' ''b'']"
proof -
  have o: "(''t1'' :: jstring) < ''t2''" "(''t2'' :: jstring) < ''t3''" "(''t1'' :: jstring) < ''t3''"
    by (simp_all add: less_char_def)
  show ?thesis
    using stream_exact [of "[sample_line 1 ''t1'' ''a'', sample_line 2 ''t2'' ''x'']"
        "[sample_line 4 ''t2'' ''x'', sample_line 5 ''t3'' ''b'']"
        "[sample_line 3 ''t2'' ''x'', sample_line 4 ''t2'' ''x'', sample_line 5 ''t3'' ''b'']"] o
    by (simp add: since_lines_def lastTimestamp_def sample_line_def strip_def less_imp_le)
qed

section \<open>Search highlighting\<close>

lemma index_of_prefix: "index_of p s = Some i \<Longrightarrow> take (length p) (drop i s) = p"
  by (induction s arbitrary: i) (auto split: if_splits simp: prefix_def)

definition part_ok :: "jstring \<Rightarrow> segment_part \<Rightarrow> bool" where
  "part_ok needle seg \<longleftrightarrow> s_text seg \<noteq> [] \<and> (s_match seg \<longrightarrow> js_lower (s_text seg) = needle)"

lemma js_lower_take_drop: "js_lower (take n (drop i s)) = take n (drop i (js_lower s))"
  by (simp add: js_lower_def take_map drop_map)

lemma js_lower_drop: "js_lower (drop i s) = drop i (js_lower s)"
  by (simp add: js_lower_def drop_map)

lemma highlight_from_ok:
  assumes "lowerText = js_lower s" "needle \<noteq> []"
  shows "concat (map s_text (highlight_from needle s lowerText)) = s \<and>
    list_all (part_ok needle) (highlight_from needle s lowerText)"
  using assms
proof (induction needle s lowerText rule: highlight_from.induct)
  case (1 needle s lowerText)
  show ?case
  proof (cases "index_of needle lowerText")
    case None
    then show ?thesis
      using 1 by (subst (1 2) highlight_from.simps) (simp add: part_ok_def)
  next
    case (Some i)
    have len: "i + length needle \<le> length s"
      using index_of_length [OF Some] 1 by (simp add: js_lower_def)
    have eq: "highlight_from needle s lowerText =
        (if i > 0 then [\<lparr>s_text = take i s, s_match = False\<rparr>] else []) @
        \<lparr>s_text = take (length needle) (drop i s), s_match = True\<rparr> #
        highlight_from needle (drop (i + length needle) s) (drop (i + length needle) lowerText)"
      using Some 1 by (subst highlight_from.simps) simp
    have IH: "concat (map s_text (highlight_from needle (drop (i + length needle) s) (drop (i + length needle) lowerText))) =
          drop (i + length needle) s \<and>
        list_all (part_ok needle) (highlight_from needle (drop (i + length needle) s) (drop (i + length needle) lowerText))"
      using 1 Some by (intro 1(1)) (simp_all add: js_lower_drop)
    have "take (length needle) (drop i s) @ drop (i + length needle) s = drop i s"
      by (metis append_take_drop_id drop_drop add.commute)
    moreover have "part_ok needle \<lparr>s_text = take (length needle) (drop i s), s_match = True\<rparr>"
    proof -
      have "i < length s" using len 1(3) by (cases needle) auto
      then show ?thesis using index_of_prefix [OF Some] 1 by (simp add: part_ok_def js_lower_take_drop)
    qed
    moreover have "part_ok needle \<lparr>s_text = take i s, s_match = False\<rparr>" if "i > 0"
      using that len 1(3) by (cases s) (auto simp: part_ok_def)
    ultimately show ?thesis using IH unfolding eq by simp
  qed
qed

text \<open>Highlighting is lossless: the parts, joined, are the text; no part is empty, and a part is marked
  only when it is the search term up to case.\<close>

theorem highlight_lossless:
  assumes "s \<noteq> []"
  shows "concat (map s_text (highlightSegments s query)) = s \<and>
    list_all (part_ok (js_lower (trim query))) (highlightSegments s query)"
  using highlight_from_ok [OF refl, of "js_lower (trim query)" s] assms
  by (simp add: highlightSegments_def Let_def part_ok_def)

theorem highlight_lossless_witness:
  "highlightSegments ''an Error'' '' error '' =
     [\<lparr>s_text = ''an '', s_match = False\<rparr>, \<lparr>s_text = ''Error'', s_match = True\<rparr>] \<and>
   concat (map s_text (highlightSegments ''an Error'' '' error '')) = ''an Error''"
proof
  show "concat (map s_text (highlightSegments ''an Error'' '' error '')) = ''an Error''"
    using highlight_lossless [of "''an Error''" "'' error ''"] by simp
  show "highlightSegments ''an Error'' '' error '' =
     [\<lparr>s_text = ''an '', s_match = False\<rparr>, \<lparr>s_text = ''Error'', s_match = True\<rparr>]"
    by code_simp
qed

section \<open>Merged logs of several containers\<close>

lemma set_filter_seen: "set (filter_seen T seen ls) \<subseteq> set ls"
proof (induction ls arbitrary: seen)
  case (Cons l ls)
  show ?case using Cons [of seen] Cons [of "seen(l_text l := seen (l_text l) - 1)"] by (auto simp del: fun_upd_apply)
qed simp

lemma set_linesSinceBoundary: "set (linesSinceBoundary existing incoming) \<subseteq> set incoming"
  using set_filter_seen by (auto simp: linesSinceBoundary_def split: option.split)

lemma filter_groups:
  assumes "distinct ss" "\<And>s. \<forall>l \<in> set (f s). l_source l = s"
  shows "filter (\<lambda>l. l_source l = s) (concat (map f ss)) = (if s \<in> set ss then f s else [])"
  using assms(1)
proof (induction ss)
  case (Cons r ss)
  have "filter (\<lambda>l. l_source l = s) (f r) = (if r = s then f s else [])"
    using assms(2) [of r] by (auto simp: filter_id_conv filter_empty_conv)
  then show ?case using Cons by auto
qed simp

lemma linesSinceBoundary_Nil [simp]: "linesSinceBoundary existing [] = []"
  by (simp add: linesSinceBoundary_def split: option.split)

abbreviation of_source :: "jstring \<Rightarrow> log_line list \<Rightarrow> log_line list" where
  "of_source s \<equiv> filter (\<lambda>l. l_source l = s)"

lemma map_of_groups:
  "(case map_of (groupLinesBySource existing) s of Some g \<Rightarrow> g | None \<Rightarrow> []) = of_source s existing"
proof (cases "s \<in> set (map l_source existing)")
  case True
  then have "map_of (groupLinesBySource existing) s = Some (of_source s existing)"
    unfolding groupLinesBySource_def by (simp add: map_of_map_restrict restrict_map_def)
  then show ?thesis by simp
next
  case False
  then have "map_of (groupLinesBySource existing) s = None"
    unfolding groupLinesBySource_def by (simp add: map_of_map_restrict restrict_map_def)
  moreover have "of_source s existing = []" using False by (auto simp: filter_empty_conv)
  ultimately show ?thesis by simp
qed

text \<open>Before the sort, the fresh lines of a source are those that the boundary of its own lines leaves.\<close>

lemma fresh_of_source:
  "of_source s (concat (map (\<lambda>(source, group).
      linesSinceBoundary (case map_of (groupLinesBySource existing) source of Some g \<Rightarrow> g | None \<Rightarrow> []) group)
      (groupLinesBySource incoming))) =
   linesSinceBoundary (of_source s existing) (of_source s incoming)"
proof -
  define f where "f r = linesSinceBoundary (of_source r existing) (of_source r incoming)" for r
  have src: "\<forall>l \<in> set (f r). l_source l = r" for r
    unfolding f_def using set_linesSinceBoundary by fastforce
  have "of_source s (concat (map f (set_to_array (map l_source incoming)))) =
      (if s \<in> l_source ` set incoming then f s else [])"
    using filter_groups [OF _ src, of "set_to_array (map l_source incoming)"] by simp
  also have "\<dots> = f s"
  proof (cases "s \<in> l_source ` set incoming")
    case False
    then have "of_source s incoming = []" by (auto simp: filter_empty_conv)
    then show ?thesis using False by (simp add: f_def)
  qed simp
  finally show ?thesis
    unfolding map_of_groups by (simp add: groupLinesBySource_def comp_def f_def [abs_def])
qed

lemma same_source_sorted:
  assumes "localeCompare s s = 0" "sorted (map l_ts ls)"
    and "\<forall>l \<in> set ls. l_source l = s" "\<forall>l \<in> set ls. l_ts l \<noteq> []"
  shows "sorted_wrt (\<lambda>x y. compare_lines localeCompare x y \<le> 0) ls"
  using assms(2-4) by (induction ls) (auto simp: compare_lines_def assms(1))

lemma sorted_map_strip: "map strip xs = map strip ys \<Longrightarrow> map l_ts xs = map l_ts ys"
  by (metis (no_types, lifting) map_map comp_apply strip_sel(1) map_eq_conv)

text \<open>C29: Merging the streams of several containers is exact for each of them: when the shown lines of every
  source are a prefix of that source's log in time order and the answer holds what a request since the last
  shown timestamp of each source returns, the new lines of a source are exactly those that are not shown
  yet, in their order, whatever the sort by time and source name does between the sources.\<close>

theorem merged_stream_exact:
  assumes "\<forall>s. localeCompare s s = 0"
    and "\<exists>l \<in> set (shown @ incoming). l_source l \<noteq> []"
    and "\<forall>s. sorted (map l_ts (of_source s (shown @ rest)))"
    and "\<forall>l \<in> set (shown @ rest). l_ts l \<noteq> []"
    and "\<forall>s. map strip (of_source s incoming) = map strip (since_lines (of_source s shown) (of_source s (shown @ rest)))"
  shows "map strip (of_source s (newLinesSince localeCompare shown incoming)) = map strip (of_source s rest)"
proof -
  let ?fresh = "linesSinceBoundary (of_source s shown) (of_source s incoming)"
  have ne: "list_all (\<lambda>l. l_ts l \<noteq> []) (of_source s shown @ of_source s rest)"
    using assms(4) by (auto simp: list_all_iff)
  have exact: "map strip ?fresh = map strip (of_source s rest)"
    using assms(3,5) ne by (intro lines_since_exact) auto
  have "sorted (map l_ts (of_source s rest))" using assms(3) by (simp add: sorted_append)
  then have "sorted (map l_ts ?fresh)" using sorted_map_strip [OF exact] by simp
  moreover have "\<forall>l \<in> set ?fresh. l_source l = s" using set_linesSinceBoundary by fastforce
  moreover have "\<forall>l \<in> set ?fresh. l_ts l \<noteq> []"
  proof -
    have "list_all (\<lambda>t. t \<noteq> []) (map l_ts (of_source s rest))" using assms(4) by (auto simp: list_all_iff)
    then show ?thesis unfolding sorted_map_strip [OF exact, symmetric] by (auto simp: list_all_iff)
  qed
  ultimately have "sorted_wrt (\<lambda>x y. compare_lines localeCompare x y \<le> 0) ?fresh"
    by (rule same_source_sorted [OF assms(1) [rule_format]])
  then have stable: "filter (\<lambda>l. l_source l = s) (js_sort (compare_lines localeCompare) fs) = ?fresh"
    if "of_source s fs = ?fresh" for fs
    using that js_sort_stable [of "compare_lines localeCompare" "\<lambda>l. l_source l = s" fs] by (simp only:)
  have "list_ex (\<lambda>l. l_source l \<noteq> []) shown \<or> list_ex (\<lambda>l. l_source l \<noteq> []) incoming"
    using assms(2) by (auto simp: list_ex_iff)
  then have "of_source s (newLinesSince localeCompare shown incoming) = ?fresh"
    unfolding newLinesSince_def Let_def by (auto intro!: stable fresh_of_source)
  then show ?thesis using exact by (simp only:)
qed

definition sourced_line :: "jstring \<Rightarrow> jstring \<Rightarrow> jstring \<Rightarrow> log_line" where
  "sourced_line source ts s =
     \<lparr>l_id = 0, l_ts = ts, l_text = s, l_source = source, l_color = [], l_lower = [], l_level = LvlInfo\<rparr>"

theorem merged_stream_exact_witness:
  "map strip (filter (\<lambda>l. l_source l = ''w'')
      (newLinesSince (\<lambda>a b. if a = b then 0 else if a < b then -1 else 1)
        [sourced_line ''w'' ''t1'' ''a'', sourced_line ''d'' ''t2'' ''x'']
        [sourced_line ''d'' ''t2'' ''x'', sourced_line ''w'' ''t1'' ''a'', sourced_line ''w'' ''t1'' ''b''])) =
   map strip [sourced_line ''w'' ''t1'' ''b'']"
proof -
  have o: "(''t1'' :: jstring) < ''t2''" by (simp add: less_char_def)
  show ?thesis
    using merged_stream_exact [of "\<lambda>a b. if a = b then 0 else if a < b then -1 else 1"
        "[sourced_line ''w'' ''t1'' ''a'', sourced_line ''d'' ''t2'' ''x'']"
        "[sourced_line ''d'' ''t2'' ''x'', sourced_line ''w'' ''t1'' ''a'', sourced_line ''w'' ''t1'' ''b'']"
        "[sourced_line ''w'' ''t1'' ''b'']" "''w''"] o
    by (simp add: since_lines_def lastTimestamp_def sourced_line_def)
qed

section \<open>Labelled and unlabelled lines\<close>

lemma match_source_label:
  "\<lbrakk>label \<noteq> []; CHR 0x09 \<notin> set label\<rbrakk> \<Longrightarrow> match_source (label @ CHR 0x09 # body) = Some (label, body)"
proof -
  assume "label \<noteq> []" and no: "CHR 0x09 \<notin> set label"
  moreover have "takeWhile (\<lambda>c. c \<noteq> CHR 0x09) (label @ CHR 0x09 # body) = label"
    using no by (subst takeWhile_append2) auto
  moreover have "dropWhile (\<lambda>c. c \<noteq> CHR 0x09) (label @ CHR 0x09 # body) = CHR 0x09 # body"
    using no by (subst dropWhile_append2) auto
  ultimately show ?thesis by (simp add: match_source_def)
qed

lemma match_timestamp_Some:
  assumes "list_all2 (\<lambda>p c. p c) ts_shape base" "fraction = [] \<or> (\<exists>ds. fraction = CHR ''.'' # ds \<and> ds \<noteq> [] \<and> list_all is_digit ds)"
  shows "match_timestamp (base @ fraction @ ''Z '' @ s) = Some (base @ fraction @ ''Z'', s)"
proof -
  have len: "length base = 19" using list_all2_lengthD [OF assms(1)] by (simp add: ts_shape_def)
  have nZ: "\<not> is_digit CHR ''Z''" by (simp add: is_digit_def)
  from assms(2) show ?thesis
  proof
    assume "fraction = []"
    then show ?thesis using assms(1) by (simp add: match_timestamp_def len Let_def)
  next
    assume "\<exists>ds. fraction = CHR ''.'' # ds \<and> ds \<noteq> [] \<and> list_all is_digit ds"
    then obtain ds where ds: "fraction = CHR ''.'' # ds" "ds \<noteq> []" "list_all is_digit ds" by blast
    have "takeWhile is_digit (ds @ r) = ds @ takeWhile is_digit r" for r
      using ds(3) by (intro takeWhile_append2) (simp add: list_all_iff)
    then show ?thesis using assms(1) ds nZ by (simp add: match_timestamp_def len Let_def)
  qed
qed

text \<open>A labelled line of a merged log is read back exactly: the container's label before the tab, the
  timestamp and the text, tabs and colons of the text included.\<close>

theorem labelled_line_roundtrip:
  assumes "label \<noteq> []" "CHR 0x09 \<notin> set label" "list_all2 (\<lambda>p c. p c) ts_shape base"
    and "fraction = [] \<or> (\<exists>ds. fraction = CHR ''.'' # ds \<and> ds \<noteq> [] \<and> list_all is_digit ds)"
  shows "let l = parse_line n (label @ CHR 0x09 # base @ fraction @ ''Z '' @ s)
    in l_source l = label \<and> l_ts l = base @ fraction @ ''Z'' \<and> l_text l = s \<and> l_color l \<in> set SOURCE_COLORS"
proof -
  have "sourceColor label \<in> set SOURCE_COLORS"
    unfolding sourceColor_def by (rule nth_mem) (simp add: SOURCE_COLORS_def)
  then show ?thesis
    using match_source_label [OF assms(1,2)] match_timestamp_Some [OF assms(3,4)] assms(1)
    by (simp add: parse_line_def Let_def)
qed

theorem labelled_line_roundtrip_witness:
  "let l = parse_line 7 (''web'' @ CHR 0x09 # ''2026-01-02T03:04:05'' @ ''.5'' @ ''Z '' @ ''GET /'')
    in l_source l = ''web'' \<and> l_ts l = ''2026-01-02T03:04:05'' @ ''.5'' @ ''Z'' \<and> l_text l = ''GET /'' \<and>
       l_color l \<in> set SOURCE_COLORS"
proof (rule labelled_line_roundtrip)
  show "list_all2 (\<lambda>p c. p c) ts_shape ''2026-01-02T03:04:05''" by code_simp
  have "list_all is_digit ''5''" by code_simp
  then show "''.5'' = [] \<or> (\<exists>ds. ''.5'' = CHR ''.'' # ds \<and> ds \<noteq> [] \<and> list_all is_digit ds)" by blast
qed simp_all

text \<open>A line of a single container's log has no label, and a tab in its text is read as one: everything
  before the tab, the timestamp included, becomes the source, and the line has no timestamp, so that
  streaming repeats it and the merge sort moves it to the end.\<close>

theorem unlabelled_tab_misread:
  assumes "before \<noteq> []" "CHR 0x09 \<notin> set before" "length rest < 19"
  shows "l_source (parse_line n (before @ CHR 0x09 # rest)) = before \<and>
    l_ts (parse_line n (before @ CHR 0x09 # rest)) = []"
proof -
  have "match_timestamp rest = None"
    using assms(3) list_all2_lengthD [of "\<lambda>p c. p c" ts_shape rest]
    by (auto simp: match_timestamp_def Let_def ts_shape_def)
  then show ?thesis using match_source_label [OF assms(1,2)] by (simp add: parse_line_def)
qed

theorem unlabelled_tab_misread_witness:
  "l_source (parse_line 1 (''2026-01-02T03:04:05Z '' @ CHR 0x09 # ''at com.example'')) = ''2026-01-02T03:04:05Z '' \<and>
   l_ts (parse_line 1 (''2026-01-02T03:04:05Z '' @ CHR 0x09 # ''at com.example'')) = []"
  by (rule unlabelled_tab_misread) simp_all

section \<open>The viewer\<close>

text \<open>A fresh viewer, and what happens to it: the requests it starts, their answers, the stream timer, the
  user's actions, and the page around it.\<close>

definition init_viewer :: "log_filters \<Rightarrow> bool \<Rightarrow> bool \<Rightarrow> viewer" where
  "init_viewer filters textView allLines =
     \<lparr>v_lines = [], v_filtered = [], v_lineId = 0, v_loading = None, v_loadingLines = False,
      v_loadingAll = False, v_allLines = allLines, v_expanded = False, v_destroyed = False,
      v_streamLogs = False, v_hidden = False, v_filters = filters, v_query = [], v_appliedQuery = [],
      v_matchCount = 0, v_lineCount = 0, v_multipleSources = False, v_expandedLogs = [],
      v_textView = textView, v_fullscreen = False, v_alwaysScroll = False,
      v_followManuallyDisabled = False, v_isScrolling = False, v_lastTouchY = 0, v_colorLogs = False,
      v_scrollDebounce = False\<rparr>"

inductive viewer_step :: "(jstring \<Rightarrow> jstring \<Rightarrow> int) \<Rightarrow> viewer \<Rightarrow> viewer \<Rightarrow> bool" for lc where
  refresh: "viewer_step lc v (startRefresh withLines v)"
| show_all: "viewer_step lc v (startShowAll v)"
| tick: "viewer_step lc v (streamTick v)"
| answer: "viewer_step lc v (requestAnswer lc output v)"
| filters: "viewer_step lc v (toggleLogFilter level v)"
| query: "viewer_step lc v (setQuery q v)"
| details: "viewer_step lc v (toggleLogDetails n selected expandable v)"
| full: "viewer_step lc v (makeFullscreen v)"
| toggle_follow: "viewer_step lc v (toggleScroll mounted v)"
| wheel: "viewer_step lc v (handleWheel deltaY v)"
| touch_start: "viewer_step lc v (handleTouchStart clientY v)"
| touch_move: "viewer_step lc v (handleTouchMove clientY v)"
| key_scroll: "viewer_step lc v (handleKeyScroll key v)"
| scroll: "viewer_step lc v (handleScroll v)"
| settled: "viewer_step lc v (scrollSettled scrollHeight scrollTop clientHeight v)"
| scroll_end: "viewer_step lc v (scrollEnds v)"
| colors: "viewer_step lc v (toggleColorLogs v)"
| text_view: "viewer_step lc v (toggleTextView mounted v)"
| page: "viewer_step lc v (v\<lparr>v_expanded := e, v_hidden := h, v_streamLogs := s\<rparr>)"
| destroy: "viewer_step lc v (Runtime_Logs.destroy v)"

inductive viewer_reach :: "(jstring \<Rightarrow> jstring \<Rightarrow> int) \<Rightarrow> viewer \<Rightarrow> bool" for lc where
  start: "viewer_reach lc (init_viewer filters textView allLines)"
| step: "viewer_reach lc v \<Longrightarrow> viewer_step lc v w \<Longrightarrow> viewer_reach lc w"

definition ids_ok :: "nat \<Rightarrow> log_line list \<Rightarrow> bool" where
  "ids_ok n ls \<longleftrightarrow> distinct (map l_id ls) \<and> (\<forall>l \<in> set ls. l_id l \<le> n)"

definition lines_ok :: "viewer \<Rightarrow> bool" where
  "lines_ok v \<longleftrightarrow> ids_ok (v_lineId v) (v_lines v) \<and>
     v_filtered v = filterLogLines (v_lines v) (v_filters v) (v_query v) \<and>
     v_appliedQuery v = trim (v_query v) \<and> v_lineCount v = length (v_lines v)"

definition flags_ok :: "viewer \<Rightarrow> bool" where
  "flags_ok v \<longleftrightarrow> (v_loadingAll v \<longleftrightarrow> v_loading v = Some ShowAllRequest) \<and>
     (v_loadingLines v \<longleftrightarrow> v_loading v = Some (RefreshRequest True))"

lemma applyFilters_ok: "ids_ok (v_lineId v) (v_lines v) \<Longrightarrow> lines_ok (applyFilters v)"
  by (simp add: lines_ok_def applyFilters_def Let_def)

lemma applyFilters_flags [simp]: "flags_ok (applyFilters v) = flags_ok v" "v_loading (applyFilters v) = v_loading v"
  "v_loadingAll (applyFilters v) = v_loadingAll v" "v_loadingLines (applyFilters v) = v_loadingLines v"
  "v_lineId (applyFilters v) = v_lineId v"
  by (simp_all add: flags_ok_def applyFilters_def Let_def)

lemma parse_raws_ids:
  "parse_raws raws n = (ls, m) \<Longrightarrow> n \<le> m \<and> distinct (map l_id ls) \<and> (\<forall>l \<in> set ls. n < l_id l \<and> l_id l \<le> m)"
proof (induction raws arbitrary: n ls m)
  case (Cons raw raws)
  show ?case
  proof (cases "trim raw = []")
    case True
    then show ?thesis using Cons by simp
  next
    case False
    obtain ls' m' where r: "parse_raws raws (n + 1) = (ls', m')" by fastforce
    have "l_id (parse_line (n + 1) raw) = n + 1" by (simp add: parse_line_def split: option.split prod.split)
    moreover have "ls = parse_line (n + 1) raw # ls'" "m = m'" using Cons.prems False r by auto
    ultimately show ?thesis using Cons.IH [OF r] by fastforce
  qed
qed simp

lemma parseLogLines_ids:
  "parseLogLines output n = (ls, m) \<Longrightarrow> n \<le> m \<and> distinct (map l_id ls) \<and> (\<forall>l \<in> set ls. n < l_id l \<and> l_id l \<le> m)"
  unfolding parseLogLines_def by (rule parse_raws_ids)

lemma distinct_filter_seen: "distinct ls \<Longrightarrow> distinct (filter_seen T seen ls)"
proof (induction ls arbitrary: seen)
  case (Cons l ls)
  then show ?case
    using set_filter_seen [of T seen ls] set_filter_seen [of T "seen(l_text l := seen (l_text l) - 1)" ls]
    by (auto simp del: fun_upd_apply)
qed simp

lemma distinct_linesSinceBoundary: "distinct ls \<Longrightarrow> distinct (linesSinceBoundary existing ls)"
  by (simp add: linesSinceBoundary_def distinct_filter_seen split: option.split)

lemma distinct_by_source:
  assumes "distinct ss" "\<And>s. distinct (f s)" "\<And>s. \<forall>l \<in> set (f s). l_source l = s"
  shows "distinct (concat (map f ss))"
  using assms(1)
proof (induction ss)
  case (Cons r ss)
  have "set (f r) \<inter> set (f s) = {}" if "s \<in> set ss" for s
    using Cons.prems that assms(3) [of r] assms(3) [of s] by auto
  then show ?case using Cons assms(2) [of r] by auto
qed simp

lemma newLinesSince_distinct:
  assumes "distinct incoming"
  shows "set (newLinesSince lc existing incoming) \<subseteq> set incoming \<and> distinct (newLinesSince lc existing incoming)"
proof -
  define f where "f r = linesSinceBoundary (of_source r existing) (of_source r incoming)" for r
  let ?fresh = "concat (map f (set_to_array (map l_source incoming)))"
  have f: "set (f r) \<subseteq> set incoming" "\<forall>l \<in> set (f r). l_source l = r" "distinct (f r)" for r
    unfolding f_def using set_linesSinceBoundary assms by (fastforce intro: distinct_linesSinceBoundary)+
  then have "set ?fresh \<subseteq> set incoming" "distinct ?fresh" by (auto intro!: distinct_by_source)
  moreover have "newLinesSince lc existing incoming =
      (if \<not> list_ex (\<lambda>l. l_source l \<noteq> []) existing \<and> \<not> list_ex (\<lambda>l. l_source l \<noteq> []) incoming
       then linesSinceBoundary existing incoming else js_sort (compare_lines lc) ?fresh)"
    unfolding newLinesSince_def Let_def map_of_groups
    by (simp add: groupLinesBySource_def comp_def f_def [abs_def])
  ultimately show ?thesis
    using assms set_linesSinceBoundary by (simp add: set_js_sort distinct_js_sort distinct_linesSinceBoundary)
qed

lemma distinct_ids_subset:
  "\<lbrakk>distinct (map l_id ls); set ks \<subseteq> set ls; distinct ks\<rbrakk> \<Longrightarrow> distinct (map l_id ks)"
  by (auto simp: distinct_map intro: inj_on_subset)

lemma replaceLines_ok:
  "lines_ok v \<Longrightarrow> lines_ok (replaceLines output v)"
  by (auto simp: replaceLines_def ids_ok_def intro!: applyFilters_ok dest: parseLogLines_ids split: prod.split)

lemma replaceLines_flags [simp]: "flags_ok (replaceLines output v) = flags_ok v"
    "v_loading (replaceLines output v) = v_loading v" "v_loadingAll (replaceLines output v) = v_loadingAll v"
    "v_loadingLines (replaceLines output v) = v_loadingLines v"
  by (auto simp: replaceLines_def flags_ok_def split: prod.split)

lemma ids_ok_drop: "ids_ok n ls \<Longrightarrow> ids_ok n (drop k ls)"
  by (auto simp: ids_ok_def distinct_drop simp flip: drop_map dest: in_set_dropD)

lemma appendLines_ok:
  assumes "lines_ok v" "ids_ok n (v_lines v @ newLines)" "v_lineId v \<le> n"
  shows "lines_ok (appendLines newLines (v\<lparr>v_lineId := n\<rparr>))"
proof (cases "newLines = []")
  case True
  then show ?thesis using assms by (simp add: appendLines_def lines_ok_def)
next
  case False
  then show ?thesis
    using ids_ok_drop [OF assms(2)] by (simp add: appendLines_def Let_def applyFilters_ok del: drop_append)
qed

lemma stream_answer_ok:
  assumes "lines_ok v" "parseLogLines output (v_lineId v) = (ls, n)"
  shows "lines_ok (appendLines (newLinesSince lc (v_lines v) ls) (v\<lparr>v_lineId := n\<rparr>))"
proof (rule appendLines_ok [OF assms(1)])
  note p = parseLogLines_ids [OF assms(2)]
  have "distinct ls" using p distinct_map by blast
  note new = newLinesSince_distinct [OF this, of lc "v_lines v"]
  have ids: "l_id l \<le> v_lineId v" if "l \<in> set (v_lines v)" for l
    using assms(1) that by (simp add: lines_ok_def ids_ok_def)
  have fresh: "v_lineId v < l_id l \<and> l_id l \<le> n" if "l \<in> set (newLinesSince lc (v_lines v) ls)" for l
    using p new that by blast
  have "l_id ` set (v_lines v) \<inter> l_id ` set (newLinesSince lc (v_lines v) ls) = {}"
    using ids fresh by force
  moreover have "distinct (map l_id (v_lines v))" using assms(1) by (simp add: lines_ok_def ids_ok_def)
  moreover have "distinct (map l_id (newLinesSince lc (v_lines v) ls))"
    using distinct_ids_subset p new by blast
  ultimately show "ids_ok n (v_lines v @ newLinesSince lc (v_lines v) ls)"
    using ids fresh p by (auto simp: ids_ok_def intro: order_trans)
  show "v_lineId v \<le> n" using p by simp
qed

lemma appendLines_flags [simp]:
    "v_loading (appendLines ls v) = v_loading v" "v_loadingAll (appendLines ls v) = v_loadingAll v"
    "v_loadingLines (appendLines ls v) = v_loadingLines v"
  by (simp_all add: appendLines_def Let_def)

lemma answer_ok:
  assumes "lines_ok v" "flags_ok v"
  shows "lines_ok (requestAnswer lc output v) \<and> flags_ok (requestAnswer lc output v)"
proof (cases "v_loading v")
  case None
  then show ?thesis using assms by (simp add: requestAnswer_def)
next
  case (Some request)
  have upd: "lines_ok (w\<lparr>v_loading := a, v_loadingLines := b\<rparr>) = lines_ok w" 
    "lines_ok (w\<lparr>v_loading := a, v_loadingAll := b\<rparr>) = lines_ok w" "lines_ok (w\<lparr>v_loading := a\<rparr>) = lines_ok w"
    "lines_ok (w\<lparr>v_allLines := b\<rparr>) = lines_ok w" "lines_ok (w\<lparr>v_allLines := b, v_loading := a, v_loadingAll := c\<rparr>) = lines_ok w" for w a b c
    by (simp_all add: lines_ok_def)
  show ?thesis
  proof (cases request)
    case StreamRequest
    then have "lines_ok (requestAnswer lc output v)"
      using assms(1) Some stream_answer_ok
      by (auto simp: requestAnswer_def upd split: option.split prod.split)
    moreover have "flags_ok (requestAnswer lc output v)"
      using assms(2) Some StreamRequest
      by (auto simp: requestAnswer_def flags_ok_def split: option.split prod.split)
    ultimately show ?thesis ..
  next
    case (RefreshRequest withLines)
    then show ?thesis
      using assms Some replaceLines_ok
      by (auto simp: requestAnswer_def Let_def upd flags_ok_def split: option.split)
  next
    case ShowAllRequest
    then show ?thesis
      using assms Some replaceLines_ok
      by (auto simp: requestAnswer_def Let_def upd flags_ok_def split: option.split)
  qed
qed

lemma lines_ok_ids: "lines_ok v \<Longrightarrow> ids_ok (v_lineId v) (v_lines v)"
  by (simp add: lines_ok_def)

lemma flags_ok_upd: "flags_ok (v\<lparr>v_filters := f\<rparr>) = flags_ok v" "flags_ok (v\<lparr>v_query := q\<rparr>) = flags_ok v"
  by (simp_all add: flags_ok_def)

lemmas follow_defs = toggleScroll_def scrollToBottom_def disableFollow_def handleWheel_def handleTouchStart_def
  handleTouchMove_def handleKeyScroll_def handleScroll_def scrollSettled_def Runtime_Logs.destroy_def scrollEnds_def toggleColorLogs_def toggleTextView_def

lemma viewer_step_ok:
  assumes "viewer_step lc v w" "lines_ok v" "flags_ok v"
  shows "lines_ok w \<and> flags_ok w"
  using assms(1)
proof cases
  case answer
  then show ?thesis using answer_ok assms by blast
next
  case filters
  then show ?thesis using assms(2,3) by (simp add: toggleLogFilter_def applyFilters_ok lines_ok_ids flags_ok_upd)
next
  case query
  then show ?thesis using assms(2,3) by (simp add: setQuery_def applyFilters_ok lines_ok_ids flags_ok_upd)
qed (use assms(2,3) in \<open>auto simp: lines_ok_def flags_ok_def startRefresh_def startShowAll_def streamTick_def
       toggleLogDetails_def makeFullscreen_def follow_defs Let_def\<close>)

text \<open>C30: In every state the viewer can reach, whatever the order of its requests, their answers and the user's
  actions: every line has its own id, at most the counter (the row keys of the list are unique); the rows are
  the lines that pass the level filters and the search; the count is the number of lines; and each loading
  flag is set exactly while its request runs.\<close>

theorem viewer_consistent:
  assumes "viewer_reach lc v"
  shows "distinct (map l_id (v_lines v)) \<and> (\<forall>l \<in> set (v_lines v). l_id l \<le> v_lineId v) \<and>
    v_filtered v = filterLogLines (v_lines v) (v_filters v) (v_query v) \<and>
    v_lineCount v = length (v_lines v) \<and>
    (v_loadingAll v \<longleftrightarrow> v_loading v = Some ShowAllRequest) \<and>
    (v_loadingLines v \<longleftrightarrow> v_loading v = Some (RefreshRequest True))"
proof -
  have "lines_ok v \<and> flags_ok v"
    using assms
  proof (induction)
    case (start filters textView allLines)
    then show ?case
      by (simp add: lines_ok_def flags_ok_def ids_ok_def init_viewer_def filterLogLines_def Let_def trim_def)
  next
    case (step v w)
    then show ?case using viewer_step_ok [of lc v w] by blast
  qed
  then show ?thesis by (simp add: lines_ok_def flags_ok_def ids_ok_def)
qed

theorem viewer_consistent_witness:
  "\<exists>v. viewer_reach (\<lambda>a b. 0) v \<and> map l_text (v_lines v) = [''a'', ''b''] \<and> distinct (map l_id (v_lines v))"
proof -
  let ?v0 = "init_viewer (\<lambda>_. True) True False"
  let ?v = "requestAnswer (\<lambda>a b. 0) (Some (Some (''a'' @ CHR 0x0A # ''b''))) (startRefresh True ?v0)"
  have reach: "viewer_reach (\<lambda>a b. 0) ?v"
    by (rule viewer_reach.step [OF viewer_reach.step [OF viewer_reach.start viewer_step.refresh] viewer_step.answer])
  moreover have "map l_text (v_lines ?v) = [''a'', ''b'']" by code_simp
  moreover note viewer_consistent [OF reach, THEN conjunct1]
  ultimately show ?thesis by (intro exI [of _ ?v] conjI)
qed

end
