(* ===== verification/Canvas_Core.thy ===== *)
theory Canvas_Core
  imports Js_Json
begin

text \<open>
  The core that the deploy canvas and the environment canvas share, \<open>resources/js/canvas-core.js\<close>:
  collisions and free spots, the requests to Coolify's API and their errors, panning and zooming with
  the wheel, fingers and mouse as a state machine over pointer events, and the mounting of a canvas into
  a page. Coordinates are real numbers; rounding of floating-point arithmetic is not modelled. Layout
  rectangles of the page are arguments.
\<close>

section \<open>Collisions\<close>

record box =
  b_x :: real
  b_y :: real
  b_w :: real
  b_h :: real

definition BOX_GAP :: real where "BOX_GAP = 16"

definition apart :: "box \<Rightarrow> box \<Rightarrow> real \<Rightarrow> bool" where
  "apart a b gap \<longleftrightarrow>
     b_x a \<ge> b_x b + b_w b + gap \<or> b_x a + b_w a + gap \<le> b_x b \<or>
     b_y a \<ge> b_y b + b_h b + gap \<or> b_y a + b_h a + gap \<le> b_y b"

definition hypot :: "real \<Rightarrow> real \<Rightarrow> real" where
  "hypot dx dy = sqrt (dx\<^sup>2 + dy\<^sup>2)"

definition is_free :: "box list \<Rightarrow> real \<Rightarrow> (box \<Rightarrow> bool) \<Rightarrow> box \<Rightarrow> bool" where
  "is_free others gap fits b \<longleftrightarrow> list_all (\<lambda>o'. apart b o' gap) others \<and> fits b"

definition spot_xs :: "box \<Rightarrow> box list \<Rightarrow> real \<Rightarrow> real list" where
  "spot_xs box others gap = b_x box # concat (map (\<lambda>o'. [b_x o' - b_w box - gap, b_x o' + b_w o' + gap]) others)"

definition spot_ys :: "box \<Rightarrow> box list \<Rightarrow> real \<Rightarrow> real list" where
  "spot_ys box others gap = b_y box # concat (map (\<lambda>o'. [b_y o' - b_h box - gap, b_y o' + b_h o' + gap]) others)"

text \<open>The two loops over the candidates, with \<open>best\<close> and \<open>bestDistance\<close>; \<open>None\<close> is \<open>null\<close> at distance
  \<open>Infinity\<close>. Distances are compared by their squares, which order them alike and can be computed.\<close>

definition square_distance :: "box \<Rightarrow> real \<times> real \<Rightarrow> real" where
  "square_distance box p = (fst p - b_x box)\<^sup>2 + (snd p - b_y box)\<^sup>2"

lemma hypot_square_distance: "hypot (x - b_x box) (y - b_y box) = sqrt (square_distance box (x, y))"
  by (simp add: hypot_def square_distance_def)

fun nearest :: "(box \<Rightarrow> bool) \<Rightarrow> box \<Rightarrow> (real \<times> real) list \<Rightarrow> (box \<times> real) option \<Rightarrow> (box \<times> real) option" where
  "nearest free box [] best = best"
| "nearest free box ((x, y) # ps) best =
     (let distance = square_distance box (x, y); c = box\<lparr>b_x := x, b_y := y\<rparr>
      in if (case best of None \<Rightarrow> True | Some (_, bestDistance) \<Rightarrow> distance < bestDistance) \<and> free c
         then nearest free box ps (Some (c, distance)) else nearest free box ps best)"

definition freeSpot :: "box \<Rightarrow> box list \<Rightarrow> real \<Rightarrow> (box \<Rightarrow> bool) \<Rightarrow> box option" where
  "freeSpot box others gap fits =
     (if is_free others gap fits box then Some box
      else map_option fst (nearest (is_free others gap fits) box
             (List.product (spot_xs box others gap) (spot_ys box others gap)) None))"

section \<open>Requests\<close>

record api_request =
  rq_method :: jstring
  rq_url :: jstring
  rq_keepalive :: bool
  rq_headers :: "(jstring \<times> jstring) list"
  rq_body :: "json option"

text \<open>\<open>csrf\<close> and \<open>team\<close> are the values of the page's meta tag and of \<open>data-team\<close>, where the page has
  them.\<close>

definition api_request_of ::
  "jstring option \<Rightarrow> jstring option \<Rightarrow> jstring \<Rightarrow> jstring \<Rightarrow> json option \<Rightarrow> bool \<Rightarrow> api_request" where
  "api_request_of csrf team method path body keepalive =
     \<lparr>rq_method = method, rq_url = ''/canvas/api'' @ path, rq_keepalive = keepalive,
      rq_headers =
        [(''Accept'', ''application/json''), (''X-Requested-With'', ''XMLHttpRequest''),
         (''X-CSRF-TOKEN'', case csrf of Some t \<Rightarrow> t | None \<Rightarrow> []),
         (''X-Canvas-Team'', case team of Some t \<Rightarrow> t | None \<Rightarrow> [])] @
        (case body of Some v \<Rightarrow> if truthy v then [(''Content-Type'', ''application/json'')] else [] | None \<Rightarrow> []),
      rq_body = (case body of Some v \<Rightarrow> if truthy v then Some v else None | None \<Rightarrow> None)\<rparr>"

text \<open>\<open>String(value)\<close> of the values in an \<open>errors\<close> object, with numbers as a parameter; validation errors are
  lists of strings.\<close>

fun to_text :: "(rat \<Rightarrow> jstring) \<Rightarrow> json \<Rightarrow> jstring" where
  "to_text num JNull = ''null''"
| "to_text num (JBool b) = (if b then ''true'' else ''false'')"
| "to_text num (JNum n) = num n"
| "to_text num (JStr s) = s"
| "to_text num (JArr xs) = join_with '','' (map (\<lambda>v. if v = JNull then [] else to_text num v) xs)"
| "to_text num (JObj kvs) = ''[object Object]''"

text \<open>\<open>Object.values(errors).flat()\<close>\<close>

fun flat_values :: "json \<Rightarrow> json list" where
  "flat_values (JObj kvs) = concat (map (\<lambda>(k, v). case v of JArr xs \<Rightarrow> xs | _ \<Rightarrow> [v]) kvs)"
| "flat_values (JArr ys) = concat (map (\<lambda>v. case v of JArr xs \<Rightarrow> xs | _ \<Rightarrow> [v]) ys)"
| "flat_values _ = []"

definition http_status_text :: "(rat \<Rightarrow> jstring) \<Rightarrow> int \<Rightarrow> jstring" where
  "http_status_text num code = ''Request failed (HTTP '' @ num (of_int code) @ '').''"

definition api_error_message :: "(rat \<Rightarrow> jstring) \<Rightarrow> int \<Rightarrow> json \<Rightarrow> jstring" where
  "api_error_message num code body =
     (let errors = (case json_get body ''errors'' of
                      Some v \<Rightarrow> if truthy v then map (to_text num) (flat_values v) else []
                    | None \<Rightarrow> []);
          message = (case json_get body ''message'' of
                       Some v \<Rightarrow> if truthy v then to_text num v else http_status_text num code
                     | None \<Rightarrow> http_status_text num code)
      in join_with '' '' (message # filter (\<lambda>e. json_get body ''message'' \<noteq> Some (JStr e)) errors))"

record api_error =
  ae_status :: int
  ae_message :: jstring
  ae_body :: json

text \<open>What \<open>api\<close> returns or throws for a response; an unreadable body is \<open>null\<close>.\<close>

definition api_result :: "(rat \<Rightarrow> jstring) \<Rightarrow> int \<Rightarrow> bool \<Rightarrow> json option \<Rightarrow> api_error + json" where
  "api_result num code ok body =
     (let v = (case body of Some v \<Rightarrow> v | None \<Rightarrow> JNull)
      in if \<not> ok then Inl \<lparr>ae_status = code, ae_message = api_error_message num code v, ae_body = v\<rparr> else Inr v)"

section \<open>Pan and zoom\<close>

definition MIN_ZOOM :: real where "MIN_ZOOM = 1/4"
definition MAX_ZOOM :: real where "MAX_ZOOM = 2"

record view =
  vx :: real
  vy :: real
  vz :: real

record dom_rect =
  r_left :: real
  r_top :: real
  r_width :: real
  r_height :: real

record canvas_style =
  cs_scale :: real
  cs_translate :: "real \<times> real"
  cs_dots_size :: real
  cs_dots_position :: "real \<times> real"
  cs_root_dots_position :: "real \<times> real"
  cs_max_zoom :: bool
  cs_percent :: int

definition canvasDotsOffset :: "dom_rect \<Rightarrow> dom_rect \<Rightarrow> real \<times> real" where
  "canvasDotsOffset page viewport = (r_left viewport - r_left page, r_top viewport - r_top page)"

text \<open>\<open>Math.round\<close>\<close>

definition js_round :: "real \<Rightarrow> int" where
  "js_round x = \<lfloor>x + 1/2\<rfloor>"

definition apply_view :: "dom_rect \<Rightarrow> dom_rect \<Rightarrow> view \<Rightarrow> canvas_style" where
  "apply_view page viewport v =
     (let (ox, oy) = canvasDotsOffset page viewport
      in \<lparr>cs_scale = vz v, cs_translate = (vx v, vy v), cs_dots_size = 20 * vz v, cs_dots_position = (vx v, vy v),
          cs_root_dots_position = (vx v + ox, vy v + oy), cs_max_zoom = (vz v \<ge> MAX_ZOOM),
          cs_percent = js_round (vz v * 100)\<rparr>)"

datatype zoom_key = ZoomIn | ZoomOut | ZoomReset

definition zoomShortcut :: "bool \<Rightarrow> bool \<Rightarrow> bool \<Rightarrow> jstring \<Rightarrow> zoom_key option" where
  "zoomShortcut ctrlKey metaKey altKey key =
     (if \<not> (ctrlKey \<or> metaKey) \<or> altKey then None
      else if key = ''+'' \<or> key = ''='' then Some ZoomIn
      else if key = ''-'' \<or> key = ''_'' then Some ZoomOut
      else if key = ''0'' then Some ZoomReset
      else None)"

definition toWorld :: "dom_rect \<Rightarrow> view \<Rightarrow> real \<Rightarrow> real \<Rightarrow> real \<times> real" where
  "toWorld r v cx cy = ((cx - r_left r - vx v) / vz v, (cy - r_top r - vy v) / vz v)"

definition clamp_zoom :: "real \<Rightarrow> real" where
  "clamp_zoom z = min MAX_ZOOM (max MIN_ZOOM z)"

definition zoomTo :: "dom_rect \<Rightarrow> real \<Rightarrow> real option \<Rightarrow> real option \<Rightarrow> view \<Rightarrow> view" where
  "zoomTo r z cx cy v =
     (let px = (case cx of Some c \<Rightarrow> c | None \<Rightarrow> r_left r + r_width r / 2);
          py = (case cy of Some c \<Rightarrow> c | None \<Rightarrow> r_top r + r_height r / 2);
          (wx, wy) = toWorld r v px py;
          z' = clamp_zoom z
      in v\<lparr>vz := z', vx := px - r_left r - wx * z', vy := py - r_top r - wy * z'\<rparr>)"

definition wheel :: "dom_rect \<Rightarrow> bool \<Rightarrow> real \<Rightarrow> real \<Rightarrow> real \<Rightarrow> real \<Rightarrow> view \<Rightarrow> view" where
  "wheel r zooms deltaX deltaY clientX clientY v =
     (if zooms then zoomTo r (vz v * exp (- deltaY * (1/100))) (Some clientX) (Some clientY) v
      else v\<lparr>vx := vx v - deltaX, vy := vy v - deltaY\<rparr>)"

section \<open>Pointers\<close>

text \<open>\<open>touches\<close> is a map in the order of insertion; setting a known pointer keeps its place.\<close>

type_synonym touch_map = "(nat \<times> (real \<times> real)) list"

fun touch_set :: "nat \<Rightarrow> real \<times> real \<Rightarrow> touch_map \<Rightarrow> touch_map" where
  "touch_set i p [] = [(i, p)]"
| "touch_set i p ((j, q) # m) = (if i = j then (i, p) # m else (j, q) # touch_set i p m)"

definition touch_delete :: "nat \<Rightarrow> touch_map \<Rightarrow> touch_map" where
  "touch_delete i m = filter (\<lambda>(j, _). j \<noteq> i) m"

record pinch_start =
  pi_cx :: real
  pi_cy :: real
  pi_d :: real
  pi_z :: real
  pi_x :: real
  pi_y :: real

record pan_drag =
  pn_cx :: real
  pn_cy :: real
  pn_x :: real
  pn_y :: real
  pn_moved :: bool
  pn_middle :: bool

record pointers =
  pv :: view
  p_touches :: touch_map
  p_fingers :: "nat set"
  p_pinch :: "pinch_start option"
  p_panned :: bool
  p_pans :: "pan_drag list"

definition new_pointers :: "view \<Rightarrow> pointers" where
  "new_pointers v = \<lparr>pv = v, p_touches = [], p_fingers = {}, p_pinch = None, p_panned = False, p_pans = []\<rparr>"

text \<open>\<open>pinchState\<close>: centre and distance of the first two touches.\<close>

fun pinchState :: "touch_map \<Rightarrow> real \<times> real \<times> real" where
  "pinchState ((_, (ax, ay)) # (_, (bx, by')) # _) =
     ((ax + bx) / 2, (ay + by') / 2, max 1 (hypot (ax - bx) (ay - by')))"
| "pinchState _ = (0, 0, 1)"

text \<open>The capture listener for touches: the new state, and whether it stops the event.\<close>

definition touch_down :: "dom_rect \<Rightarrow> nat \<Rightarrow> real \<Rightarrow> real \<Rightarrow> pointers \<Rightarrow> pointers \<times> bool" where
  "touch_down r i cx cy s =
     (let m = touch_set i (cx, cy) (p_touches s)
      in if length m \<noteq> 2 then (s\<lparr>p_touches := m\<rparr>, False)
         else (let (mx, my, d) = pinchState m; (wx, wy) = toWorld r (pv s) mx my
               in (s\<lparr>p_touches := m, p_fingers := p_fingers s \<union> fst ` set m,
                     p_pinch := Some \<lparr>pi_cx = mx, pi_cy = my, pi_d = d, pi_z = vz (pv s), pi_x = wx, pi_y = wy\<rparr>\<rparr>,
                   True)))"

definition pinch_view :: "dom_rect \<Rightarrow> touch_map \<Rightarrow> pinch_start \<Rightarrow> view \<Rightarrow> view" where
  "pinch_view r m p v =
     (let (cx, cy, d) = pinchState m; z = clamp_zoom (pi_z p * d / pi_d p)
      in v\<lparr>vz := z, vx := cx - r_left r - pi_x p * z, vy := cy - r_top r - pi_y p * z\<rparr>)"

text \<open>\<open>pointermove\<close>: the capture listener for touches, then every pan that has begun.\<close>

definition touch_move :: "dom_rect \<Rightarrow> nat \<Rightarrow> real \<Rightarrow> real \<Rightarrow> pointers \<Rightarrow> pointers \<times> bool" where
  "touch_move r i cx cy s =
     (if i \<notin> fst ` set (p_touches s) then (s, False)
      else (let m = touch_set i (cx, cy) (p_touches s); t = s\<lparr>p_touches := m\<rparr>
            in if i \<notin> p_fingers s then (t, False)
               else case p_pinch s of
                      None \<Rightarrow> (t, True)
                    | Some p \<Rightarrow> if length m < 2 then (t, True) else (t\<lparr>pv := pinch_view r m p (pv s)\<rparr>, True)))"

definition pan_move :: "real \<Rightarrow> real \<Rightarrow> pan_drag \<Rightarrow> view \<Rightarrow> pan_drag \<times> view" where
  "pan_move cx cy d v =
     (if \<not> pn_moved d \<and> hypot (cx - pn_cx d) (cy - pn_cy d) < 4 then (d, v)
      else (d\<lparr>pn_moved := True\<rparr>, v\<lparr>vx := pn_x d + cx - pn_cx d, vy := pn_y d + cy - pn_cy d\<rparr>))"

fun pans_move :: "real \<Rightarrow> real \<Rightarrow> pan_drag list \<Rightarrow> view \<Rightarrow> pan_drag list \<times> view" where
  "pans_move cx cy [] v = ([], v)"
| "pans_move cx cy (d # ds) v =
     (let (d', v') = pan_move cx cy d v; (ds', v'') = pans_move cx cy ds v' in (d' # ds', v''))"

definition pointer_move :: "dom_rect \<Rightarrow> nat \<Rightarrow> real \<Rightarrow> real \<Rightarrow> pointers \<Rightarrow> pointers" where
  "pointer_move r i cx cy s =
     (case touch_move r i cx cy s of
        (t, True) \<Rightarrow> t
      | (t, False) \<Rightarrow> (let (ds, v) = pans_move cx cy (p_pans t) (pv t) in t\<lparr>p_pans := ds, pv := v\<rparr>))"

text \<open>\<open>liftFinger\<close>, on the release or the cancellation of a pointer.\<close>

definition liftFinger :: "nat \<Rightarrow> pointers \<Rightarrow> pointers" where
  "liftFinger i s =
     (let m = touch_delete i (p_touches s)
      in s\<lparr>p_touches := m, p_fingers := p_fingers s - {i}, p_pinch := (if length m < 2 then None else p_pinch s)\<rparr>)"

text \<open>The \<open>up\<close> listeners of the pans, which end on the release of any pointer; also given are the values
  that \<open>onPanEnd\<close> gets.\<close>

fun pans_up :: "pan_drag list \<Rightarrow> bool \<Rightarrow> bool" where
  "pans_up [] panned = panned"
| "pans_up (d # ds) panned = pans_up ds (if pn_middle d then pn_moved d else panned)"

definition pointer_up :: "nat \<Rightarrow> pointers \<Rightarrow> pointers \<times> bool list" where
  "pointer_up i s =
     (let t = liftFinger i s
      in (t\<lparr>p_panned := pans_up (p_pans t) (p_panned t), p_pans := []\<rparr>,
          map pn_moved (filter (\<lambda>d. \<not> pn_middle d) (p_pans t))))"

definition startPan :: "bool \<Rightarrow> real \<Rightarrow> real \<Rightarrow> pointers \<Rightarrow> pointers" where
  "startPan middle cx cy s =
     s\<lparr>p_pans := p_pans s @
        [\<lparr>pn_cx = cx, pn_cy = cy, pn_x = vx (pv s), pn_y = vy (pv s), pn_moved = False, pn_middle = middle\<rparr>]\<rparr>"

datatype pointer_type = Touch | Mouse | Pen

text \<open>\<open>pointerdown\<close>: the touch listener and the middle-button listener in the capture phase, then the
  background pan.\<close>

definition pointer_down ::
  "dom_rect \<Rightarrow> (pointers \<Rightarrow> bool) \<Rightarrow> pointer_type \<Rightarrow> nat \<Rightarrow> nat \<Rightarrow> real \<Rightarrow> real \<Rightarrow> pointers \<Rightarrow> pointers" where
  "pointer_down r canPan kind i button cx cy s =
     (case (if kind = Touch then touch_down r i cx cy s else (s, False)) of
        (t, True) \<Rightarrow> t
      | (t, False) \<Rightarrow>
          (let u = t\<lparr>p_panned := False\<rparr>
           in if p_pinch u = None \<and> kind = Mouse \<and> button = 1 then startPan True cx cy u
              else if button \<noteq> 0 \<or> p_pinch u \<noteq> None \<or> \<not> canPan u then u
              else startPan False cx cy u))"

text \<open>\<open>auxclick\<close>: the new state, and whether the click is swallowed.\<close>

definition auxclick :: "pointers \<Rightarrow> pointers \<times> bool" where
  "auxclick s = (if \<not> p_panned s then (s, False) else (s\<lparr>p_panned := False\<rparr>, True))"

definition pointer_wheel :: "dom_rect \<Rightarrow> bool \<Rightarrow> real \<Rightarrow> real \<Rightarrow> real \<Rightarrow> real \<Rightarrow> pointers \<Rightarrow> pointers" where
  "pointer_wheel r zooms deltaX deltaY cx cy s = s\<lparr>pv := wheel r zooms deltaX deltaY cx cy (pv s)\<rparr>"

section \<open>Mounting\<close>

text \<open>One run of \<open>mountOnPage\<close>: \<open>active\<close> is the mounted canvas and whether its root is still in the page;
  \<open>container\<close> tells whether the container found holds the canvas root. \<open>mount\<close> gives the new canvas, if any.
  The result is the new \<open>active\<close> and the canvases unmounted, in order.\<close>

definition mount_run :: "('c \<times> bool) option \<Rightarrow> bool option \<Rightarrow> 'c option \<Rightarrow> 'c option \<times> 'c list" where
  "mount_run active container mounted =
     (let (active1, out1) = (case active of
                               Some (c, isConnected) \<Rightarrow> if isConnected then (Some c, []) else (None, [c])
                             | None \<Rightarrow> (None, []))
      in case container of
           None \<Rightarrow> (active1, out1)
         | Some holds_root \<Rightarrow>
             if holds_root then (active1, out1)
             else (mounted, out1 @ (case active1 of Some c \<Rightarrow> [c] | None \<Rightarrow> [])))"

end
