(* ===== verification/Canvas_Core_Safety.thy ===== *)
theory Canvas_Core_Safety
  imports Canvas_Core
begin

text \<open>
  What the canvas core guarantees: a free spot is free, is the nearest candidate and always exists;
  rounding it keeps it free among cards at whole coordinates; and zooming keeps the point under the
  pointer or between the fingers in place, within the zoom limits.
\<close>

section \<open>Free spots\<close>

abbreviation spot_at :: "box \<Rightarrow> real \<times> real \<Rightarrow> box" where
  "spot_at box p \<equiv> box\<lparr>b_x := fst p, b_y := snd p\<rparr>"

lemma nearest_result:
  "nearest free box ps best = Some (c, d) \<Longrightarrow>
     best = Some (c, d) \<or> (\<exists>p \<in> set ps. c = spot_at box p \<and> d = square_distance box p \<and> free c)"
proof (induction free box ps best rule: nearest.induct)
  case (2 free box x y ps best)
  then show ?case by (auto simp: Let_def split: if_splits)
qed simp

lemma nearest_least:
  assumes "nearest free box ps best = Some (c, d)"
  shows "(\<forall>p \<in> set ps. free (spot_at box p) \<longrightarrow> d \<le> square_distance box p) \<and> (\<forall>c' d'. best = Some (c', d') \<longrightarrow> d \<le> d')"
  using assms
proof (induction free box ps best rule: nearest.induct)
  case (2 free box x y ps best)
  then show ?case by (force simp: Let_def split: if_splits option.splits)
qed simp

lemma nearest_None:
  "nearest free box ps best = None \<Longrightarrow> best = None \<and> (\<forall>p \<in> set ps. \<not> free (spot_at box p))"
proof (induction free box ps best rule: nearest.induct)
  case (2 free box x y ps best)
  let ?c = "box\<lparr>b_x := x, b_y := y\<rparr>"
  let ?near = "case best of None \<Rightarrow> True | Some (_, bestDistance) \<Rightarrow> square_distance box (x, y) < bestDistance"
  show ?case
  proof (cases "?near \<and> free ?c")
    case True
    then have "nearest free box ps (Some (?c, square_distance box (x, y))) = None"
      using 2(3) by (simp add: Let_def)
    then show ?thesis using 2(1) [OF refl refl True] by blast
  next
    case False
    then have "nearest free box ps best = None" using 2(3) by (simp only: nearest.simps Let_def if_False)
    then have IH: "best = None \<and> (\<forall>p \<in> set ps. \<not> free (spot_at box p))" using 2(2) [OF refl refl False] by blast
    then have "\<not> free ?c" using False by simp
    then show ?thesis using IH by simp
  qed
qed simp

lemma freeSpot_Some:
  assumes "freeSpot box others gap fits = Some b"
  shows "is_free others gap fits b" "b_w b = b_w box" "b_h b = b_h box"
    "b = box \<or> b_x b \<in> set (spot_xs box others gap) \<and> b_y b \<in> set (spot_ys box others gap)"
proof -
  have "is_free others gap fits b \<and> b_w b = b_w box \<and> b_h b = b_h box \<and>
    (b = box \<or> b_x b \<in> set (spot_xs box others gap) \<and> b_y b \<in> set (spot_ys box others gap))"
  proof (cases "is_free others gap fits box")
    case True
    then have "b = box" using assms unfolding freeSpot_def by (simp only: if_True option.inject)
    with True show ?thesis by blast
  next
    case False
    then obtain d where "nearest (is_free others gap fits) box
        (List.product (spot_xs box others gap) (spot_ys box others gap)) None = Some (b, d)"
      using assms unfolding freeSpot_def by (auto split: if_splits)
    from nearest_result [OF this] show ?thesis by auto
  qed
  then show "is_free others gap fits b" "b_w b = b_w box" "b_h b = b_h box"
    "b = box \<or> b_x b \<in> set (spot_xs box others gap) \<and> b_y b \<in> set (spot_ys box others gap)" by auto
qed

lemma ex_max: "xs \<noteq> [] \<Longrightarrow> \<exists>x \<in> set xs. \<forall>y \<in> set xs. f y \<le> (f x :: real)"
proof (induction xs)
  case (Cons a xs)
  show ?case
  proof (cases "xs = []")
    case False
    then obtain x where "x \<in> set xs" "\<forall>y \<in> set xs. f y \<le> f x" using Cons by blast
    then show ?thesis by (cases "f a \<le> f x") (auto intro: order_trans less_imp_le)
  qed simp
qed simp

lemma freeSpot_found: "\<exists>b. freeSpot box others gap (\<lambda>_. True) = Some b"
proof (cases "is_free others gap (\<lambda>_. True) box")
  case True
  then show ?thesis by (simp add: freeSpot_def)
next
  case False
  then have "others \<noteq> []" by (auto simp: is_free_def)
  then obtain m where m: "m \<in> set others" "\<forall>o' \<in> set others. b_x o' + b_w o' \<le> b_x m + b_w m"
    using ex_max [of others "\<lambda>o'. b_x o' + b_w o'"] by blast
  define p where "p = (b_x m + b_w m + gap, b_y box)"
  have p: "p \<in> set (List.product (spot_xs box others gap) (spot_ys box others gap))"
    using m(1) by (auto simp: p_def spot_xs_def spot_ys_def)
  have "is_free others gap (\<lambda>_. True) (spot_at box p)"
    using m(2) by (fastforce simp: p_def is_free_def list_all_iff apart_def)
  then have "nearest (is_free others gap (\<lambda>_. True)) box
      (List.product (spot_xs box others gap) (spot_ys box others gap)) None \<noteq> None"
    using p nearest_None by blast
  then show ?thesis using False by (auto simp: freeSpot_def)
qed

text \<open>C33: A free spot has the size of the box, keeps the gap to every other box and passes the extra test;
  it is the box itself where that is free, and otherwise no candidate that is free is nearer.\<close>

theorem freeSpot_nearest:
  assumes "freeSpot box others gap fits = Some b"
  shows "list_all (\<lambda>o'. apart b o' gap) others \<and> fits b \<and> b_w b = b_w box \<and> b_h b = b_h box \<and>
    (if is_free others gap fits box then b = box
     else \<forall>x \<in> set (spot_xs box others gap). \<forall>y \<in> set (spot_ys box others gap).
       is_free others gap fits (box\<lparr>b_x := x, b_y := y\<rparr>) \<longrightarrow>
       hypot (b_x b - b_x box) (b_y b - b_y box) \<le> hypot (x - b_x box) (y - b_y box))"
proof (cases "is_free others gap fits box")
  case True
  then show ?thesis using assms by (auto simp: freeSpot_def is_free_def)
next
  case False
  then obtain d where n: "nearest (is_free others gap fits) box
      (List.product (spot_xs box others gap) (spot_ys box others gap)) None = Some (b, d)"
    using assms by (auto simp: freeSpot_def)
  have "d = square_distance box (b_x b, b_y b)" using nearest_result [OF n] by (auto simp: square_distance_def)
  then show ?thesis unfolding hypot_square_distance using False freeSpot_Some [OF assms] nearest_least [OF n] by (auto simp: is_free_def)
qed

theorem freeSpot_nearest_witness:
  "\<exists>b. freeSpot \<lparr>b_x = 0, b_y = 0, b_w = 10, b_h = 10\<rparr> [\<lparr>b_x = 5, b_y = 0, b_w = 10, b_h = 10\<rparr>] 16 (\<lambda>_. True) = Some b \<and>
     apart b \<lparr>b_x = 5, b_y = 0, b_w = 10, b_h = 10\<rparr> 16"
proof -
  let ?box = "\<lparr>b_x = 0, b_y = 0, b_w = 10, b_h = 10\<rparr>"
  let ?other = "\<lparr>b_x = 5, b_y = 0, b_w = 10, b_h = 10\<rparr>"
  obtain b where "freeSpot ?box [?other] 16 (\<lambda>_. True) = Some b"
    using freeSpot_found by blast
  then show ?thesis using freeSpot_nearest [of ?box "[?other]" 16 "\<lambda>_. True" b] by auto
qed

text \<open>Without an extra test the search never comes back empty: to the right of the box that reaches
  farthest there is always room, however crowded the canvas is.\<close>

theorem freeSpot_exists: "\<exists>b. freeSpot box others gap (\<lambda>_. True) = Some b"
  by (rule freeSpot_found)

section \<open>Rounding\<close>

lemma js_round_ge: "of_int n \<le> x \<Longrightarrow> n \<le> js_round x"
  unfolding js_round_def by (simp add: le_floor_iff)

lemma js_round_le: "x \<le> of_int n \<Longrightarrow> js_round x \<le> n"
  unfolding js_round_def by (simp add: floor_le_iff)

lemma js_round_of_int [simp]: "js_round (of_int n) = n"
  unfolding js_round_def by (simp add: floor_eq_iff)

definition whole :: "box \<Rightarrow> bool" where
  "whole b \<longleftrightarrow> b_x b \<in> \<int> \<and> b_y b \<in> \<int> \<and> b_w b \<in> \<int> \<and> b_h b \<in> \<int>"

definition round_box :: "box \<Rightarrow> box" where
  "round_box b = b\<lparr>b_x := of_int (js_round (b_x b)), b_y := of_int (js_round (b_y b))\<rparr>"

lemma round_ge: "\<lbrakk>z \<in> \<int>; z \<le> x\<rbrakk> \<Longrightarrow> z \<le> of_int (js_round x)"
  by (elim Ints_cases) (simp add: js_round_ge)

lemma round_le: "\<lbrakk>z \<in> \<int>; x \<le> z\<rbrakk> \<Longrightarrow> of_int (js_round x) \<le> z"
  by (elim Ints_cases) (simp add: js_round_le)

text \<open>Rounding a spot keeps the gap to boxes at whole coordinates.\<close>

lemma apart_round:
  assumes "apart b c gap" "whole c" "b_w b \<in> \<int>" "b_h b \<in> \<int>" "gap \<in> \<int>"
  shows "apart (round_box b) c gap"
proof -
  have c: "b_x c + b_w c + gap \<in> \<int>" "b_y c + b_h c + gap \<in> \<int>" "b_x c - b_w b - gap \<in> \<int>" "b_y c - b_h b - gap \<in> \<int>"
    using assms(2-5) by (auto simp: whole_def intro: Ints_add Ints_diff)
  consider "b_x c + b_w c + gap \<le> b_x b" | "b_x b \<le> b_x c - b_w b - gap"
    | "b_y c + b_h c + gap \<le> b_y b" | "b_y b \<le> b_y c - b_h b - gap"
    using assms(1) by (auto simp: apart_def)
  then show ?thesis
    by cases (use round_ge round_le c in \<open>force simp: apart_def round_box_def algebra_simps\<close>)+
qed

lemma whole_round: "\<lbrakk>b_w b \<in> \<int>; b_h b \<in> \<int>\<rbrakk> \<Longrightarrow> whole (round_box b)"
  by (simp add: whole_def round_box_def)

lemma apart_sym: "apart a b gap = apart b a gap"
  by (auto simp: apart_def)

section \<open>Zoom\<close>

definition zoom_ok :: "view \<Rightarrow> bool" where
  "zoom_ok v \<longleftrightarrow> MIN_ZOOM \<le> vz v \<and> vz v \<le> MAX_ZOOM"

lemma clamp_zoom_ok: "MIN_ZOOM \<le> clamp_zoom z" "clamp_zoom z \<le> MAX_ZOOM" "0 < clamp_zoom z"
  by (auto simp: clamp_zoom_def MIN_ZOOM_def MAX_ZOOM_def)

lemma clamp_zoom_pos [simp]: "clamp_zoom z \<noteq> 0"
  using clamp_zoom_ok(3) [of z] by simp

lemma toWorld_set:
  "z \<noteq> 0 \<Longrightarrow> toWorld r (v\<lparr>vz := z, vx := cx - r_left r - wx * z, vy := cy - r_top r - wy * z\<rparr>) cx cy = (wx, wy)"
  by (simp add: toWorld_def)

lemma zoomTo_ok: "zoom_ok (zoomTo r z cx cy v)"
  by (simp add: zoom_ok_def zoomTo_def Let_def clamp_zoom_ok split: prod.split)

lemma pinch_view_ok: "zoom_ok (pinch_view r m p v)"
  by (simp add: zoom_ok_def pinch_view_def Let_def clamp_zoom_ok split: prod.split)

text \<open>Zooming with the wheel or a button keeps the world point under the pointer where it is, and the
  scale within the limits; pinching keeps the world point that was between the fingers at the start of the
  pinch between them, however they move.\<close>

theorem zoom_anchored:
  "toWorld r (zoomTo r z (Some cx) (Some cy) v) cx cy = toWorld r v cx cy \<and>
   MIN_ZOOM \<le> vz (zoomTo r z (Some cx) (Some cy) v) \<and> vz (zoomTo r z (Some cx) (Some cy) v) \<le> MAX_ZOOM \<and>
   (let (mx, my, d) = pinchState m in toWorld r (pinch_view r m p v) mx my = (pi_x p, pi_y p)) \<and>
   MIN_ZOOM \<le> vz (pinch_view r m p v) \<and> vz (pinch_view r m p v) \<le> MAX_ZOOM"
proof -
  obtain wx wy where w: "toWorld r v cx cy = (wx, wy)" by fastforce
  have "toWorld r (zoomTo r z (Some cx) (Some cy) v) cx cy = (wx, wy)"
    unfolding zoomTo_def by (simp add: w Let_def toWorld_set)
  moreover have "let (mx, my, d) = pinchState m in toWorld r (pinch_view r m p v) mx my = (pi_x p, pi_y p)"
    unfolding pinch_view_def by (simp add: Let_def toWorld_set split: prod.split)
  ultimately show ?thesis
    using w zoomTo_ok [of r z "Some cx" "Some cy" v] pinch_view_ok [of r m p v] by (simp add: zoom_ok_def)
qed

section \<open>Pointers\<close>

inductive pointer_step :: "pointers \<Rightarrow> pointers \<Rightarrow> bool" where
  down: "pointer_step s (pointer_down r canPan kind i button cx cy s)"
| move: "pointer_step s (pointer_move r i cx cy s)"
| up: "pointer_step s (fst (pointer_up i s))"
| aux: "pointer_step s (fst (auxclick s))"
| scroll: "pointer_step s (pointer_wheel r zooms dx dy cx cy s)"

definition pointers_ok :: "pointers \<Rightarrow> bool" where
  "pointers_ok s \<longleftrightarrow> zoom_ok (pv s) \<and> distinct (map fst (p_touches s)) \<and> p_fingers s \<subseteq> fst ` set (p_touches s) \<and>
     (p_pinch s \<noteq> None \<longrightarrow> length (p_touches s) \<ge> 2)"

lemma fst_touch_set: "fst ` set (touch_set i p m) = insert i (fst ` set m)"
  by (induction i p m rule: touch_set.induct) auto

lemma distinct_touch_set: "distinct (map fst (touch_set i p m)) \<longleftrightarrow> distinct (map fst m)"
  by (induction i p m rule: touch_set.induct) (auto simp: fst_touch_set)

lemma length_touch_set: "length m \<le> length (touch_set i p m)"
  by (induction i p m rule: touch_set.induct) auto

lemma touch_down_ok: "pointers_ok s \<Longrightarrow> pointers_ok (fst (touch_down r i cx cy s))"
  using length_touch_set [of "p_touches s" i "(cx, cy)"]
  by (fastforce simp: pointers_ok_def touch_down_def Let_def fst_touch_set distinct_touch_set split: prod.split)

lemma touch_move_ok: "pointers_ok s \<Longrightarrow> pointers_ok (fst (touch_move r i cx cy s))"
  using length_touch_set [of "p_touches s" i "(cx, cy)"]
  by (auto simp: pointers_ok_def touch_move_def Let_def fst_touch_set distinct_touch_set pinch_view_ok split: option.split)

lemma pans_move_zoom: "vz (snd (pans_move cx cy ds v)) = vz v"
proof (induction ds arbitrary: v)
  case (Cons d ds)
  obtain d' v' where d: "pan_move cx cy d v = (d', v')" by fastforce
  then have "vz v' = vz v" by (auto simp: pan_move_def split: if_splits)
  then show ?case using Cons.IH [of v'] d by (simp add: Let_def case_prod_beta)
qed simp

lemma pointers_ok_upd [simp]:
  "pointers_ok (s\<lparr>p_panned := b\<rparr>) = pointers_ok s" "pointers_ok (s\<lparr>p_pans := ds\<rparr>) = pointers_ok s"
  by (simp_all add: pointers_ok_def)

lemma startPan_ok [simp]: "pointers_ok (startPan middle cx cy s) = pointers_ok s"
  by (simp add: startPan_def)

lemma pointer_step_ok:
  assumes "pointer_step s t" "pointers_ok s"
  shows "pointers_ok t"
  using assms(1)
proof cases
  case (down r canPan kind i button cx cy)
  then show ?thesis
    using assms(2) touch_down_ok [OF assms(2), of r i cx cy]
    by (cases "touch_down r i cx cy s") (auto simp: pointer_down_def Let_def split: bool.split)
next
  case (move r i cx cy)
  obtain u stop where u: "touch_move r i cx cy s = (u, stop)" by fastforce
  then have ok: "pointers_ok u" using touch_move_ok [OF assms(2), of r i cx cy] by simp
  obtain ds v where "pans_move cx cy (p_pans u) (pv u) = (ds, v)" by fastforce
  moreover from this have "vz v = vz (pv u)" using pans_move_zoom by (metis snd_conv)
  ultimately show ?thesis using move u ok by (auto simp: pointer_move_def pointers_ok_def zoom_ok_def split: bool.split)
next
  case (up i)
  have "distinct (map fst (touch_delete i (p_touches s)))"
    using assms(2) by (auto simp: pointers_ok_def touch_delete_def distinct_map inj_on_def)
  moreover have "fst ` set (touch_delete i (p_touches s)) = fst ` set (p_touches s) - {i}"
    by (force simp: touch_delete_def)
  ultimately show ?thesis
    using up assms(2) by (auto simp: pointer_up_def liftFinger_def Let_def pointers_ok_def)
next
  case aux
  then show ?thesis using assms(2) by (simp add: auxclick_def)
next
  case (scroll r zooms dx dy cx cy)
  then show ?thesis
    using assms(2) zoomTo_ok by (auto simp: pointer_wheel_def wheel_def pointers_ok_def zoom_ok_def)
qed

text \<open>C35: Whatever the order of pointer and wheel events, the scale stays within the limits, pinching
  fingers are known touches, and a pinch lasts only while two fingers are down, so that its centre and
  distance are always defined.\<close>

theorem pointers_consistent:
  assumes "pointer_step\<^sup>*\<^sup>* (new_pointers v) s" "MIN_ZOOM \<le> vz v" "vz v \<le> MAX_ZOOM"
  shows "MIN_ZOOM \<le> vz (pv s) \<and> vz (pv s) \<le> MAX_ZOOM \<and> p_fingers s \<subseteq> fst ` set (p_touches s) \<and>
    (p_pinch s \<noteq> None \<longrightarrow> length (p_touches s) \<ge> 2)"
proof -
  have "pointers_ok s"
    using assms(1)
  proof (induction)
    case base
    then show ?case using assms(2,3) by (simp add: pointers_ok_def new_pointers_def zoom_ok_def)
  qed (rule pointer_step_ok)
  then show ?thesis by (simp add: pointers_ok_def zoom_ok_def)
qed

theorem pointers_consistent_witness:
  "\<exists>s. pointer_step\<^sup>*\<^sup>* (new_pointers \<lparr>vx = 0, vy = 0, vz = 1\<rparr>) s \<and> p_pinch s \<noteq> None \<and> vz (pv s) \<le> MAX_ZOOM"
proof -
  let ?r = "\<lparr>r_left = 0, r_top = 0, r_width = 800, r_height = 600\<rparr>"
  let ?s = "pointer_down ?r (\<lambda>_. False) Touch 2 0 30 40
      (pointer_down ?r (\<lambda>_. False) Touch 1 0 0 0 (new_pointers \<lparr>vx = 0, vy = 0, vz = 1\<rparr>))"
  have reach: "pointer_step\<^sup>*\<^sup>* (new_pointers \<lparr>vx = 0, vy = 0, vz = 1\<rparr>) ?s"
    by (rule converse_rtranclp_into_rtranclp, rule down, rule r_into_rtranclp, rule down)
  have "p_pinch ?s \<noteq> None"
    by (simp add: pointer_down_def touch_down_def new_pointers_def startPan_def Let_def toWorld_def split: prod.split)
  then show ?thesis
    using pointers_consistent [OF reach] reach by (intro exI [of _ ?s]) (simp add: MIN_ZOOM_def MAX_ZOOM_def)
qed

end
