(* ===== verification/Deploy_Flow.thy ===== *)
theory Deploy_Flow
  imports Canvas_Core
begin

text \<open>
  The flow of the deploy canvas, \<open>resources/js/deploy-canvas.js\<close>: step types with their fields, the tree
  of steps and its rules, the plan of a run, labels, secrets, images and variables. The data of a step is
  a map from field keys to strings. Icons, placeholders and the option lists' wording are not modelled.
\<close>

section \<open>Step types\<close>

datatype step_type =
    Start | Server | Git | Image | Dockerfile | Service | Database | BuildSettings | Env | Domains | Deploy

datatype stage = StageStart | Infra | Source | Config | Ship

datatype resource_kind = Application | ServiceKind | DatabaseKind

type_synonym step_data = "jstring \<Rightarrow> jstring option"

fun stage_of :: "step_type \<Rightarrow> stage" where
  "stage_of Start = StageStart"
| "stage_of Server = Infra"
| "stage_of BuildSettings = Config"
| "stage_of Env = Config"
| "stage_of Domains = Config"
| "stage_of Deploy = Ship"
| "stage_of _ = Source"

fun kind_of :: "step_type \<Rightarrow> resource_kind option" where
  "kind_of Git = Some Application"
| "kind_of Image = Some Application"
| "kind_of Dockerfile = Some Application"
| "kind_of Service = Some ServiceKind"
| "kind_of Database = Some DatabaseKind"
| "kind_of _ = None"

fun title_of :: "step_type \<Rightarrow> jstring" where
  "title_of Start = ''Start''"
| "title_of Server = ''Server''"
| "title_of Git = ''Git repository''"
| "title_of Image = ''Docker image''"
| "title_of Dockerfile = ''Dockerfile''"
| "title_of Service = ''Service''"
| "title_of Database = ''Database''"
| "title_of BuildSettings = ''Build settings''"
| "title_of Env = ''Environment variables''"
| "title_of Domains = ''Domains''"
| "title_of Deploy = ''Deploy''"

text \<open>\<open>t.for.includes(kind)\<close> and \<open>t.for.includes(sub)\<close>: the kinds and source types a settings step is for.\<close>

fun for_kind :: "step_type \<Rightarrow> resource_kind \<Rightarrow> bool" where
  "for_kind Env k = (k = Application \<or> k = ServiceKind)"
| "for_kind _ k = False"

fun for_sub :: "step_type \<Rightarrow> step_type \<Rightarrow> bool" where
  "for_sub BuildSettings s = (s = Git)"
| "for_sub Domains s = (s = Git \<or> s = Image \<or> s = Dockerfile)"
| "for_sub _ s = False"

section \<open>Fields\<close>

datatype secret = Plain | Always | When "jstring \<Rightarrow> bool"

record field =
  fd_key :: jstring
  fd_label :: jstring
  fd_required :: bool
  fd_show :: "step_data \<Rightarrow> bool"
  fd_load :: bool
  fd_rerender :: bool
  fd_secret :: secret
  fd_value :: "jstring option"

definition the_str :: "jstring option \<Rightarrow> jstring" where
  "the_str v = (case v of Some s \<Rightarrow> s | None \<Rightarrow> [])"

definition text_field :: "jstring \<Rightarrow> jstring \<Rightarrow> bool \<Rightarrow> field" where
  "text_field key label required =
     \<lparr>fd_key = key, fd_label = label, fd_required = required, fd_show = (\<lambda>_. True), fd_load = False,
      fd_rerender = False, fd_secret = Plain, fd_value = None\<rparr>"

abbreviation select_field :: "jstring \<Rightarrow> jstring \<Rightarrow> bool \<Rightarrow> field" where
  "select_field key label required \<equiv> (text_field key label required)\<lparr>fd_load := True\<rparr>"

text \<open>\<open>/^\w+:\/\/[^/]*@/\<close>: a URL with credentials.\<close>

definition url_credentials :: "jstring \<Rightarrow> bool" where
  "url_credentials v =
     (let scheme = takeWhile is_word_char v; rest = dropWhile is_word_char v
      in scheme \<noteq> [] \<and> prefix ''://'' rest \<and> CHR ''@'' \<in> set (takeWhile (\<lambda>c. c \<noteq> CHR ''/'') (drop 3 rest)))"

definition DEFAULT_POSTGRES :: jstring where "DEFAULT_POSTGRES = ''postgres:18-alpine''"

definition GIT_FIELDS :: "field list" where
  "GIT_FIELDS =
     [(text_field ''mode'' ''Access'' False)\<lparr>fd_rerender := True, fd_value := Some ''public''\<rparr>,
      (text_field ''repository'' ''Repository URL'' True)
        \<lparr>fd_show := (\<lambda>d. d ''mode'' \<noteq> Some ''github''), fd_secret := When url_credentials\<rparr>,
      (select_field ''ghApp'' ''GitHub app'' True)\<lparr>fd_show := (\<lambda>d. d ''mode'' = Some ''github''), fd_rerender := True\<rparr>,
      (select_field ''ghRepo'' ''Repository'' True)\<lparr>fd_show := (\<lambda>d. d ''mode'' = Some ''github''), fd_rerender := True\<rparr>,
      (select_field ''key'' ''Deploy key'' True)\<lparr>fd_show := (\<lambda>d. d ''mode'' = Some ''key'')\<rparr>,
      (text_field ''branch'' ''Branch'' True)
        \<lparr>fd_show := (\<lambda>d. d ''mode'' \<noteq> Some ''github''), fd_value := Some ''main''\<rparr>,
      (select_field ''ghBranch'' ''Branch'' True)\<lparr>fd_show := (\<lambda>d. d ''mode'' = Some ''github'')\<rparr>,
      (text_field ''buildPack'' ''Build pack'' True)\<lparr>fd_value := Some ''railpack''\<rparr>,
      (text_field ''ports'' ''Port'' False)\<lparr>fd_value := Some ''3000''\<rparr>,
      text_field ''name'' ''Name'' False]"

fun fields_of :: "step_type \<Rightarrow> field list" where
  "fields_of Start =
     [(select_field ''project'' ''Project'' True)\<lparr>fd_rerender := True\<rparr>, select_field ''environment'' ''Environment'' True]"
| "fields_of Server =
     [(select_field ''server'' ''Server'' True)\<lparr>fd_rerender := True\<rparr>, select_field ''destination'' ''Network'' False]"
| "fields_of Git = GIT_FIELDS"
| "fields_of Image =
     [text_field ''image'' ''Image'' True, text_field ''tag'' ''Tag'' False,
      (text_field ''ports'' ''Port'' False)\<lparr>fd_value := Some ''80''\<rparr>, text_field ''name'' ''Name'' False]"
| "fields_of Dockerfile =
     [text_field ''dockerfile'' ''Dockerfile'' True,
      (text_field ''ports'' ''Port'' False)\<lparr>fd_value := Some ''80''\<rparr>, text_field ''name'' ''Name'' False]"
| "fields_of Service =
     [(text_field ''mode'' ''From'' False)\<lparr>fd_rerender := True, fd_value := Some ''template''\<rparr>,
      (select_field ''type'' ''Template'' True)\<lparr>fd_show := (\<lambda>d. d ''mode'' \<noteq> Some ''compose'')\<rparr>,
      (text_field ''compose'' ''docker-compose.yml'' True)
        \<lparr>fd_show := (\<lambda>d. d ''mode'' = Some ''compose''), fd_secret := Always\<rparr>,
      text_field ''name'' ''Name'' False]"
| "fields_of Database =
     [(text_field ''engine'' ''Engine'' True)\<lparr>fd_value := Some ''postgresql''\<rparr>,
      (text_field ''image'' ''Image'' True)
        \<lparr>fd_show := (\<lambda>d. d ''engine'' = Some ''postgresql''), fd_value := Some DEFAULT_POSTGRES\<rparr>,
      (text_field ''image'' ''Image'' False)\<lparr>fd_show := (\<lambda>d. d ''engine'' \<noteq> Some ''postgresql'')\<rparr>,
      text_field ''name'' ''Name'' False]"
| "fields_of BuildSettings =
     [text_field ''base_directory'' ''Base directory'' False, text_field ''publish_directory'' ''Publish directory'' False,
      text_field ''install_command'' ''Install command'' False, text_field ''build_command'' ''Build command'' False,
      text_field ''start_command'' ''Start command'' False]"
| "fields_of Env = [(text_field ''vars'' ''Variables'' True)\<lparr>fd_secret := Always\<rparr>]"
| "fields_of Domains = [text_field ''domains'' ''Domains'' True, text_field ''note'' [] False]"
| "fields_of Deploy = []"

definition step_defaults :: "step_type \<Rightarrow> step_data" where
  "step_defaults t = foldl (\<lambda>d f. case fd_value f of Some v \<Rightarrow> d(fd_key f \<mapsto> v) | None \<Rightarrow> d) Map.empty (fields_of t)"

text \<open>The \<open>after\<close> function of the engine field: a new engine starts with its default image.\<close>

definition field_after :: "step_type \<Rightarrow> field \<Rightarrow> step_data \<Rightarrow> step_data" where
  "field_after t f d =
     (if t = Database \<and> fd_key f = ''engine''
      then d(''image'' \<mapsto> (if d ''engine'' = Some ''postgresql'' then DEFAULT_POSTGRES else []))
      else d)"

definition loaderKey :: "field \<Rightarrow> step_data \<Rightarrow> jstring option" where
  "loaderKey f d =
     (let str = (\<lambda>k. case d k of Some s \<Rightarrow> s | None \<Rightarrow> ''undefined'')
      in map_of [(''project'', ''projects''), (''environment'', ''envs:'' @ str ''project''), (''server'', ''servers''),
                 (''destination'', ''dest:'' @ str ''server''), (''ghApp'', ''gh''), (''ghRepo'', ''repos:'' @ str ''ghApp''),
                 (''ghBranch'', ''br:'' @ str ''ghApp'' @ '':'' @ str ''ghRepo''), (''key'', ''keys'')] (fd_key f))"

section \<open>Option lists\<close>

type_synonym options = "(jstring \<times> jstring) list"

record option_lists =
  ol_cache :: "jstring \<Rightarrow> options option"
  ol_pending :: "jstring set"
  ol_errors :: "jstring \<Rightarrow> jstring option"

text \<open>\<open>options(key, fetcher)\<close>: the new state, the cached list, and whether the fetcher is called.\<close>

definition options_get :: "jstring \<Rightarrow> option_lists \<Rightarrow> option_lists \<times> options option \<times> bool" where
  "options_get key l =
     (case ol_cache l key of
        Some list \<Rightarrow> (l, Some list, False)
      | None \<Rightarrow>
          if key \<in> ol_pending l then (l, None, False)
          else (l\<lparr>ol_pending := insert key (ol_pending l)\<rparr>, None, True))"

definition options_loaded :: "jstring \<Rightarrow> jstring + options \<Rightarrow> option_lists \<Rightarrow> option_lists" where
  "options_loaded key answer l =
     (case answer of
        Inr list \<Rightarrow> l\<lparr>ol_cache := (ol_cache l)(key \<mapsto> list), ol_errors := (ol_errors l)(key := None),
                     ol_pending := ol_pending l - {key}\<rparr>
      | Inl message \<Rightarrow> l\<lparr>ol_errors := (ol_errors l)(key \<mapsto> message), ol_pending := ol_pending l - {key}\<rparr>)"

text \<open>A select with \<open>only: true\<close> takes its option when it has exactly one; an empty value counts as none.\<close>

definition onlyOption :: "options option \<Rightarrow> jstring option \<Rightarrow> jstring option" where
  "onlyOption list v =
     (case list of Some [(x, _)] \<Rightarrow> if the_str v = [] then Some x else v | _ \<Rightarrow> v)"

section \<open>Flows\<close>

record step =
  st_id :: jstring
  st_type :: step_type
  st_x :: real
  st_y :: real
  st_data :: step_data

type_synonym edge = "jstring \<times> jstring"

record flow =
  fl_nodes :: "step list"
  fl_edges :: "edge list"

definition START_ID :: jstring where "START_ID = ''start''"
definition SERVER_ID :: jstring where "SERVER_ID = ''server''"
definition DEPLOY_ID :: jstring where "DEPLOY_ID = ''deploy''"

definition withDeploy :: "flow \<Rightarrow> flow" where
  "withDeploy f =
     (let nodes = fl_nodes f @
            (if list_ex (\<lambda>n. st_type n = Deploy) (fl_nodes f) then []
             else [\<lparr>st_id = DEPLOY_ID, st_type = Deploy, st_x = 1240, st_y = 160, st_data = Map.empty\<rparr>]);
          deployIds = map st_id (filter (\<lambda>n. st_type n = Deploy) nodes)
      in \<lparr>fl_nodes = nodes,
          fl_edges = filter (\<lambda>(a, b). b \<notin> set deployIds \<and> a \<notin> set deployIds) (fl_edges f)\<rparr>)"

definition fresh :: flow where
  "fresh = withDeploy
     \<lparr>fl_nodes = [\<lparr>st_id = START_ID, st_type = Start, st_x = 80, st_y = 160, st_data = Map.empty\<rparr>,
                  \<lparr>st_id = SERVER_ID, st_type = Server, st_x = 456, st_y = 160, st_data = Map.empty\<rparr>],
      fl_edges = [(START_ID, SERVER_ID)]\<rparr>"

text \<open>The target of the page's address, from its \<open>project\<close> and \<open>environment\<close> parameters, both
  \<open>/^[A-Za-z0-9_-]+$/\<close>.\<close>

definition valid_uuid :: "jstring option \<Rightarrow> bool" where
  "valid_uuid v = (case v of Some s \<Rightarrow> s \<noteq> [] \<and> list_all (\<lambda>c. is_alnum c \<or> c = CHR ''_'' \<or> c = CHR ''-'') s | None \<Rightarrow> False)"

definition targetFrom :: "jstring option \<Rightarrow> jstring option \<Rightarrow> (jstring \<times> jstring) option" where
  "targetFrom project environment =
     (case (project, environment) of
        (Some p, Some e) \<Rightarrow> if valid_uuid (Some p) \<and> valid_uuid (Some e) then Some (p, e) else None
      | _ \<Rightarrow> None)"

fun update_first :: "('a \<Rightarrow> bool) \<Rightarrow> ('a \<Rightarrow> 'a) \<Rightarrow> 'a list \<Rightarrow> 'a list" where
  "update_first P g [] = []"
| "update_first P g (x # xs) = (if P x then g x # xs else x # update_first P g xs)"

definition withTarget :: "flow \<Rightarrow> (jstring \<times> jstring) option \<Rightarrow> flow" where
  "withTarget f t =
     (case t of
        None \<Rightarrow> f
      | Some (p, e) \<Rightarrow>
          f\<lparr>fl_nodes := update_first (\<lambda>n. st_type n = Start)
                         (\<lambda>n. n\<lparr>st_data := [''project'' \<mapsto> p, ''environment'' \<mapsto> e]\<rparr>) (fl_nodes f)\<rparr>)"

definition is_secret :: "field \<Rightarrow> jstring option \<Rightarrow> bool" where
  "is_secret f v =
     (case fd_secret f of
        Plain \<Rightarrow> False
      | Always \<Rightarrow> True
      | When p \<Rightarrow> (case v of Some s \<Rightarrow> s \<noteq> [] \<and> p s | None \<Rightarrow> False))"

definition data_without_secrets :: "step_type \<Rightarrow> step_data \<Rightarrow> step_data" where
  "data_without_secrets t d = foldl (\<lambda>d f. if is_secret f (d (fd_key f)) then d(fd_key f := None) else d) d (fields_of t)"

definition withoutSecrets :: "flow \<Rightarrow> flow" where
  "withoutSecrets f =
     f\<lparr>fl_nodes := map (\<lambda>n. n\<lparr>st_data := data_without_secrets (st_type n) (st_data n)\<rparr>) (fl_nodes f)\<rparr>"

section \<open>The tree\<close>

definition nodeById :: "jstring \<Rightarrow> flow \<Rightarrow> step option" where
  "nodeById i f = find (\<lambda>n. st_id n = i) (fl_nodes f)"

definition outsOf :: "jstring \<Rightarrow> flow \<Rightarrow> jstring list" where
  "outsOf i f = map snd (filter (\<lambda>(a, b). a = i) (fl_edges f))"

definition nextOf :: "jstring \<Rightarrow> flow \<Rightarrow> jstring option" where
  "nextOf i f = (case outsOf i f of [] \<Rightarrow> None | j # _ \<Rightarrow> Some j)"

definition prevOf :: "jstring \<Rightarrow> flow \<Rightarrow> jstring option" where
  "prevOf i f = map_option fst (find (\<lambda>(a, b). b = i) (fl_edges f))"

definition multiOut :: "step \<Rightarrow> bool" where
  "multiOut n \<longleftrightarrow> stage_of (st_type n) \<in> {StageStart, Infra}"

text \<open>The loops \<open>for (cur = id; cur && !seen.has(cur); cur = next(cur))\<close>: the ids they visit, in order. \<open>next\<close>
  takes its values among the ends of the edges \<open>es\<close>, so that the loop ends.\<close>

function trail :: "edge list \<Rightarrow> (edge \<Rightarrow> jstring) \<Rightarrow> (edge \<Rightarrow> jstring) \<Rightarrow> jstring option \<Rightarrow> jstring list \<Rightarrow> jstring list" where
  "trail es key target cur seen =
     (case cur of
        None \<Rightarrow> []
      | Some c \<Rightarrow>
          if c = [] \<or> c \<in> set seen then []
          else c # trail es key target (map_option target (find (\<lambda>e. key e = c) es)) (c # seen))"
  by pat_completeness auto

termination
proof (relation "measure (\<lambda>(es, key, target, cur, seen).
    card ((target ` set es \<union> set_option cur) - set seen))", goal_cases)
  case (2 es key target cur seen c)
  let ?next = "map_option target (find (\<lambda>e. key e = c) es)"
  have "set_option ?next \<subseteq> target ` set es" by (auto simp: find_Some_iff)
  then have "(target ` set es \<union> set_option ?next) - set (c # seen) \<subseteq> target ` set es \<union> set_option cur - set seen" by auto
  moreover have "c \<in> target ` set es \<union> set_option cur - set seen" using 2 by auto
  ultimately have "(target ` set es \<union> set_option ?next) - set (c # seen) \<subset> target ` set es \<union> set_option cur - set seen"
    by auto
  then show ?case by (simp add: psubset_card_mono)
qed simp

declare trail.simps [simp del]

text \<open>Upwards along \<open>prevOf\<close> and downwards along \<open>nextOf\<close>.\<close>

definition up_trail :: "jstring \<Rightarrow> flow \<Rightarrow> jstring list" where
  "up_trail i f = trail (fl_edges f) snd fst (Some i) []"

definition down_trail :: "jstring option \<Rightarrow> jstring list \<Rightarrow> flow \<Rightarrow> jstring list" where
  "down_trail i seen f = trail (fl_edges f) fst snd i seen"

definition sourceAbove :: "jstring \<Rightarrow> flow \<Rightarrow> step option" where
  "sourceAbove i f =
     find (\<lambda>n. stage_of (st_type n) = Source) (List.map_filter (\<lambda>j. nodeById j f) (up_trail i f))"

definition canFollow :: "step \<Rightarrow> step_type \<Rightarrow> step option \<Rightarrow> flow \<Rightarrow> bool" where
  "canFollow prev type target f =
     (if type = Start \<or> type = Deploy \<or> st_type prev = Deploy then False
      else if (case target of Some t \<Rightarrow> st_id t \<in> set (up_trail (st_id prev) f) | None \<Rightarrow> False) then False
      else case stage_of (st_type prev) of
             StageStart \<Rightarrow> type = Server
           | Infra \<Rightarrow> stage_of type = Source
           | _ \<Rightarrow>
               (case sourceAbove (st_id prev) f of
                  None \<Rightarrow> False
                | Some src \<Rightarrow>
                    if stage_of type = Ship then True
                    else if stage_of type \<noteq> Config then False
                    else (case kind_of (st_type src) of Some k \<Rightarrow> for_kind type k | None \<Rightarrow> False) \<or>
                         (st_type src \<in> {Git, Image, Dockerfile} \<and> for_sub type (st_type src))))"

section \<open>The plan of a run\<close>

record line =
  ln_server :: step
  ln_source :: step
  ln_settings :: "step list"

definition ln_end :: "line \<Rightarrow> step" where
  "ln_end l = (if ln_settings l = [] then ln_source l else last (ln_settings l))"

fun settings_of :: "flow \<Rightarrow> jstring list \<Rightarrow> step list" where
  "settings_of f [] = []"
| "settings_of f (i # is) = (case nodeById i f of None \<Rightarrow> [] | Some n \<Rightarrow> n # settings_of f is)"

definition plan_line :: "flow \<Rightarrow> step \<Rightarrow> jstring \<Rightarrow> line option" where
  "plan_line f server i =
     (case nodeById i f of
        None \<Rightarrow> None
      | Some source \<Rightarrow>
          if stage_of (st_type source) \<noteq> Source then None
          else Some \<lparr>ln_server = server, ln_source = source,
                     ln_settings = settings_of f (down_trail (nextOf (st_id source) f) [st_id source] f)\<rparr>)"

record plan =
  pl_start :: "step option"
  pl_servers :: "step list"
  pl_lines :: "line list"
  pl_deploy :: "step option"

definition planOf :: "flow \<Rightarrow> plan" where
  "planOf f =
     (let servers = filter (\<lambda>n. st_type n = Server) (List.map_filter (\<lambda>i. nodeById i f) (outsOf START_ID f))
      in \<lparr>pl_start = nodeById START_ID f, pl_servers = servers,
          pl_lines = concat (map (\<lambda>s. List.map_filter (plan_line f s) (outsOf (st_id s) f)) servers),
          pl_deploy = find (\<lambda>n. st_type n = Deploy) (fl_nodes f)\<rparr>)"

section \<open>Labels\<close>

definition resourceLabel :: "step \<Rightarrow> jstring" where
  "resourceLabel src =
     (let d = st_data src;
          detail = (if the_str (d ''name'') \<noteq> [] then the_str (d ''name'')
                    else the_str
                      (case st_type src of
                         Git \<Rightarrow> if d ''mode'' = Some ''github'' then d ''ghRepo'' else d ''repository''
                       | Image \<Rightarrow> d ''image''
                       | Service \<Rightarrow> if d ''mode'' = Some ''compose'' then Some ''compose'' else d ''type''
                       | Database \<Rightarrow> d ''engine''
                       | _ \<Rightarrow> None))
      in if detail \<noteq> [] then title_of (st_type src) @ [CHR '' '', CHR 0xB7, CHR '' ''] @ detail
         else title_of (st_type src))"

fun number_labels :: "jstring list \<Rightarrow> (jstring \<Rightarrow> nat) \<Rightarrow> step list \<Rightarrow> (jstring \<times> jstring) list" where
  "number_labels labels seen [] = []"
| "number_labels labels seen (src # srcs) =
     (let label = resourceLabel src
      in if count_list labels label < 2 then (st_id src, label) # number_labels labels seen srcs
         else (let k = seen label + 1
               in (st_id src, label @ '' #'' @ nat_str k) # number_labels labels (seen(label := k)) srcs))"

text \<open>The entries of the map; a later entry of the same id wins.\<close>

definition uniqueLabels :: "step list \<Rightarrow> (jstring \<times> jstring) list" where
  "uniqueLabels sources = number_labels (map resourceLabel sources) (\<lambda>_. 0) sources"

section \<open>Images, variables and domains\<close>

record image_name =
  im_name :: jstring
  im_tag :: jstring

definition splitImage :: "jstring option \<Rightarrow> jstring option \<Rightarrow> image_name" where
  "splitImage img tagField =
     (let name = trim (the_str img);
          (name', tag) =
            (case index_of ''@sha256:'' name of
               Some i \<Rightarrow> (take i name, ''sha256-'' @ drop (i + 8) name)
             | None \<Rightarrow>
                 (let colon = last_index_of CHR '':'' name
                  in if colon > last_index_of CHR ''/'' name
                     then (take (nat colon) name, drop (nat colon + 1) name) else (name, [])))
      in \<lparr>im_name = name',
          im_tag = (if tag \<noteq> [] then tag
                    else if trim (the_str tagField) \<noteq> [] then trim (the_str tagField) else ''latest'')\<rparr>)"

text \<open>\<open>.replace(/^(['"])(.*)\1$/, '$2')\<close>\<close>

definition strip_quotes :: "jstring \<Rightarrow> jstring" where
  "strip_quotes s =
     (if length s \<ge> 2 \<and> hd s \<in> {CHR 0x27, CHR 0x22} \<and> last s = hd s \<and>
         list_all (\<lambda>c. c \<noteq> CHR 0x0A \<and> c \<noteq> CHR 0x0D) (butlast (tl s))
      then butlast (tl s) else s)"

definition parse_var :: "jstring \<Rightarrow> jstring \<times> jstring" where
  "parse_var line =
     (trim (takeWhile (\<lambda>c. c \<noteq> CHR ''='') line),
      strip_quotes (trim (tl (dropWhile (\<lambda>c. c \<noteq> CHR ''='') line))))"

definition parseEnvVars :: "jstring option \<Rightarrow> (jstring \<times> jstring) list" where
  "parseEnvVars s =
     map parse_var
       (filter (\<lambda>line. line \<noteq> [] \<and> \<not> starts_with line ''#'' \<and> CHR ''='' \<in> set line)
         (map trim (split_on CHR 0x0A (the_str s))))"

definition domainList :: "jstring option \<Rightarrow> jstring" where
  "domainList s =
     join_with '',''
       (filter (\<lambda>v. v \<noteq> [])
         (map trim (concat (map (split_on CHR '','') (split_on CHR 0x0A (the_str s))))))"

section \<open>Logos\<close>

record logo =
  lg_src :: jstring
  lg_dark :: "jstring option"
  lg_fallback :: "jstring option"
  lg_padded :: bool

text \<open>\<open>urls\<close> and \<open>services\<close> are the page's maps of logo addresses.\<close>

definition resourceLogoUrl :: "(jstring \<Rightarrow> jstring option) \<Rightarrow> jstring \<Rightarrow> jstring" where
  "resourceLogoUrl urls name = (case urls name of Some u \<Rightarrow> u | None \<Rightarrow> ''/svgs/resources/'' @ name @ ''.svg'')"

definition resourceLogo :: "(jstring \<Rightarrow> jstring option) \<Rightarrow> jstring \<Rightarrow> bool \<Rightarrow> logo" where
  "resourceLogo urls name hasDark =
     \<lparr>lg_src = resourceLogoUrl urls name,
      lg_dark = (if hasDark then Some (resourceLogoUrl urls (name @ ''-dark'')) else None),
      lg_fallback = None, lg_padded = False\<rparr>"

definition serviceLogo :: "(jstring \<Rightarrow> (jstring \<times> jstring) option) \<Rightarrow> jstring \<Rightarrow> logo option" where
  "serviceLogo services key =
     (case services key of
        Some (src, fallback) \<Rightarrow> Some \<lparr>lg_src = src, lg_dark = None, lg_fallback = Some fallback, lg_padded = True\<rparr>
      | None \<Rightarrow> None)"

definition logoOf ::
  "(jstring \<Rightarrow> jstring option) \<Rightarrow> (jstring \<Rightarrow> (jstring \<times> jstring) option) \<Rightarrow> step \<Rightarrow> logo option" where
  "logoOf urls services n =
     (let d = st_data n
      in case st_type n of
           Git \<Rightarrow>
             Some (if d ''buildPack'' = Some ''dockerfile'' then resourceLogo urls ''dockerfile'' False
                   else if d ''buildPack'' = Some ''dockercompose'' then resourceLogo urls ''docker-compose'' False
                   else if d ''mode'' = Some ''github'' then resourceLogo urls ''github-app'' True
                   else resourceLogo urls (if d ''mode'' = Some ''key'' then ''deploy-key'' else ''public-repo'') False)
         | Image \<Rightarrow> Some (resourceLogo urls ''docker-image'' False)
         | Dockerfile \<Rightarrow> Some (resourceLogo urls ''dockerfile'' False)
         | Service \<Rightarrow>
             if d ''mode'' = Some ''compose'' then Some (resourceLogo urls ''docker-compose'' False)
             else if the_str (d ''type'') \<noteq> [] then serviceLogo services (the_str (d ''type'')) else None
         | Database \<Rightarrow>
             (let e = the_str (d ''engine'')
              in if e = [] then None
                 else Some (resourceLogo urls (if e = ''postgresql'' then ''postgres'' else e) (e \<in> {''keydb'', ''dragonfly''})))
         | _ \<Rightarrow> None)"

end
