(* ===== verification/Deploy_Canvas.thy ===== *)
theory Deploy_Canvas
  imports Deploy_Flow
begin

text \<open>
  The open deploy canvas, \<open>resources/js/canvas/deploy/state.svelte.js\<close>: its state, the edits of the flow,
  placing and dragging cards, dragging connections, and the menu of next steps. The sizes of the
  rendered cards and new random ids are arguments; toasts are a field of the state.
\<close>

section \<open>State\<close>

datatype run_action = SaveAction | DeployAction

datatype step_state = StepRunning | StepDone jstring | StepFailed jstring

record run_result =
  rr_after :: jstring
  rr_urls :: "jstring list"
  rr_href :: jstring

record next_menu =
  mn_prev :: jstring
  mn_valid :: "step_type list"
  mn_point :: "real \<times> real"

record canvas =
  cv_flow :: flow
  cv_target :: "(jstring \<times> jstring) option"
  cv_view :: view
  cv_runState :: "jstring \<Rightarrow> step_state option"
  cv_invalid :: "jstring set"
  cv_result :: "run_result option"
  cv_running :: "run_action option"
  cv_menu :: "next_menu option"
  cv_pendingLine :: bool
  cv_armed :: "jstring option"
  cv_dropTarget :: "jstring option"
  cv_toast :: "(jstring \<times> bool) option"
  cv_deployed :: bool

text \<open>\<open>init\<close>, with the stored values of the last visit. A finished deploy run starts an empty canvas.\<close>

definition init_canvas ::
  "flow option \<Rightarrow> run_result option \<Rightarrow> bool \<Rightarrow> view option \<Rightarrow> (jstring \<times> jstring) option \<Rightarrow> canvas" where
  "init_canvas stored result deployed view target =
     (let stored' = (if deployed then None else stored); result' = (if deployed then None else result)
      in \<lparr>cv_flow = withTarget (withDeploy (case stored' of Some f \<Rightarrow> f | None \<Rightarrow> fresh)) target,
          cv_target = target,
          cv_view = (case view of Some v \<Rightarrow> v | None \<Rightarrow> \<lparr>vx = 40, vy = 40, vz = 1\<rparr>),
          cv_runState = Map.empty, cv_invalid = {}, cv_result = result', cv_running = None, cv_menu = None,
          cv_pendingLine = False, cv_armed = None, cv_dropTarget = None, cv_toast = None, cv_deployed = False\<rparr>)"

definition stored_flow :: "canvas \<Rightarrow> flow" where
  "stored_flow c = withoutSecrets (cv_flow c)"

definition toast :: "jstring \<Rightarrow> bool \<Rightarrow> canvas \<Rightarrow> canvas" where
  "toast s bad c = c\<lparr>cv_toast := Some (s, bad)\<rparr>"

definition closeMenu :: "canvas \<Rightarrow> canvas" where
  "closeMenu c = c\<lparr>cv_menu := None, cv_pendingLine := False\<rparr>"

definition redraw :: "canvas \<Rightarrow> canvas" where
  "redraw c = c\<lparr>cv_invalid := {}\<rparr>"

section \<open>Cards\<close>

type_synonym sizes = "jstring \<Rightarrow> real \<times> real"

definition boxOf :: "sizes \<Rightarrow> step \<Rightarrow> box" where
  "boxOf dims n = \<lparr>b_x = st_x n, b_y = st_y n, b_w = fst (dims (st_id n)), b_h = snd (dims (st_id n))\<rparr>"

definition move_step :: "jstring \<Rightarrow> real \<Rightarrow> real \<Rightarrow> flow \<Rightarrow> flow" where
  "move_step i x y f = f\<lparr>fl_nodes := map (\<lambda>n. if st_id n = i then n\<lparr>st_x := x, st_y := y\<rparr> else n) (fl_nodes f)\<rparr>"

definition settle :: "sizes \<Rightarrow> step \<Rightarrow> flow \<Rightarrow> flow" where
  "settle dims n f =
     (case freeSpot (boxOf dims n) (map (boxOf dims) (filter (\<lambda>m. st_id m \<noteq> st_id n) (fl_nodes f))) BOX_GAP (\<lambda>_. True) of
        None \<Rightarrow> f
      | Some spot \<Rightarrow>
          if b_x spot = st_x n \<and> b_y spot = st_y n then f
          else move_step (st_id n) (of_int (js_round (b_x spot))) (of_int (js_round (b_y spot))) f)"

text \<open>A \<open>pointermove\<close> while the card is dragged: \<open>wx\<close> and \<open>wy\<close> is where the pointer wants it.\<close>

definition drag_to :: "sizes \<Rightarrow> step \<Rightarrow> real \<Rightarrow> real \<Rightarrow> flow \<Rightarrow> flow" where
  "drag_to dims n wx wy f =
     (case freeSpot ((boxOf dims n)\<lparr>b_x := wx, b_y := wy\<rparr>)
             (map (boxOf dims) (filter (\<lambda>m. st_id m \<noteq> st_id n) (fl_nodes f))) BOX_GAP (\<lambda>_. True) of
        None \<Rightarrow> f
      | Some spot \<Rightarrow> move_step (st_id n) (of_int (js_round (b_x spot))) (of_int (js_round (b_y spot))) f)"

definition dragNode :: "sizes \<Rightarrow> jstring \<Rightarrow> real \<Rightarrow> real \<Rightarrow> canvas \<Rightarrow> canvas" where
  "dragNode dims i wx wy c =
     (case nodeById i (cv_flow c) of
        None \<Rightarrow> c
      | Some n \<Rightarrow> (closeMenu c)\<lparr>cv_flow := drag_to dims n wx wy (cv_flow c)\<rparr>)"

section \<open>Edits\<close>

text \<open>\<open>connect\<close>: the new line replaces the line into \<open>to\<close> and, unless \<open>from\<close> fans out, the line out of
  \<open>from\<close>.\<close>

definition connect_flow :: "step \<Rightarrow> jstring \<Rightarrow> flow \<Rightarrow> flow" where
  "connect_flow a to f =
     f\<lparr>fl_edges := filter (\<lambda>(x, y). \<not> (x = st_id a \<and> y = to) \<and> (multiOut a \<or> x \<noteq> st_id a) \<and> y \<noteq> to) (fl_edges f)
                    @ [(st_id a, to)]\<rparr>"

definition connect :: "jstring \<Rightarrow> jstring \<Rightarrow> canvas \<Rightarrow> canvas" where
  "connect from' to c =
     (case nodeById from' (cv_flow c) of
        None \<Rightarrow> c
      | Some a \<Rightarrow> redraw (c\<lparr>cv_flow := connect_flow a to (cv_flow c)\<rparr>))"

definition removeEdge_flow :: "edge \<Rightarrow> flow \<Rightarrow> flow" where
  "removeEdge_flow e f = f\<lparr>fl_edges := filter (\<lambda>e'. e' \<noteq> e) (fl_edges f)\<rparr>"

definition removeEdge :: "edge \<Rightarrow> canvas \<Rightarrow> canvas" where
  "removeEdge e c =
     (if cv_running c \<noteq> None then c
      else toast ''Connection removed.'' False (redraw (c\<lparr>cv_flow := removeEdge_flow e (cv_flow c)\<rparr>)))"

definition new_step :: "jstring \<Rightarrow> step_type \<Rightarrow> real \<Rightarrow> real \<Rightarrow> step" where
  "new_step i t x y =
     \<lparr>st_id = i, st_type = t, st_x = of_int (js_round x), st_y = of_int (js_round y), st_data = step_defaults t\<rparr>"

definition addNode_flow :: "sizes \<Rightarrow> jstring \<Rightarrow> step_type \<Rightarrow> real \<Rightarrow> real \<Rightarrow> flow \<Rightarrow> flow" where
  "addNode_flow dims i t x y f =
     settle dims (new_step i t x y) (f\<lparr>fl_nodes := fl_nodes f @ [new_step i t x y]\<rparr>)"

definition addNode :: "sizes \<Rightarrow> jstring \<Rightarrow> step_type \<Rightarrow> real \<Rightarrow> real \<Rightarrow> bool \<Rightarrow> canvas \<Rightarrow> canvas" where
  "addNode dims i t x y quiet c =
     (let c' = redraw (c\<lparr>cv_flow := addNode_flow dims i t x y (cv_flow c)\<rparr>)
      in if quiet then c'
         else toast (title_of t @ '' added. Connect it from the dot of the step before.'') False c')"

definition removeNode_flow :: "jstring \<Rightarrow> flow \<Rightarrow> flow" where
  "removeNode_flow i f =
     f\<lparr>fl_nodes := filter (\<lambda>n. st_id n \<noteq> i) (fl_nodes f), fl_edges := filter (\<lambda>(a, b). a \<noteq> i \<and> b \<noteq> i) (fl_edges f)\<rparr>"

definition removeNode :: "jstring \<Rightarrow> canvas \<Rightarrow> canvas" where
  "removeNode i c =
     (if cv_running c \<noteq> None then c
      else redraw (c\<lparr>cv_flow := removeNode_flow i (cv_flow c), cv_runState := (cv_runState c)(i := None)\<rparr>))"

definition resetCanvas :: "canvas \<Rightarrow> canvas" where
  "resetCanvas c =
     (if cv_running c \<noteq> None then c
      else redraw (c\<lparr>cv_flow := withTarget fresh (cv_target c), cv_runState := Map.empty, cv_result := None,
                     cv_deployed := False\<rparr>))"

definition hideResult :: "canvas \<Rightarrow> canvas" where
  "hideResult c = c\<lparr>cv_result := None\<rparr>"

text \<open>\<open>setField\<close>: a field that reloads others (\<open>rerender\<close>) empties the loaded fields after it. \<open>k\<close> is the
  place of the field among the fields of the step.\<close>

definition setField_data :: "step_type \<Rightarrow> nat \<Rightarrow> jstring \<Rightarrow> step_data \<Rightarrow> step_data" where
  "setField_data t k v d =
     (let f = fields_of t ! k; d1 = field_after t f (d(fd_key f \<mapsto> v))
      in if fd_rerender f
         then foldl (\<lambda>d g. if fd_load g \<and> fd_key g \<noteq> fd_key f then d(fd_key g := None) else d) d1 (drop (Suc k) (fields_of t))
         else d1)"

definition setField :: "jstring \<Rightarrow> nat \<Rightarrow> jstring \<Rightarrow> canvas \<Rightarrow> canvas" where
  "setField i k v c =
     c\<lparr>cv_flow := (cv_flow c)\<lparr>fl_nodes :=
            map (\<lambda>n. if st_id n = i \<and> k < length (fields_of (st_type n))
                      then n\<lparr>st_data := setField_data (st_type n) k v (st_data n)\<rparr> else n) (fl_nodes (cv_flow c))\<rparr>,
        cv_invalid := cv_invalid c - {i}\<rparr>"

section \<open>Connections\<close>

text \<open>Releasing a line dragged from the port of step \<open>i\<close>: on a step that can follow it is connected.
  \<open>target\<close> is the step under the pointer at the last move.\<close>

definition drop_target :: "step \<Rightarrow> jstring option \<Rightarrow> flow \<Rightarrow> step option" where
  "drop_target n hit f =
     (case hit of
        None \<Rightarrow> None
      | Some i \<Rightarrow>
          if i = st_id n then None
          else (case nodeById i f of
                  None \<Rightarrow> None
                | Some candidate \<Rightarrow> if canFollow n (st_type candidate) (Some candidate) f then Some candidate else None))"

definition startConnect :: "step \<Rightarrow> canvas \<Rightarrow> canvas" where
  "startConnect n c = (if cv_running c \<noteq> None then c else c\<lparr>cv_armed := Some (st_id n)\<rparr>)"

definition connect_move :: "step \<Rightarrow> jstring option \<Rightarrow> canvas \<Rightarrow> canvas" where
  "connect_move n hit c = c\<lparr>cv_dropTarget := map_option st_id (drop_target n hit (cv_flow c))\<rparr>"

definition ALL_TYPES :: "step_type list" where
  "ALL_TYPES = [Start, Server, Git, Image, Dockerfile, Service, Database, BuildSettings, Env, Domains, Deploy]"

definition openNextMenu :: "step \<Rightarrow> real \<times> real \<Rightarrow> canvas \<Rightarrow> canvas" where
  "openNextMenu prev p c =
     (let valid = filter (\<lambda>t. canFollow prev t None (cv_flow c)) ALL_TYPES; c' = c\<lparr>cv_menu := None\<rparr>
      in if valid = [] then toast ''Nothing can follow this step.'' True c'
         else c'\<lparr>cv_menu := Some \<lparr>mn_prev = st_id prev, mn_valid = valid, mn_point = p\<rparr>\<rparr>)"

text \<open>The release: \<open>target\<close> from the last move, whether a card is under the pointer, the point in the
  world, and the distance from the port.\<close>

definition connect_up :: "step \<Rightarrow> jstring option \<Rightarrow> bool \<Rightarrow> real \<times> real \<Rightarrow> real \<Rightarrow> canvas \<Rightarrow> canvas" where
  "connect_up n target over p distance c =
     (let c' = c\<lparr>cv_armed := None, cv_dropTarget := None\<rparr>
      in case target of
           Some t \<Rightarrow> connect (st_id n) t c'
         | None \<Rightarrow>
             if over then toast ''That step cannot follow this one.'' True c'
             else if distance < 12 then c'
             else openNextMenu n p (c'\<lparr>cv_pendingLine := True\<rparr>))"

definition PORT_Y :: real where "PORT_Y = 26"

definition pickNext :: "sizes \<Rightarrow> jstring \<Rightarrow> step_type \<Rightarrow> canvas \<Rightarrow> canvas" where
  "pickNext dims i t c =
     (case cv_menu c of
        None \<Rightarrow> c
      | Some m \<Rightarrow>
          connect (mn_prev m) i
            (addNode dims i t (fst (mn_point m) + 8) (snd (mn_point m) - PORT_Y) True (closeMenu c)))"

text \<open>\<open>appendToChain\<close>: the newest step of the tree that the new one can follow, with room for it.\<close>

definition in_tree :: "flow \<Rightarrow> step list" where
  "in_tree f =
     (let p = planOf f
      in (case pl_start p of Some s \<Rightarrow> [s] | None \<Rightarrow> []) @ pl_servers p @
         concat (map (\<lambda>l. ln_source l # ln_settings l) (pl_lines p)))"

definition chain_parent :: "step_type \<Rightarrow> flow \<Rightarrow> step option" where
  "chain_parent t f =
     find (\<lambda>n. canFollow n t None f \<and> (multiOut n \<or> nextOf (st_id n) f = None)) (rev (in_tree f))"

definition appendToChain :: "sizes \<Rightarrow> jstring \<Rightarrow> real \<times> real \<Rightarrow> step_type \<Rightarrow> canvas \<Rightarrow> canvas" where
  "appendToChain dims i centre t c =
     (let f = cv_flow c
      in case chain_parent t f of
           None \<Rightarrow> addNode dims i t (fst centre) (snd centre) False c
         | Some parent \<Rightarrow>
             (let siblings = (if multiOut parent then List.map_filter (\<lambda>j. nodeById j f) (outsOf (st_id parent) f) else []);
                  y = (if siblings \<noteq> [] then Max (set (map (\<lambda>n. st_y n + snd (dims (st_id n))) siblings)) + 40
                       else st_y parent)
              in connect (st_id parent) i
                   (addNode dims i t (st_x parent + fst (dims (st_id parent)) + 80) y True c)))"

text \<open>A palette step dropped on the canvas.\<close>

definition PALETTE_TYPES :: "step_type list" where
  "PALETTE_TYPES = [Server, Git, Image, Dockerfile, Service, Database, BuildSettings, Env, Domains]"

definition drop_palette :: "sizes \<Rightarrow> jstring \<Rightarrow> step_type \<Rightarrow> real \<times> real \<Rightarrow> canvas \<Rightarrow> canvas" where
  "drop_palette dims i t p c = addNode dims i t (fst p - 30) (snd p - 16) False c"

section \<open>Geometry\<close>

definition CARD_W :: real where "CARD_W = 296"

definition outPoint :: "sizes \<Rightarrow> step \<Rightarrow> real \<times> real" where
  "outPoint dims n =
     (st_x n + (if fst (dims (st_id n)) = 0 then CARD_W else fst (dims (st_id n))), st_y n + PORT_Y)"

definition inPoint :: "step \<Rightarrow> real \<times> real" where
  "inPoint n = (st_x n, st_y n + PORT_Y)"

text \<open>The control points of \<open>curve\<close>.\<close>

definition curve :: "real \<times> real \<Rightarrow> real \<times> real \<Rightarrow> (real \<times> real) list" where
  "curve a b =
     (let dx = max 40 (\<bar>fst b - fst a\<bar> / 2) in [a, (fst a + dx, snd a), (fst b - dx, snd b), b])"

text \<open>\<open>fit\<close> for the rectangles of the cards in the open area (left, width, height); \<open>pill\<close> is the right and
  bottom edge of the result pill, where there is one.\<close>

definition fit_view ::
  "real \<times> real \<times> real \<Rightarrow> (real \<times> real) option \<Rightarrow> (real \<times> real \<times> real \<times> real) list \<Rightarrow> view \<Rightarrow> view" where
  "fit_view area pill rects v =
     (if rects = [] then v
      else
        (let (left, width, height) = area;
             minX = Min (set (map (\<lambda>(x, _, _, _). x) rects)); minY = Min (set (map (\<lambda>(_, y, _, _). y) rects));
             rights = map (\<lambda>(x, _, w, _). x + w) rects @ (case pill of Some (r, _) \<Rightarrow> [r] | None \<Rightarrow> []);
             bottoms = map (\<lambda>(_, y, _, h). y + h) rects @ (case pill of Some (_, b) \<Rightarrow> [b] | None \<Rightarrow> []);
             maxX = Max (set rights); maxY = Max (set bottoms);
             z = min (12/10) (max MIN_ZOOM (min ((width - 120) / (maxX - minX)) ((height - 120) / (maxY - minY))))
         in \<lparr>vx = left + (width - (maxX - minX) * z) / 2 - minX * z, vy = (height - (maxY - minY) * z) / 2 - minY * z,
             vz = z\<rparr>))"

end
