(* ===== verification/Deploy_Run.thy ===== *)
theory Deploy_Run
  imports Deploy_Canvas
begin

text \<open>
  Running a flow of the deploy canvas: what each step sends to Coolify (\<open>TYPES[...].run\<close> in
  \<open>deploy-canvas.js\<close>), checking the fields, the run of all resource lines, deploying the created
  resources and following their deployments (\<open>canvas/deploy/state.svelte.js\<close>). The API is an arbitrary
  function of the calls made so far and the new call. Log lines are values, for their marks are not
  Latin-1. The steps of different resources run one after the other; \<open>deployAll\<close>, which lets the
  deployments of all resources run at once, gives each resource its own view of the API.
\<close>

section \<open>Calls\<close>

datatype http_method = GET | POST | PATCH

record call =
  ca_method :: http_method
  ca_path :: jstring
  ca_body :: "json option"

type_synonym api = "call list \<Rightarrow> call \<Rightarrow> jstring + json"

text \<open>The message of an exception of the JavaScript engine, whose wording is not modelled.\<close>

definition TYPE_ERROR :: jstring where "TYPE_ERROR = ''TypeError''"

text \<open>\<open>btoa(unescape(encodeURIComponent(text)))\<close>: the base 64 form of the UTF-8 bytes.\<close>

definition utf8 :: "jstring \<Rightarrow> nat list" where
  "utf8 s = concat (map (\<lambda>c. let n = of_char c in if n < 128 then [n] else [192 + n div 64, 128 + n mod 64]) s)"

definition b64_digit :: "nat \<Rightarrow> char" where
  "b64_digit n =
     (if n < 26 then char_of (65 + n) else if n < 52 then char_of (71 + n) else if n < 62 then char_of (n - 4)
      else if n = 62 then CHR ''+'' else CHR ''/'')"

fun b64_bytes :: "nat list \<Rightarrow> jstring" where
  "b64_bytes [] = []"
| "b64_bytes [a] = [b64_digit (a div 4), b64_digit (a mod 4 * 16), CHR ''='', CHR ''='']"
| "b64_bytes [a, b] =
     [b64_digit (a div 4), b64_digit (a mod 4 * 16 + b div 16), b64_digit (b mod 16 * 4), CHR ''='']"
| "b64_bytes (a # b # c # s) =
     b64_digit (a div 4) # b64_digit (a mod 4 * 16 + b div 16) # b64_digit (b mod 16 * 4 + c div 64) #
     b64_digit (c mod 64) # b64_bytes s"

definition b64 :: "jstring \<Rightarrow> jstring" where
  "b64 s = b64_bytes (utf8 s)"

section \<open>Steps\<close>

record run_ctx =
  cx_project :: "jstring option"
  cx_environment :: "jstring option"
  cx_server :: "jstring option"
  cx_destination :: "jstring option"
  cx_domains :: "jstring option"
  cx_applicationSource :: bool
  cx_resource :: "(resource_kind \<times> jstring) option"
  cx_createdDomains :: "jstring option"
  cx_deployment :: "jstring option"

definition empty_ctx :: run_ctx where
  "empty_ctx =
     \<lparr>cx_project = None, cx_environment = None, cx_server = None, cx_destination = None, cx_domains = None,
      cx_applicationSource = False, cx_resource = None, cx_createdDomains = None, cx_deployment = None\<rparr>"

text \<open>A property with a string, or with a non-empty one; \<open>undefined\<close> is left out of the body.\<close>

definition opt_entry :: "jstring \<Rightarrow> jstring option \<Rightarrow> (jstring \<times> json) list" where
  "opt_entry k v = (case v of Some s \<Rightarrow> [(k, JStr s)] | None \<Rightarrow> [])"

definition set_entry :: "jstring \<Rightarrow> jstring option \<Rightarrow> (jstring \<times> json) list" where
  "set_entry k v = (if the_str v \<noteq> [] then [(k, JStr (the_str v))] else [])"

definition common :: "run_ctx \<Rightarrow> step_data \<Rightarrow> (jstring \<times> json) list" where
  "common ctx d =
     opt_entry ''project_uuid'' (cx_project ctx) @ opt_entry ''environment_uuid'' (cx_environment ctx) @
     opt_entry ''server_uuid'' (cx_server ctx) @ [(''instant_deploy'', JBool False)] @
     set_entry ''destination_uuid'' (cx_destination ctx) @ set_entry ''name'' (d ''name'') @
     (if the_str (cx_domains ctx) \<noteq> [] \<and> cx_applicationSource ctx
      then [(''domains'', JStr (the_str (cx_domains ctx))), (''autogenerate_domain'', JBool False)] else [])"

type_synonym outcome = "jstring + jstring"

definition uuid_of :: "json \<Rightarrow> jstring" where
  "uuid_of res = (case json_get_string res ''uuid'' of Some u \<Rightarrow> u | None \<Rightarrow> ''undefined'')"

text \<open>A create call: the resource, and for applications the domains that Coolify chose, go into the context.\<close>

definition create ::
  "api \<Rightarrow> jstring \<Rightarrow> (jstring \<times> json) list \<Rightarrow> resource_kind \<Rightarrow> jstring \<Rightarrow> run_ctx \<Rightarrow> call list \<Rightarrow>
   run_ctx \<times> call list \<times> outcome" where
  "create api path body kind message ctx calls =
     (let c = \<lparr>ca_method = POST, ca_path = path, ca_body = Some (JObj body)\<rparr>
      in case api calls c of
           Inl e \<Rightarrow> (ctx, calls @ [c], Inl e)
         | Inr res \<Rightarrow>
             if res = JNull then (ctx, calls @ [c], Inl TYPE_ERROR)
             else (ctx\<lparr>cx_resource := Some (kind, uuid_of res),
                       cx_createdDomains :=
                         (if kind = Application
                          then (case json_get_string res ''domains'' of
                                  Some s \<Rightarrow> if s \<noteq> [] then Some (domainList (Some s)) else Some []
                                | None \<Rightarrow> None)
                          else cx_createdDomains ctx)\<rparr>,
                   calls @ [c], Inr message))"

text \<open>A change of the created resource.\<close>

definition patch :: "api \<Rightarrow> jstring \<Rightarrow> json \<Rightarrow> jstring \<Rightarrow> run_ctx \<Rightarrow> call list \<Rightarrow> run_ctx \<times> call list \<times> outcome" where
  "patch api path body message ctx calls =
     (let c = \<lparr>ca_method = PATCH, ca_path = path, ca_body = Some body\<rparr>
      in case api calls c of Inl e \<Rightarrow> (ctx, calls @ [c], Inl e) | Inr _ \<Rightarrow> (ctx, calls @ [c], Inr message))"

definition git_run :: "api \<Rightarrow> step_data \<Rightarrow> run_ctx \<Rightarrow> call list \<Rightarrow> run_ctx \<times> call list \<times> outcome" where
  "git_run api d ctx0 calls =
     (let ctx = ctx0\<lparr>cx_applicationSource := True\<rparr>;
          base = common ctx d @ opt_entry ''build_pack'' (d ''buildPack'') @ set_entry ''ports_exposes'' (d ''ports'')
      in if d ''mode'' = Some ''github'' then
           (case d ''ghApp'' of
              None \<Rightarrow> (ctx, calls, Inl TYPE_ERROR)
            | Some app \<Rightarrow>
                create api ''/applications/private-github-app''
                  (base @ (case split_on CHR 0x7C app of _ # u # _ \<Rightarrow> [(''github_app_uuid'', JStr u)] | _ \<Rightarrow> []) @
                   opt_entry ''git_repository'' (d ''ghRepo'') @ opt_entry ''git_branch'' (d ''ghBranch''))
                  Application ''Application created.'' ctx calls)
         else if d ''mode'' = Some ''key'' then
           create api ''/applications/private-deploy-key''
             (base @ opt_entry ''private_key_uuid'' (d ''key'') @ opt_entry ''git_repository'' (d ''repository'') @
              opt_entry ''git_branch'' (d ''branch'')) Application ''Application created.'' ctx calls
         else
           create api ''/applications/public''
             (base @ opt_entry ''git_repository'' (d ''repository'') @ opt_entry ''git_branch'' (d ''branch''))
             Application ''Application created.'' ctx calls)"

definition image_run :: "api \<Rightarrow> step_data \<Rightarrow> run_ctx \<Rightarrow> call list \<Rightarrow> run_ctx \<times> call list \<times> outcome" where
  "image_run api d ctx0 calls =
     (let ctx = ctx0\<lparr>cx_applicationSource := True\<rparr>; im = splitImage (d ''image'') (d ''tag'')
      in create api ''/applications/dockerimage''
           (common ctx d @ [(''docker_registry_image_name'', JStr (im_name im)),
                            (''docker_registry_image_tag'', JStr (im_tag im))] @ set_entry ''ports_exposes'' (d ''ports''))
           Application ''Application created.'' ctx calls)"

definition dockerfile_run :: "api \<Rightarrow> step_data \<Rightarrow> run_ctx \<Rightarrow> call list \<Rightarrow> run_ctx \<times> call list \<times> outcome" where
  "dockerfile_run api d ctx0 calls =
     (let ctx = ctx0\<lparr>cx_applicationSource := True\<rparr>
      in create api ''/applications/dockerfile''
           (common ctx d @ [(''dockerfile'', JStr (b64 (case d ''dockerfile'' of Some s \<Rightarrow> s | None \<Rightarrow> ''undefined'')))] @
            set_entry ''ports_exposes'' (d ''ports''))
           Application ''Application created.'' ctx calls)"

definition service_run :: "api \<Rightarrow> step_data \<Rightarrow> run_ctx \<Rightarrow> call list \<Rightarrow> run_ctx \<times> call list \<times> outcome" where
  "service_run api d ctx calls =
     (if d ''mode'' = Some ''compose'' then
        create api ''/services''
          (common ctx d @
           [(''docker_compose_raw'', JStr (b64 (case d ''compose'' of Some s \<Rightarrow> s | None \<Rightarrow> ''undefined'')))])
          ServiceKind ''Service created.'' ctx calls
      else (case d ''type'' of
              None \<Rightarrow> (ctx, calls, Inl TYPE_ERROR)
            | Some t \<Rightarrow> create api ''/services'' (common ctx d @ [(''type'', JStr (trim t))]) ServiceKind
                         ''Service created.'' ctx calls))"

definition database_run :: "api \<Rightarrow> step_data \<Rightarrow> run_ctx \<Rightarrow> call list \<Rightarrow> run_ctx \<times> call list \<times> outcome" where
  "database_run api d ctx calls =
     create api (''/databases/'' @ (case d ''engine'' of Some e \<Rightarrow> e | None \<Rightarrow> ''undefined''))
       (common ctx d @ set_entry ''image'' (d ''image'')) DatabaseKind ''Database created.'' ctx calls"

definition BUILD_KEYS :: "jstring list" where
  "BUILD_KEYS = [''base_directory'', ''publish_directory'', ''install_command'', ''build_command'', ''start_command'']"

definition build_run :: "api \<Rightarrow> step_data \<Rightarrow> run_ctx \<Rightarrow> call list \<Rightarrow> run_ctx \<times> call list \<times> outcome" where
  "build_run api d ctx calls =
     (let body = concat (map (\<lambda>k. set_entry k (d k)) BUILD_KEYS)
      in if body = [] then (ctx, calls, Inr ''Nothing to change.'')
         else case cx_resource ctx of
                None \<Rightarrow> (ctx, calls, Inl TYPE_ERROR)
              | Some (_, uuid) \<Rightarrow> patch api (''/applications/'' @ uuid) (JObj body) ''Build settings saved.'' ctx calls)"

definition plural :: "nat \<Rightarrow> jstring \<Rightarrow> jstring" where
  "plural n word = nat_str n @ '' '' @ word @ (if n = 1 then [] else ''s'')"

definition env_run :: "api \<Rightarrow> step_data \<Rightarrow> run_ctx \<Rightarrow> call list \<Rightarrow> run_ctx \<times> call list \<times> outcome" where
  "env_run api d ctx calls =
     (let vars = parseEnvVars (d ''vars'')
      in if vars = [] then (ctx, calls, Inr ''No variables.'')
         else case cx_resource ctx of
                None \<Rightarrow> (ctx, calls, Inl TYPE_ERROR)
              | Some (kind, uuid) \<Rightarrow>
                  patch api (''/'' @ (if kind = ServiceKind then ''services'' else ''applications'') @ ''/'' @ uuid @ ''/envs/bulk'')
                    (JObj [(''data'', JArr (map (\<lambda>(k, v). JObj [(''key'', JStr k), (''value'', JStr v)]) vars))])
                    (plural (length vars) ''variable'' @ '' saved.'') ctx calls)"

definition comma_spaces :: "jstring \<Rightarrow> jstring" where
  "comma_spaces s = concat (map (\<lambda>c. if c = CHR '','' then '', '' else [c]) s)"

definition domain_run :: "api \<Rightarrow> step_data \<Rightarrow> run_ctx \<Rightarrow> call list \<Rightarrow> run_ctx \<times> call list \<times> outcome" where
  "domain_run api d ctx calls =
     (let domains = domainList (d ''domains'')
      in if cx_createdDomains ctx = Some domains
         then (ctx, calls, Inr (''Set at creation: '' @ comma_spaces domains @ ''.''))
         else case cx_resource ctx of
                None \<Rightarrow> (ctx, calls, Inl TYPE_ERROR)
              | Some (_, uuid) \<Rightarrow>
                  patch api (''/applications/'' @ uuid) (JObj [(''domains'', JStr domains)])
                    (''Domains saved: '' @ comma_spaces domains @ ''.'') ctx calls)"

text \<open>\<open>TYPES[n.type].run(ctx, n.data)\<close>; Deploy has no such function.\<close>

definition step_run :: "api \<Rightarrow> step_type \<Rightarrow> step_data \<Rightarrow> run_ctx \<Rightarrow> call list \<Rightarrow> run_ctx \<times> call list \<times> outcome" where
  "step_run api t d ctx calls =
     (case t of
        Start \<Rightarrow> (ctx\<lparr>cx_project := d ''project'', cx_environment := d ''environment''\<rparr>, calls, Inr ''Project and environment set.'')
      | Server \<Rightarrow>
          (ctx\<lparr>cx_server := d ''server'',
               cx_destination := (if the_str (d ''destination'') \<noteq> [] then d ''destination'' else None)\<rparr>,
           calls, Inr ''Server picked.'')
      | Git \<Rightarrow> git_run api d ctx calls
      | Image \<Rightarrow> image_run api d ctx calls
      | Dockerfile \<Rightarrow> dockerfile_run api d ctx calls
      | Service \<Rightarrow> service_run api d ctx calls
      | Database \<Rightarrow> database_run api d ctx calls
      | BuildSettings \<Rightarrow> build_run api d ctx calls
      | Env \<Rightarrow> env_run api d ctx calls
      | Domains \<Rightarrow> domain_run api d ctx calls
      | Deploy \<Rightarrow> (ctx, calls, Inl TYPE_ERROR))"

definition kind_path :: "resource_kind \<Rightarrow> jstring" where
  "kind_path k = (case k of Application \<Rightarrow> ''application'' | ServiceKind \<Rightarrow> ''service'' | DatabaseKind \<Rightarrow> ''database'')"

definition text_of :: "jstring option \<Rightarrow> jstring" where
  "text_of v = (case v of Some s \<Rightarrow> s | None \<Rightarrow> ''undefined'')"

definition resourceHref :: "run_ctx \<Rightarrow> jstring" where
  "resourceHref ctx =
     (let base = ''/project/'' @ text_of (cx_project ctx) @ ''/environment/'' @ text_of (cx_environment ctx)
      in case cx_resource ctx of
           None \<Rightarrow> base
         | Some (kind, uuid) \<Rightarrow>
             if the_str (cx_deployment ctx) \<noteq> [] \<and> kind = Application
             then base @ ''/application/'' @ uuid @ ''/deployment/'' @ the_str (cx_deployment ctx)
             else base @ ''/'' @ kind_path kind @ ''/'' @ uuid)"

section \<open>Checking the fields\<close>

definition missing_fields :: "step \<Rightarrow> jstring list" where
  "missing_fields n =
     map fd_label (filter (\<lambda>f. fd_required f \<and> fd_show f (st_data n) \<and> trim (the_str (st_data n (fd_key f))) = [])
       (fields_of (st_type n)))"

text \<open>\<open>[plan.start, ...new Set(servers of the lines), ...steps of the lines]\<close>\<close>

definition line_servers :: "plan \<Rightarrow> step list" where
  "line_servers p = foldr (\<lambda>s ss. s # filter (\<lambda>t. st_id t \<noteq> st_id s) ss) (map ln_server (pl_lines p)) []"

definition run_order :: "plan \<Rightarrow> step list" where
  "run_order p =
     (case pl_start p of Some s \<Rightarrow> [s] | None \<Rightarrow> []) @ line_servers p @
     concat (map (\<lambda>l. ln_source l # ln_settings l) (pl_lines p))"

text \<open>The problems, and the steps to be marked.\<close>

definition validate :: "plan \<Rightarrow> jstring list \<times> jstring list" where
  "validate p =
     (let bad = filter (\<lambda>n. missing_fields n \<noteq> []) (run_order p)
      in ((if pl_servers p = [] then [''Connect a Server right after Start.'']
           else if pl_lines p = []
           then [''Connect a source step (Git repository, Docker image, Dockerfile, Service or Database) to a Server.'']
           else []) @
          map (\<lambda>n. title_of (st_type n) @ '': fill in '' @ join_with '', '' (missing_fields n) @ ''.'') bad,
          map st_id bad))"

section \<open>The run panel\<close>

datatype log_text = Plain jstring | Tick jstring | Cross jstring

record pane =
  pa_key :: jstring
  pa_label :: jstring
  pa_href :: jstring
  pa_state :: jstring
  pa_status :: jstring
  pa_lines :: "(log_text \<times> jstring) list"

record panel =
  pn_open :: bool
  pn_title :: jstring
  pn_sub :: jstring
  pn_steps :: "(jstring \<times> jstring \<times> step_state option) list"
  pn_panes :: "pane list"
  pn_active :: "jstring option"
  pn_defaultHref :: jstring
  pn_openHref :: jstring
  pn_showOpen :: bool

definition emptyRun :: panel where
  "emptyRun =
     \<lparr>pn_open = False, pn_title = ''Deploy'', pn_sub = [], pn_steps = [], pn_panes = [], pn_active = None,
      pn_defaultHref = [], pn_openHref = [], pn_showOpen = False\<rparr>"

definition paneOf :: "jstring \<Rightarrow> panel \<Rightarrow> pane option" where
  "paneOf key r = find (\<lambda>p. pa_key p = key) (pn_panes r)"

definition openPane :: "jstring \<Rightarrow> jstring \<Rightarrow> panel \<Rightarrow> panel" where
  "openPane key label r =
     (if paneOf key r \<noteq> None then r
      else r\<lparr>pn_panes := pn_panes r @
               [\<lparr>pa_key = key, pa_label = label, pa_href = [], pa_state = [], pa_status = [], pa_lines = []\<rparr>]\<rparr>)"

definition set_pane :: "jstring \<Rightarrow> (pane \<Rightarrow> pane) \<Rightarrow> panel \<Rightarrow> panel" where
  "set_pane key g r = r\<lparr>pn_panes := update_first (\<lambda>p. pa_key p = key) g (pn_panes r)\<rparr>"

definition showPane :: "jstring \<Rightarrow> panel \<Rightarrow> panel" where
  "showPane key r =
     (let own = (case paneOf key r of Some p \<Rightarrow> pa_href p | None \<Rightarrow> []);
          href = (if own \<noteq> [] then own else pn_defaultHref r)
      in r\<lparr>pn_active := Some key, pn_openHref := (if href \<noteq> [] then href else pn_openHref r)\<rparr>)"

definition setPaneState :: "jstring \<Rightarrow> jstring \<Rightarrow> jstring \<Rightarrow> panel \<Rightarrow> panel" where
  "setPaneState key st word r = set_pane key (\<lambda>p. p\<lparr>pa_state := st, pa_status := word\<rparr>) r"

definition logLine :: "log_text \<Rightarrow> jstring \<Rightarrow> jstring \<Rightarrow> panel \<Rightarrow> panel" where
  "logLine s cls key r =
     set_pane (if paneOf key r \<noteq> None then key else ''all'') (\<lambda>p. p\<lparr>pa_lines := pa_lines p @ [(s, cls)]\<rparr>) r"

definition set_row :: "jstring \<Rightarrow> step_state \<Rightarrow> panel \<Rightarrow> panel" where
  "set_row i st r = r\<lparr>pn_steps := update_first (\<lambda>(j, _). j = i) (\<lambda>(j, l, _). (j, l, Some st)) (pn_steps r)\<rparr>"

section \<open>Following a deployment\<close>

record follow_state =
  fw_calls :: "call list"
  fw_panel :: panel
  fw_shown :: nat
  fw_warned :: bool

definition LEFT :: jstring where "LEFT = ''Left the canvas.''"

text \<open>The entries of \<open>dep.logs\<close>, with \<open>JSON.parse\<close> as a parameter; \<open>None\<close> where filtering them throws.\<close>

definition log_entries :: "(jstring \<Rightarrow> json option) \<Rightarrow> json \<Rightarrow> json list option" where
  "log_entries parse dep =
     (case json_get_string dep ''logs'' of
        None \<Rightarrow> Some []
      | Some s \<Rightarrow>
          (case parse s of
             None \<Rightarrow> Some []
           | Some (JArr es) \<Rightarrow> Some es
           | Some v \<Rightarrow> if truthy v then None else Some []))"

definition entry_hidden :: "json \<Rightarrow> bool" where
  "entry_hidden e = (case json_get e ''hidden'' of Some v \<Rightarrow> truthy v | None \<Rightarrow> False)"

definition entry_lines :: "(rat \<Rightarrow> jstring) \<Rightarrow> json \<Rightarrow> (jstring \<times> jstring) list" where
  "entry_lines num e =
     (let s = (case json_get e ''output'' of None \<Rightarrow> [] | Some JNull \<Rightarrow> [] | Some v \<Rightarrow> to_text num v);
          cls = (if json_get_string e ''type'' = Some ''stderr'' then ''err'' else [])
      in map (\<lambda>l. (l, cls)) (filter (\<lambda>l. trim l \<noteq> []) (split_on CHR 0x0A s)))"

definition log_lines :: "jstring \<Rightarrow> (jstring \<times> jstring) list \<Rightarrow> panel \<Rightarrow> panel" where
  "log_lines key ls r = foldl (\<lambda>r (s, cls). logLine (Plain s) cls key r) r ls"

text \<open>One poll: the result that ends the loop, if any, and the state.\<close>

definition follow_poll ::
  "(rat \<Rightarrow> jstring) \<Rightarrow> (jstring \<Rightarrow> json option) \<Rightarrow> api \<Rightarrow> (call list \<Rightarrow> bool) \<Rightarrow> jstring \<Rightarrow> jstring \<Rightarrow> jstring \<Rightarrow>
   follow_state \<Rightarrow> outcome option \<times> follow_state" where
  "follow_poll num parse api live label uuid key s =
     (if \<not> live (fw_calls s) then (Some (Inr LEFT), s)
      else
        (let c = \<lparr>ca_method = GET, ca_path = ''/deployments/'' @ uuid, ca_body = None\<rparr>;
             calls = fw_calls s @ [c]; t = s\<lparr>fw_calls := calls\<rparr>
         in case api (fw_calls s) c of
              Inl e \<Rightarrow>
                if \<not> live calls then (Some (Inr LEFT), t)
                else (None, t\<lparr>fw_panel := logLine (Plain (''(could not read the deployment: '' @ e @ '')'')) ''err'' key (fw_panel t)\<rparr>)
            | Inr dep \<Rightarrow>
                if \<not> live calls then (Some (Inr LEFT), t)
                else if dep = JNull then (Some (Inl TYPE_ERROR), t)
                else
                  (let hidden_logs = (json_get dep ''logs'' = None \<and> \<not> fw_warned t);
                       t1 = (if hidden_logs
                             then t\<lparr>fw_warned := True,
                                    fw_panel := logLine (Plain ''Logs are hidden: only team admins can see deployment logs.'')
                                                  ''err'' key (fw_panel t)\<rparr>
                             else t)
                   in case log_entries parse dep of
                        None \<Rightarrow> (Some (Inl TYPE_ERROR), t1)
                      | Some entries \<Rightarrow>
                          (let visible = filter (\<lambda>e. \<not> entry_hidden e) entries;
                               word = (case json_get dep ''status'' of Some v \<Rightarrow> (if truthy v then to_text num v else []) | None \<Rightarrow> []);
                               panel1 = log_lines key (concat (map (entry_lines num) (drop (fw_shown t1) visible))) (fw_panel t1);
                               panel2 = setPaneState key ''running'' (map (\<lambda>c. if c = CHR ''_'' then CHR '' '' else c) word) panel1;
                               t2 = t1\<lparr>fw_shown := length visible, fw_panel := panel2\<rparr>
                           in if json_get dep ''status'' = Some (JStr ''finished'') then (Some (Inr ''Deployed.''), t2)
                              else if json_get dep ''status'' = Some (JStr ''failed'')
                              then (Some (Inl (label @ '': deployment failed. See the logs.'')), t2)
                              else if json_get dep ''status'' = Some (JStr ''cancelled-by-user'')
                              then (Some (Inl (label @ '': deployment cancelled.'')), t2)
                              else (None, t2)))))"

text \<open>The loop, with the number of polls as fuel; \<open>None\<close> while the deployment goes on.\<close>

fun followDeployment ::
  "nat \<Rightarrow> (rat \<Rightarrow> jstring) \<Rightarrow> (jstring \<Rightarrow> json option) \<Rightarrow> api \<Rightarrow> (call list \<Rightarrow> bool) \<Rightarrow> jstring \<Rightarrow> jstring \<Rightarrow> jstring \<Rightarrow>
   follow_state \<Rightarrow> outcome option \<times> follow_state" where
  "followDeployment 0 num parse api live label uuid key s = (None, s)"
| "followDeployment (Suc fuel) num parse api live label uuid key s =
     (case follow_poll num parse api live label uuid key s of
        (Some r, t) \<Rightarrow> (Some r, t)
      | (None, t) \<Rightarrow> followDeployment fuel num parse api live label uuid key t)"

definition start_follow :: "call list \<Rightarrow> jstring \<Rightarrow> jstring \<Rightarrow> panel \<Rightarrow> follow_state" where
  "start_follow calls uuid key r =
     \<lparr>fw_calls = calls, fw_panel = logLine (Plain (''Deployment '' @ uuid)) ''dim'' key r, fw_shown = 0, fw_warned = False\<rparr>"

section \<open>Deploying the resources\<close>

record shipment =
  sh_key :: jstring
  sh_ctx :: run_ctx
  sh_label :: jstring

text \<open>One resource of \<open>deployAll\<close>: the deploy call, then the deployment it started. \<open>api\<close> and \<open>live\<close> are its view of
  the API and of the page, from the calls it made itself.\<close>

definition deploy_calls :: "shipment \<Rightarrow> call" where
  "deploy_calls sh =
     \<lparr>ca_method = POST, ca_path = ''/deploy'',
      ca_body = Some (JObj [(''uuid'', JStr (case cx_resource (sh_ctx sh) of Some (_, u) \<Rightarrow> u | None \<Rightarrow> ''undefined''))])\<rparr>"

definition first_deployment :: "json \<Rightarrow> json option" where
  "first_deployment res = (case json_get res ''deployments'' of Some (JArr (d # _)) \<Rightarrow> Some d | _ \<Rightarrow> None)"

definition item_string :: "json option \<Rightarrow> jstring \<Rightarrow> jstring" where
  "item_string item k = (case item of None \<Rightarrow> [] | Some v \<Rightarrow> the_str (json_get_string v k))"

text \<open>\<open>s.replace(p, '')\<close>\<close>

definition remove_first :: "jstring \<Rightarrow> jstring \<Rightarrow> jstring" where
  "remove_first p s = (case index_of p s of None \<Rightarrow> s | Some i \<Rightarrow> take i s @ drop (i + length p) s)"

definition deploy_failed :: "shipment \<Rightarrow> (call list \<Rightarrow> bool) \<Rightarrow> call list \<Rightarrow> jstring \<Rightarrow> panel \<Rightarrow> panel" where
  "deploy_failed sh live calls e r =
     (if live calls then logLine (Plain e) ''err'' (sh_key sh) 
       (setPaneState (sh_key sh) ''failed'' (remove_first (sh_label sh @ '': '') e) r) else r)"

definition deploy_done :: "shipment \<Rightarrow> jstring \<Rightarrow> panel \<Rightarrow> panel" where
  "deploy_done sh message r =
     logLine (Tick (sh_label sh @ '': '' @ message)) ''dim'' ''all'' (setPaneState (sh_key sh) ''done'' message r)"

text \<open>\<open>None\<close> while the deployment is still followed.\<close>

definition deploy_one ::
  "nat \<Rightarrow> (rat \<Rightarrow> jstring) \<Rightarrow> (jstring \<Rightarrow> json option) \<Rightarrow> api \<Rightarrow> (call list \<Rightarrow> bool) \<Rightarrow> shipment \<Rightarrow> panel \<Rightarrow>
   outcome option \<times> run_ctx \<times> call list \<times> panel" where
  "deploy_one fuel num parse api live sh r0 =
     (let key = sh_key sh; r = setPaneState key ''running'' ''Starting'' r0; calls = [deploy_calls sh]
      in case api [] (deploy_calls sh) of
           Inl e \<Rightarrow> (Some (Inl e), sh_ctx sh, calls, deploy_failed sh live calls e r)
         | Inr res \<Rightarrow>
             if \<not> live calls then (Some (Inr LEFT), sh_ctx sh, calls, r)
             else
               (let item = first_deployment res;
                    message = (if item_string item ''message'' \<noteq> [] then item_string item ''message'' else ''Started.'');
                    uuid = item_string item ''deployment_uuid''
                in if uuid = [] then
                     (Some (Inr (sh_label sh @ '': '' @ message)), sh_ctx sh, calls,
                      deploy_done sh message (logLine (Plain message) [] key r))
                   else
                     (let ctx = (sh_ctx sh)\<lparr>cx_deployment := Some uuid\<rparr>;
                          r1 = set_pane key (\<lambda>p. p\<lparr>pa_href := resourceHref ctx\<rparr>) r;
                          r2 = (if pn_active r1 = Some key then showPane key r1 else r1)
                      in case followDeployment fuel num parse api live (sh_label sh) uuid key (start_follow calls uuid key r2) of
                           (None, s) \<Rightarrow> (None, ctx, fw_calls s, fw_panel s)
                         | (Some (Inl e), s) \<Rightarrow> (Some (Inl e), ctx, fw_calls s, deploy_failed sh live (fw_calls s) e (fw_panel s))
                         | (Some (Inr m), s) \<Rightarrow>
                             if \<not> live (fw_calls s) then (Some (Inr m), ctx, fw_calls s, fw_panel s)
                             else (Some (Inr (sh_label sh @ '': '' @ m)), ctx, fw_calls s, deploy_done sh m (fw_panel s)))))"

text \<open>\<open>api_of\<close> and \<open>live_of\<close> give every resource, by its place, its view.\<close>

fun deploy_each ::
  "nat \<Rightarrow> (rat \<Rightarrow> jstring) \<Rightarrow> (jstring \<Rightarrow> json option) \<Rightarrow> (nat \<Rightarrow> api) \<Rightarrow> (nat \<Rightarrow> call list \<Rightarrow> bool) \<Rightarrow> nat \<Rightarrow>
   shipment list \<Rightarrow> panel \<Rightarrow> (outcome option \<times> run_ctx \<times> call list) list \<times> panel" where
  "deploy_each fuel num parse api_of live_of k [] r = ([], r)"
| "deploy_each fuel num parse api_of live_of k (sh # shs) r =
     (let (out, ctx, calls, r1) = deploy_one fuel num parse (api_of k) (live_of k) sh r;
          (outs, r2) = deploy_each fuel num parse api_of live_of (k + 1) shs r1
      in ((out, ctx, calls) # outs, r2))"

definition open_tabs :: "shipment list \<Rightarrow> panel \<Rightarrow> panel" where
  "open_tabs shs r =
     (let r1 = foldl (\<lambda>r sh. set_pane (sh_key sh) (\<lambda>p. p\<lparr>pa_href := resourceHref (sh_ctx sh)\<rparr>)
                              (openPane (sh_key sh) (sh_label sh) r)) r shs
      in case shs of [] \<Rightarrow> r1 | sh # _ \<Rightarrow> showPane (sh_key sh) r1)"

definition deploy_summary :: "outcome list \<Rightarrow> outcome" where
  "deploy_summary outs =
     (let failed = List.map_filter (\<lambda>out. case out of Inl e \<Rightarrow> Some e | Inr _ \<Rightarrow> None) outs
      in if failed \<noteq> [] then Inl (join_with [CHR '' '', CHR 0xB7, CHR '' ''] failed)
         else if length outs > 1 then Inr (nat_str (length outs) @ '' resources deployed.'')
         else case outs of [out] \<Rightarrow> out | _ \<Rightarrow> Inl TYPE_ERROR)"

text \<open>\<open>Promise.allSettled\<close> waits for all: \<open>None\<close> while one is not settled.\<close>

definition deployAll ::
  "nat \<Rightarrow> (rat \<Rightarrow> jstring) \<Rightarrow> (jstring \<Rightarrow> json option) \<Rightarrow> (nat \<Rightarrow> api) \<Rightarrow> (nat \<Rightarrow> call list \<Rightarrow> bool) \<Rightarrow>
   shipment list \<Rightarrow> panel \<Rightarrow> outcome option \<times> (run_ctx \<times> call list) list \<times> panel" where
  "deployAll fuel num parse api_of live_of shs r =
     (let (results, r1) = deploy_each fuel num parse api_of live_of 0 shs (open_tabs shs r);
          outs = List.map_filter fst results
      in (if length outs = length results then Some (deploy_summary outs) else None, map snd results, r1))"

section \<open>A run\<close>

text \<open>The API and the page as the run sees them: for the steps, for each deployment, and for the addresses
  at the end.\<close>

record world =
  wo_api :: api
  wo_live :: "call list \<Rightarrow> bool"
  wo_deploy_api :: "nat \<Rightarrow> api"
  wo_deploy_live :: "nat \<Rightarrow> call list \<Rightarrow> bool"
  wo_end_api :: api
  wo_end_live :: bool
  wo_num :: "rat \<Rightarrow> jstring"
  wo_parse :: "jstring \<Rightarrow> json option"

record run_state =
  rs_calls :: "call list"
  rs_panel :: panel
  rs_states :: "jstring \<Rightarrow> step_state option"
  rs_invalid :: "jstring set"

definition setStep :: "step \<Rightarrow> step_state \<Rightarrow> run_state \<Rightarrow> run_state" where
  "setStep n st rs =
     rs\<lparr>rs_states := (rs_states rs)(st_id n \<mapsto> st), rs_invalid := rs_invalid rs - {st_id n},
        rs_panel := set_row (st_id n) st (rs_panel rs)\<rparr>"

text \<open>\<open>step(n, work)\<close> with the calls and the outcome of the work: the new state, and whether it went well.\<close>

definition end_step :: "bool \<Rightarrow> jstring \<Rightarrow> step \<Rightarrow> outcome \<Rightarrow> run_state \<Rightarrow> run_state \<times> bool" where
  "end_step live label n out rs =
     (if \<not> live then (rs, False)
      else case out of
             Inr message \<Rightarrow>
               (let t = setStep n (StepDone message) rs
                in (t\<lparr>rs_panel := logLine (Tick (label @ '': '' @ message)) ''dim'' ''all'' (rs_panel t)\<rparr>, True))
           | Inl e \<Rightarrow>
               (let t = setStep n (StepFailed e) rs
                in (t\<lparr>rs_panel := logLine (Cross (label @ '': '' @ e)) ''err'' ''all'' (rs_panel t)\<rparr>, False)))"

definition one_step :: "world \<Rightarrow> (step \<Rightarrow> jstring) \<Rightarrow> step \<Rightarrow> run_ctx \<Rightarrow> run_state \<Rightarrow> run_ctx \<times> run_state \<times> bool" where
  "one_step w label n ctx rs =
     (let t = setStep n StepRunning rs;
          (ctx', calls, out) = step_run (wo_api w) (st_type n) (st_data n) ctx (rs_calls rs);
          (u, ok) = end_step (wo_live w calls) (label n) n out (t\<lparr>rs_calls := calls\<rparr>)
      in (ctx', u, ok))"

fun run_steps :: "world \<Rightarrow> (step \<Rightarrow> jstring) \<Rightarrow> step list \<Rightarrow> run_ctx \<Rightarrow> run_state \<Rightarrow> run_ctx \<times> run_state \<times> bool" where
  "run_steps w label [] ctx rs = (ctx, rs, True)"
| "run_steps w label (n # ns) ctx rs =
     (case one_step w label n ctx rs of
        (ctx', t, True) \<Rightarrow> run_steps w label ns ctx' t
      | (ctx', t, False) \<Rightarrow> (ctx', t, False))"

text \<open>The loop over the servers, which only marks them.\<close>

fun run_servers :: "world \<Rightarrow> (step \<Rightarrow> jstring) \<Rightarrow> step list \<Rightarrow> run_state \<Rightarrow> run_state \<times> bool" where
  "run_servers w label [] rs = (rs, True)"
| "run_servers w label (s # ss) rs =
     (case end_step (wo_live w (rs_calls rs)) (label s) s (Inr ''Server picked.'') (setStep s StepRunning rs) of
        (t, True) \<Rightarrow> run_servers w label ss t
      | (t, False) \<Rightarrow> (t, False))"

text \<open>One resource line: its context, its steps, and the shipment if its resource exists, also when a step
  after it failed.\<close>

definition line_ctx :: "world \<Rightarrow> run_ctx \<Rightarrow> line \<Rightarrow> run_ctx" where
  "line_ctx w base l =
     (let ctx = fst (step_run (wo_api w) Server (st_data (ln_server l)) base [])
      in case find (\<lambda>n. st_type n = Domains) (ln_settings l) of
           Some n \<Rightarrow> ctx\<lparr>cx_domains := Some (domainList (st_data n ''domains''))\<rparr>
         | None \<Rightarrow> ctx)"

fun run_lines ::
  "world \<Rightarrow> (step \<Rightarrow> jstring) \<Rightarrow> run_ctx \<Rightarrow> line list \<Rightarrow> run_state \<Rightarrow> shipment list \<times> run_state \<times> bool" where
  "run_lines w label base [] rs = ([], rs, True)"
| "run_lines w label base (l # ls) rs =
     (let (ctx, t, ok) = run_steps w label (ln_source l # ln_settings l) (line_ctx w base l) rs;
          shipped = (if cx_resource ctx \<noteq> None
                     then [\<lparr>sh_key = st_id (ln_source l), sh_ctx = ctx, sh_label = label (ln_source l)\<rparr>] else [])
      in if ok then (let (shs, u, ok') = run_lines w label base ls t in (shipped @ shs, u, ok'))
         else (shipped, t, False))"

definition label_of :: "plan \<Rightarrow> step \<Rightarrow> jstring" where
  "label_of p n =
     (case map_of (rev (uniqueLabels (map ln_source (pl_lines p)))) (st_id n) of
        Some l \<Rightarrow> if l \<noteq> [] then l else title_of (st_type n)
      | None \<Rightarrow> title_of (st_type n))"

text \<open>The addresses of the created resources.\<close>

definition split_urls :: "jstring \<Rightarrow> jstring list" where
  "split_urls s = filter (\<lambda>v. v \<noteq> []) (map trim (split_on CHR '','' s))"

fun found_urls :: "api \<Rightarrow> shipment list \<Rightarrow> call list \<Rightarrow> jstring list \<times> call list" where
  "found_urls api [] calls = ([], calls)"
| "found_urls api (sh # shs) calls =
     (let ctx = sh_ctx sh;
          own = split_urls (if the_str (cx_domains ctx) \<noteq> [] then the_str (cx_domains ctx)
                            else the_str (cx_createdDomains ctx));
          (urls, calls1) =
            (case cx_resource ctx of
               Some (Application, uuid) \<Rightarrow>
                 if own \<noteq> [] then (own, calls)
                 else (let c = \<lparr>ca_method = GET, ca_path = ''/applications/'' @ uuid, ca_body = None\<rparr>
                       in (case api calls c of
                             Inr app \<Rightarrow> split_urls (the_str (json_get_string app ''fqdn''))
                           | Inl _ \<Rightarrow> [], calls @ [c]))
             | _ \<Rightarrow> (own, calls));
          (rest, calls2) = found_urls api shs calls1
      in (urls @ rest, calls2))"

definition run_href :: "run_ctx \<Rightarrow> run_ctx list \<Rightarrow> jstring" where
  "run_href base ctxs =
     (case ctxs of
        [ctx] \<Rightarrow> resourceHref ctx
      | _ \<Rightarrow> ''/project/'' @ text_of (cx_project base) @ ''/environment/'' @ text_of (cx_environment base))"

text \<open>How a run ends: it did not start, the page was left, it is still following deployments, or it ended.\<close>

datatype run_status = NotStarted | LeftPage | Following | Ended bool

record run_end =
  re_status :: run_status
  re_canvas :: canvas
  re_panel :: panel
  re_calls :: "call list"
  re_deploy_calls :: "call list list"
  re_shipped :: "shipment list"

definition start_panel :: "run_action \<Rightarrow> plan \<Rightarrow> step list \<Rightarrow> panel \<Rightarrow> panel" where
  "start_panel action p list r =
     (let r1 = r\<lparr>pn_open := True, pn_title := (if action = SaveAction then ''Saving'' else ''Deploying''),
                 pn_sub := plural (length (pl_lines p)) ''resource'', pn_panes := [], pn_active := None,
                 pn_defaultHref := []\<rparr>
      in (showPane ''all'' (openPane ''all'' ''Steps'' r1))
           \<lparr>pn_showOpen := False, pn_steps := map (\<lambda>n. (st_id n, label_of p n, None)) list\<rparr>)"

text \<open>The steps of a run up to the deploy step.\<close>

definition run_resources ::
  "world \<Rightarrow> plan \<Rightarrow> step \<Rightarrow> run_state \<Rightarrow> run_ctx \<times> shipment list \<times> run_state \<times> bool" where
  "run_resources w p start rs =
     (let (base, rs1, ok1) = one_step w (label_of p) start empty_ctx rs;
          (rs2, ok2) = (if ok1 then run_servers w (label_of p) (line_servers p) rs1 else (rs1, False));
          (shipped, rs3, ok3) = (if ok2 then run_lines w (label_of p) base (pl_lines p) rs2 else ([], rs2, False))
      in (base, shipped, rs3, ok3))"

definition finish_run ::
  "world \<Rightarrow> run_action \<Rightarrow> step \<Rightarrow> bool \<Rightarrow> run_ctx \<Rightarrow> shipment list \<Rightarrow> call list list \<Rightarrow> run_state \<Rightarrow> canvas \<Rightarrow> run_end" where
  "finish_run w action deploy ok base shipped deploys rs c =
     (let href = run_href base (map sh_ctx shipped);
          r1 = (if shipped \<noteq> [] then (rs_panel rs)\<lparr>pn_defaultHref := href\<rparr> else rs_panel rs);
          r2 = (case pn_active r1 of Some key \<Rightarrow> showPane key r1 | None \<Rightarrow> r1);
          (urls, calls) = (if ok \<and> action = DeployAction then found_urls (wo_end_api w) shipped (rs_calls rs) else ([], rs_calls rs));
          r3 = r2\<lparr>pn_title := (if ok then ''Done'' else ''Stopped''),
                  pn_sub := (if ok
                             then (if action = SaveAction then ''Saved in Coolify. Deploy them from there or from here.''
                                   else ''Every step finished.'')
                             else ''A step failed. Fix it and try again.'')\<rparr>
      in \<lparr>re_status = Ended ok,
          re_canvas = c\<lparr>cv_runState := rs_states rs, cv_invalid := rs_invalid rs, cv_running := None,
                         cv_result := (if ok then Some \<lparr>rr_after = st_id deploy, rr_urls = urls, rr_href = href\<rparr> else None),
                         cv_deployed := (ok \<and> action = DeployAction)\<rparr>,
          re_panel = r3, re_calls = calls, re_deploy_calls = deploys, re_shipped = shipped\<rparr>)"

definition stop_run :: "run_status \<Rightarrow> run_state \<Rightarrow> call list list \<Rightarrow> shipment list \<Rightarrow> canvas \<Rightarrow> run_end" where
  "stop_run status' rs deploys shipped c =
     \<lparr>re_status = status', re_canvas = c\<lparr>cv_runState := rs_states rs, cv_invalid := rs_invalid rs\<rparr>,
      re_panel = rs_panel rs, re_calls = rs_calls rs, re_deploy_calls = deploys, re_shipped = shipped\<rparr>"

definition no_run :: "canvas \<Rightarrow> panel \<Rightarrow> run_end" where
  "no_run c r =
     \<lparr>re_status = NotStarted, re_canvas = c, re_panel = r, re_calls = [], re_deploy_calls = [], re_shipped = []\<rparr>"

text \<open>The deploy step of a run.\<close>

definition deploy_step ::
  "nat \<Rightarrow> world \<Rightarrow> (step \<Rightarrow> jstring) \<Rightarrow> step \<Rightarrow> run_ctx \<Rightarrow> shipment list \<Rightarrow> run_state \<Rightarrow> canvas \<Rightarrow> run_end" where
  "deploy_step fuel w label deploy base shipped rs c =
     (let rs1 = setStep deploy StepRunning rs;
          (out, ends, r) = deployAll fuel (wo_num w) (wo_parse w) (wo_deploy_api w) (wo_deploy_live w) shipped (rs_panel rs1);
          rs2 = rs1\<lparr>rs_panel := r\<rparr>;
          shipped' = map2 (\<lambda>sh (ctx, _). sh\<lparr>sh_ctx := ctx\<rparr>) shipped ends
      in case out of
           None \<Rightarrow> stop_run Following rs2 (map snd ends) shipped' c
         | Some out' \<Rightarrow>
             (let (rs3, ok) = end_step (wo_end_live w) (label deploy) deploy out' rs2
              in if \<not> wo_end_live w then stop_run LeftPage rs3 (map snd ends) shipped' c
                 else finish_run w DeployAction deploy ok base shipped' (map snd ends) rs3 c))"

definition save_step ::
  "world \<Rightarrow> (step \<Rightarrow> jstring) \<Rightarrow> step \<Rightarrow> run_ctx \<Rightarrow> shipment list \<Rightarrow> run_state \<Rightarrow> canvas \<Rightarrow> run_end" where
  "save_step w label deploy base shipped rs c =
     (let (rs1, ok) = end_step True (label deploy) deploy
            (Inr (''Saved '' @ plural (length shipped) ''resource'' @ ''. Not deployed.'')) (setStep deploy StepRunning rs)
      in finish_run w SaveAction deploy ok base shipped [] rs1 c)"

text \<open>What follows the steps of the resources.\<close>

definition after_resources ::
  "nat \<Rightarrow> world \<Rightarrow> run_action \<Rightarrow> (step \<Rightarrow> jstring) \<Rightarrow> step \<Rightarrow> run_ctx \<Rightarrow> shipment list \<Rightarrow> bool \<Rightarrow> run_state \<Rightarrow> canvas \<Rightarrow> run_end" where
  "after_resources fuel w action label deploy base shipped ok rs c =
     (if \<not> wo_live w (rs_calls rs) then stop_run LeftPage rs [] shipped c
      else
        (let href = run_href base (map sh_ctx shipped);
             rs1 = (if shipped \<noteq> []
                    then rs\<lparr>rs_panel := (rs_panel rs)\<lparr>pn_showOpen := True, pn_openHref := href, pn_defaultHref := href\<rparr>\<rparr>
                    else rs)
         in if \<not> ok then finish_run w action deploy False base shipped [] rs1 c
            else if action = SaveAction then save_step w label deploy base shipped rs1 c
            else deploy_step fuel w label deploy base shipped rs1 c))"

definition begin_run :: "run_action \<Rightarrow> plan \<Rightarrow> step \<Rightarrow> panel \<Rightarrow> run_state" where
  "begin_run action p deploy r =
     \<lparr>rs_calls = [], rs_panel = start_panel action p (run_order p @ [deploy]) r, rs_states = Map.empty, rs_invalid = {}\<rparr>"

definition runFlow :: "nat \<Rightarrow> world \<Rightarrow> run_action \<Rightarrow> panel \<Rightarrow> canvas \<Rightarrow> run_end" where
  "runFlow fuel w action r0 c0 =
     (if cv_running c0 \<noteq> None then no_run c0 r0
      else
        (let c = closeMenu c0; p = planOf (cv_flow c0); (problems, marked) = validate p
         in if problems \<noteq> [] then no_run (toast (hd problems) True (c\<lparr>cv_invalid := cv_invalid c \<union> set marked\<rparr>)) r0
            else case (pl_start p, pl_deploy p) of
                   (Some start, Some deploy) \<Rightarrow>
                     (let (base, shipped, rs, ok) = run_resources w p start (begin_run action p deploy r0)
                      in after_resources fuel w action (label_of p) deploy base shipped ok rs
                           (c\<lparr>cv_running := Some action, cv_result := None, cv_deployed := False\<rparr>))
                 | _ \<Rightarrow> no_run c r0))"

end
