(* ===== verification/Deploy_Invariants.thy ===== *)
theory Deploy_Invariants
  imports Deploy_Canvas Canvas_Core_Safety
begin

text \<open>
  The shape of the flows that edits can make: a forest of steps whose stages follow each other, and the
  ancestors of a step as \<open>up_trail\<close> walks them.
\<close>

section \<open>Lookups\<close>

lemma nodeById_Some: "nodeById i f = Some n \<Longrightarrow> n \<in> set (fl_nodes f) \<and> st_id n = i"
  by (auto simp: nodeById_def dest: find_SomeD)

lemma nodeById_in:
  "\<lbrakk>distinct (map st_id (fl_nodes f)); n \<in> set (fl_nodes f)\<rbrakk> \<Longrightarrow> nodeById (st_id n) f = Some n"
  unfolding nodeById_def
proof (induction "fl_nodes f" arbitrary: f)
  case (Cons m ms)
  have "distinct (map st_id (m # ms))" "n \<in> set (m # ms)" using Cons.hyps(2) Cons.prems by simp_all
  moreover have "find (\<lambda>k. st_id k = st_id n) ms = Some n" if "n \<in> set ms"
    using Cons.hyps(1) [of "f\<lparr>fl_nodes := ms\<rparr>"] that calculation by simp
  ultimately have "find (\<lambda>k. st_id k = st_id n) (m # ms) = Some n" by force
  then show ?case using Cons.hyps(2) by simp
qed simp

lemma nodeById_None: "nodeById i f = None \<longleftrightarrow> i \<notin> st_id ` set (fl_nodes f)"
  by (auto simp: nodeById_def find_None_iff)

lemma prevOf_edge: "prevOf i f = Some a \<Longrightarrow> (a, i) \<in> set (fl_edges f)"
  by (auto simp: prevOf_def dest!: find_SomeD)

lemma edge_prevOf:
  assumes "distinct (map snd (fl_edges f))" "(a, i) \<in> set (fl_edges f)"
  shows "prevOf i f = Some a"
proof -
  have "find (\<lambda>(x, y). y = i) es = Some (a, i)" if "distinct (map snd es)" "(a, i) \<in> set es" for es :: "edge list"
    using that by (induction es) force+
  then show ?thesis using assms by (simp add: prevOf_def)
qed

lemma prevOf_iff: "distinct (map snd (fl_edges f)) \<Longrightarrow> prevOf i f = Some a \<longleftrightarrow> (a, i) \<in> set (fl_edges f)"
  using prevOf_edge edge_prevOf by blast

lemma outsOf_iff: "j \<in> set (outsOf i f) \<longleftrightarrow> (i, j) \<in> set (fl_edges f)"
  by (force simp: outsOf_def)

section \<open>The forest\<close>

fun stage_next :: "stage \<Rightarrow> stage \<Rightarrow> bool" where
  "stage_next StageStart s = (s = Infra)"
| "stage_next Infra s = (s = Source)"
| "stage_next Source s = (s = Config)"
| "stage_next Config s = (s = Config)"
| "stage_next Ship s = False"

definition follows :: "flow \<Rightarrow> edge \<Rightarrow> bool" where
  "follows f e \<longleftrightarrow> (\<exists>m \<in> set (fl_nodes f). \<exists>n \<in> set (fl_nodes f). st_id m = fst e \<and> st_id n = snd e \<and>
     stage_next (stage_of (st_type m)) (stage_of (st_type n)))"

definition forest :: "flow \<Rightarrow> bool" where
  "forest f \<longleftrightarrow>
     distinct (map st_id (fl_nodes f)) \<and> [] \<notin> st_id ` set (fl_nodes f) \<and>
     distinct (map snd (fl_edges f)) \<and> (\<forall>e \<in> set (fl_edges f). follows f e) \<and>
     (\<forall>m \<in> set (fl_nodes f). \<not> multiOut m \<longrightarrow> length (outsOf (st_id m) f) \<le> 1) \<and>
     acyclic (set (fl_edges f))"

lemma forestD:
  assumes "forest f"
  shows "distinct (map st_id (fl_nodes f))" "[] \<notin> st_id ` set (fl_nodes f)" "distinct (map snd (fl_edges f))"
    "\<And>e. e \<in> set (fl_edges f) \<Longrightarrow> follows f e" "acyclic (set (fl_edges f))"
    "\<And>m. \<lbrakk>m \<in> set (fl_nodes f); \<not> multiOut m\<rbrakk> \<Longrightarrow> length (outsOf (st_id m) f) \<le> 1"
  using assms by (auto simp: forest_def)

lemma same_step:
  "\<lbrakk>forest f; m \<in> set (fl_nodes f); n \<in> set (fl_nodes f); st_id m = st_id n\<rbrakk> \<Longrightarrow> m = n"
  using forestD(1) by (auto simp: distinct_map inj_on_def)

lemma forest_edge_ids:
  assumes "forest f" "(a, b) \<in> set (fl_edges f)"
  shows "a \<in> st_id ` set (fl_nodes f)" "b \<in> st_id ` set (fl_nodes f)" "a \<noteq> []" "b \<noteq> []"
proof -
  have "follows f (a, b)" using forestD(4) [OF assms] .
  then have "\<exists>m \<in> set (fl_nodes f). st_id m = a" "\<exists>n \<in> set (fl_nodes f). st_id n = b"
    unfolding follows_def by auto
  then show "a \<in> st_id ` set (fl_nodes f)" "b \<in> st_id ` set (fl_nodes f)" by blast+
  then show "a \<noteq> []" "b \<noteq> []" using forestD(2) [OF assms(1)] by metis+
qed

section \<open>Trails\<close>

lemma trail_up_complete:
  assumes "distinct (map snd es)" "acyclic (set es)" "\<forall>(a, b) \<in> set es. a \<noteq> []"
    and "(x, c) \<in> (set es)\<^sup>*" "c \<noteq> []" "\<forall>s \<in> set seen. (s, c) \<notin> (set es)\<^sup>*"
  shows "x \<in> set (trail es snd fst (Some c) seen)"
  using assms(4-6)
proof (induction "card (((set es)\<inverse>)\<^sup>* `` {c})" arbitrary: c seen rule: less_induct)
  case less
  have unfold: "trail es snd fst (Some c) seen = c # trail es snd fst (map_option fst (find (\<lambda>e. snd e = c) es)) (c # seen)"
    using less.prems(2,3) by (subst trail.simps) auto
  show ?case
  proof (cases "x = c")
    case True
    then show ?thesis by (simp add: unfold)
  next
    case False
    then obtain p where p: "(x, p) \<in> (set es)\<^sup>*" "(p, c) \<in> set es" using less.prems(1) by (meson rtranclE)
    have find: "find (\<lambda>e. snd e = c) es = Some (p, c)"
    proof -
      have "find (\<lambda>e. snd e = c) ys = Some (p, c)" if "distinct (map snd ys)" "(p, c) \<in> set ys" for ys
        using that by (induction ys) force+
      then show ?thesis using assms(1) p(2) by blast
    qed
    have cp: "(c, p) \<notin> (set es)\<^sup>*" using assms(2) p(2) by (meson acyclic_def rtrancl_into_trancl1)
    have sub: "((set es)\<inverse>)\<^sup>* `` {p} \<subset> ((set es)\<inverse>)\<^sup>* `` {c}"
    proof
      show "((set es)\<inverse>)\<^sup>* `` {p} \<subseteq> ((set es)\<inverse>)\<^sup>* `` {c}" using p(2) by (auto intro: converse_rtrancl_into_rtrancl)
      have "c \<in> ((set es)\<inverse>)\<^sup>* `` {c}" "c \<notin> ((set es)\<inverse>)\<^sup>* `` {p}" using cp by (auto simp: rtrancl_converse)
      then show "((set es)\<inverse>)\<^sup>* `` {p} \<noteq> ((set es)\<inverse>)\<^sup>* `` {c}" by blast
    qed
    have "((set es)\<inverse>)\<^sup>* `` {c} \<subseteq> insert c (fst ` set es)"
    proof
      fix y
      assume "y \<in> ((set es)\<inverse>)\<^sup>* `` {c}"
      then have "(y, c) \<in> (set es)\<^sup>*" by (simp add: rtrancl_converse)
      then show "y \<in> insert c (fst ` set es)" by (cases rule: converse_rtranclE) force+
    qed
    then have "finite (((set es)\<inverse>)\<^sup>* `` {c})" by (rule finite_subset) simp
    then have "card (((set es)\<inverse>)\<^sup>* `` {p}) < card (((set es)\<inverse>)\<^sup>* `` {c})" using sub by (rule psubset_card_mono)
    moreover have "\<forall>s \<in> set (c # seen). (s, p) \<notin> (set es)\<^sup>*"
      using less.prems(3) p(2) cp by (auto dest: rtrancl_into_rtrancl)
    moreover have "p \<noteq> []" using assms(3) p(2) by auto
    ultimately have "x \<in> set (trail es snd fst (Some p) (c # seen))" using less.hyps p(1) by blast
    then show ?thesis by (simp add: unfold find)
  qed
qed

lemma up_trail_ancestors:
  assumes "forest f" "(x, i) \<in> (set (fl_edges f))\<^sup>*" "i \<noteq> []"
  shows "x \<in> set (up_trail i f)"
  unfolding up_trail_def
  using forestD(3,5) [OF assms(1)] forest_edge_ids(3) [OF assms(1)] assms(2,3)
  by (intro trail_up_complete) auto

lemma trail_sound:
  "x \<in> set (trail es key target cur seen) \<Longrightarrow>
     x \<noteq> [] \<and> x \<notin> set seen \<and> (\<exists>c. cur = Some c \<and> (c, x) \<in> ((\<lambda>e. (key e, target e)) ` set es)\<^sup>*)"
proof (induction es key target cur seen rule: trail.induct)
  case (1 es key target cur seen)
  then obtain c where c: "cur = Some c" "c \<noteq> []" "c \<notin> set seen"
    by (subst (asm) (2) trail.simps) (auto split: option.splits if_splits)
  let ?next = "map_option target (find (\<lambda>e. key e = c) es)"
  have "x = c \<or> x \<in> set (trail es key target ?next (c # seen))"
    using 1(2) c by (subst (asm) trail.simps) auto
  then show ?case
  proof
    assume "x \<in> set (trail es key target ?next (c # seen))"
    from 1(1) [OF c(1) _ this] c obtain d where
      d: "x \<noteq> []" "x \<notin> set (c # seen)" "?next = Some d" "(d, x) \<in> ((\<lambda>e. (key e, target e)) ` set es)\<^sup>*" by auto
    from d(3) obtain e where "e \<in> set es" "key e = c" "target e = d" by (auto dest: find_SomeD)
    then have "(c, d) \<in> (\<lambda>e. (key e, target e)) ` set es" by force
    then show ?thesis using c d by (auto intro: converse_rtrancl_into_rtrancl)
  qed (use c in auto)
qed

lemma trail_distinct: "distinct (trail es key target cur seen)"
proof (induction es key target cur seen rule: trail.induct)
  case (1 es key target cur seen)
  show ?case
  proof (cases "\<exists>c. cur = Some c \<and> c \<noteq> [] \<and> c \<notin> set seen")
    case True
    then obtain c where c: "cur = Some c" "c \<noteq> []" "c \<notin> set seen" by blast
    let ?rest = "trail es key target (map_option target (find (\<lambda>e. key e = c) es)) (c # seen)"
    have "c \<notin> set ?rest" using trail_sound [of c es key target _ "c # seen"] by auto
    then show ?thesis using 1 [OF c(1)] c by (subst trail.simps) auto
  next
    case False
    then show ?thesis by (subst trail.simps) (auto split: option.split)
  qed
qed

lemma up_trail_sound: "x \<in> set (up_trail i f) \<Longrightarrow> (x, i) \<in> (set (fl_edges f))\<^sup>*"
proof -
  assume "x \<in> set (up_trail i f)"
  then have "(i, x) \<in> ((\<lambda>e. (snd e, fst e)) ` set (fl_edges f))\<^sup>*"
    unfolding up_trail_def by (auto dest: trail_sound)
  moreover have "(\<lambda>e. (snd e, fst e)) ` set (fl_edges f) = (set (fl_edges f))\<inverse>" by force
  ultimately show ?thesis by (simp add: rtrancl_converse)
qed

lemma down_trail_sound:
  "x \<in> set (down_trail cur seen f) \<Longrightarrow> x \<noteq> [] \<and> x \<notin> set seen \<and> (\<exists>c. cur = Some c \<and> (c, x) \<in> (set (fl_edges f))\<^sup>*)"
  unfolding down_trail_def using trail_sound [of x "fl_edges f" fst snd cur seen] by simp

section \<open>Edits keep the forest\<close>

abbreviation shape :: "flow \<Rightarrow> (jstring \<times> step_type) list" where
  "shape f \<equiv> map (\<lambda>n. (st_id n, st_type n)) (fl_nodes f)"

lemma shape_nodes:
  assumes "shape g = shape f" "n \<in> set (fl_nodes f)"
  obtains m where "m \<in> set (fl_nodes g)" "st_id m = st_id n" "st_type m = st_type n"
proof -
  have "(st_id n, st_type n) \<in> set (shape g)" unfolding assms(1) using assms(2) by auto
  then show ?thesis using that by auto
qed

lemma shape_ids: "shape g = shape f \<Longrightarrow> map st_id (fl_nodes g) = map st_id (fl_nodes f)"
  by (drule arg_cong [where f = "map fst"]) (simp add: comp_def)

lemma forest_shape:
  assumes "forest f" "shape g = shape f" "fl_edges g = fl_edges f"
  shows "forest g"
proof -
  have ids: "map st_id (fl_nodes g) = map st_id (fl_nodes f)" using shape_ids [OF assms(2)] .
  then have idset: "st_id ` set (fl_nodes g) = st_id ` set (fl_nodes f)" by (metis list.set_map)
  have "follows g e" if "e \<in> set (fl_edges g)" for e
  proof -
    have "follows f e" using forestD(4) [OF assms(1)] that assms(3) by simp
    then obtain m n where mn: "m \<in> set (fl_nodes f)" "n \<in> set (fl_nodes f)" "st_id m = fst e" "st_id n = snd e"
      "stage_next (stage_of (st_type m)) (stage_of (st_type n))" unfolding follows_def by blast
    obtain m' where "m' \<in> set (fl_nodes g)" "st_id m' = st_id m" "st_type m' = st_type m"
      using shape_nodes [OF assms(2) mn(1)] .
    moreover obtain n' where "n' \<in> set (fl_nodes g)" "st_id n' = st_id n" "st_type n' = st_type n"
      using shape_nodes [OF assms(2) mn(2)] .
    ultimately show ?thesis unfolding follows_def using mn by metis
  qed
  moreover have "length (outsOf (st_id m) g) \<le> 1" if m: "m \<in> set (fl_nodes g)" "\<not> multiOut m" for m
  proof -
    obtain m' where "m' \<in> set (fl_nodes f)" "st_id m' = st_id m" "st_type m' = st_type m"
      using shape_nodes [OF assms(2) [symmetric] m(1)] .
    then show ?thesis using forestD(6) [OF assms(1), of m'] m(2) assms(3) by (simp add: multiOut_def outsOf_def)
  qed
  ultimately show ?thesis
    using forestD(1,2,3,5) [OF assms(1)] assms(3) ids idset unfolding forest_def by simp
qed

lemma follows_mono: "\<lbrakk>follows f e; set (fl_nodes f) \<subseteq> set (fl_nodes g)\<rbrakk> \<Longrightarrow> follows g e"
  unfolding follows_def by blast

lemma forest_add:
  assumes "forest f" "st_id n \<notin> st_id ` set (fl_nodes f)" "st_id n \<noteq> []"
  shows "forest (f\<lparr>fl_nodes := fl_nodes f @ [n]\<rparr>)"
proof -
  have "outsOf (st_id n) f = []"
    using assms(1,2) forest_edge_ids(1) by (auto simp: outsOf_def filter_empty_conv)
  then have "length (outsOf (st_id m) f) \<le> 1" if "m \<in> set (fl_nodes f @ [n])" "\<not> multiOut m" for m
    using that forestD(6) [OF assms(1)] by auto
  moreover have "follows (f\<lparr>fl_nodes := fl_nodes f @ [n]\<rparr>) e" if "e \<in> set (fl_edges f)" for e
    by (rule follows_mono [OF forestD(4) [OF assms(1) that]]) auto
  ultimately show ?thesis
    using assms forestD(1,2,3,5) [OF assms(1)] by (auto simp: forest_def outsOf_def)
qed

lemma length_filter_snd_mono: "length (filter (\<lambda>x. P x \<and> Q x) xs) \<le> length (filter Q xs)"
  by (induction xs) auto

lemma forest_fewer_edges:
  assumes "forest f"
  shows "forest (f\<lparr>fl_edges := filter P (fl_edges f)\<rparr>)"
proof -
  have "distinct (map snd (filter P (fl_edges f)))" using forestD(3) [OF assms] by (rule distinct_map_filter)
  moreover have "acyclic (set (filter P (fl_edges f)))" by (rule acyclic_subset [OF forestD(5) [OF assms]]) auto
  moreover have "follows (f\<lparr>fl_edges := filter P (fl_edges f)\<rparr>) e" if "e \<in> set (fl_edges f)" for e
    using forestD(4) [OF assms that] by (simp add: follows_def)
  moreover have "length (outsOf i (f\<lparr>fl_edges := filter P (fl_edges f)\<rparr>)) \<le> length (outsOf i f)" for i
    by (simp add: outsOf_def length_filter_snd_mono)
  then have "length (outsOf (st_id m) (f\<lparr>fl_edges := filter P (fl_edges f)\<rparr>)) \<le> 1"
    if "m \<in> set (fl_nodes f)" "\<not> multiOut m" for m
    using forestD(6) [OF assms that] by (rule order_trans)
  ultimately show ?thesis
    using forestD(1,2) [OF assms] by (auto simp: forest_def simp del: One_nat_def)
qed

lemma forest_connect:
  assumes "forest f" "p \<in> set (fl_nodes f)" "t \<in> set (fl_nodes f)"
    and "stage_next (stage_of (st_type p)) (stage_of (st_type t))" "(st_id t, st_id p) \<notin> (set (fl_edges f))\<^sup>*"
  shows "forest (connect_flow p (st_id t) f)"
proof -
  let ?P = "\<lambda>(x, y). \<not> (x = st_id p \<and> y = st_id t) \<and> (multiOut p \<or> x \<noteq> st_id p) \<and> y \<noteq> st_id t"
  let ?g = "f\<lparr>fl_edges := filter ?P (fl_edges f)\<rparr>"
  have g: "forest ?g" by (rule forest_fewer_edges [OF assms(1)])
  have eq: "connect_flow p (st_id t) f = ?g\<lparr>fl_edges := fl_edges ?g @ [(st_id p, st_id t)]\<rparr>"
    by (simp add: connect_flow_def)
  have sub: "set (fl_edges ?g) \<subseteq> set (fl_edges f)" by auto
  have "(st_id t, st_id p) \<notin> (set (fl_edges ?g))\<^sup>*" using assms(5) rtrancl_mono [OF sub] by blast
  then have ac: "acyclic (insert (st_id p, st_id t) (set (fl_edges ?g)))"
    using forestD(5) [OF g] by (simp add: acyclic_insert)
  have dist: "distinct (map snd (fl_edges ?g @ [(st_id p, st_id t)]))"
    using forestD(3) [OF g] by auto
  have outs: "length (outsOf (st_id m) (connect_flow p (st_id t) f)) \<le> 1"
    if "m \<in> set (fl_nodes f)" "\<not> multiOut m" for m
  proof (cases "st_id m = st_id p")
    case True
    then have "m = p" using that(1) same_step [OF assms(1) _ assms(2)] by blast
    then have "outsOf (st_id m) ?g = []" using that(2) by (auto simp: outsOf_def filter_empty_conv)
    then show ?thesis unfolding eq by (simp add: outsOf_def)
  next
    case False
    then have "outsOf (st_id m) (connect_flow p (st_id t) f) = outsOf (st_id m) ?g" unfolding eq by (simp add: outsOf_def)
    then show ?thesis using forestD(6) [OF g] that by simp
  qed
  have "follows f (st_id p, st_id t)" using assms(2-4) by (auto simp: follows_def)
  then have "\<forall>e \<in> set (fl_edges (connect_flow p (st_id t) f)). follows (connect_flow p (st_id t) f) e"
    using forestD(4) [OF assms(1)] by (auto simp: connect_flow_def follows_def)
  then show ?thesis
    using dist ac outs forestD(1,2) [OF assms(1)] unfolding forest_def by (simp add: connect_flow_def)
qed

lemma forest_removeNode:
  assumes "forest f"
  shows "forest (removeNode_flow i f)"
proof -
  let ?g = "f\<lparr>fl_edges := filter (\<lambda>(a, b). a \<noteq> i \<and> b \<noteq> i) (fl_edges f)\<rparr>"
  have g: "forest ?g" by (rule forest_fewer_edges [OF assms])
  have eq: "removeNode_flow i f = ?g\<lparr>fl_nodes := filter (\<lambda>n. st_id n \<noteq> i) (fl_nodes f)\<rparr>"
    by (simp add: removeNode_flow_def)
  have "follows (removeNode_flow i f) e" if "e \<in> set (fl_edges ?g)" for e
  proof -
    have "follows f e" "fst e \<noteq> i" "snd e \<noteq> i" using that forestD(4) [OF assms] by auto
    then show ?thesis unfolding follows_def by (fastforce simp: removeNode_flow_def)
  qed
  then show ?thesis
    using forestD [OF g] unfolding forest_def eq by (auto simp: distinct_map_filter outsOf_def)
qed

lemma canFollow_stage: "canFollow p t target f \<Longrightarrow> stage_next (stage_of (st_type p)) (stage_of t)"
proof -
  assume c: "canFollow p t target f"
  then have "t \<noteq> Deploy" "st_type p \<noteq> Deploy" by (auto simp: canFollow_def)
  moreover have "stage_of s = Ship \<Longrightarrow> s = Deploy" for s by (cases s) simp_all
  ultimately have "stage_of t \<noteq> Ship" "stage_of (st_type p) \<noteq> Ship" by blast+
  then show ?thesis
    using c by (cases "stage_of (st_type p)") (auto simp: canFollow_def split: if_splits option.splits)
qed

lemma canFollow_no_cycle:
  assumes "forest f" "p \<in> set (fl_nodes f)" "canFollow p (st_type t) (Some t) f"
  shows "(st_id t, st_id p) \<notin> (set (fl_edges f))\<^sup>*"
proof -
  have "st_id p \<noteq> []" using assms(1,2) forestD(2) by (metis image_eqI)
  then show ?thesis
    using up_trail_ancestors [OF assms(1)] assms(3) by (auto simp: canFollow_def split: if_splits)
qed

end
