(* ===== verification/Deploy_Canvas_Safety.thy ===== *)
theory Deploy_Canvas_Safety
  imports Deploy_Invariants
begin

text \<open>
  What holds of every flow the user can build on the deploy canvas: a step relation over the edits, a
  locale for invariants of the flow, and its interpretations for the tree of steps and for the gaps
  between the cards.
\<close>

section \<open>What the user can do\<close>

definition core :: "flow \<Rightarrow> bool" where
  "core f \<longleftrightarrow> (\<forall>n \<in> set (fl_nodes f). st_type n = Start \<longleftrightarrow> st_id n = START_ID) \<and>
     (\<exists>n \<in> set (fl_nodes f). st_id n = START_ID) \<and> (\<exists>n \<in> set (fl_nodes f). st_id n = SERVER_ID \<and> st_type n = Server) \<and>
     (\<forall>n \<in> set (fl_nodes f). st_id n = DEPLOY_ID \<longrightarrow> st_type n = Deploy) \<and>
     (\<exists>n \<in> set (fl_nodes f). st_type n = Deploy) \<and> (START_ID, SERVER_ID) \<in> set (fl_edges f)"

definition tree :: "flow \<Rightarrow> bool" where
  "tree f \<longleftrightarrow> forest f \<and> core f"

definition new_id :: "jstring \<Rightarrow> flow \<Rightarrow> bool" where
  "new_id i f \<longleftrightarrow> i \<noteq> [] \<and> i \<notin> st_id ` set (fl_nodes f) \<and> i \<notin> {START_ID, SERVER_ID, DEPLOY_ID}"

text \<open>A new random id is in use neither by a step nor by the open menu.\<close>

definition fresh_id :: "jstring \<Rightarrow> canvas \<Rightarrow> bool" where
  "fresh_id i c \<longleftrightarrow> new_id i (cv_flow c) \<and> (case cv_menu c of Some m \<Rightarrow> mn_prev m \<noteq> i | None \<Rightarrow> True)"

text \<open>\<open>Edges.svelte\<close> and \<open>Node.svelte\<close>: Start, Deploy, the first Server and its connection to Start stay.\<close>

definition removable_edge :: "edge \<Rightarrow> bool" where
  "removable_edge e \<longleftrightarrow> e \<noteq> (START_ID, SERVER_ID)"

definition removable_step :: "step \<Rightarrow> bool" where
  "removable_step n \<longleftrightarrow> st_type n \<noteq> Start \<and> st_type n \<noteq> Deploy \<and> st_id n \<noteq> SERVER_ID"

inductive canvas_step :: "sizes \<Rightarrow> canvas \<Rightarrow> canvas \<Rightarrow> bool" for dims where
  arm: "canvas_step dims c (startConnect n c)"
| hover: "canvas_step dims c (connect_move n hit c)"
| drop_on: "\<lbrakk>n \<in> set (fl_nodes (cv_flow c)); drop_target n hit (cv_flow c) = Some t\<rbrakk> \<Longrightarrow>
    canvas_step dims c (connect_up n (Some (st_id t)) over p d c)"
| drop_off: "n \<in> set (fl_nodes (cv_flow c)) \<Longrightarrow> canvas_step dims c (connect_up n None over p d c)"
| pick: "\<lbrakk>cv_menu c = Some m; t \<in> set (mn_valid m); fresh_id i c\<rbrakk> \<Longrightarrow> canvas_step dims c (pickNext dims i t c)"
| append: "\<lbrakk>t \<in> set PALETTE_TYPES; fresh_id i c\<rbrakk> \<Longrightarrow> canvas_step dims c (appendToChain dims i centre t c)"
| palette: "\<lbrakk>t \<in> set PALETTE_TYPES; fresh_id i c\<rbrakk> \<Longrightarrow> canvas_step dims c (drop_palette dims i t p c)"
| cut: "removable_edge e \<Longrightarrow> canvas_step dims c (removeEdge e c)"
| remove: "\<lbrakk>n \<in> set (fl_nodes (cv_flow c)); removable_step n\<rbrakk> \<Longrightarrow> canvas_step dims c (removeNode (st_id n) c)"
| reset: "canvas_step dims c (resetCanvas c)"
| set_field: "canvas_step dims c (setField i k v c)"
| drag: "canvas_step dims c (dragNode dims i wx wy c)"
| close: "canvas_step dims c (closeMenu c)"
| hide: "canvas_step dims c (hideResult c)"

inductive canvas_reach :: "sizes \<Rightarrow> canvas \<Rightarrow> bool" for dims where
  start: "canvas_reach dims (init_canvas None result deployed view target)"
| step: "canvas_reach dims c \<Longrightarrow> canvas_step dims c d \<Longrightarrow> canvas_reach dims d"

section \<open>The tree\<close>

lemma stage_start: "stage_of t = StageStart \<longleftrightarrow> t = Start"
  by (cases t) simp_all

lemma tree_shape: "\<lbrakk>tree f; shape g = shape f; fl_edges g = fl_edges f\<rbrakk> \<Longrightarrow> tree g"
proof -
  assume t: "tree f" and s: "shape g = shape f" "fl_edges g = fl_edges f"
  have set: "(\<lambda>n. (st_id n, st_type n)) ` set (fl_nodes g) = (\<lambda>n. (st_id n, st_type n)) ` set (fl_nodes f)"
    using arg_cong [OF s(1), of set] by simp
  have ball: "(\<forall>n \<in> set (fl_nodes g). P (st_id n) (st_type n)) = (\<forall>n \<in> set (fl_nodes f). P (st_id n) (st_type n))"
    (is "?L = ?R") for P
  proof -
    have "?L = (\<forall>x \<in> (\<lambda>n. (st_id n, st_type n)) ` set (fl_nodes g). P (fst x) (snd x))" by simp
    also have "\<dots> = ?R" unfolding set by simp
    finally show ?thesis .
  qed
  have "core g = core f"
    using ball [of "\<lambda>i t. t = Start \<longleftrightarrow> i = START_ID"] ball [of "\<lambda>i t. i \<noteq> START_ID"]
      ball [of "\<lambda>i t. \<not> (i = SERVER_ID \<and> t = Server)"] ball [of "\<lambda>i t. t \<noteq> Deploy"]
      ball [of "\<lambda>i t. i = DEPLOY_ID \<longrightarrow> t = Deploy"] s(2)
    unfolding core_def by auto
  then show ?thesis using t forest_shape [OF _ s] by (simp add: tree_def)
qed

lemma tree_forest: "tree f \<Longrightarrow> forest f"
  by (simp add: tree_def)

lemma tree_add:
  assumes "tree f" "new_id (st_id n) f" "st_type n \<noteq> Start"
  shows "tree (f\<lparr>fl_nodes := fl_nodes f @ [n]\<rparr>)"
  using assms forest_add [of f n] by (auto simp: tree_def core_def new_id_def)

lemma tree_connect:
  assumes "tree f" "p \<in> set (fl_nodes f)" "t \<in> set (fl_nodes f)"
    and "stage_next (stage_of (st_type p)) (stage_of (st_type t))" "(st_id t, st_id p) \<notin> (set (fl_edges f))\<^sup>*"
  shows "tree (connect_flow p (st_id t) f)"
proof -
  have c: "core f" "forest f" using assms(1) by (simp_all add: tree_def)
  have "(START_ID, SERVER_ID) \<in> set (fl_edges (connect_flow p (st_id t) f))"
  proof (cases "st_id t = SERVER_ID")
    case True
    obtain s where "s \<in> set (fl_nodes f)" "st_id s = SERVER_ID" "st_type s = Server" using c(1) by (auto simp: core_def)
    then have "t = s" using True same_step [OF c(2) assms(3)] by simp
    then have "st_type p = Start" using assms(4) \<open>st_type s = Server\<close> by (cases "st_type p") auto
    then show ?thesis using c(1) assms(2) True by (auto simp: core_def connect_flow_def)
  next
    case False
    have "multiOut p" if "st_id p = START_ID" using that c(1) assms(2) by (auto simp: core_def multiOut_def)
    then show ?thesis using c(1) False by (auto simp: core_def connect_flow_def)
  qed
  then show ?thesis
    using c forest_connect [OF c(2) assms(2-5)] by (auto simp: tree_def core_def connect_flow_def)
qed

lemma tree_cut: "\<lbrakk>tree f; removable_edge e\<rbrakk> \<Longrightarrow> tree (removeEdge_flow e f)"
  using forest_fewer_edges [of f "\<lambda>e'. e' \<noteq> e"]
  by (auto simp: tree_def core_def removeEdge_flow_def removable_edge_def)

lemma ids_distinct: "START_ID \<noteq> SERVER_ID" "START_ID \<noteq> DEPLOY_ID" "SERVER_ID \<noteq> DEPLOY_ID"
  by (simp_all add: START_ID_def SERVER_ID_def DEPLOY_ID_def)

lemma tree_remove:
  assumes "tree f" "n \<in> set (fl_nodes f)" "removable_step n"
  shows "tree (removeNode_flow (st_id n) f)"
proof -
  have c: "core f" "forest f" using assms(1) by (simp_all add: tree_def)
  have "st_id n \<noteq> START_ID" "st_id n \<noteq> SERVER_ID" using c(1) assms(2,3) by (auto simp: core_def removable_step_def)
  moreover have "\<exists>m \<in> set (fl_nodes f). st_id m \<noteq> st_id n \<and> st_type m = Deploy"
  proof -
    obtain m where m: "m \<in> set (fl_nodes f)" "st_type m = Deploy" using c(1) by (auto simp: core_def)
    then have "m \<noteq> n" using assms(3) by (auto simp: removable_step_def)
    then have "st_id m \<noteq> st_id n" using m(1) same_step [OF c(2) _ assms(2)] by blast
    then show ?thesis using m by blast
  qed
  ultimately show ?thesis
    using c forest_removeNode [OF c(2)] by (auto simp: tree_def core_def removeNode_flow_def)
qed

lemma fresh_eq:
  "fresh = \<lparr>fl_nodes = [\<lparr>st_id = START_ID, st_type = Start, st_x = 80, st_y = 160, st_data = Map.empty\<rparr>,
       \<lparr>st_id = SERVER_ID, st_type = Server, st_x = 456, st_y = 160, st_data = Map.empty\<rparr>,
       \<lparr>st_id = DEPLOY_ID, st_type = Deploy, st_x = 1240, st_y = 160, st_data = Map.empty\<rparr>],
     fl_edges = [(START_ID, SERVER_ID)]\<rparr>"
  by (simp add: fresh_def withDeploy_def Let_def START_ID_def SERVER_ID_def DEPLOY_ID_def) auto

lemma tree_fresh: "tree fresh"
proof -
  have "acyclic {(START_ID, SERVER_ID)}"
  proof -
    have "acyclic ({} :: edge set)" by (simp add: acyclic_def)
    then show ?thesis using ids_distinct(1) by (simp add: acyclic_insert)
  qed
  then show ?thesis
    by (auto simp: tree_def forest_def core_def fresh_eq follows_def multiOut_def outsOf_def
        START_ID_def SERVER_ID_def DEPLOY_ID_def)
qed

lemma shape_withTarget: "shape (withTarget f t) = shape f" "fl_edges (withTarget f t) = fl_edges f"
proof -
  have "map (\<lambda>n. (st_id n, st_type n)) (update_first (\<lambda>n. st_type n = Start) (\<lambda>n. n\<lparr>st_data := d\<rparr>) ns) =
      map (\<lambda>n. (st_id n, st_type n)) ns" for d and ns :: "step list"
    by (induction ns) auto
  then show "shape (withTarget f t) = shape f" by (simp add: withTarget_def split: option.split)
qed (simp add: withTarget_def split: option.split)

lemma tree_new: "tree (withTarget fresh t)"
  by (rule tree_shape [OF tree_fresh shape_withTarget])

lemma withDeploy_fresh: "withDeploy fresh = fresh"
  by (simp add: fresh_eq withDeploy_def Let_def START_ID_def SERVER_ID_def DEPLOY_ID_def) auto

section \<open>Invariants of the flow\<close>

lemma shape_move: "shape (move_step i x y f) = shape f" "fl_edges (move_step i x y f) = fl_edges f"
  by (simp_all add: move_step_def)

lemma shape_settle: "shape (settle dims n f) = shape f" "fl_edges (settle dims n f) = fl_edges f"
  by (simp_all add: settle_def shape_move split: option.split)

lemma shape_drag: "shape (drag_to dims n wx wy f) = shape f" "fl_edges (drag_to dims n wx wy f) = fl_edges f"
  by (simp_all add: drag_to_def shape_move split: option.split)

lemma shape_addNode:
  "shape (addNode_flow dims i t x y f) = shape f @ [(i, t)]" "fl_edges (addNode_flow dims i t x y f) = fl_edges f"
  by (simp_all add: addNode_flow_def shape_settle) (simp add: new_step_def)

lemma tree_addNode:
  assumes "tree f" "new_id i f" "t \<noteq> Start"
  shows "tree (addNode_flow dims i t x y f)"
proof -
  have "tree (f\<lparr>fl_nodes := fl_nodes f @ [new_step i t x y]\<rparr>)"
    using assms by (intro tree_add) (simp_all add: new_step_def)
  then show ?thesis unfolding addNode_flow_def by (rule tree_shape) (rule shape_settle)+
qed

fun menu_fits :: "next_menu option \<Rightarrow> step list \<Rightarrow> bool" where
  "menu_fits None ns = True"
| "menu_fits (Some m) ns =
     (mn_prev m \<noteq> DEPLOY_ID \<and>
      (\<forall>t \<in> set (mn_valid m). t \<noteq> Start \<and>
        (mn_prev m = START_ID \<longrightarrow> t = Server) \<and> (mn_prev m = SERVER_ID \<longrightarrow> stage_of t = Source) \<and>
        (\<forall>p \<in> set ns. st_id p = mn_prev m \<longrightarrow> stage_next (stage_of (st_type p)) (stage_of t))))"

definition menu_ok :: "canvas \<Rightarrow> bool" where
  "menu_ok c \<longleftrightarrow> menu_fits (cv_menu c) (fl_nodes (cv_flow c))"

definition canvas_ok :: "(flow \<Rightarrow> bool) \<Rightarrow> canvas \<Rightarrow> bool" where
  "canvas_ok I c \<longleftrightarrow> tree (cv_flow c) \<and> I (cv_flow c) \<and> menu_ok c"

locale flow_invariant =
  fixes I :: "flow \<Rightarrow> bool" and dims :: sizes
  assumes I_fresh: "I (withTarget fresh target)"
    and I_connect: "\<lbrakk>tree f; I f; p \<in> set (fl_nodes f); n \<in> set (fl_nodes f);
      stage_next (stage_of (st_type p)) (stage_of (st_type n)); (st_id n, st_id p) \<notin> (set (fl_edges f))\<^sup>*\<rbrakk>
      \<Longrightarrow> I (connect_flow p (st_id n) f)"
    and I_cut: "\<lbrakk>tree f; I f; removable_edge e\<rbrakk> \<Longrightarrow> I (removeEdge_flow e f)"
    and I_remove: "\<lbrakk>tree f; I f; n \<in> set (fl_nodes f); removable_step n\<rbrakk> \<Longrightarrow> I (removeNode_flow (st_id n) f)"
    and I_add: "\<lbrakk>tree f; I f; new_id i f; t \<noteq> Start\<rbrakk> \<Longrightarrow> I (addNode_flow dims i t x y f)"
    and I_drag: "\<lbrakk>tree f; I f; n \<in> set (fl_nodes f)\<rbrakk> \<Longrightarrow> I (drag_to dims n wx wy f)"
    and I_data: "I f \<Longrightarrow> I (f\<lparr>fl_nodes := map (\<lambda>n. n\<lparr>st_data := g n\<rparr>) (fl_nodes f)\<rparr>)"
begin

text \<open>Adding a step and connecting it to the step \<open>q\<close>, where that exists.\<close>

lemma attach_new:
  fixes x y :: real
  assumes "tree f" "I f" "new_id i f" "t \<noteq> Start" "q \<noteq> i"
    and "\<And>p. \<lbrakk>p \<in> set (fl_nodes f); st_id p = q\<rbrakk> \<Longrightarrow> stage_next (stage_of (st_type p)) (stage_of t)"
  defines "f1 \<equiv> addNode_flow dims i t x y f"
  shows "tree (case nodeById q f1 of None \<Rightarrow> f1 | Some a \<Rightarrow> connect_flow a i f1) \<and>
    I (case nodeById q f1 of None \<Rightarrow> f1 | Some a \<Rightarrow> connect_flow a i f1)"
proof -
  have tI: "tree f1" "I f1" unfolding f1_def using assms(1-4) by (auto intro: tree_addNode I_add)
  show ?thesis
  proof (cases "nodeById q f1")
    case None
    then show ?thesis using tI by simp
  next
    case (Some a)
    have a: "a \<in> set (fl_nodes f1)" "st_id a = q" using nodeById_Some [OF Some] by auto
    have sh: "(\<lambda>n. (st_id n, st_type n)) ` set (fl_nodes f1) =
        insert (i, t) ((\<lambda>n. (st_id n, st_type n)) ` set (fl_nodes f))"
      using arg_cong [OF shape_addNode(1) [of dims i t x y f], of set] by (simp add: f1_def)
    have "(i, t) \<in> (\<lambda>n. (st_id n, st_type n)) ` set (fl_nodes f1)" unfolding sh by simp
    then obtain n where n: "n \<in> set (fl_nodes f1)" "st_id n = i" "st_type n = t" by auto
    have "(st_id a, st_type a) \<in> insert (i, t) ((\<lambda>n. (st_id n, st_type n)) ` set (fl_nodes f))"
      unfolding sh [symmetric] using a(1) by simp
    then obtain p where "p \<in> set (fl_nodes f)" "st_id p = q" "st_type p = st_type a"
      using a(2) assms(5) by auto
    then have nx: "stage_next (stage_of (st_type a)) (stage_of (st_type n))" using assms(6) n(3) by metis
    have "(i, q) \<notin> (set (fl_edges f1))\<^sup>*"
    proof
      assume "(i, q) \<in> (set (fl_edges f1))\<^sup>*"
      then obtain z where "(i, z) \<in> set (fl_edges f1)" using assms(5) by (auto elim: converse_rtranclE)
      then have "(i, z) \<in> set (fl_edges f)" by (simp add: f1_def shape_addNode)
      then have "i \<in> st_id ` set (fl_nodes f)" using forest_edge_ids(1) [OF tree_forest [OF assms(1)]] by blast
      then show False using assms(3) by (simp add: new_id_def)
    qed
    then have "tree (connect_flow a (st_id n) f1) \<and> I (connect_flow a (st_id n) f1)"
      using tree_connect [OF tI(1) a(1) n(1) nx] I_connect [OF tI a(1) n(1) nx] a(2) n(2) by auto
    then show ?thesis using Some n(2) by simp
  qed
qed

text \<open>The edits as the canvas runs them; only \<open>cv_flow\<close> and \<open>cv_menu\<close> matter.\<close>

lemma ok_same: "\<lbrakk>canvas_ok I c; cv_flow d = cv_flow c; cv_menu d = cv_menu c \<or> cv_menu d = None\<rbrakk> \<Longrightarrow> canvas_ok I d"
  by (auto simp: canvas_ok_def menu_ok_def)

lemma ok_fewer:
  "\<lbrakk>canvas_ok I c; tree (cv_flow d); I (cv_flow d); cv_menu d = cv_menu c;
    \<And>n. n \<in> set (fl_nodes (cv_flow d)) \<Longrightarrow> \<exists>m \<in> set (fl_nodes (cv_flow c)). st_id m = st_id n \<and> st_type m = st_type n\<rbrakk>
   \<Longrightarrow> canvas_ok I d"
  unfolding canvas_ok_def menu_ok_def by (cases "cv_menu c") (simp_all, metis)

lemma connect_ok:
  assumes "canvas_ok I c" "n \<in> set (fl_nodes (cv_flow c))" "drop_target n hit (cv_flow c) = Some t"
  shows "canvas_ok I (connect (st_id n) (st_id t) c)"
proof -
  have t: "t \<in> set (fl_nodes (cv_flow c))" "canFollow n (st_type t) (Some t) (cv_flow c)"
    using assms(3) by (auto simp: drop_target_def split: option.splits if_splits dest: nodeById_Some)
  have tr: "tree (cv_flow c)" "I (cv_flow c)" using assms(1) by (simp_all add: canvas_ok_def)
  note f = tree_forest [OF tr(1)]
  have "nodeById (st_id n) (cv_flow c) = Some n" using nodeById_in forestD(1) [OF f] assms(2) by blast
  then have eq: "connect (st_id n) (st_id t) c = redraw (c\<lparr>cv_flow := connect_flow n (st_id t) (cv_flow c)\<rparr>)"
    by (simp add: connect_def)
  show ?thesis
    unfolding eq
    by (rule ok_fewer [OF assms(1)])
      (use tree_connect [OF tr(1) assms(2) t(1) canFollow_stage [OF t(2)] canFollow_no_cycle [OF f assms(2) t(2)]]
        I_connect [OF tr assms(2) t(1) canFollow_stage [OF t(2)] canFollow_no_cycle [OF f assms(2) t(2)]]
       in \<open>auto simp: redraw_def connect_flow_def\<close>)
qed

lemma menu_ok_same:
  "\<lbrakk>menu_ok c; fl_nodes (cv_flow d) = fl_nodes (cv_flow c); cv_menu d = cv_menu c\<rbrakk> \<Longrightarrow> menu_ok d"
  by (simp add: menu_ok_def)

lemma menu_ok_add:
  assumes "menu_ok c" "fresh_id i c" "shape f = shape (cv_flow c) @ [(i, t)]"
  shows "menu_ok (c\<lparr>cv_flow := f\<rparr>)"
proof (cases "cv_menu c")
  case None
  then show ?thesis by (simp add: menu_ok_def)
next
  case (Some m)
  have "\<exists>p' \<in> set (fl_nodes (cv_flow c)). st_id p' = mn_prev m \<and> st_type p' = st_type p"
    if "p \<in> set (fl_nodes f)" "st_id p = mn_prev m" for p
  proof -
    have "(st_id p, st_type p) \<in> set (shape f)" using that(1) by auto
    then show ?thesis unfolding assms(3) using that(2) assms(2) Some by (auto simp: fresh_id_def)
  qed
  then show ?thesis using assms(1) Some unfolding menu_ok_def by simp metis
qed

lemma add_ok:
  assumes "canvas_ok I c" "fresh_id i c" "t \<noteq> Start"
  shows "canvas_ok I (addNode dims i t x y quiet c)"
proof -
  let ?f = "addNode_flow dims i t x y (cv_flow c)"
  have tr: "tree (cv_flow c)" "I (cv_flow c)" "menu_ok c" "new_id i (cv_flow c)"
    using assms(1,2) by (simp_all add: canvas_ok_def fresh_id_def)
  have "canvas_ok I (c\<lparr>cv_flow := ?f\<rparr>)"
    using tree_addNode [OF tr(1,4) assms(3)] I_add [OF tr(1,2,4) assms(3)]
      menu_ok_add [OF tr(3) assms(2) shape_addNode(1)] by (simp add: canvas_ok_def)
  then show ?thesis
    by (rule ok_same) (simp_all add: addNode_def Let_def redraw_def toast_def)
qed

lemma attach_ok:
  assumes "canvas_ok I c" "fresh_id i c" "t \<noteq> Start" "q \<noteq> i"
    and "\<And>p. \<lbrakk>p \<in> set (fl_nodes (cv_flow c)); st_id p = q\<rbrakk> \<Longrightarrow> stage_next (stage_of (st_type p)) (stage_of t)"
  shows "canvas_ok I (connect q i (addNode dims i t x y True c))"
proof -
  have tr: "tree (cv_flow c)" "I (cv_flow c)" "menu_ok c" "new_id i (cv_flow c)"
    using assms(1,2) by (simp_all add: canvas_ok_def fresh_id_def)
  let ?f = "addNode_flow dims i t x y (cv_flow c)"
  let ?d = "connect q i (addNode dims i t x y True c)"
  have flow: "cv_flow ?d = (case nodeById q ?f of None \<Rightarrow> ?f | Some a \<Rightarrow> connect_flow a i ?f)"
    by (simp add: connect_def addNode_def Let_def redraw_def split: option.split)
  have "fl_nodes (cv_flow ?d) = fl_nodes ?f" "cv_menu ?d = cv_menu c"
    by (simp_all add: connect_def addNode_def Let_def redraw_def connect_flow_def split: option.split)
  then have "menu_ok ?d"
    using menu_ok_add [OF tr(3) assms(2) shape_addNode(1), of dims t x y]
    by (simp add: menu_ok_def)
  then show ?thesis
    using attach_new [OF tr(1,2,4) assms(3,4,5), where x = x and y = y] unfolding canvas_ok_def flow by simp
qed

lemma openNextMenu_ok:
  assumes "canvas_ok I c" "n \<in> set (fl_nodes (cv_flow c))"
  shows "canvas_ok I (openNextMenu n p c)"
proof -
  have tr: "tree (cv_flow c)" "forest (cv_flow c)" "core (cv_flow c)" "menu_ok c"
    using assms(1) by (simp_all add: canvas_ok_def tree_def)
  have same: "p = n" if "p \<in> set (fl_nodes (cv_flow c))" "st_id p = st_id n" for p
    using same_step [OF tr(2) that(1) assms(2) that(2)] .
  have "t \<noteq> Start \<and> st_id n \<noteq> DEPLOY_ID \<and> (st_id n = START_ID \<longrightarrow> t = Server) \<and> (st_id n = SERVER_ID \<longrightarrow> stage_of t = Source)"
    if "canFollow n t None (cv_flow c)" for t
  proof -
    have "t \<noteq> Start" "st_type n \<noteq> Deploy" using that by (auto simp: canFollow_def)
    moreover have "st_id n = SERVER_ID \<Longrightarrow> st_type n = Server" using tr(3) same by (force simp: core_def)
    moreover have "stage_of t = Infra \<longleftrightarrow> t = Server" by (cases t) simp_all
    ultimately show ?thesis using canFollow_stage [OF that] tr(3) assms(2) by (auto simp: core_def)
  qed
  moreover have "stage_next (stage_of (st_type q)) (stage_of t)"
    if "q \<in> set (fl_nodes (cv_flow c))" "st_id q = st_id n" "canFollow n t None (cv_flow c)" for q t
    using same [OF that(1,2)] canFollow_stage [OF that(3)] by simp
  ultimately have "menu_ok (openNextMenu n p c)"
    using tr(4)
    by (auto simp: menu_ok_def openNextMenu_def Let_def toast_def filter_empty_conv)
  moreover have "cv_flow (openNextMenu n p c) = cv_flow c" by (simp add: openNextMenu_def Let_def toast_def)
  ultimately show ?thesis using assms(1) by (simp add: canvas_ok_def)
qed

lemma chain_parent_stage: "chain_parent t f = Some p \<Longrightarrow> stage_next (stage_of (st_type p)) (stage_of t) \<and> p \<in> set (in_tree f)"
  unfolding chain_parent_def by (auto dest!: find_SomeD intro: canFollow_stage)

lemma in_tree_nodes: "set (in_tree f) \<subseteq> set (fl_nodes f)"
proof -
  have filt: "x \<in> set (List.map_filter g xs) \<Longrightarrow> \<exists>a. g a = Some x" for g xs and x :: step
    by (auto simp: map_filter_def)
  have settings: "set (settings_of f ids) \<subseteq> set (fl_nodes f)" for ids
    by (induction ids) (auto split: option.splits dest: nodeById_Some nodeById_Some [OF sym])
  have line: "plan_line f s i = Some l \<Longrightarrow> ln_source l \<in> set (fl_nodes f) \<and> set (ln_settings l) \<subseteq> set (fl_nodes f)" for s i l
    using subsetD [OF settings] by (auto simp: plan_line_def split: option.splits if_splits dest: nodeById_Some)
  have "l \<in> set (pl_lines (planOf f)) \<Longrightarrow> \<exists>s i. plan_line f s i = Some l" for l
    by (auto simp: planOf_def Let_def map_filter_def) blast
  moreover have "set (pl_servers (planOf f)) \<subseteq> set (fl_nodes f)"
    by (auto simp: planOf_def Let_def map_filter_def dest: nodeById_Some)
  moreover have "pl_start (planOf f) = Some s \<Longrightarrow> s \<in> set (fl_nodes f)" for s
    by (simp add: planOf_def Let_def nodeById_Some)
  ultimately show ?thesis using line by (fastforce simp: in_tree_def Let_def split: option.splits)
qed

lemma step_ok:
  assumes "canvas_step dims c d" "canvas_ok I c"
  shows "canvas_ok I d"
  using assms(1)
proof cases
  case (drop_on n hit t over p dd)
  let ?c = "c\<lparr>cv_armed := None, cv_dropTarget := None\<rparr>"
  have "canvas_ok I ?c" by (rule ok_same [OF assms(2)]) simp_all
  then have "canvas_ok I (connect (st_id n) (st_id t) ?c)" by (rule connect_ok) (use drop_on in simp_all)
  then show ?thesis using drop_on by (simp add: connect_up_def)
next
  case (drop_off n over p dd)
  let ?c = "c\<lparr>cv_armed := None, cv_dropTarget := None\<rparr>"
  have "canvas_ok I (openNextMenu n p (?c\<lparr>cv_pendingLine := True\<rparr>))"
    by (rule openNextMenu_ok [OF ok_same [OF assms(2)]]) (use drop_off in simp_all)
  moreover have "canvas_ok I ?c" "canvas_ok I (toast ''That step cannot follow this one.'' True ?c)"
    by (rule ok_same [OF assms(2)]; simp add: toast_def)+
  ultimately show ?thesis using drop_off by (simp add: connect_up_def Let_def)
next
  case (pick m t i)
  have c: "canvas_ok I (closeMenu c)" by (rule ok_same [OF assms(2)]) (simp_all add: closeMenu_def)
  have "fresh_id i (closeMenu c)" "mn_prev m \<noteq> i" using pick by (auto simp: fresh_id_def closeMenu_def)
  moreover have "t \<noteq> Start" "\<And>p. \<lbrakk>p \<in> set (fl_nodes (cv_flow (closeMenu c))); st_id p = mn_prev m\<rbrakk> \<Longrightarrow>
      stage_next (stage_of (st_type p)) (stage_of t)"
    using assms(2) pick by (auto simp: canvas_ok_def menu_ok_def closeMenu_def)
  ultimately have "canvas_ok I (connect (mn_prev m) i (addNode dims i t x y True (closeMenu c)))" for x y
    by (intro attach_ok [OF c])
  then show ?thesis using pick by (simp add: pickNext_def)
next
  case (append t i centre)
  have "t \<noteq> Start" using append by (auto simp: PALETTE_TYPES_def)
  show ?thesis
  proof (cases "chain_parent t (cv_flow c)")
    case None
    then show ?thesis using append add_ok [OF assms(2)] \<open>t \<noteq> Start\<close> by (simp add: appendToChain_def Let_def)
  next
    case (Some q)
    note q = chain_parent_stage [OF Some]
    then have "q \<in> set (fl_nodes (cv_flow c))" using in_tree_nodes by blast
    moreover from this have "st_id q \<noteq> i" using append by (auto simp: fresh_id_def new_id_def)
    moreover have "stage_next (stage_of (st_type p)) (stage_of t)" if "p \<in> set (fl_nodes (cv_flow c))" "st_id p = st_id q" for p
      using same_step [OF tree_forest that(1) _ that(2)] calculation(1) q assms(2) by (simp add: canvas_ok_def)
    ultimately show ?thesis
      using append Some attach_ok [OF assms(2) _ \<open>t \<noteq> Start\<close>] by (simp add: appendToChain_def Let_def)
  qed
next
  case (palette t i p)
  then show ?thesis using add_ok [OF assms(2)] by (auto simp: drop_palette_def PALETTE_TYPES_def)
next
  case (cut e)
  have tr: "tree (cv_flow c)" "I (cv_flow c)" using assms(2) by (simp_all add: canvas_ok_def)
  have "canvas_ok I (c\<lparr>cv_flow := removeEdge_flow e (cv_flow c)\<rparr>)"
    by (rule ok_fewer [OF assms(2)])
      (simp_all add: tree_cut [OF tr(1) cut(2)] I_cut [OF tr cut(2)], auto simp: removeEdge_flow_def)
  then have "canvas_ok I (toast ''Connection removed.'' False (redraw (c\<lparr>cv_flow := removeEdge_flow e (cv_flow c)\<rparr>)))"
    by (rule ok_same) (simp_all add: toast_def redraw_def)
  then show ?thesis using cut(1) assms(2) by (simp add: removeEdge_def)
next
  case (remove n)
  have tr: "tree (cv_flow c)" "I (cv_flow c)" using assms(2) by (simp_all add: canvas_ok_def)
  have "canvas_ok I (c\<lparr>cv_flow := removeNode_flow (st_id n) (cv_flow c)\<rparr>)"
    by (rule ok_fewer [OF assms(2)])
      (simp_all add: tree_remove [OF tr(1) remove(2,3)] I_remove [OF tr remove(2,3)], auto simp: removeNode_flow_def)
  then have "canvas_ok I (redraw (c\<lparr>cv_flow := removeNode_flow (st_id n) (cv_flow c),
      cv_runState := (cv_runState c)(st_id n := None)\<rparr>))"
    by (rule ok_same) (simp_all add: redraw_def)
  then show ?thesis using remove(1) assms(2) by (simp add: removeNode_def)
next
  case reset
  have "menu_ok (c\<lparr>cv_flow := withTarget fresh (cv_target c)\<rparr>)"
  proof (cases "cv_menu c")
    case (Some m)
    have st: "st_id p = START_ID \<and> st_type p = Start \<or> st_id p = SERVER_ID \<and> st_type p = Server \<or> st_id p = DEPLOY_ID"
      if "p \<in> set (fl_nodes (withTarget fresh (cv_target c)))" for p
    proof -
      have "(st_id p, st_type p) \<in> set (shape (withTarget fresh (cv_target c)))" using that by auto
      then show ?thesis unfolding shape_withTarget by (auto simp: fresh_eq)
    qed
    have m: "menu_fits (Some m) (fl_nodes (cv_flow c))" using assms(2) Some by (simp add: canvas_ok_def menu_ok_def)
    have "stage_next (stage_of (st_type p)) (stage_of t)"
      if "t \<in> set (mn_valid m)" "p \<in> set (fl_nodes (withTarget fresh (cv_target c)))" "st_id p = mn_prev m" for t p
      using st [OF that(2)] m that(1,3) by auto
    then show ?thesis using m Some by (simp add: menu_ok_def)
  qed (simp add: menu_ok_def)
  then have "canvas_ok I (c\<lparr>cv_flow := withTarget fresh (cv_target c)\<rparr>)"
    using tree_new I_fresh by (simp add: canvas_ok_def)
  then have "canvas_ok I (redraw (c\<lparr>cv_flow := withTarget fresh (cv_target c), cv_runState := Map.empty,
      cv_result := None, cv_deployed := False\<rparr>))"
    by (rule ok_same) (simp_all add: redraw_def)
  then show ?thesis using reset assms(2) by (simp add: resetCanvas_def)
next
  case (set_field i k v)
  let ?g = "\<lambda>n. if st_id n = i \<and> k < length (fields_of (st_type n)) then setField_data (st_type n) k v (st_data n) else st_data n"
  let ?f = "(cv_flow c)\<lparr>fl_nodes := map (\<lambda>n. n\<lparr>st_data := ?g n\<rparr>) (fl_nodes (cv_flow c))\<rparr>"
  have "map (\<lambda>n. if st_id n = i \<and> k < length (fields_of (st_type n))
          then n\<lparr>st_data := setField_data (st_type n) k v (st_data n)\<rparr> else n) (fl_nodes (cv_flow c)) =
      map (\<lambda>n. n\<lparr>st_data := ?g n\<rparr>) (fl_nodes (cv_flow c))" by simp
  then have d: "d = c\<lparr>cv_flow := ?f, cv_invalid := cv_invalid c - {i}\<rparr>" using set_field by (simp add: setField_def)
  have "tree ?f" by (rule tree_shape [of "cv_flow c"]) (use assms(2) in \<open>simp_all add: canvas_ok_def comp_def\<close>)
  then show ?thesis
    using assms(2) I_data [of "cv_flow c" ?g] by (intro ok_fewer [OF assms(2)]) (auto simp: d canvas_ok_def)
next
  case (drag i wx wy)
  show ?thesis
  proof (cases "nodeById i (cv_flow c)")
    case None
    then show ?thesis using drag assms(2) by (simp add: dragNode_def)
  next
    case (Some n)
    let ?f = "drag_to dims n wx wy (cv_flow c)"
    have tr: "tree (cv_flow c)" "I (cv_flow c)" using assms(2) by (simp_all add: canvas_ok_def)
    have n: "n \<in> set (fl_nodes (cv_flow c))" using nodeById_Some [OF Some] by simp
    have "tree ?f" by (rule tree_shape [OF tr(1) shape_drag])
    moreover have "\<exists>m \<in> set (fl_nodes (cv_flow c)). st_id m = st_id k \<and> st_type m = st_type k" if k: "k \<in> set (fl_nodes ?f)" for k
      using shape_nodes [OF shape_drag(1) [symmetric] k] by metis
    ultimately have "canvas_ok I (c\<lparr>cv_flow := ?f\<rparr>)"
      using I_drag [OF tr n] by (intro ok_fewer [OF assms(2)]) simp_all
    then show ?thesis using drag Some ok_same by (simp add: dragNode_def closeMenu_def)
  qed
qed (rule ok_same [OF assms(2)]; simp add: startConnect_def connect_move_def closeMenu_def hideResult_def)+

lemma reach_ok: "canvas_reach dims c \<Longrightarrow> canvas_ok I c"
proof (induction rule: canvas_reach.induct)
  case (start result deployed view target)
  have "cv_flow (init_canvas None result deployed view target) = withTarget fresh target"
    by (simp add: init_canvas_def Let_def withDeploy_fresh)
  moreover have "cv_menu (init_canvas None result deployed view target) = None"
    by (simp add: init_canvas_def Let_def)
  ultimately show ?case using tree_new I_fresh by (simp add: canvas_ok_def menu_ok_def)
qed (rule step_ok)

end

section \<open>The gaps between the cards\<close>

text \<open>Rendered sizes are whole pixels, and cards are at most 360 wide.\<close>

definition sizes_ok :: "sizes \<Rightarrow> bool" where
  "sizes_ok dims \<longleftrightarrow> (\<forall>i. fst (dims i) \<in> \<int> \<and> snd (dims i) \<in> \<int> \<and> fst (dims i) \<le> 360)"

definition spread_nodes :: "sizes \<Rightarrow> step set \<Rightarrow> bool" where
  "spread_nodes dims ns \<longleftrightarrow> (\<forall>m \<in> ns. whole (boxOf dims m)) \<and>
     (\<forall>m \<in> ns. \<forall>n \<in> ns. st_id m \<noteq> st_id n \<longrightarrow> apart (boxOf dims m) (boxOf dims n) BOX_GAP)"

definition spread :: "sizes \<Rightarrow> flow \<Rightarrow> bool" where
  "spread dims f \<longleftrightarrow> (sizes_ok dims \<longrightarrow> spread_nodes dims (set (fl_nodes f)))"

lemma spread_subset: "\<lbrakk>spread_nodes dims ns; ms \<subseteq> ns\<rbrakk> \<Longrightarrow> spread_nodes dims ms"
  unfolding spread_nodes_def by blast

lemma spread_same_boxes:
  assumes "spread_nodes dims ns" "\<And>m. m \<in> ms \<Longrightarrow> \<exists>n \<in> ns. st_id n = st_id m \<and> boxOf dims n = boxOf dims m"
  shows "spread_nodes dims ms"
  using assms unfolding spread_nodes_def by metis

lemma BOX_GAP_int: "BOX_GAP \<in> \<int>"
  by (simp add: BOX_GAP_def)

lemma move_spread:
  assumes "sizes_ok dims" "spread_nodes dims {m \<in> set (fl_nodes f). st_id m \<noteq> i}"
    and "b_w b = fst (dims i)" "b_h b = snd (dims i)"
    and "list_all (\<lambda>o'. apart b o' BOX_GAP) (map (boxOf dims) (filter (\<lambda>m. st_id m \<noteq> i) (fl_nodes f)))"
  shows "spread_nodes dims (set (fl_nodes (move_step i (of_int (js_round (b_x b))) (of_int (js_round (b_y b))) f)))"
proof -
  let ?move = "\<lambda>n. if st_id n = i then n\<lparr>st_x := of_int (js_round (b_x b)), st_y := of_int (js_round (b_y b))\<rparr> else n"
  have ints: "b_w b \<in> \<int>" "b_h b \<in> \<int>" using assms(1,3,4) by (simp_all add: sizes_ok_def)
  have box: "boxOf dims (?move n) = round_box b" if "st_id n = i" for n
    using that assms(3,4) by (simp add: boxOf_def round_box_def)
  have away: "apart (round_box b) (boxOf dims m) BOX_GAP" if "m \<in> set (fl_nodes f)" "st_id m \<noteq> i" for m
    using assms(2,5) that by (intro apart_round [OF _ _ ints BOX_GAP_int]) (auto simp: list_all_iff spread_nodes_def)
  show ?thesis
    unfolding spread_nodes_def
  proof (intro conjI ballI impI)
    fix m
    assume "m \<in> set (fl_nodes (move_step i (of_int (js_round (b_x b))) (of_int (js_round (b_y b))) f))"
    then obtain m0 where "m0 \<in> set (fl_nodes f)" "m = ?move m0" by (auto simp: move_step_def)
    then show "whole (boxOf dims m)"
      using whole_round [OF ints] box assms(2) by (cases "st_id m0 = i") (auto simp: spread_nodes_def)
  next
    fix m n
    assume "m \<in> set (fl_nodes (move_step i (of_int (js_round (b_x b))) (of_int (js_round (b_y b))) f))"
      "n \<in> set (fl_nodes (move_step i (of_int (js_round (b_x b))) (of_int (js_round (b_y b))) f))" "st_id m \<noteq> st_id n"
    then obtain m0 n0 where mn: "m0 \<in> set (fl_nodes f)" "m = ?move m0" "n0 \<in> set (fl_nodes f)" "n = ?move n0"
      "st_id m0 \<noteq> st_id n0" by (auto simp: move_step_def split: if_splits)
    consider "st_id m0 = i" "st_id n0 \<noteq> i" | "st_id n0 = i" "st_id m0 \<noteq> i" | "st_id m0 \<noteq> i" "st_id n0 \<noteq> i"
      using mn(5) by auto
    then show "apart (boxOf dims m) (boxOf dims n) BOX_GAP"
    proof cases
      case 1
      then show ?thesis using away [OF mn(3)] box [of m0] mn by simp
    next
      case 2
      then show ?thesis using away [OF mn(1)] box [of n0] mn by (simp add: apart_sym)
    next
      case 3
      then show ?thesis using assms(2) mn by (simp add: spread_nodes_def)
    qed
  qed
qed

lemma freeSpot_away:
  assumes "freeSpot b others gap (\<lambda>_. True) = Some spot"
  shows "list_all (\<lambda>o'. apart spot o' gap) others" "b_w spot = b_w b" "b_h spot = b_h b"
  using freeSpot_Some [OF assms] by (simp_all add: is_free_def)

lemma settle_spread:
  assumes "sizes_ok dims" "spread_nodes dims {m \<in> set (fl_nodes f). st_id m \<noteq> st_id n}"
    and "n \<in> set (fl_nodes f)" "whole (boxOf dims n)" "\<And>m. \<lbrakk>m \<in> set (fl_nodes f); st_id m = st_id n\<rbrakk> \<Longrightarrow> m = n"
  shows "spread_nodes dims (set (fl_nodes (settle dims n f)))"
proof -
  let ?others = "map (boxOf dims) (filter (\<lambda>m. st_id m \<noteq> st_id n) (fl_nodes f))"
  obtain spot where s: "freeSpot (boxOf dims n) ?others BOX_GAP (\<lambda>_. True) = Some spot" using freeSpot_found by blast
  note away = freeSpot_away [OF s]
  show ?thesis
  proof (cases "b_x spot = st_x n \<and> b_y spot = st_y n")
    case True
    then have "spot = boxOf dims n" using away(2,3) by (cases spot) (simp add: boxOf_def)
    then have ap: "apart (boxOf dims n) (boxOf dims m) BOX_GAP" if "m \<in> set (fl_nodes f)" "st_id m \<noteq> st_id n" for m
      using away(1) that by (auto simp: list_all_iff)
    have "spread_nodes dims (set (fl_nodes f))"
      unfolding spread_nodes_def
    proof (intro conjI ballI impI)
      fix m assume "m \<in> set (fl_nodes f)"
      then show "whole (boxOf dims m)" using assms(2,4,5) by (cases "st_id m = st_id n") (auto simp: spread_nodes_def)
    next
      fix m k assume mk: "m \<in> set (fl_nodes f)" "k \<in> set (fl_nodes f)" "st_id m \<noteq> st_id k"
      show "apart (boxOf dims m) (boxOf dims k) BOX_GAP"
      proof (cases "st_id m = st_id n \<or> st_id k = st_id n")
        case True
        then show ?thesis using mk ap assms(5) by (metis apart_sym)
      next
        case False
        then show ?thesis using mk assms(2) by (simp add: spread_nodes_def)
      qed
    qed
    then show ?thesis using s True by (simp add: settle_def)
  next
    case False
    then show ?thesis
      using s move_spread [OF assms(1,2) _ _ away(1)] away(2,3) by (auto simp: settle_def boxOf_def)
  qed
qed

interpretation cards: flow_invariant "spread dims" dims for dims
proof
  fix target
  have "set (fl_nodes (withTarget fresh target)) \<subseteq>
      {n. st_id n = START_ID \<and> st_x n = 80 \<and> st_y n = 160 \<or> st_id n = SERVER_ID \<and> st_x n = 456 \<and> st_y n = 160 \<or>
          st_id n = DEPLOY_ID \<and> st_x n = 1240 \<and> st_y n = 160}"
    by (auto simp: withTarget_def fresh_eq split: option.splits)
  then have at: "st_id n = START_ID \<and> st_x n = 80 \<and> st_y n = 160 \<or> st_id n = SERVER_ID \<and> st_x n = 456 \<and> st_y n = 160 \<or>
      st_id n = DEPLOY_ID \<and> st_x n = 1240 \<and> st_y n = 160" if "n \<in> set (fl_nodes (withTarget fresh target))" for n
    using that by blast
  show "spread dims (withTarget fresh target)"
    unfolding spread_def spread_nodes_def
  proof (intro impI conjI ballI)
    fix m assume "sizes_ok dims" "m \<in> set (fl_nodes (withTarget fresh target))"
    then show "whole (boxOf dims m)" using at [of m] by (auto simp: whole_def boxOf_def sizes_ok_def)
  next
    fix m n
    assume s: "sizes_ok dims" and mn: "m \<in> set (fl_nodes (withTarget fresh target))" "n \<in> set (fl_nodes (withTarget fresh target))"
      "st_id m \<noteq> st_id n"
    have "st_x m + 376 \<le> st_x n \<or> st_x n + 376 \<le> st_x m" using at [OF mn(1)] at [OF mn(2)] mn(3) by auto
    moreover have "fst (dims (st_id m)) \<le> 360" "fst (dims (st_id n)) \<le> 360" using s by (simp_all add: sizes_ok_def)
    ultimately show "apart (boxOf dims m) (boxOf dims n) BOX_GAP" by (auto simp: apart_def boxOf_def BOX_GAP_def)
  qed
next
  fix f p n
  assume "spread dims f"
  then show "spread dims (connect_flow p (st_id n) f)" by (simp add: spread_def connect_flow_def)
next
  fix f e
  assume "spread dims f"
  then show "spread dims (removeEdge_flow e f)" by (simp add: spread_def removeEdge_flow_def)
next
  fix f n
  assume "spread dims f"
  then show "spread dims (removeNode_flow (st_id n) f)"
    by (auto simp: spread_def removeNode_flow_def elim: spread_subset)
next
  fix f i t x y
  assume I: "spread dims f" "new_id i f"
  let ?n = "new_step i t x y"
  show "spread dims (addNode_flow dims i t x y f)"
    unfolding spread_def addNode_flow_def
  proof
    assume s: "sizes_ok dims"
    have id: "st_id ?n = i" "i \<notin> st_id ` set (fl_nodes f)" using I(2) by (simp_all add: new_step_def new_id_def)
    have "spread_nodes dims {m \<in> set (fl_nodes (f\<lparr>fl_nodes := fl_nodes f @ [?n]\<rparr>)). st_id m \<noteq> st_id ?n}"
      by (rule spread_subset [of dims "set (fl_nodes f)"]) (use I s in \<open>auto simp: spread_def\<close>)
    then show "spread_nodes dims (set (fl_nodes (settle dims ?n (f\<lparr>fl_nodes := fl_nodes f @ [?n]\<rparr>))))"
      by (rule settle_spread [OF s]) (use id s in \<open>auto simp: whole_def boxOf_def new_step_def sizes_ok_def\<close>)
  qed
next
  fix f n wx wy
  assume I: "spread dims f"
  let ?b = "(boxOf dims n)\<lparr>b_x := wx, b_y := wy\<rparr>"
  let ?others = "map (boxOf dims) (filter (\<lambda>m. st_id m \<noteq> st_id n) (fl_nodes f))"
  obtain spot where s: "freeSpot ?b ?others BOX_GAP (\<lambda>_. True) = Some spot" using freeSpot_found by blast
  note away = freeSpot_away [OF s]
  show "spread dims (drag_to dims n wx wy f)"
    unfolding spread_def
  proof
    assume ok: "sizes_ok dims"
    have "spread_nodes dims {m \<in> set (fl_nodes f). st_id m \<noteq> st_id n}"
      by (rule spread_subset [of dims "set (fl_nodes f)"]) (use I ok in \<open>auto simp: spread_def\<close>)
    then show "spread_nodes dims (set (fl_nodes (drag_to dims n wx wy f)))"
      using move_spread [OF ok _ _ _ away(1)] away(2,3) s by (simp add: drag_to_def boxOf_def)
  qed
next
  fix f g
  assume "spread dims f"
  then show "spread dims (f\<lparr>fl_nodes := map (\<lambda>n. n\<lparr>st_data := g n\<rparr>) (fl_nodes f)\<rparr>)"
    by (auto simp: spread_def boxOf_def elim!: spread_same_boxes)
qed

text \<open>A sample: a Git step appended to a fresh canvas.\<close>

definition sample_sizes :: sizes where
  "sample_sizes i = (296, 160)"

definition sample_canvas :: canvas where
  "sample_canvas = appendToChain sample_sizes ''g1'' (0, 0) Git (init_canvas None None False None None)"

lemma init_flow: "cv_flow (init_canvas None None False None None) = fresh"
  by (simp add: init_canvas_def Let_def withDeploy_fresh withTarget_def)

lemma sample_reach: "canvas_reach sample_sizes sample_canvas"
proof -
  have "fresh_id ''g1'' (init_canvas None None False None None)"
    by (simp add: fresh_id_def new_id_def init_flow fresh_eq START_ID_def SERVER_ID_def DEPLOY_ID_def)
      (simp add: init_canvas_def Let_def)
  then show ?thesis
    unfolding sample_canvas_def
    by (intro canvas_reach.step [OF canvas_reach.start [of _ None False None None]] canvas_step.append)
      (simp_all add: PALETTE_TYPES_def)
qed

lemma sample_flow:
  "shape (cv_flow sample_canvas) = [(START_ID, Start), (SERVER_ID, Server), (DEPLOY_ID, Deploy), (''g1'', Git)]"
  "(SERVER_ID, ''g1'') \<in> set (fl_edges (cv_flow sample_canvas))"
proof -
  have "map_option st_id (chain_parent Git fresh) = Some SERVER_ID" by code_simp
  then obtain q where q: "chain_parent Git fresh = Some q" "st_id q = SERVER_ID" by auto
  obtain y where "sample_canvas = connect SERVER_ID ''g1'' (addNode sample_sizes ''g1'' Git
      (st_x q + fst (sample_sizes SERVER_ID) + 80) y True (init_canvas None None False None None))"
    by (simp add: sample_canvas_def appendToChain_def init_flow q Let_def)
  then obtain x where c: "sample_canvas = connect SERVER_ID ''g1'' (addNode sample_sizes ''g1'' Git x y True (init_canvas None None False None None))" by blast
  let ?f = "addNode_flow sample_sizes ''g1'' Git x y fresh"
  have sh: "shape ?f = [(START_ID, Start), (SERVER_ID, Server), (DEPLOY_ID, Deploy), (''g1'', Git)]"
    unfolding shape_addNode by (simp add: fresh_eq)
  then have "SERVER_ID \<in> st_id ` set (fl_nodes ?f)"
    using arg_cong [OF sh, of "\<lambda>xs. fst ` set xs"] by (auto simp: image_image)
  then obtain a where a: "nodeById SERVER_ID ?f = Some a" using nodeById_None by blast
  have "cv_flow sample_canvas = connect_flow a ''g1'' ?f"
    unfolding c connect_def addNode_def by (simp add: init_flow a Let_def redraw_def)
  moreover have "st_id a = SERVER_ID" using nodeById_Some [OF a] by simp
  ultimately show "shape (cv_flow sample_canvas) = [(START_ID, Start), (SERVER_ID, Server), (DEPLOY_ID, Deploy), (''g1'', Git)]"
    "(SERVER_ID, ''g1'') \<in> set (fl_edges (cv_flow sample_canvas))"
    using sh by (simp_all add: connect_flow_def)
qed






end
