(* ===== verification/Deploy_Plan_Safety.thy ===== *)
theory Deploy_Plan_Safety
  imports Deploy_Canvas_Safety
begin

text \<open>
  The flow refines a map from steps to parents, and the plan of a run lists every step once.
\<close>

section \<open>The tree as a map to parents\<close>

text \<open>The abstract flow: every step has at most one parent. Connecting gives a step a new parent and takes the
  child of a parent that has room for one only; removing a line or a step forgets parents.\<close>

type_synonym parents = "jstring \<Rightarrow> jstring option"

definition attach :: "bool \<Rightarrow> jstring \<Rightarrow> jstring \<Rightarrow> parents \<Rightarrow> parents" where
  "attach fans_out a b p = (\<lambda>i. if i = b then Some a else if \<not> fans_out \<and> p i = Some a then None else p i)"

definition detach :: "edge \<Rightarrow> parents \<Rightarrow> parents" where
  "detach e p = (\<lambda>i. if i = snd e \<and> p i = Some (fst e) then None else p i)"

definition prune :: "jstring \<Rightarrow> parents \<Rightarrow> parents" where
  "prune a p = (\<lambda>i. if i = a \<or> p i = Some a then None else p i)"

definition parents_of :: "flow \<Rightarrow> parents" where
  "parents_of f = (\<lambda>i. prevOf i f)"

lemma prevOf_None: "prevOf i f = None \<longleftrightarrow> (\<forall>a. (a, i) \<notin> set (fl_edges f))"
  by (auto simp: prevOf_def find_None_iff)

lemma parents_eqI:
  assumes "distinct (map snd (fl_edges f))"
    and "\<And>a i. p i = Some a \<longleftrightarrow> (a, i) \<in> set (fl_edges f)"
  shows "parents_of f = p"
proof
  fix i
  show "parents_of f i = p i"
    using assms(2) [of i] prevOf_iff [OF assms(1), of i] unfolding parents_of_def
    by (metis not_Some_eq)
qed

text \<open>C20: The list of lines refines a map from steps to parents: connecting two steps, removing a line and
  removing a step act on the parents as attaching, detaching and pruning, in every flow whose steps have at
  most one line in.\<close>

theorem edits_refine_parents:
  assumes "distinct (map snd (fl_edges f))"
  shows "parents_of (connect_flow a b f) = attach (multiOut a) (st_id a) b (parents_of f) \<and>
    parents_of (removeEdge_flow e f) = detach e (parents_of f) \<and>
    parents_of (removeNode_flow i f) = prune i (parents_of f)"
proof (intro conjI)
  have p: "parents_of f j = Some x \<longleftrightarrow> (x, j) \<in> set (fl_edges f)" for j x
    using prevOf_iff [OF assms] by (simp add: parents_of_def)
  have u: "(x, j) \<in> set (fl_edges f) \<Longrightarrow> (y, j) \<in> set (fl_edges f) \<Longrightarrow> x = y" for x y j
    using p by (metis option.inject)
  have d: "distinct (map snd (filter P (fl_edges f)))" for P using assms by (rule distinct_map_filter)
  show "parents_of (connect_flow a b f) = attach (multiOut a) (st_id a) b (parents_of f)"
    by (rule parents_eqI) (use d p in \<open>auto simp: connect_flow_def attach_def dest: u\<close>)
  show "parents_of (removeEdge_flow e f) = detach e (parents_of f)"
  proof (cases e)
    case (Pair x y)
    show ?thesis
      unfolding Pair by (rule parents_eqI) (use d p in \<open>auto simp: removeEdge_flow_def detach_def dest: u\<close>)
  qed
  show "parents_of (removeNode_flow i f) = prune i (parents_of f)"
    by (rule parents_eqI) (use d p in \<open>auto simp: removeNode_flow_def prune_def dest: u\<close>)
qed

theorem edits_refine_parents_witness:
  "parents_of (removeEdge_flow (START_ID, SERVER_ID) fresh) = detach (START_ID, SERVER_ID) (parents_of fresh) \<and>
   parents_of fresh SERVER_ID = Some START_ID"
  using edits_refine_parents [of fresh] by (auto simp: fresh_eq parents_of_def prevOf_def)

section \<open>The plan\<close>

lemma settings_of_ids: "map st_id (settings_of f ids) = take (length (settings_of f ids)) ids"
  by (induction ids) (auto split: option.split dest: nodeById_Some)

lemma settings_of_sub: "set (map st_id (settings_of f ids)) \<subseteq> set ids"
  unfolding settings_of_ids by (rule set_take_subset)

lemma settings_of_distinct: "distinct ids \<Longrightarrow> distinct (map st_id (settings_of f ids))"
  unfolding settings_of_ids by (rule distinct_take)

definition line_steps :: "line \<Rightarrow> step list" where
  "line_steps l = ln_source l # ln_settings l"

lemma plan_line_Some:
  assumes "plan_line f s i = Some l"
  shows "nodeById i f = Some (ln_source l)" "st_id (ln_source l) = i" "stage_of (st_type (ln_source l)) = Source"
    "ln_server l = s" "distinct (map st_id (line_steps l))"
    "\<And>n. n \<in> set (line_steps l) \<Longrightarrow> (i, st_id n) \<in> (set (fl_edges f))\<^sup>*"
proof -
  obtain src where src: "nodeById i f = Some src" "stage_of (st_type src) = Source"
    "l = \<lparr>ln_server = s, ln_source = src,
          ln_settings = settings_of f (down_trail (nextOf (st_id src) f) [st_id src] f)\<rparr>"
    using assms by (auto simp: plan_line_def split: option.splits if_splits)
  have id: "st_id src = i" using nodeById_Some [OF src(1)] by simp
  show "nodeById i f = Some (ln_source l)" "st_id (ln_source l) = i" "stage_of (st_type (ln_source l)) = Source"
    "ln_server l = s" using src id by simp_all
  let ?trail = "down_trail (nextOf (st_id src) f) [st_id src] f"
  have sub: "set (map st_id (ln_settings l)) \<subseteq> set ?trail" using settings_of_sub src(3) by simp
  have "distinct (map st_id (ln_settings l))"
    using settings_of_distinct trail_distinct src(3) by (simp add: down_trail_def)
  moreover have "i \<notin> set ?trail" using down_trail_sound id by fastforce
  ultimately show "distinct (map st_id (line_steps l))" using sub id src(3) by (auto simp: line_steps_def)
  fix n
  assume "n \<in> set (line_steps l)"
  then consider "n = src" | "st_id n \<in> set ?trail" using sub src(3) by (auto simp: line_steps_def)
  then show "(i, st_id n) \<in> (set (fl_edges f))\<^sup>*"
  proof cases
    case 2
    then obtain c where c: "nextOf i f = Some c" "(c, st_id n) \<in> (set (fl_edges f))\<^sup>*"
      using down_trail_sound id by blast
    then have "(i, c) \<in> set (fl_edges f)"
      by (auto simp: nextOf_def outsOf_iff [symmetric] split: list.splits)
    then show ?thesis using c(2) by (rule converse_rtrancl_into_rtrancl)
  qed (simp add: id)
qed

text \<open>In a forest the ancestors of a step are a chain, and a source has no source above it.\<close>

lemma ancestors_chain:
  assumes "distinct (map snd es)" "(i, n) \<in> (set es)\<^sup>*" "(j, n) \<in> (set es)\<^sup>*"
  shows "(i, j) \<in> (set es)\<^sup>* \<or> (j, i) \<in> (set es)\<^sup>*"
  using assms(2)
proof (induction rule: converse_rtrancl_induct)
  case base
  then show ?case using assms(3) by simp
next
  case (step y z)
  show ?case
  proof (cases "j = z")
    case True
    then show ?thesis using step(1) by auto
  next
    case False
    from step.IH show ?thesis
    proof
      assume "(z, j) \<in> (set es)\<^sup>*"
      then show ?thesis using step(1) by (auto intro: converse_rtrancl_into_rtrancl)
    next
      assume "(j, z) \<in> (set es)\<^sup>*"
      then obtain y' where y': "(j, y') \<in> (set es)\<^sup>*" "(y', z) \<in> set es" using False by (auto elim: rtranclE)
      have "y' = y" using y'(2) step(1) assms(1) by (metis (no_types, lifting) distinct_map fst_conv inj_onD snd_conv)
      then show ?thesis using y'(1) by simp
    qed
  qed
qed

lemma below_source:
  assumes "forest f" "m \<in> set (fl_nodes f)" "n \<in> set (fl_nodes f)" "stage_of (st_type m) = Source"
    "(st_id m, st_id n) \<in> (set (fl_edges f))\<^sup>*" "st_id m \<noteq> st_id n"
  shows "stage_of (st_type n) = Config"
proof -
  have above: "(x, y) \<in> (set (fl_edges f))\<^sup>* \<Longrightarrow>
      \<forall>k \<in> set (fl_nodes f). st_id k = x \<longrightarrow> stage_of (st_type k) \<in> {Source, Config} \<Longrightarrow>
      x = y \<or> (\<forall>k \<in> set (fl_nodes f). st_id k = y \<longrightarrow> stage_of (st_type k) = Config)" for x y
  proof (induction rule: rtrancl_induct)
    case (step y z)
    have "follows f (y, z)" using forestD(4) [OF assms(1) step(2)] .
    then obtain p q where pq: "p \<in> set (fl_nodes f)" "q \<in> set (fl_nodes f)" "st_id p = y" "st_id q = z"
      "stage_next (stage_of (st_type p)) (stage_of (st_type q))" by (auto simp: follows_def)
    have "stage_of (st_type p) \<in> {Source, Config}" using step.IH step.prems pq(1,3) by auto
    then have "stage_of (st_type q) = Config" using pq(5) by auto
    then show ?case using same_step [OF assms(1) _ pq(2)] pq(4) by auto
  qed simp
  have "\<forall>k \<in> set (fl_nodes f). st_id k = st_id m \<longrightarrow> stage_of (st_type k) \<in> {Source, Config}"
    using same_step [OF assms(1) _ assms(2)] assms(4) by auto
  from above [OF assms(5) this] show ?thesis using assms(3,6) by auto
qed

lemma source_roots:
  assumes "forest f" "m \<in> set (fl_nodes f)" "n \<in> set (fl_nodes f)" "stage_of (st_type m) = Source"
    "stage_of (st_type n) = Source" "(st_id m, st_id n) \<in> (set (fl_edges f))\<^sup>*"
  shows "st_id m = st_id n"
  using below_source [OF assms(1-4,6)] assms(5) by auto

lemma distinct_concat_disjoint:
  assumes "distinct (map key xs)" "\<And>x. x \<in> set xs \<Longrightarrow> distinct (g x)"
    and "\<And>x y. \<lbrakk>x \<in> set xs; y \<in> set xs; key x \<noteq> key y\<rbrakk> \<Longrightarrow> set (g x) \<inter> set (g y) = {}"
  shows "distinct (concat (map g xs))"
  using assms
proof (induction xs)
  case (Cons x xs)
  have "set (g x) \<inter> set (g y) = {}" if "y \<in> set xs" for y
    using Cons.prems(1,3) that by (intro Cons.prems(3)) auto
  then show ?case using Cons by auto
qed simp


lemma map_filter_plan_lines:
  assumes "forest f" "distinct ids"
  shows "distinct (map (\<lambda>l. st_id (ln_source l)) (List.map_filter (plan_line f s) ids))"
  using assms(2)
proof (induction ids)
  case (Cons i ids)
  have "st_id (ln_source l) \<in> set ids" if "l \<in> set (List.map_filter (plan_line f s) ids)" for l
    using that plan_line_Some(2) by (fastforce simp: map_filter_def)
  then show ?case
    using Cons plan_line_Some(2) by (auto simp: map_filter_simps split: option.split)
qed (simp add: map_filter_simps)

lemma plan_lines_D:
  "l \<in> set (pl_lines (planOf f)) \<Longrightarrow> \<exists>s i. plan_line f s i = Some l \<and> (st_id s, i) \<in> set (fl_edges f)"
  by (auto simp: planOf_def Let_def map_filter_def outsOf_iff) blast

lemma distinct_outs: "distinct (map snd (fl_edges f)) \<Longrightarrow> distinct (outsOf i f)"
  unfolding outsOf_def by (rule distinct_map_filter)

lemma distinct_servers:
  assumes "forest f"
  shows "distinct (map st_id (pl_servers (planOf f)))"
proof -
  have "distinct (map st_id (List.map_filter (\<lambda>i. nodeById i f) ids))" if "distinct ids" for ids
    using that
  proof (induction ids)
    case (Cons i ids)
    have "st_id n \<in> set ids" if "n \<in> set (List.map_filter (\<lambda>i. nodeById i f) ids)" for n
      using that nodeById_Some by (fastforce simp: map_filter_def)
    then show ?case using Cons by (auto simp: map_filter_simps split: option.split dest: nodeById_Some)
  qed (simp add: map_filter_simps)
  then show ?thesis
    using distinct_outs [OF forestD(3) [OF assms]] by (simp add: planOf_def Let_def distinct_map_filter)
qed

text \<open>Every line starts at a source right below its server, and all that follows in it are settings.\<close>

lemma plan_lines_stages:
  assumes "canvas_reach dims c"
  defines "f \<equiv> cv_flow c"
  shows "\<forall>l \<in> set (pl_lines (planOf f)). stage_of (st_type (ln_source l)) = Source \<and>
       (st_id (ln_server l), st_id (ln_source l)) \<in> set (fl_edges f) \<and>
       (\<forall>n \<in> set (ln_settings l). stage_of (st_type n) = Config)"
proof -
  have fo: "forest f" using cards.reach_ok [OF assms(1)] by (simp add: canvas_ok_def tree_def f_def)
  show ?thesis
  proof
    fix l
    assume l: "l \<in> set (pl_lines (planOf f))"
    obtain s i where p: "plan_line f s i = Some l" "(st_id s, i) \<in> set (fl_edges f)" using plan_lines_D [OF l] by blast
    have nodes: "n \<in> set (fl_nodes f)" if "n \<in> set (line_steps l)" for n
    proof -
      have "n \<in> set (in_tree f)" using l that by (auto simp: in_tree_def Let_def line_steps_def)
      then show ?thesis using cards.in_tree_nodes by blast
    qed
    have "stage_of (st_type n) = Config" if n: "n \<in> set (ln_settings l)" for n
    proof -
      have "n \<in> set (line_steps l)" using n by (simp add: line_steps_def)
      then have "st_id n \<noteq> i" "(i, st_id n) \<in> (set (fl_edges f))\<^sup>*" "n \<in> set (fl_nodes f)"
        using plan_line_Some(2,5,6) [OF p(1)] n nodes by (auto simp: line_steps_def) (metis image_eqI)
      then show ?thesis
        using below_source [OF fo, of "ln_source l" n] plan_line_Some(2,3) [OF p(1)] nodes [of "ln_source l"]
        by (simp add: line_steps_def)
    qed
    then show "stage_of (st_type (ln_source l)) = Source \<and> (st_id (ln_server l), st_id (ln_source l)) \<in> set (fl_edges f) \<and>
       (\<forall>n \<in> set (ln_settings l). stage_of (st_type n) = Config)"
      using plan_line_Some(2,3,4) [OF p(1)] p(2) by simp
  qed
qed

lemma plan_settings:
  "canvas_reach dims c \<Longrightarrow> \<forall>l \<in> set (pl_lines (planOf (cv_flow c))). \<forall>n \<in> set (ln_settings l). stage_of (st_type n) = Config"
  using plan_lines_stages by blast

text \<open>C21: A run does every step at most once: in the plan of any flow that edits can build no two steps of
  resource lines have the same id, within a line or across lines and servers, so no resource is created
  twice; every line starts at a source right below its server, and all that follows in it are settings.\<close>

theorem plan_runs_steps_once:
  assumes "canvas_reach dims c"
  defines "f \<equiv> cv_flow c"
  shows "distinct (map st_id (concat (map line_steps (pl_lines (planOf f))))) \<and>
    (\<forall>l \<in> set (pl_lines (planOf f)). stage_of (st_type (ln_source l)) = Source \<and>
       (st_id (ln_server l), st_id (ln_source l)) \<in> set (fl_edges f) \<and>
       (\<forall>n \<in> set (ln_settings l). stage_of (st_type n) = Config))"
proof
  have fo: "forest f" using cards.reach_ok [OF assms(1)] by (simp add: canvas_ok_def tree_def f_def)
  note in_nodes = cards.in_tree_nodes [of f]
  have steps_in: "n \<in> set (fl_nodes f)" if "l \<in> set (pl_lines (planOf f))" "n \<in> set (line_steps l)" for l n
  proof -
    have "n \<in> set (in_tree f)" using that by (auto simp: in_tree_def Let_def line_steps_def)
    then show ?thesis using in_nodes by blast
  qed
  have "distinct (map (\<lambda>l. st_id (ln_source l)) (pl_lines (planOf f)))"
  proof -
    let ?g = "\<lambda>s. map (\<lambda>l. st_id (ln_source l)) (List.map_filter (plan_line f s) (outsOf (st_id s) f))"
    have "distinct (concat (map ?g (pl_servers (planOf f))))"
    proof (rule distinct_concat_disjoint [OF distinct_servers [OF fo]])
      show "distinct (?g s)" for s
        by (rule map_filter_plan_lines [OF fo distinct_outs [OF forestD(3) [OF fo]]])
      fix s t :: step
      assume neq: "st_id s \<noteq> st_id t"
      have sub: "set (?g u) \<subseteq> set (outsOf (st_id u) f)" for u
        using plan_line_Some(2) by (fastforce simp: map_filter_def)
      have "i \<notin> set (outsOf (st_id t) f)" if "i \<in> set (outsOf (st_id s) f)" for i
        using that neq prevOf_iff [OF forestD(3) [OF fo]] by (metis option.inject outsOf_iff)
      then show "set (?g s) \<inter> set (?g t) = {}" using sub [of s] sub [of t] by blast
    qed
    then show ?thesis by (simp add: planOf_def Let_def map_concat comp_def)
  qed
  moreover have "distinct (map st_id (line_steps l))" if "l \<in> set (pl_lines (planOf f))" for l
    using plan_lines_D [OF that] plan_line_Some(5) by blast
  moreover have "set (map st_id (line_steps k)) \<inter> set (map st_id (line_steps l)) = {}"
    if kl: "k \<in> set (pl_lines (planOf f))" "l \<in> set (pl_lines (planOf f))" "st_id (ln_source k) \<noteq> st_id (ln_source l)" for k l
  proof (rule ccontr)
    assume "set (map st_id (line_steps k)) \<inter> set (map st_id (line_steps l)) \<noteq> {}"
    then obtain m n where mn: "m \<in> set (line_steps k)" "n \<in> set (line_steps l)" "st_id m = st_id n" by auto
    obtain s i where k: "plan_line f s i = Some k" using plan_lines_D [OF kl(1)] by blast
    obtain t j where l: "plan_line f t j = Some l" using plan_lines_D [OF kl(2)] by blast
    have reach: "(i, st_id n) \<in> (set (fl_edges f))\<^sup>*" "(j, st_id n) \<in> (set (fl_edges f))\<^sup>*"
      using plan_line_Some(6) [OF k mn(1)] plan_line_Some(6) [OF l mn(2)] mn(3) by simp_all
    have src: "ln_source k \<in> set (fl_nodes f)" "ln_source l \<in> set (fl_nodes f)"
      using steps_in [OF kl(1)] steps_in [OF kl(2)] by (simp_all add: line_steps_def)
    have "(i, j) \<in> (set (fl_edges f))\<^sup>* \<or> (j, i) \<in> (set (fl_edges f))\<^sup>*"
      by (rule ancestors_chain [OF forestD(3) [OF fo] reach])
    then show False
      using source_roots [OF fo src plan_line_Some(3) [OF k] plan_line_Some(3) [OF l]]
        source_roots [OF fo src(2,1) plan_line_Some(3) [OF l] plan_line_Some(3) [OF k]]
        plan_line_Some(2) [OF k] plan_line_Some(2) [OF l] kl(3) by auto
  qed
  ultimately show "distinct (map st_id (concat (map line_steps (pl_lines (planOf f)))))"
    unfolding map_concat map_map comp_def by (intro distinct_concat_disjoint) simp_all
next
  show "\<forall>l \<in> set (pl_lines (planOf f)). stage_of (st_type (ln_source l)) = Source \<and>
       (st_id (ln_server l), st_id (ln_source l)) \<in> set (fl_edges f) \<and>
       (\<forall>n \<in> set (ln_settings l). stage_of (st_type n) = Config)"
    unfolding f_def by (rule plan_lines_stages [OF assms(1)])
qed


theorem plan_runs_steps_once_witness:
  "map st_id (concat (map line_steps (pl_lines (planOf (cv_flow sample_canvas))))) = [''g1''] \<and>
   distinct (map st_id (concat (map line_steps (pl_lines (planOf (cv_flow sample_canvas))))))"
proof
  show "map st_id (concat (map line_steps (pl_lines (planOf (cv_flow sample_canvas))))) = [''g1'']" by code_simp
  show "distinct (map st_id (concat (map line_steps (pl_lines (planOf (cv_flow sample_canvas))))))"
    by (rule plan_runs_steps_once [OF sample_reach, THEN conjunct1])
qed

end
