(* ===== verification/Deploy_Run_Safety.thy ===== *)
theory Deploy_Run_Safety
  imports Deploy_Run Deploy_Plan_Safety
begin

text \<open>
  What a run of the deploy canvas does and does not do: its calls create each resource once and deploy
  nothing on their own, nothing is deployed unless every step succeeded, deployments are followed to
  their end, and their logs are shown once.
\<close>

section \<open>The calls of a run\<close>

text \<open>A call that a run may make before its deploy step: it creates a resource without deploying it, or it
  changes one.\<close>

definition quiet_call :: "call \<Rightarrow> bool" where
  "quiet_call c \<longleftrightarrow>
     ca_method c = PATCH \<or>
     ca_method c = POST \<and> ca_path c \<noteq> ''/deploy'' \<and>
       (case ca_body c of Some (JObj kvs) \<Rightarrow> map_of kvs ''instant_deploy'' = Some (JBool False) | _ \<Rightarrow> False)"

definition calls_of :: "run_ctx \<times> call list \<times> outcome \<Rightarrow> call list" where
  "calls_of r = fst (snd r)"

lemma common_quiet: "map_of (common ctx d) ''instant_deploy'' = Some (JBool False)"
  by (simp add: common_def opt_entry_def split: option.split)

lemma create_calls:
  "calls_of (create api path body kind message ctx calls) = calls @ [\<lparr>ca_method = POST, ca_path = path, ca_body = Some (JObj body)\<rparr>]"
  by (simp add: calls_of_def create_def Let_def split: sum.split)

lemma patch_calls:
  "calls_of (patch api path body message ctx calls) = calls @ [\<lparr>ca_method = PATCH, ca_path = path, ca_body = Some body\<rparr>]"
  by (simp add: calls_of_def patch_def Let_def split: sum.split)

text \<open>What one step adds to the calls: a source one quiet creation, a settings step changes only.\<close>

definition adds :: "bool \<Rightarrow> call list \<Rightarrow> call list \<Rightarrow> bool" where
  "adds creates old new \<longleftrightarrow> (\<exists>cs. new = old @ cs \<and> list_all quiet_call cs \<and>
     length (filter (\<lambda>c. ca_method c = POST) cs) \<le> (if creates then 1 else 0))"

lemma adds_same: "adds b calls calls"
  by (simp add: adds_def)

lemma adds_create:
  assumes "path \<noteq> ''/deploy''" "map_of body ''instant_deploy'' = Some (JBool False)"
  shows "adds True calls (calls_of (create api path body kind message ctx calls))"
  using assms by (simp add: adds_def create_calls quiet_call_def)

lemma adds_patch: "adds b calls (calls_of (patch api path body message ctx calls))"
  by (simp add: adds_def patch_calls quiet_call_def)

lemma calls_of_triple [simp]: "calls_of (ctx, calls, out) = calls"
  by (simp add: calls_of_def)

lemmas run_defs = git_run_def image_run_def dockerfile_run_def service_run_def database_run_def build_run_def
  env_run_def domain_run_def

lemma step_run_adds:
  "adds (stage_of t = Source) calls (calls_of (step_run api t d ctx calls))"
proof (cases t)
  case Git
  have "adds True calls (calls_of (git_run api d ctx calls))"
    unfolding git_run_def Let_def
    by (auto simp: adds_same common_quiet intro!: adds_create split: option.split)
  then show ?thesis using Git by (simp add: step_run_def)
next
  case Image
  have "adds True calls (calls_of (image_run api d ctx calls))"
    unfolding image_run_def Let_def by (rule adds_create) (simp_all add: common_quiet)
  then show ?thesis using Image by (simp add: step_run_def)
next
  case Dockerfile
  have "adds True calls (calls_of (dockerfile_run api d ctx calls))"
    unfolding dockerfile_run_def Let_def by (rule adds_create) (simp_all add: common_quiet)
  then show ?thesis using Dockerfile by (simp add: step_run_def)
next
  case Service
  have "adds True calls (calls_of (service_run api d ctx calls))"
    unfolding service_run_def
    by (auto simp: adds_same common_quiet intro!: adds_create split: option.split)
  then show ?thesis using Service by (simp add: step_run_def)
next
  case Database
  have "adds True calls (calls_of (database_run api d ctx calls))"
    unfolding database_run_def by (rule adds_create) (simp_all add: common_quiet)
  then show ?thesis using Database by (simp add: step_run_def)
qed (simp_all add: step_run_def build_run_def env_run_def domain_run_def Let_def adds_same adds_patch split: option.split)


lemma adds_trans: "\<lbrakk>adds b xs ys; adds False ys zs\<rbrakk> \<Longrightarrow> adds b xs zs"
  by (auto simp: adds_def)

definition triple_calls :: "run_ctx \<times> run_state \<times> bool \<Rightarrow> call list" where
  "triple_calls r = rs_calls (fst (snd r))"

lemma setStep_calls [simp]: "rs_calls (setStep n st rs) = rs_calls rs"
  by (simp add: setStep_def)

lemma end_step_calls [simp]: "rs_calls (fst (end_step live label n out rs)) = rs_calls rs"
  by (simp add: end_step_def Let_def split: sum.split)

lemma one_step_calls:
  "triple_calls (one_step w label n ctx rs) = calls_of (step_run (wo_api w) (st_type n) (st_data n) ctx (rs_calls rs))"
proof -
  obtain ctx' calls out where s: "step_run (wo_api w) (st_type n) (st_data n) ctx (rs_calls rs) = (ctx', calls, out)"
    by (cases "step_run (wo_api w) (st_type n) (st_data n) ctx (rs_calls rs)")
  obtain u ok where e: "end_step (wo_live w calls) (label n) n out ((setStep n StepRunning rs)\<lparr>rs_calls := calls\<rparr>) = (u, ok)"
    by fastforce
  have "rs_calls u = calls"
    using end_step_calls [of "wo_live w calls" "label n" n out "(setStep n StepRunning rs)\<lparr>rs_calls := calls\<rparr>"] e by simp
  then show ?thesis by (simp add: one_step_def s Let_def e triple_calls_def)
qed

lemma run_settings_adds:
  "list_all (\<lambda>n. stage_of (st_type n) = Config) ns \<Longrightarrow> adds False (rs_calls rs) (triple_calls (run_steps w label ns ctx rs))"
proof (induction ns arbitrary: ctx rs)
  case Nil
  then show ?case by (simp add: triple_calls_def adds_same)
next
  case (Cons n ns)
  obtain ctx' t ok where o: "one_step w label n ctx rs = (ctx', t, ok)" by (cases "one_step w label n ctx rs")
  have "stage_of (st_type n) \<noteq> Source" using Cons.prems by simp
  then have first: "adds False (rs_calls rs) (rs_calls t)"
    using step_run_adds [of "st_type n" "rs_calls rs" "wo_api w" "st_data n" ctx] one_step_calls [of w label n ctx rs] o
    by (simp add: triple_calls_def)
  show ?case
  proof (cases ok)
    case True
    have "adds False (rs_calls t) (triple_calls (run_steps w label ns ctx' t))" using Cons by simp
    then show ?thesis using first True o by (auto intro: adds_trans)
  next
    case False
    then show ?thesis using first o by (simp add: triple_calls_def)
  qed
qed

lemma run_line_adds:
  assumes "list_all (\<lambda>n. stage_of (st_type n) = Config) ns"
  shows "adds True (rs_calls rs) (triple_calls (run_steps w label (n # ns) ctx rs))"
proof -
  obtain ctx' t ok where o: "one_step w label n ctx rs = (ctx', t, ok)" by (cases "one_step w label n ctx rs")
  have "adds (stage_of (st_type n) = Source) (rs_calls rs) (rs_calls t)"
    using step_run_adds [of "st_type n" "rs_calls rs" "wo_api w" "st_data n" ctx] one_step_calls [of w label n ctx rs] o
    by (simp add: triple_calls_def)
  then have first: "adds True (rs_calls rs) (rs_calls t)" by (auto simp: adds_def split: if_splits)
  show ?thesis
  proof (cases ok)
    case True
    then show ?thesis using adds_trans [OF first run_settings_adds [OF assms, of t w label ctx']] o by simp
  next
    case False
    then show ?thesis using first o by (simp add: triple_calls_def)
  qed
qed

text \<open>All lines together: quiet calls, and at most one creation per line.\<close>

lemma run_lines_calls:
  assumes "\<forall>l \<in> set ls. \<forall>n \<in> set (ln_settings l). stage_of (st_type n) = Config"
  shows "\<exists>cs. rs_calls (fst (snd (run_lines w label base ls rs))) = rs_calls rs @ cs \<and> list_all quiet_call cs \<and>
    length (filter (\<lambda>c. ca_method c = POST) cs) \<le> length ls"
  using assms
proof (induction ls arbitrary: rs)
  case Nil
  then show ?case by simp
next
  case (Cons l ls)
  obtain ctx t ok where r: "run_steps w label (ln_source l # ln_settings l) (line_ctx w base l) rs = (ctx, t, ok)"
    by (cases "run_steps w label (ln_source l # ln_settings l) (line_ctx w base l) rs")
  have "list_all (\<lambda>n. stage_of (st_type n) = Config) (ln_settings l)" using Cons.prems by (simp add: list_all_iff)
  from run_line_adds [OF this, of rs w label "ln_source l" "line_ctx w base l"]
  obtain cs where cs: "rs_calls t = rs_calls rs @ cs" "list_all quiet_call cs"
    "length (filter (\<lambda>c. ca_method c = POST) cs) \<le> 1" unfolding r by (auto simp: adds_def triple_calls_def)
  show ?case
  proof (cases ok)
    case True
    obtain shs u ok' where rest: "run_lines w label base ls t = (shs, u, ok')" by (cases "run_lines w label base ls t")
    from Cons.IH [of t] Cons.prems obtain ds where "rs_calls u = rs_calls t @ ds" "list_all quiet_call ds"
      "length (filter (\<lambda>c. ca_method c = POST) ds) \<le> length ls" unfolding rest by auto
    then show ?thesis using cs True by (intro exI [of _ "cs @ ds"]) (simp add: r rest Let_def del: run_steps.simps)
  next
    case False
    then show ?thesis using cs by (intro exI [of _ cs]) (simp add: r Let_def del: run_steps.simps)
  qed
qed

lemma run_servers_calls [simp]: "rs_calls (fst (run_servers w label ss rs)) = rs_calls rs"
proof (induction ss arbitrary: rs)
  case (Cons s ss)
  obtain t ok where e: "end_step (wo_live w (rs_calls rs)) (label s) s (Inr ''Server picked.'') (setStep s StepRunning rs) = (t, ok)"
    by fastforce
  then have "rs_calls t = rs_calls rs" by (metis end_step_calls fst_conv setStep_calls)
  then show ?case using Cons.IH [of t] by (simp add: e split: bool.split)
qed simp


lemma run_resources_calls:
  assumes "st_type start = Start" "\<forall>l \<in> set (pl_lines p). \<forall>n \<in> set (ln_settings l). stage_of (st_type n) = Config"
    and "run_resources w p start rs = (base, shipped, rs', ok)"
  shows "\<exists>cs. rs_calls rs' = rs_calls rs @ cs \<and> list_all quiet_call cs \<and>
    length (filter (\<lambda>c. ca_method c = POST) cs) \<le> length (pl_lines p)"
proof -
  obtain b rs1 ok1 where o: "one_step w (label_of p) start empty_ctx rs = (b, rs1, ok1)"
    by (cases "one_step w (label_of p) start empty_ctx rs")
  have c1: "rs_calls rs1 = rs_calls rs"
    using one_step_calls [of w "label_of p" start empty_ctx rs] assms(1) o
    by (simp add: triple_calls_def step_run_def)
  obtain rs2 ok2 where s: "(if ok1 then run_servers w (label_of p) (line_servers p) rs1 else (rs1, False)) = (rs2, ok2)"
    by fastforce
  then have c2: "rs_calls rs2 = rs_calls rs"
    using c1 run_servers_calls [of w "label_of p" "line_servers p" rs1] by (metis fst_conv)
  show ?thesis
  proof (cases ok2)
    case True
    obtain shs u ok3 where r: "run_lines w (label_of p) b (pl_lines p) rs2 = (shs, u, ok3)"
      by (cases "run_lines w (label_of p) b (pl_lines p) rs2")
    then have "rs' = u" using assms(3) True by (simp add: run_resources_def o s)
    then show ?thesis using run_lines_calls [OF assms(2), of w "label_of p" b rs2] r c2 by simp
  next
    case False
    then have "rs' = rs2" using assms(3) by (simp add: run_resources_def o s)
    then show ?thesis using c2 by (intro exI [of _ "[]"]) simp
  qed
qed

lemma found_urls_calls:
  "found_urls api shs calls = (urls, calls') \<Longrightarrow> \<exists>cs. calls' = calls @ cs \<and> list_all (\<lambda>c. ca_method c = GET) cs"
proof (induction api shs calls arbitrary: urls calls' rule: found_urls.induct)
  case (2 api sh shs calls)
  let ?own = "split_urls (if the_str (cx_domains (sh_ctx sh)) \<noteq> [] then the_str (cx_domains (sh_ctx sh))
                          else the_str (cx_createdDomains (sh_ctx sh)))"
  obtain us mid where m: "(case cx_resource (sh_ctx sh) of
       Some (Application, uuid) \<Rightarrow>
         if ?own \<noteq> [] then (?own, calls)
         else (let c = \<lparr>ca_method = GET, ca_path = ''/applications/'' @ uuid, ca_body = None\<rparr>
               in (case api calls c of Inr app \<Rightarrow> split_urls (the_str (json_get_string app ''fqdn'')) | Inl _ \<Rightarrow> [], calls @ [c]))
     | _ \<Rightarrow> (?own, calls)) = (us, mid)" by fastforce
  obtain rest last' where r: "found_urls api shs mid = (rest, last')" by fastforce
  have "\<exists>ds. mid = calls @ ds \<and> list_all (\<lambda>c. ca_method c = GET) ds"
    using m by (auto simp: Let_def split: option.splits prod.splits resource_kind.splits if_splits)
  moreover have "calls' = last'" using 2(2) m r by (simp add: Let_def)
  moreover have "\<exists>es. last' = mid @ es \<and> list_all (\<lambda>c. ca_method c = GET) es" using 2(1) [OF refl refl m [symmetric] refl r] by simp
  ultimately show ?case by auto
qed simp

lemma finish_run_calls:
  assumes "e = finish_run w action d ok base shs ds rs c"
  shows "\<exists>cs. re_calls e = rs_calls rs @ cs \<and> list_all (\<lambda>c. ca_method c = GET) cs" "re_deploy_calls e = ds"
proof -
  obtain urls calls where u: "(if ok \<and> action = DeployAction then found_urls (wo_end_api w) shs (rs_calls rs) else ([], rs_calls rs)) = (urls, calls)"
    by fastforce
  then have "\<exists>cs. calls = rs_calls rs @ cs \<and> list_all (\<lambda>c. ca_method c = GET) cs"
    by (auto split: if_splits dest: found_urls_calls)
  then show "\<exists>cs. re_calls e = rs_calls rs @ cs \<and> list_all (\<lambda>c. ca_method c = GET) cs"
    unfolding assms finish_run_def Let_def u by simp
  show "re_deploy_calls e = ds" unfolding assms finish_run_def Let_def u by simp
qed

lemma set_row_states [simp]: "rs_states (rs\<lparr>rs_panel := r\<rparr>) = rs_states rs"
  by simp

lemma end_step_states: "i \<noteq> st_id n \<Longrightarrow> rs_states (fst (end_step live l n out rs)) i = rs_states rs i"
  by (simp add: end_step_def setStep_def Let_def split: sum.split)

lemma finish_run_states: "cv_runState (re_canvas (finish_run w action d ok base shs ds rs c)) = rs_states rs"
  by (simp add: finish_run_def Let_def split: prod.split)

text \<open>What follows the steps of the resources sends only reads besides the deployments, and starts these only
  when all went well.\<close>

definition quiet_end :: "run_action \<Rightarrow> bool \<Rightarrow> step \<Rightarrow> run_state \<Rightarrow> run_end \<Rightarrow> bool" where
  "quiet_end action ok d rs e \<longleftrightarrow>
     (\<exists>gets. re_calls e = rs_calls rs @ gets \<and> list_all (\<lambda>c. ca_method c = GET) gets) \<and>
     (re_deploy_calls e \<noteq> [] \<longrightarrow> ok \<and> action = DeployAction \<and>
        (\<forall>i. i \<noteq> st_id d \<longrightarrow> cv_runState (re_canvas e) i = rs_states rs i))"

lemma stop_run_quiet:
  "\<lbrakk>rs_calls rs' = rs_calls rs; ds \<noteq> [] \<longrightarrow> ok \<and> action = DeployAction \<and> (\<forall>i. i \<noteq> st_id d \<longrightarrow> rs_states rs' i = rs_states rs i)\<rbrakk>
   \<Longrightarrow> quiet_end action ok d rs (stop_run st rs' ds shipped c)"
  by (simp add: quiet_end_def stop_run_def)

lemma finish_run_quiet:
  "\<lbrakk>rs_calls rs' = rs_calls rs; ds \<noteq> [] \<longrightarrow> ok \<and> action = DeployAction \<and> (\<forall>i. i \<noteq> st_id d \<longrightarrow> rs_states rs' i = rs_states rs i)\<rbrakk>
   \<Longrightarrow> quiet_end action ok d rs (finish_run w a' d' ok' base shipped ds rs' c)"
  using finish_run_calls [OF refl, of w a' d' ok' base shipped ds rs' c]
  by (simp add: quiet_end_def finish_run_states)

lemma deploy_step_quiet:
  "quiet_end DeployAction True d rs (deploy_step fuel w label d base shipped rs c)"
proof -
  let ?rs1 = "setStep d StepRunning rs"
  obtain out ends r where a: "deployAll fuel (wo_num w) (wo_parse w) (wo_deploy_api w) (wo_deploy_live w) shipped (rs_panel ?rs1) = (out, ends, r)"
    by (cases "deployAll fuel (wo_num w) (wo_parse w) (wo_deploy_api w) (wo_deploy_live w) shipped (rs_panel ?rs1)")
  let ?rs2 = "?rs1\<lparr>rs_panel := r\<rparr>"
  have s: "rs_states ?rs2 i = rs_states rs i" if "i \<noteq> st_id d" for i using that by (simp add: setStep_def)
  show ?thesis
  proof (cases out)
    case None
    then show ?thesis unfolding deploy_step_def Let_def a using s by (auto intro!: stop_run_quiet)
  next
    case (Some out')
    obtain rs3 ok where e: "end_step (wo_end_live w) (label d) d out' ?rs2 = (rs3, ok)" by fastforce
    have "rs_calls rs3 = rs_calls rs" using end_step_calls [of "wo_end_live w" "label d" d out' ?rs2] e by simp
    moreover have "rs_states rs3 i = rs_states rs i" if "i \<noteq> st_id d" for i
      using end_step_states [OF that, of "wo_end_live w" "label d" out' ?rs2] e s [OF that] by simp
    ultimately show ?thesis
      unfolding deploy_step_def Let_def a Some using e by (auto intro!: stop_run_quiet finish_run_quiet)
  qed
qed

lemma save_step_quiet: "quiet_end SaveAction ok d rs (save_step w label d base shipped rs c)"
  by (auto simp: save_step_def Let_def end_step_def split: prod.split intro!: finish_run_quiet)

lemma after_resources_quiet: "quiet_end action ok d rs (after_resources fuel w action label d base shipped ok rs c)"
proof (cases "wo_live w (rs_calls rs)")
  case False
  then show ?thesis by (simp add: after_resources_def stop_run_quiet)
next
  case True
  let ?href = "run_href base (map sh_ctx shipped)"
  define rs1 where "rs1 = (if shipped \<noteq> []
      then rs\<lparr>rs_panel := (rs_panel rs)\<lparr>pn_showOpen := True, pn_openHref := ?href, pn_defaultHref := ?href\<rparr>\<rparr> else rs)"
  have same: "rs_calls rs1 = rs_calls rs" "rs_states rs1 = rs_states rs" by (simp_all add: rs1_def)
  then have keep: "quiet_end action ok d rs1 e = quiet_end action ok d rs e" for e by (simp add: quiet_end_def)
  have eq: "after_resources fuel w action label d base shipped ok rs c =
      (if \<not> ok then finish_run w action d False base shipped [] rs1 c
       else if action = SaveAction then save_step w label d base shipped rs1 c
       else deploy_step fuel w label d base shipped rs1 c)"
    using True by (simp add: after_resources_def Let_def rs1_def)
  have act: "action = DeployAction" if "action \<noteq> SaveAction" using that by (cases action) simp_all
  show ?thesis
    unfolding eq keep [symmetric]
    using deploy_step_quiet [of d rs1 fuel w label base shipped c] save_step_quiet [of True d rs1 w label base shipped c] act
    by (auto intro!: finish_run_quiet)
qed

lemma runFlow_shape:
  assumes "p = planOf (cv_flow c)"
  shows "(re_calls (runFlow fuel w action r0 c) = [] \<and> re_deploy_calls (runFlow fuel w action r0 c) = []) \<or>
    (\<exists>start d base shipped rs ok. pl_start p = Some start \<and> pl_deploy p = Some d \<and>
       run_resources w p start (begin_run action p d r0) = (base, shipped, rs, ok) \<and>
       quiet_end action ok d rs (runFlow fuel w action r0 c))"
proof -
  obtain problems marked where v: "validate p = (problems, marked)" by fastforce
  show ?thesis
  proof (cases "cv_running c = None \<and> problems = [] \<and> pl_start p \<noteq> None \<and> pl_deploy p \<noteq> None")
    case False
    then have "\<exists>c' r'. runFlow fuel w action r0 c = no_run c' r'"
      unfolding runFlow_def assms [symmetric] Let_def v by (auto split: option.split)
    then show ?thesis by (auto simp: no_run_def)
  next
    case True
    then obtain start d where sd: "pl_start p = Some start" "pl_deploy p = Some d" by auto
    obtain base shipped rs ok where r: "run_resources w p start (begin_run action p d r0) = (base, shipped, rs, ok)"
      by (cases "run_resources w p start (begin_run action p d r0)")
    have "runFlow fuel w action r0 c = after_resources fuel w action (label_of p) d base shipped ok rs
        ((closeMenu c)\<lparr>cv_running := Some action, cv_result := None, cv_deployed := False\<rparr>)"
      using True unfolding runFlow_def assms [symmetric] Let_def v by (simp add: sd r)
    then show ?thesis using sd r after_resources_quiet by auto
  qed
qed

text \<open>C22: On every flow that edits can build a run creates at most one resource per resource line, each with
  \<open>instant_deploy\<close> off, and otherwise only changes and reads: no call before the deploy step deploys. With
  "Save only" no deployment is started at all.\<close>

theorem run_calls_are_quiet:
  assumes "canvas_reach dims c" and e_def: "runFlow fuel w action r0 c = e"
  shows "(\<forall>x \<in> set (re_calls e). ca_method x = GET \<or> quiet_call x) \<and>
    length (filter (\<lambda>x. ca_method x = POST) (re_calls e)) \<le> length (pl_lines (planOf (cv_flow c))) \<and>
    (action = SaveAction \<longrightarrow> re_deploy_calls e = [])"
  using runFlow_shape [OF refl, of fuel w action r0 c]
proof
  assume "re_calls (runFlow fuel w action r0 c) = [] \<and> re_deploy_calls (runFlow fuel w action r0 c) = []"
  then show ?thesis by (simp add: e_def)
next
  let ?p = "planOf (cv_flow c)"
  assume "\<exists>start d base shipped rs ok. pl_start ?p = Some start \<and> pl_deploy ?p = Some d \<and>
       run_resources w ?p start (begin_run action ?p d r0) = (base, shipped, rs, ok) \<and>
       quiet_end action ok d rs (runFlow fuel w action r0 c)"
  then obtain start d base shipped rs ok where r: "pl_start ?p = Some start"
    "run_resources w ?p start (begin_run action ?p d r0) = (base, shipped, rs, ok)" "quiet_end action ok d rs e"
    by (auto simp: e_def)
  have "st_type start = Start"
    using cards.reach_ok [OF assms(1)] r(1) nodeById_Some [of START_ID "cv_flow c" start]
    by (auto simp: canvas_ok_def tree_def core_def planOf_def Let_def)
  moreover have "\<forall>l \<in> set (pl_lines ?p). \<forall>n \<in> set (ln_settings l). stage_of (st_type n) = Config"
    using plan_settings [OF assms(1)] by blast
  ultimately obtain cs where cs: "rs_calls rs = cs" "list_all quiet_call cs"
    "length (filter (\<lambda>x. ca_method x = POST) cs) \<le> length (pl_lines ?p)"
    using run_resources_calls [OF _ _ r(2)] by (auto simp: begin_run_def)
  obtain gets where g: "re_calls e = cs @ gets" "list_all (\<lambda>x. ca_method x = GET) gets"
    using r(3) cs(1) by (auto simp: quiet_end_def)
  have "filter (\<lambda>x. ca_method x = POST) gets = []" using g(2) by (auto simp: list_all_iff filter_empty_conv)
  moreover have "action = SaveAction \<longrightarrow> re_deploy_calls e = []" using r(3) by (auto simp: quiet_end_def)
  ultimately show ?thesis using g cs by (auto simp: list_all_iff)
qed


text \<open>A sample run: the Git step of the sample canvas with the required fields filled in, and a world in which
  every call succeeds.\<close>

definition ready_canvas :: canvas where
  "ready_canvas =
     setField ''g1'' 1 ''https://a.b/c'' (setField SERVER_ID 0 ''s1''
       (setField START_ID 1 ''e1'' (setField START_ID 0 ''p1'' sample_canvas)))"

lemma ready_reach: "canvas_reach sample_sizes ready_canvas"
  unfolding ready_canvas_def by (intro canvas_reach.step [OF _ canvas_step.set_field] sample_reach)

definition sample_answer :: json where
  "sample_answer =
     JObj [(''uuid'', JStr ''r1''), (''status'', JStr ''finished''), (''logs'', JStr ''[]''), (''fqdn'', JStr ''https://a.b''),
           (''deployments'', JArr [JObj [(''message'', JStr ''Queued.''), (''deployment_uuid'', JStr ''d1'')]])]"

definition sample_world :: world where
  "sample_world =
     \<lparr>wo_api = (\<lambda>_ _. Inr sample_answer), wo_live = (\<lambda>_. True), wo_deploy_api = (\<lambda>_ _ _. Inr sample_answer),
      wo_deploy_live = (\<lambda>_ _. True), wo_end_api = (\<lambda>_ _. Inr sample_answer), wo_end_live = True,
      wo_num = (\<lambda>_. []), wo_parse = (\<lambda>_. Some (JArr []))\<rparr>"

definition sample_end :: run_end where
  "sample_end = runFlow 1 sample_world DeployAction emptyRun ready_canvas"

lemma sample_end_calls:
  "map ca_path (re_calls sample_end) = [''/applications/public'', ''/applications/r1'']"
  by code_simp

lemma sample_end_deploys:
  "map (map ca_path) (re_deploy_calls sample_end) = [[''/deploy'', ''/deployments/d1'']]"
  by code_simp

theorem run_calls_are_quiet_witness:
  "\<exists>x y. re_calls sample_end = [x, y] \<and> quiet_call x \<and> ca_method y = GET"
proof -
  obtain x y where xy: "re_calls sample_end = [x, y]" using sample_end_calls by (auto simp: Cons_eq_map_conv map_eq_Cons_conv)
  have m: "map ca_method (re_calls sample_end) = [POST, GET]" by code_simp
  show ?thesis
    using run_calls_are_quiet [OF ready_reach, of 1 sample_world DeployAction emptyRun sample_end] xy m
    by (auto simp: sample_end_def)
qed

section \<open>Nothing is deployed unless every step succeeded\<close>

text \<open>The steps that are done, by their ids.\<close>

definition finished :: "run_state \<Rightarrow> jstring set" where
  "finished rs = {i. \<exists>m. rs_states rs i = Some (StepDone m)}"

lemma end_step_finished:
  assumes "end_step live l n out (rs\<lparr>rs_calls := cs\<rparr>) = (t, True) \<or> end_step live l n out rs = (t, True)"
  shows "insert (st_id n) (finished rs) \<subseteq> finished t"
  using assms by (auto simp: end_step_def setStep_def finished_def Let_def split: if_splits sum.splits)

lemma setStep_finished: "finished rs - {st_id n} \<subseteq> finished (setStep n st rs)"
  by (auto simp: finished_def setStep_def)

lemma one_step_finished:
  assumes "one_step w l n ctx rs = (ctx', t, True)"
  shows "insert (st_id n) (finished rs) \<subseteq> finished t"
proof -
  obtain ctx'' calls out where s: "step_run (wo_api w) (st_type n) (st_data n) ctx (rs_calls rs) = (ctx'', calls, out)"
    by (cases "step_run (wo_api w) (st_type n) (st_data n) ctx (rs_calls rs)")
  have "end_step (wo_live w calls) (l n) n out ((setStep n StepRunning rs)\<lparr>rs_calls := calls\<rparr>) = (t, True)"
    using assms by (simp add: one_step_def s Let_def split: prod.splits)
  then show ?thesis using end_step_finished setStep_finished [of rs n StepRunning] by fast
qed

lemma run_steps_finished:
  "run_steps w l ns ctx rs = (ctx', t, True) \<Longrightarrow> st_id ` set ns \<union> finished rs \<subseteq> finished t"
proof (induction ns arbitrary: ctx rs)
  case (Cons n ns)
  then obtain ctx1 t1 where o: "one_step w l n ctx rs = (ctx1, t1, True)" "run_steps w l ns ctx1 t1 = (ctx', t, True)"
    by (auto split: prod.splits bool.splits)
  show ?case using one_step_finished [OF o(1)] Cons.IH [OF o(2)] by auto
qed simp

lemma run_servers_finished:
  "run_servers w l ss rs = (t, True) \<Longrightarrow> st_id ` set ss \<union> finished rs \<subseteq> finished t"
proof (induction ss arbitrary: rs)
  case (Cons s ss)
  then obtain t1 where o: "end_step (wo_live w (rs_calls rs)) (l s) s (Inr ''Server picked.'') (setStep s StepRunning rs) = (t1, True)"
    "run_servers w l ss t1 = (t, True)" by (auto split: prod.splits bool.splits)
  have "insert (st_id s) (finished rs) \<subseteq> finished t1"
    using end_step_finished [OF disjI2, OF o(1)] setStep_finished [of rs s StepRunning] by blast
  then show ?case using Cons.IH [OF o(2)] by auto
qed simp

lemma run_lines_finished:
  "run_lines w l base ls rs = (shs, t, True) \<Longrightarrow>
   st_id ` set (concat (map (\<lambda>l. ln_source l # ln_settings l) ls)) \<union> finished rs \<subseteq> finished t"
proof (induction ls arbitrary: rs shs)
  case (Cons x ls)
  obtain ctx t1 ok where r: "run_steps w l (ln_source x # ln_settings x) (line_ctx w base x) rs = (ctx, t1, ok)"
    by (cases "run_steps w l (ln_source x # ln_settings x) (line_ctx w base x) rs")
  from Cons.prems obtain shs' where s: "ok" "run_lines w l base ls t1 = (shs', t, True)"
    by (auto simp: r Let_def simp del: run_steps.simps split: if_splits prod.splits)
  have "st_id ` set (ln_source x # ln_settings x) \<union> finished rs \<subseteq> finished t1"
    by (rule run_steps_finished [OF r [unfolded eqTrueI [OF s(1)]]])
  then show ?case using Cons.IH [OF s(2)] by auto
qed simp

lemma run_resources_finished:
  assumes "pl_start p = Some start" "run_resources w p start rs = (base, shipped, t, True)"
  shows "st_id ` set (run_order p) \<subseteq> finished t"
proof -
  obtain rs1 where a: "one_step w (label_of p) start empty_ctx rs = (base, rs1, True)"
    using assms(2) by (auto simp: run_resources_def Let_def split: if_splits prod.splits)
  obtain rs2 where b: "run_servers w (label_of p) (line_servers p) rs1 = (rs2, True)"
    using assms(2) a by (auto simp: run_resources_def Let_def split: if_splits prod.splits)
  have c: "run_lines w (label_of p) base (pl_lines p) rs2 = (shipped, t, True)"
    using assms(2) a b by (auto simp: run_resources_def Let_def split: if_splits prod.splits)
  show ?thesis
    using one_step_finished [OF a] run_servers_finished [OF b] run_lines_finished [OF c]
    unfolding run_order_def assms(1) option.case set_append image_Un by auto
qed


lemma step_run_resource:
  assumes "step_run api t d ctx calls = (ctx', calls', Inr m)"
  shows "(stage_of t = Source \<longrightarrow> cx_resource ctx' \<noteq> None) \<and> (stage_of t = Config \<longrightarrow> cx_resource ctx' = cx_resource ctx)"
  using assms
  by (cases t) (auto simp: step_run_def run_defs create_def patch_def Let_def split: option.splits sum.splits if_splits)

lemma one_step_resource:
  assumes "one_step w l n ctx rs = (ctx', t, True)"
  shows "(stage_of (st_type n) = Source \<longrightarrow> cx_resource ctx' \<noteq> None) \<and>
    (stage_of (st_type n) = Config \<longrightarrow> cx_resource ctx' = cx_resource ctx)"
proof -
  obtain ctx'' calls out where s: "step_run (wo_api w) (st_type n) (st_data n) ctx (rs_calls rs) = (ctx'', calls, out)"
    by (cases "step_run (wo_api w) (st_type n) (st_data n) ctx (rs_calls rs)")
  have e: "end_step (wo_live w calls) (l n) n out ((setStep n StepRunning rs)\<lparr>rs_calls := calls\<rparr>) = (t, True)" "ctx'' = ctx'"
    using assms by (simp_all add: one_step_def s Let_def split: prod.splits)
  then obtain m where "out = Inr m" by (auto simp: end_step_def Let_def split: if_splits sum.splits)
  then show ?thesis using step_run_resource [of _ "st_type n"] s e(2) by blast
qed

lemma run_settings_resource:
  "\<lbrakk>run_steps w l ns ctx rs = (ctx', t, True); \<forall>n \<in> set ns. stage_of (st_type n) = Config\<rbrakk>
   \<Longrightarrow> cx_resource ctx' = cx_resource ctx"
proof (induction ns arbitrary: ctx rs)
  case (Cons n ns)
  then obtain ctx1 t1 where o: "one_step w l n ctx rs = (ctx1, t1, True)" "run_steps w l ns ctx1 t1 = (ctx', t, True)"
    by (auto split: prod.splits bool.splits)
  show ?case using one_step_resource [OF o(1)] Cons.IH [OF o(2)] Cons.prems(2) by simp
qed simp

lemma run_lines_shipped:
  assumes "run_lines w l base ls rs = (shs, t, True)"
    "\<forall>x \<in> set ls. stage_of (st_type (ln_source x)) = Source \<and> (\<forall>n \<in> set (ln_settings x). stage_of (st_type n) = Config)"
  shows "map sh_key shs = map (\<lambda>x. st_id (ln_source x)) ls \<and> (\<forall>sh \<in> set shs. cx_resource (sh_ctx sh) \<noteq> None)"
  using assms
proof (induction ls arbitrary: rs shs)
  case (Cons x ls)
  obtain ctx1 t1 where a: "one_step w l (ln_source x) (line_ctx w base x) rs = (ctx1, t1, True)"
    using Cons.prems(1) by (auto simp: Let_def split: if_splits prod.splits bool.splits)
  obtain ctx t2 where b: "run_steps w l (ln_settings x) ctx1 t1 = (ctx, t2, True)"
    using Cons.prems(1) a by (auto simp: Let_def split: if_splits prod.splits)
  have "cx_resource ctx \<noteq> None"
    using one_step_resource [OF a] run_settings_resource [OF b] Cons.prems(2) by simp
  moreover from this obtain shs' where "run_lines w l base ls t2 = (shs', t, True)"
    "shs = \<lparr>sh_key = st_id (ln_source x), sh_ctx = ctx, sh_label = l (ln_source x)\<rparr> # shs'"
    using Cons.prems(1) a b by (auto simp: Let_def split: prod.splits)
  ultimately show ?case using Cons.IH [of t2 shs'] Cons.prems(2) by simp
qed simp

subsection \<open>The calls of the deployments\<close>

lemma log_lines_calls: "fst (follow_poll num parse api live label uuid key s) = out \<Longrightarrow>
  \<exists>gets. fw_calls (snd (follow_poll num parse api live label uuid key s)) = fw_calls s @ gets \<and>
    list_all (\<lambda>x. ca_method x = GET) gets"
  by (simp add: follow_poll_def Let_def split: sum.split option.split)

lemma follow_calls:
  "\<exists>gets. fw_calls (snd (followDeployment fuel num parse api live label uuid key s)) = fw_calls s @ gets \<and>
    list_all (\<lambda>x. ca_method x = GET) gets"
proof (induction fuel arbitrary: s)
  case (Suc fuel)
  obtain out t where p: "follow_poll num parse api live label uuid key s = (out, t)" by fastforce
  obtain gets where g: "fw_calls t = fw_calls s @ gets" "list_all (\<lambda>x. ca_method x = GET) gets"
    using log_lines_calls [OF refl, of num parse api live label uuid key s] p by auto
  show ?case
  proof (cases out)
    case None
    then show ?thesis using Suc.IH [of t] g p by auto
  next
    case (Some r)
    then show ?thesis using g p by auto
  qed
qed simp

text \<open>A resource is deployed by one call, and then only watched.\<close>

definition deploys_once :: "shipment \<Rightarrow> call list \<Rightarrow> bool" where
  "deploys_once sh calls \<longleftrightarrow> (\<exists>gets. calls = deploy_calls sh # gets \<and> list_all (\<lambda>x. ca_method x = GET) gets)"

lemma follow_result:
  "(case F of
      (None, s) \<Rightarrow> (None, c, fw_calls s, fw_panel s)
    | (Some (Inl e), s) \<Rightarrow> (Some (Inl e), c, fw_calls s, g s e)
    | (Some (Inr m), s) \<Rightarrow>
        if \<not> P s then (Some (Inr m), c, fw_calls s, fw_panel s) else (Some (Inr (h m)), c, fw_calls s, k s m)) =
   (out, ctx, calls, r) \<Longrightarrow> calls = fw_calls (snd F) \<and> ctx = c"
  by (auto split: prod.splits option.splits sum.splits if_splits)

lemma deploy_one_calls:
  assumes "deploy_one fuel num parse api live sh r0 = (out, ctx, calls, r)"
  shows "deploys_once sh calls \<and> cx_resource ctx = cx_resource (sh_ctx sh)"
proof -
  have keep: "deploys_once sh (fw_calls (snd (followDeployment fuel num parse api live l u k (start_follow [deploy_calls sh] u k r2))))"
    for l u k r2
    using follow_calls [of fuel num parse api live l u k "start_follow [deploy_calls sh] u k r2"]
    by (auto simp: start_follow_def deploys_once_def)
  have one: "deploys_once sh [deploy_calls sh]" by (simp add: deploys_once_def)
  show ?thesis
  proof (cases "api [] (deploy_calls sh)")
    case (Inl e)
    then show ?thesis using assms one by (auto simp: deploy_one_def Let_def)
  next
    case (Inr res)
    have "calls = [deploy_calls sh] \<and> ctx = sh_ctx sh \<or>
      (\<exists>l u k r2. calls = fw_calls (snd (followDeployment fuel num parse api live l u k (start_follow [deploy_calls sh] u k r2)))
         \<and> ctx = (sh_ctx sh)\<lparr>cx_deployment := Some u\<rparr>)"
      using assms unfolding deploy_one_def Let_def Inr sum.case
      apply (cases "\<not> live [deploy_calls sh]", simp)
      apply (cases "item_string (first_deployment res) ''deployment_uuid'' = []", simp)
      apply (simp only: if_False simp_thms)
      apply (drule follow_result)
      apply (intro disjI2 exI)
      apply (erule conjE)
      apply (rule conjI, assumption, assumption)
      done
    then show ?thesis using keep one by auto
  qed
qed

lemma deploy_each_calls:
  "deploy_each fuel num parse api_of live_of k shs r = (outs, r') \<Longrightarrow>
   list_all2 (\<lambda>sh (out, ctx, calls). deploys_once sh calls \<and> cx_resource ctx = cx_resource (sh_ctx sh)) shs outs"
proof (induction shs arbitrary: k r outs r')
  case (Cons sh shs)
  obtain out ctx calls r1 where a: "deploy_one fuel num parse (api_of k) (live_of k) sh r = (out, ctx, calls, r1)"
    by (metis prod_cases4)
  obtain outs' r2 where b: "deploy_each fuel num parse api_of live_of (k + 1) shs r1 = (outs', r2)" by fastforce
  show ?case using Cons.prems Cons.IH [OF b] deploy_one_calls [OF a] a b by auto
qed simp

lemma deployAll_calls:
  assumes "deployAll fuel num parse api_of live_of shs r = (out, ends, r')"
  shows "list_all2 (\<lambda>sh (ctx, calls). deploys_once sh calls \<and> cx_resource ctx = cx_resource (sh_ctx sh)) shs ends"
proof -
  obtain results r1 where d: "deploy_each fuel num parse api_of live_of 0 shs (open_tabs shs r) = (results, r1)" by fastforce
  have "ends = map snd results" using assms d by (simp add: deployAll_def Let_def)
  then show ?thesis using deploy_each_calls [OF d] by (auto simp: list_all2_map2 elim!: list_all2_mono)
qed


subsection \<open>The deploy step\<close>

definition deploys_of :: "nat \<Rightarrow> world \<Rightarrow> run_end \<Rightarrow> shipment list \<Rightarrow> bool" where
  "deploys_of fuel w e shipped \<longleftrightarrow>
     (\<exists>r out ends r'. deployAll fuel (wo_num w) (wo_parse w) (wo_deploy_api w) (wo_deploy_live w) shipped r = (out, ends, r') \<and>
        re_deploy_calls e = map snd ends \<and> re_shipped e = map2 (\<lambda>sh (ctx, _). sh\<lparr>sh_ctx := ctx\<rparr>) shipped ends)"

lemma deploys_of_calls:
  assumes "deploys_of fuel w e shipped"
  shows "map sh_key (re_shipped e) = map sh_key shipped \<and> list_all2 deploys_once (re_shipped e) (re_deploy_calls e)"
proof -
  obtain r out ends r' where d: "deployAll fuel (wo_num w) (wo_parse w) (wo_deploy_api w) (wo_deploy_live w) shipped r = (out, ends, r')"
    "re_deploy_calls e = map snd ends" "re_shipped e = map2 (\<lambda>sh (ctx, _). sh\<lparr>sh_ctx := ctx\<rparr>) shipped ends"
    using assms by (auto simp: deploys_of_def)
  have "map sh_key (map2 (\<lambda>sh (ctx, _). sh\<lparr>sh_ctx := ctx\<rparr>) shipped ends) = map sh_key shipped \<and>
    list_all2 deploys_once (map2 (\<lambda>sh (ctx, _). sh\<lparr>sh_ctx := ctx\<rparr>) shipped ends) (map snd ends)"
    using deployAll_calls [OF d(1)]
    by (induction rule: list_all2_induct) (auto simp: deploys_once_def deploy_calls_def)
  then show ?thesis using d by simp
qed

lemma finish_run_fields [simp]:
  "re_deploy_calls (finish_run w a d ok b shs ds rs c) = ds" "re_shipped (finish_run w a d ok b shs ds rs c) = shs"
  by (simp_all add: finish_run_def Let_def split: prod.split)

lemma deploy_step_deploys: "deploys_of fuel w (deploy_step fuel w l d b shipped rs c) shipped"
proof -
  let ?rs1 = "setStep d StepRunning rs"
  obtain out ends r where a: "deployAll fuel (wo_num w) (wo_parse w) (wo_deploy_api w) (wo_deploy_live w) shipped (rs_panel ?rs1) = (out, ends, r)"
    by (cases "deployAll fuel (wo_num w) (wo_parse w) (wo_deploy_api w) (wo_deploy_live w) shipped (rs_panel ?rs1)")
  have "re_deploy_calls (deploy_step fuel w l d b shipped rs c) = map snd ends \<and>
    re_shipped (deploy_step fuel w l d b shipped rs c) = map2 (\<lambda>sh (ctx, _). sh\<lparr>sh_ctx := ctx\<rparr>) shipped ends"
    unfolding deploy_step_def Let_def a by (simp add: stop_run_def split: option.split prod.split)
  then show ?thesis unfolding deploys_of_def using a by blast
qed

lemma after_resources_deploys:
  assumes "re_deploy_calls (after_resources fuel w action l d b shipped ok rs c) \<noteq> []"
  shows "ok \<and> deploys_of fuel w (after_resources fuel w action l d b shipped ok rs c) shipped"
proof (cases "wo_live w (rs_calls rs) \<and> ok \<and> action \<noteq> SaveAction")
  case True
  then obtain rs1 where "after_resources fuel w action l d b shipped ok rs c = deploy_step fuel w l d b shipped rs1 c"
    by (simp add: after_resources_def Let_def)
  then show ?thesis using True deploy_step_deploys by simp
next
  case False
  then show ?thesis
    using assms by (auto simp: after_resources_def Let_def stop_run_def save_step_def split: if_splits prod.splits)
qed

lemma runFlow_deploys:
  assumes "p = planOf (cv_flow c)" "re_deploy_calls (runFlow fuel w action r0 c) \<noteq> []"
  shows "\<exists>start d base shipped rs. pl_start p = Some start \<and> pl_deploy p = Some d \<and>
     run_resources w p start (begin_run action p d r0) = (base, shipped, rs, True) \<and>
     deploys_of fuel w (runFlow fuel w action r0 c) shipped \<and> quiet_end action True d rs (runFlow fuel w action r0 c)"
proof -
  obtain problems marked where v: "validate p = (problems, marked)" by fastforce
  have go: "cv_running c = None \<and> problems = [] \<and> pl_start p \<noteq> None \<and> pl_deploy p \<noteq> None"
    using assms(2) unfolding runFlow_def assms(1) [symmetric] Let_def v by (auto simp: no_run_def split: if_splits option.splits)
  then obtain start d where sd: "pl_start p = Some start" "pl_deploy p = Some d" by auto
  obtain base shipped rs ok where r: "run_resources w p start (begin_run action p d r0) = (base, shipped, rs, ok)"
    by (cases "run_resources w p start (begin_run action p d r0)")
  have eq: "runFlow fuel w action r0 c = after_resources fuel w action (label_of p) d base shipped ok rs
        ((closeMenu c)\<lparr>cv_running := Some action, cv_result := None, cv_deployed := False\<rparr>)"
    using go unfolding runFlow_def assms(1) [symmetric] Let_def v by (simp add: sd r)
  show ?thesis
    using sd r after_resources_deploys assms(2) after_resources_quiet unfolding eq by fastforce
qed

text \<open>The steps before the deploy step are other steps.\<close>

lemma deploy_not_before:
  assumes "canvas_reach dims c" "pl_deploy (planOf (cv_flow c)) = Some d" "n \<in> set (run_order (planOf (cv_flow c)))"
  shows "st_id n \<noteq> st_id d"
proof
  let ?f = "cv_flow c" and ?p = "planOf (cv_flow c)"
  assume same: "st_id n = st_id d"
  have ok: "forest ?f" "core ?f" using cards.reach_ok [OF assms(1)] by (simp_all add: canvas_ok_def tree_def)
  have d: "d \<in> set (fl_nodes ?f)" "st_type d = Deploy"
    using assms(2) by (auto simp: planOf_def Let_def find_Some_iff)
  have start: "m \<in> set (fl_nodes ?f) \<and> st_type m = Start" if m: "pl_start ?p = Some m" for m
    using m ok(2) nodeById_Some [of START_ID ?f m] by (auto simp: planOf_def Let_def core_def)
  have server: "m \<in> set (fl_nodes ?f) \<and> st_type m = Server" if m: "m \<in> set (line_servers ?p)" for m
  proof -
    have sub: "set (foldr (\<lambda>s ss. s # filter (\<lambda>t. st_id t \<noteq> st_id s) ss) xs []) \<subseteq> set xs" for xs :: "step list"
      by (induction xs) auto
    then obtain l where l: "l \<in> set (pl_lines ?p)" "m = ln_server l" using m by (fastforce simp: line_servers_def)
    then obtain s i where s: "plan_line ?f s i = Some l" "s \<in> set (pl_servers ?p)"
    proof -
      have "pl_lines ?p = concat (map (\<lambda>s. List.map_filter (plan_line ?f s) (outsOf (st_id s) ?f)) (pl_servers ?p))"
        by (simp add: planOf_def Let_def)
      then have "\<exists>s i. s \<in> set (pl_servers ?p) \<and> plan_line ?f s i = Some l"
        using l(1) by (auto simp: map_filter_def) blast
      then show thesis using that by blast
    qed
    then have "m = s" using plan_line_Some(4) l(2) by simp
    then show ?thesis using s(2) nodeById_Some by (fastforce simp: planOf_def Let_def map_filter_def)
  qed
  have line: "m \<in> set (fl_nodes ?f) \<and> stage_of (st_type m) \<in> {Source, Config}"
    if m: "l \<in> set (pl_lines ?p)" "m \<in> set (ln_source l # ln_settings l)" for l m
  proof -
    have "m \<in> set (in_tree ?f)" using m by (auto simp: in_tree_def Let_def)
    then show ?thesis using cards.in_tree_nodes plan_lines_stages [OF assms(1)] m by auto
  qed
  consider "pl_start ?p = Some n" | "n \<in> set (line_servers ?p)" | l where "l \<in> set (pl_lines ?p)" "n \<in> set (ln_source l # ln_settings l)"
    using assms(3) by (auto simp: run_order_def split: option.splits)
  then have "n \<in> set (fl_nodes ?f) \<and> st_type n \<noteq> Deploy"
    by cases (use start server line in \<open>fastforce+\<close>)
  then show False using same_step [OF ok(1) _ d(1) same] d(2) by auto
qed

text \<open>C23: A deployment is only started when everything before it succeeded: if a run starts one, then it was
  started with "Deploy", every step of the plan - Start, the servers, every source and every setting - ended
  done, and the resource of every line is deployed by exactly one deploy call, in the order of the plan; all
  further calls only read.\<close>

theorem deployed_after_all_steps:
  assumes "canvas_reach dims c" "runFlow fuel w action r0 c = e" "re_deploy_calls e \<noteq> []"
  defines "p \<equiv> planOf (cv_flow c)"
  shows "action = DeployAction \<and>
    (\<forall>n \<in> set (run_order p). \<exists>m. cv_runState (re_canvas e) (st_id n) = Some (StepDone m)) \<and>
    map sh_key (re_shipped e) = map (\<lambda>l. st_id (ln_source l)) (pl_lines p) \<and>
    list_all2 deploys_once (re_shipped e) (re_deploy_calls e)"
proof -
  obtain start d base shipped rs where r: "pl_start p = Some start" "pl_deploy p = Some d"
    "run_resources w p start (begin_run action p d r0) = (base, shipped, rs, True)" "deploys_of fuel w e shipped"
    "quiet_end action True d rs e"
    using runFlow_deploys [of p c fuel w action r0] assms(2,3) p_def by auto
  have "\<exists>m. cv_runState (re_canvas e) (st_id n) = Some (StepDone m)" if n: "n \<in> set (run_order p)" for n
  proof -
    have "st_id n \<in> finished rs" using run_resources_finished [OF r(1,3)] n by blast
    moreover have "st_id n \<noteq> st_id d" using deploy_not_before [OF assms(1)] r(2) n by (simp add: p_def)
    ultimately show ?thesis using r(5) assms(3) by (auto simp: quiet_end_def finished_def)
  qed
  moreover have "map sh_key shipped = map (\<lambda>l. st_id (ln_source l)) (pl_lines p)"
  proof -
    obtain rs2 where "run_lines w (label_of p) base (pl_lines p) rs2 = (shipped, rs, True)"
      using r(3) by (auto simp: run_resources_def Let_def split: if_splits prod.splits)
    then show ?thesis using run_lines_shipped plan_lines_stages [OF assms(1)] by (simp add: p_def)
  qed
  moreover have "action = DeployAction" using r(5) assms(3) by (simp add: quiet_end_def)
  ultimately show ?thesis using deploys_of_calls [OF r(4)] by simp
qed

theorem deployed_after_all_steps_witness:
  "map sh_key (re_shipped sample_end) = [''g1''] \<and>
   list_all2 deploys_once (re_shipped sample_end) (re_deploy_calls sample_end)"
proof -
  have "re_deploy_calls sample_end \<noteq> []" using sample_end_deploys by auto
  moreover have "map (\<lambda>l. st_id (ln_source l)) (pl_lines (planOf (cv_flow ready_canvas))) = [''g1'']" by code_simp
  ultimately show ?thesis
    using deployed_after_all_steps [OF ready_reach, of 1 sample_world DeployAction emptyRun sample_end]
    by (simp add: sample_end_def)
qed

end
