(* ===== verification/Env_Graph.thy ===== *)
theory Env_Graph
  imports Canvas_Core
begin

text \<open>
  The graph of the environment canvas and where its cards go, the first part of
  \<open>resources/js/environment-canvas.js\<close>: zones, card heights, the grids of the environment, server and
  connect views, and the sort order of \<open>resources/js/environment-order.js\<close>. Coordinates of saved places are the
  values of \<open>Number(...)\<close>, \<open>None\<close> where it is not finite; \<open>localeCompare\<close> is an argument.
\<close>

section \<open>Constants\<close>

definition CARD_WIDTH :: real where "CARD_WIDTH = 260"
definition COLUMN_GAP :: real where "COLUMN_GAP = 48"
definition ROW_GAP :: real where "ROW_GAP = 24"
definition ZONE_GAP :: real where "ZONE_GAP = 72"
definition ZONE_PADDING :: real where "ZONE_PADDING = 24"
definition ZONE_HEADER :: real where "ZONE_HEADER = 40"
definition SERVER_ZONE_HEADER :: real where "SERVER_ZONE_HEADER = 68"
definition SERVER_ZONE_MIN_WIDTH :: real where "SERVER_ZONE_MIN_WIDTH = 560"
definition MAX_CHILDREN :: nat where "MAX_CHILDREN = 5"
definition MAX_ROWS :: nat where "MAX_ROWS = 6"
definition NO_SERVER :: jstring where "NO_SERVER = ''No server''"
definition SOURCES_ZONE :: jstring where "SOURCES_ZONE = ''sources''"
definition CONNECTED_ZONE :: jstring where "CONNECTED_ZONE = ''connected''"
definition GROUP_PADDING :: real where "GROUP_PADDING = 16"
definition GROUP_HEADER :: real where "GROUP_HEADER = 32"
definition GROUP_GAP :: real where "GROUP_GAP = 32"
definition GROUPS_PER_ROW :: nat where "GROUPS_PER_ROW = 3"
definition SINGLE_COLUMNS :: nat where "SINGLE_COLUMNS = 3"

lemmas env_constants = CARD_WIDTH_def COLUMN_GAP_def ROW_GAP_def ZONE_GAP_def ZONE_PADDING_def ZONE_HEADER_def
  SERVER_ZONE_HEADER_def SERVER_ZONE_MIN_WIDTH_def MAX_CHILDREN_def MAX_ROWS_def GROUP_PADDING_def GROUP_HEADER_def
  GROUP_GAP_def GROUPS_PER_ROW_def SINGLE_COLUMNS_def

section \<open>The graph\<close>

datatype card_type = ApplicationCard | ServiceCard | DatabaseCard | ContainerCard | EmptyCard | VariableCard | TagCard

type_synonym point = "real \<times> real"

record raw_point =
  rp_x :: "real option"
  rp_y :: "real option"

record named_ref =
  rf_uuid :: jstring
  rf_name :: jstring

record card =
  cd_id :: jstring
  cd_type :: card_type
  cd_name :: jstring
  cd_zone :: "jstring option"
  cd_extra_zones :: "jstring list"
  cd_urls :: "jstring list"
  cd_security :: "jstring option"
  cd_children :: nat
  cd_status :: "jstring option"
  cd_context :: "jstring option"
  cd_context_link :: "jstring option"
  cd_project :: "named_ref option"
  cd_environment :: "named_ref option"
  cd_saved :: "raw_point option"
  cd_missing :: bool

record zone =
  zn_id :: jstring
  zn_name :: jstring
  zn_details :: bool
  zn_position :: "raw_point option"
  zn_icon :: bool
  zn_reachable :: "bool option"

record link =
  lk_id :: jstring
  lk_source :: jstring
  lk_target :: jstring
  lk_label :: "jstring option"
  lk_missing :: bool

datatype layout = EnvironmentLayout | ServerLayout | ConnectLayout

record graph =
  gr_layout :: layout
  gr_zones :: "zone list"
  gr_nodes :: "card list"
  gr_links :: "link list"
  gr_positions :: "jstring \<Rightarrow> raw_point option"

definition isSource :: "card \<Rightarrow> bool" where
  "isSource n \<longleftrightarrow> cd_type n = VariableCard \<or> cd_type n = TagCard"

definition columnOf :: "card \<Rightarrow> nat" where
  "columnOf n = (case cd_type n of ServiceCard \<Rightarrow> 1 | DatabaseCard \<Rightarrow> 2 | _ \<Rightarrow> 0)"

definition columnLeft :: "real \<Rightarrow> nat \<Rightarrow> real" where
  "columnLeft originX column = originX + real column * (CARD_WIDTH + COLUMN_GAP)"

text \<open>\<open>isPoint\<close>, with the point.\<close>

definition point_of :: "raw_point option \<Rightarrow> point option" where
  "point_of p =
     (case p of
        Some q \<Rightarrow> (case (rp_x q, rp_y q) of (Some x, Some y) \<Rightarrow> Some (x, y) | _ \<Rightarrow> None)
      | None \<Rightarrow> None)"

definition isPoint :: "raw_point option \<Rightarrow> bool" where
  "isPoint p \<longleftrightarrow> point_of p \<noteq> None"

definition zoneHeader :: "zone option \<Rightarrow> real" where
  "zoneHeader z = (case z of Some z \<Rightarrow> if zn_details z then SERVER_ZONE_HEADER else ZONE_HEADER | None \<Rightarrow> ZONE_HEADER)"

definition estimateNodeHeight :: "card \<Rightarrow> real" where
  "estimateNodeHeight n =
     58 + (if cd_urls n \<noteq> [] then 20 else 0) +
     (if cd_extra_zones n \<noteq> [] \<or> (case cd_security n of Some s \<Rightarrow> s \<noteq> [] | None \<Rightarrow> False) then 28 else 0) +
     (if cd_children n > 0
      then 12 + real (min (cd_children n) MAX_CHILDREN) * 20 + (if cd_children n > MAX_CHILDREN then 20 else 0) else 0)"

section \<open>Zones\<close>

record zone_group =
  zg_id :: "jstring option"
  zg_name :: jstring
  zg_zone :: "zone option"
  zg_nodes :: "card list"

definition known_zone :: "graph \<Rightarrow> card \<Rightarrow> bool" where
  "known_zone g n \<longleftrightarrow> (case cd_zone n of Some z \<Rightarrow> z \<in> zn_id ` set (gr_zones g) | None \<Rightarrow> False)"

text \<open>A card goes to the first group with the id of its zone, or to the group without a server.\<close>

fun zone_parts :: "card list \<Rightarrow> zone list \<Rightarrow> zone_group list" where
  "zone_parts ns [] = []"
| "zone_parts ns (z # zs) =
     \<lparr>zg_id = Some (zn_id z), zg_name = zn_name z, zg_zone = Some z, zg_nodes = filter (\<lambda>n. cd_zone n = Some (zn_id z)) ns\<rparr>
     # zone_parts (filter (\<lambda>n. cd_zone n \<noteq> Some (zn_id z)) ns) zs"

definition zoneGroups :: "graph \<Rightarrow> zone_group list" where
  "zoneGroups g =
     filter (\<lambda>z. zg_nodes z \<noteq> [])
       (zone_parts (gr_nodes g) (gr_zones g) @
        [\<lparr>zg_id = None, zg_name = NO_SERVER, zg_zone = None, zg_nodes = filter (\<lambda>n. \<not> known_zone g n) (gr_nodes g)\<rparr>])"

section \<open>Grids\<close>

type_synonym places = "(card \<times> point) list"

text \<open>\<open>out\<close>: the last place written for an id.\<close>

definition place_of :: "places \<Rightarrow> jstring \<Rightarrow> point option" where
  "place_of ps i = map_of (rev (map (\<lambda>(n, p). (cd_id n, p)) ps)) i"

text \<open>The cards of one type from the \<open>i\<close>-th on; \<open>nextY\<close> holds the next free row of each column begun.\<close>

fun place_column :: "real \<Rightarrow> nat \<Rightarrow> real \<Rightarrow> nat \<Rightarrow> real list \<Rightarrow> card list \<Rightarrow> places \<times> real list" where
  "place_column originX firstColumn top0 i nextY [] = ([], nextY)"
| "place_column originX firstColumn top0 i nextY (n # ns) =
     (let k = i div MAX_ROWS;
          ys = (if k < length nextY then nextY else nextY @ [top0]);
          (ps, ys') = place_column originX firstColumn top0 (i + 1) (ys[k := ys ! k + estimateNodeHeight n + ROW_GAP]) ns
      in ((n, (columnLeft originX (firstColumn + k), ys ! k)) # ps, ys'))"

fun place_types :: "real \<Rightarrow> real \<Rightarrow> card list \<Rightarrow> nat \<Rightarrow> real \<Rightarrow> nat list \<Rightarrow> places \<times> real" where
  "place_types originX top0 ns firstColumn bottom [] = ([], bottom)"
| "place_types originX top0 ns firstColumn bottom (c # cs) =
     (let (ps, nextY) = place_column originX firstColumn top0 0 [] (filter (\<lambda>n. columnOf n = c) ns);
          (qs, b) = place_types originX top0 ns (firstColumn + length nextY)
                      (foldl max bottom (map (\<lambda>v. v - ROW_GAP) nextY)) cs
      in (ps @ qs, b))"

definition placeGrid :: "card list \<Rightarrow> real \<Rightarrow> real \<Rightarrow> places \<times> real" where
  "placeGrid ns originX top0 = place_types originX top0 ns 0 top0 [0, 1, 2]"

section \<open>The environment view\<close>

definition stored_place :: "graph \<Rightarrow> card \<Rightarrow> point option" where
  "stored_place g n = point_of (gr_positions g (cd_id n))"

text \<open>The zones with stored cards: the places so far, the bottoms of these zones, and the zones left.\<close>

fun place_stored :: "graph \<Rightarrow> zone_group list \<Rightarrow> places \<Rightarrow> places \<times> real list \<times> zone_group list" where
  "place_stored g [] out = (out, [], [])"
| "place_stored g (z # zs) out =
     (let fixed = filter (\<lambda>n. stored_place g n \<noteq> None) (zg_nodes z)
      in if fixed = [] then (let (o1, bs, fs) = place_stored g zs out in (o1, bs, z # fs))
         else
           (let o1 = out @ map (\<lambda>n. (n, the (stored_place g n))) fixed;
                loc = (\<lambda>n. the (place_of o1 (cd_id n)));
                originX = Min (set (map (\<lambda>n. fst (loc n)) fixed));
                fixedBottom = Max (set (map (\<lambda>n. snd (loc n) + estimateNodeHeight n) fixed));
                (ps, bottom) = placeGrid (filter (\<lambda>n. place_of o1 (cd_id n) = None) (zg_nodes z)) originX (fixedBottom + ROW_GAP);
                (o2, bs, fs) = place_stored g zs (o1 @ ps)
            in (o2, max fixedBottom bottom # bs, fs)))"

fun place_fresh :: "zone_group list \<Rightarrow> real \<Rightarrow> places" where
  "place_fresh [] y = []"
| "place_fresh (z # zs) y =
     (let (ps, bottom) = placeGrid (zg_nodes z) 0 (y + ZONE_HEADER + ZONE_PADDING)
      in ps @ place_fresh zs (bottom + ZONE_PADDING + ZONE_GAP))"

definition environment_places :: "graph \<Rightarrow> places" where
  "environment_places g =
     (let (out, placedBottom, fresh) = place_stored g (zoneGroups g) [];
          y = (if placedBottom \<noteq> [] then Max (set placedBottom) + ZONE_PADDING + ZONE_GAP else 0)
      in out @ place_fresh fresh y)"

section \<open>Groups of a project and environment\<close>

definition ENVIRONMENT_ORDER :: "jstring list" where
  "ENVIRONMENT_ORDER = [''production'', ''staging'', ''development'']"

definition environment_rank :: "jstring \<Rightarrow> nat" where
  "environment_rank name = length (takeWhile (\<lambda>e. e \<noteq> js_lower name) ENVIRONMENT_ORDER)"

definition compareEnvironmentNames :: "(jstring \<Rightarrow> jstring \<Rightarrow> int) \<Rightarrow> jstring \<Rightarrow> jstring \<Rightarrow> int" where
  "compareEnvironmentNames localeCompare a b =
     (let r = int (environment_rank a) - int (environment_rank b) in if r \<noteq> 0 then r else localeCompare a b)"

definition context_key :: "card \<Rightarrow> jstring" where
  "context_key n = (case cd_context n of Some s \<Rightarrow> s | None \<Rightarrow> [])"

type_synonym context_group = "jstring \<times> card list"

definition group_unmanaged :: "context_group \<Rightarrow> int" where
  "group_unmanaged g = (case snd g of n # _ \<Rightarrow> if cd_type n = ContainerCard then 0 else 1 | [] \<Rightarrow> 1)"

definition ref_name :: "(card \<Rightarrow> named_ref option) \<Rightarrow> context_group \<Rightarrow> jstring" where
  "ref_name r g =
     (case snd g of n # _ \<Rightarrow> (case r n of Some q \<Rightarrow> rf_name q | None \<Rightarrow> fst g) | [] \<Rightarrow> fst g)"

definition compare_groups :: "(jstring \<Rightarrow> jstring \<Rightarrow> int) \<Rightarrow> context_group \<Rightarrow> context_group \<Rightarrow> int" where
  "compare_groups localeCompare a b =
     (let u = group_unmanaged a - group_unmanaged b;
          p = localeCompare (ref_name cd_project a) (ref_name cd_project b)
      in if u \<noteq> 0 then u else if p \<noteq> 0 then p
         else compareEnvironmentNames localeCompare (ref_name cd_environment a) (ref_name cd_environment b))"

definition contextGroups :: "(jstring \<Rightarrow> jstring \<Rightarrow> int) \<Rightarrow> card list \<Rightarrow> context_group list" where
  "contextGroups localeCompare ns =
     js_sort (compare_groups localeCompare)
       (map (\<lambda>k. (k, filter (\<lambda>n. context_key n = k) ns)) (set_to_array (map context_key ns)))"

definition byTypeAndName :: "(jstring \<Rightarrow> jstring \<Rightarrow> int) \<Rightarrow> card \<Rightarrow> card \<Rightarrow> int" where
  "byTypeAndName localeCompare a b =
     (let c = int (columnOf a) - int (columnOf b) in if c \<noteq> 0 then c else localeCompare (cd_name a) (cd_name b))"

section \<open>Chains of linked cards\<close>

type_synonym edges = "(jstring \<times> jstring) list"

text \<open>\<open>parent\<close> and \<open>find\<close>, with as many steps as there are cards.\<close>

fun find_root :: "nat \<Rightarrow> (jstring \<Rightarrow> jstring) \<Rightarrow> jstring \<Rightarrow> jstring" where
  "find_root 0 parent i = i"
| "find_root (Suc k) parent i = (if parent i = i then i else find_root k parent (parent i))"

definition union_links :: "nat \<Rightarrow> edges \<Rightarrow> jstring \<Rightarrow> jstring" where
  "union_links k es = foldl (\<lambda>parent (a, b). parent(find_root k parent a := find_root k parent b)) (\<lambda>i. i) es"

definition components :: "card list \<Rightarrow> edges \<Rightarrow> card list list" where
  "components order es =
     (let root = (\<lambda>n. find_root (length order) (union_links (length order) es) (cd_id n))
      in map (\<lambda>r. filter (\<lambda>n. root n = r) order) (set_to_array (map root order)))"

definition inside_links :: "card list \<Rightarrow> link list \<Rightarrow> edges" where
  "inside_links ns links =
     map (\<lambda>l. (lk_source l, lk_target l))
       (filter (\<lambda>l. lk_source l \<in> cd_id ` set ns \<and> lk_target l \<in> cd_id ` set ns \<and> lk_source l \<noteq> lk_target l) links)"

text \<open>The depth of the cards of a chain: one pass over the links, and as many passes as there are cards while
  something changes.\<close>

type_synonym depths = "jstring \<Rightarrow> nat option"

fun relax :: "edges \<Rightarrow> depths \<Rightarrow> bool \<Rightarrow> depths \<times> bool" where
  "relax [] depth changed = (depth, changed)"
| "relax ((a, b) # es) depth changed =
     (case depth a of
        None \<Rightarrow> relax es depth changed
      | Some d \<Rightarrow>
          if (case depth b of None \<Rightarrow> True | Some e \<Rightarrow> d + 1 > e)
          then relax es (depth(b \<mapsto> d + 1)) True else relax es depth changed)"

fun depth_rounds :: "nat \<Rightarrow> edges \<Rightarrow> depths \<Rightarrow> depths" where
  "depth_rounds 0 es depth = depth"
| "depth_rounds (Suc k) es depth =
     (let (d, changed) = relax es depth False in if changed then depth_rounds k es d else d)"

definition start_depths :: "card list \<Rightarrow> edges \<Rightarrow> depths" where
  "start_depths members es =
     (let roots = filter (\<lambda>n. \<not> list_ex (\<lambda>(a, b). b = cd_id n) es) members
      in if roots = [] then (case members of n # _ \<Rightarrow> [cd_id n \<mapsto> 0] | [] \<Rightarrow> Map.empty)
         else (\<lambda>i. if i \<in> cd_id ` set roots then Some 0 else None))"

definition chain_depth :: "card list \<Rightarrow> edges \<Rightarrow> card \<Rightarrow> nat" where
  "chain_depth members inside n =
     (let es = filter (\<lambda>(a, b). a \<in> cd_id ` set members) inside
      in case depth_rounds (length members) es (start_depths members es) (cd_id n) of Some d \<Rightarrow> d | None \<Rightarrow> 0)"

definition CHAIN_STEP :: real where "CHAIN_STEP = CARD_WIDTH + COLUMN_GAP"

fun place_chain :: "(card \<Rightarrow> nat) \<Rightarrow> real \<Rightarrow> (nat \<Rightarrow> real option) \<Rightarrow> card list \<Rightarrow> places \<times> (nat \<Rightarrow> real option)" where
  "place_chain depth top0 nextY [] = ([], nextY)"
| "place_chain depth top0 nextY (n # ns) =
     (let d = depth n;
          y = (case nextY d of Some v \<Rightarrow> v | None \<Rightarrow> top0);
          (ps, ys) = place_chain depth top0 (nextY(d \<mapsto> y + estimateNodeHeight n + ROW_GAP)) ns
      in ((n, (real d * CHAIN_STEP, y)) # ps, ys))"

text \<open>All chains: places, the next top, the number of columns, and the cards without links.\<close>

fun place_chains :: "edges \<Rightarrow> real \<Rightarrow> nat \<Rightarrow> card list list \<Rightarrow> places \<times> real \<times> nat \<times> card list" where
  "place_chains inside top0 columns [] = ([], top0, columns, [])"
| "place_chains inside top0 columns (members # rest) =
     (case members of
        [n] \<Rightarrow> (let (ps, t, c, singles) = place_chains inside top0 columns rest in (ps, t, c, n # singles))
      | _ \<Rightarrow>
          (let depth = chain_depth members inside;
               (ps, nextY) = place_chain depth top0 Map.empty members;
               bottoms = map (\<lambda>n. the (nextY (depth n))) members;
               (qs, t, c, singles) =
                 place_chains inside (Max (set bottoms) + ROW_GAP) (max columns (Max (set (map depth members)) + 1)) rest
           in (ps @ qs, t, c, singles)))"

fun place_singles :: "nat \<Rightarrow> real \<Rightarrow> real \<Rightarrow> card list \<Rightarrow> places \<times> real \<times> real" where
  "place_singles i top0 rowHeight [] = ([], top0, rowHeight)"
| "place_singles i top0 rowHeight (n # ns) =
     (let column = i mod SINGLE_COLUMNS; wrap = (column = 0 \<and> i > 0);
          t = (if wrap then top0 + rowHeight + ROW_GAP else top0);
          h = max (if wrap then 0 else rowHeight) (estimateNodeHeight n);
          (ps, t', h') = place_singles (i + 1) t h ns
      in ((n, (real column * CHAIN_STEP, t)) # ps, t', h'))"

record block =
  bl_places :: places
  bl_width :: real
  bl_height :: real

definition saved_of :: "card \<Rightarrow> point option" where
  "saved_of n = point_of (cd_saved n)"

definition layoutBlock :: "(jstring \<Rightarrow> jstring \<Rightarrow> int) \<Rightarrow> card list \<Rightarrow> link list \<Rightarrow> block" where
  "layoutBlock localeCompare ns links =
     (let saved = filter (\<lambda>n. saved_of n \<noteq> None) ns
      in if saved \<noteq> [] then
           (let left = Min (set (map (\<lambda>n. fst (the (saved_of n))) saved));
                top0 = Min (set (map (\<lambda>n. snd (the (saved_of n))) saved));
                out = map (\<lambda>n. (n, (fst (the (saved_of n)) - left, snd (the (saved_of n)) - top0))) saved;
                loc = (\<lambda>n. the (place_of out (cd_id n)));
                width = Max (set (map (\<lambda>n. fst (loc n)) saved)) + CARD_WIDTH;
                bottom = Max (set (map (\<lambda>n. snd (loc n) + estimateNodeHeight n) saved));
                rest = filter (\<lambda>n. place_of out (cd_id n) = None) ns
            in if rest = [] then \<lparr>bl_places = out, bl_width = width, bl_height = bottom\<rparr>
               else (let (ps, height) = placeGrid rest 0 (bottom + ROW_GAP)
                     in \<lparr>bl_places = out @ ps,
                         bl_width = Max (set (map (\<lambda>n. fst (the (place_of (out @ ps) (cd_id n)))) ns)) + CARD_WIDTH,
                         bl_height = height\<rparr>))
         else
           (let inside = inside_links ns links;
                (ps, t, columns, singles) =
                  place_chains inside 0 0 (components (js_sort (byTypeAndName localeCompare) ns) inside);
                (qs, t', rowHeight) = place_singles 0 t 0 singles;
                columns' = (if singles \<noteq> [] then max columns (min (length singles) SINGLE_COLUMNS) else columns)
            in \<lparr>bl_places = ps @ qs, bl_width = real columns' * CHAIN_STEP - COLUMN_GAP,
                bl_height = (if singles \<noteq> [] then t' + rowHeight else max 0 (t' - ROW_GAP))\<rparr>))"

end
