(* ===== verification/Env_Views.thy ===== *)
theory Env_Views
  imports Env_Graph
begin

text \<open>
  The server view and the connect view of the environment canvas, and what of a graph is shown, from
  \<open>resources/js/environment-canvas.js\<close>: groups inside server zones, zones that keep clear of each other, the
  columns of the connect view, filters, and which links may be drawn.
\<close>

section \<open>The server view\<close>

definition groupKey :: "card list \<Rightarrow> jstring option \<Rightarrow> jstring option" where
  "groupKey ns zoneId =
     (case find (\<lambda>n. cd_type n \<noteq> EmptyCard \<and> (case cd_environment n of Some e \<Rightarrow> rf_uuid e \<noteq> [] | None \<Rightarrow> False)) ns of
        None \<Rightarrow> None
      | Some n \<Rightarrow>
          (case (cd_environment n, zoneId) of
             (Some e, Some z) \<Rightarrow> if z \<noteq> [] then Some (rf_uuid e @ '':'' @ z) else None
           | _ \<Rightarrow> None))"

record group_meta =
  gm_x :: real
  gm_y :: real
  gm_inner :: point
  gm_shift :: point

record zone_block =
  zb_key :: "jstring option"
  zb_nodes :: "card list"
  zb_block :: block
  zb_w :: real
  zb_h :: real
  zb_at :: "point option"

definition zone_block_of :: "(jstring \<Rightarrow> jstring \<Rightarrow> int) \<Rightarrow> link list \<Rightarrow> jstring option \<Rightarrow> card list \<Rightarrow> zone_block" where
  "zone_block_of localeCompare links zoneId ns =
     (let saved = filter (\<lambda>n. saved_of n \<noteq> None) ns; b = layoutBlock localeCompare ns links
      in \<lparr>zb_key = groupKey ns zoneId, zb_nodes = ns, zb_block = b,
          zb_w = bl_width b + GROUP_PADDING * 2, zb_h = GROUP_HEADER + GROUP_PADDING * 2 + bl_height b,
          zb_at = (if saved \<noteq> []
                   then Some (Min (set (map (\<lambda>n. fst (the (saved_of n))) saved)),
                              Min (set (map (\<lambda>n. snd (the (saved_of n))) saved)))
                   else None)\<rparr>)"

definition is_empty_block :: "zone_block \<Rightarrow> bool" where
  "is_empty_block b \<longleftrightarrow> list_all (\<lambda>n. cd_type n = EmptyCard) (zb_nodes b)"

definition block_project :: "zone_block \<Rightarrow> jstring option" where
  "block_project b = (case zb_nodes b of n # _ \<Rightarrow> map_option rf_uuid (cd_project n) | [] \<Rightarrow> None)"

text \<open>The order of the groups with saved places: by \<open>y\<close>, then by \<open>x\<close>.\<close>

definition compare_at :: "zone_block \<Rightarrow> zone_block \<Rightarrow> int" where
  "compare_at a b =
     (let (ax, ay) = the (zb_at a); (bx, by') = the (zb_at b)
      in if ay < by' then -1 else if ay > by' then 1 else if ax < bx then -1 else if ax > bx then 1 else 0)"

text \<open>A zone while its groups are placed.\<close>

record zone_state =
  zs_places :: places
  zs_groups :: "(jstring \<times> group_meta) list"
  zs_frames :: "(real \<times> real \<times> real) list"
  zs_taken :: "(box \<times> jstring option) list"
  zs_bottom :: real

definition zone_inner :: "zone option \<Rightarrow> point" where
  "zone_inner z = (0, zoneHeader z + ZONE_PADDING)"

definition zone_shift :: "zone option \<Rightarrow> point" where
  "zone_shift z =
     (fst (zone_inner z) + GROUP_PADDING,
      snd (zone_inner z) + GROUP_HEADER + GROUP_PADDING - ZONE_HEADER - ZONE_PADDING)"

text \<open>\<open>place\<close>; \<open>box\<close> is what the group takes.\<close>

definition place_block :: "zone option \<Rightarrow> zone_block \<Rightarrow> box \<Rightarrow> zone_state \<Rightarrow> zone_state" where
  "place_block z b bx s =
     (let left = b_x bx; top0 = b_y bx
      in s\<lparr>zs_places := zs_places s @
             map (\<lambda>(n, p). (n, (left + GROUP_PADDING + fst p, top0 + GROUP_HEADER + GROUP_PADDING + snd p)))
               (bl_places (zb_block b)),
           zs_groups :=
             (case zb_key b of
                Some k \<Rightarrow> zs_groups s @ [(k, \<lparr>gm_x = left, gm_y = top0, gm_inner = zone_inner z, gm_shift = zone_shift z\<rparr>)]
              | None \<Rightarrow> zs_groups s),
           zs_frames := zs_frames s @ [(left, top0, zb_w b)],
           zs_taken := zs_taken s @ [(bx, block_project b)],
           zs_bottom := max (zs_bottom s) (top0 + zb_h b)\<rparr>)"

definition block_box :: "zone_block \<Rightarrow> real \<Rightarrow> real \<Rightarrow> box" where
  "block_box b x y = \<lparr>b_x = x, b_y = y, b_w = zb_w b, b_h = zb_h b\<rparr>"

definition inside_zone :: "zone option \<Rightarrow> box \<Rightarrow> bool" where
  "inside_zone z b \<longleftrightarrow> fst (zone_inner z) \<le> b_x b \<and> snd (zone_inner z) \<le> b_y b"

definition spot_or :: "box \<Rightarrow> box list \<Rightarrow> real \<Rightarrow> (box \<Rightarrow> bool) \<Rightarrow> box" where
  "spot_or wanted others gap fits = (case freeSpot wanted others gap fits of Some s \<Rightarrow> s | None \<Rightarrow> wanted)"

definition place_pinned :: "zone option \<Rightarrow> zone_state \<Rightarrow> zone_block \<Rightarrow> zone_state" where
  "place_pinned z s b =
     (let (x, y) = the (zb_at b);
          wanted = block_box b (max (fst (zone_inner z)) (x + fst (zone_shift z) - GROUP_PADDING))
                     (max (snd (zone_inner z)) (y + snd (zone_shift z) - GROUP_HEADER - GROUP_PADDING))
      in place_block z b (spot_or wanted (map fst (zs_taken s)) GROUP_GAP (inside_zone z)) s)"

text \<open>The rows of the other groups: \<open>x\<close>, the top and the bottom of the row.\<close>

fun place_rows :: "zone option \<Rightarrow> nat \<Rightarrow> real \<Rightarrow> real \<Rightarrow> real \<Rightarrow> zone_block list \<Rightarrow> zone_state \<Rightarrow> zone_state" where
  "place_rows z i x rowTop rowBottom [] s = s\<lparr>zs_bottom := max (zs_bottom s) rowBottom\<rparr>"
| "place_rows z i x rowTop rowBottom (b # bs) s =
     (let wrap = (i > 0 \<and> i mod GROUPS_PER_ROW = 0);
          x' = (if wrap then 0 else x);
          rowTop' = (if wrap then rowBottom + GROUP_GAP else rowTop)
      in place_rows z (i + 1) (x' + zb_w b + GROUP_GAP) rowTop' (max rowBottom (rowTop' + zb_h b)) bs
           (place_block z b (block_box b x' rowTop') s))"

text \<open>A group of an empty environment: right of the last group of its project, or of the zone.\<close>

definition place_empty :: "zone option \<Rightarrow> zone_state \<Rightarrow> zone_block \<Rightarrow> zone_state" where
  "place_empty z s b =
     (let own = filter (\<lambda>t. snd t = block_project b) (zs_taken s);
          anchor = (if own \<noteq> [] then Some (fst (last own))
                    else if zs_taken s \<noteq> [] then Some (fst (last (zs_taken s))) else None);
          wanted = (case anchor of
                      Some a \<Rightarrow> block_box b (b_x a + b_w a + GROUP_GAP) (b_y a)
                    | None \<Rightarrow> block_box b (fst (zone_inner z)) (snd (zone_inner z)))
      in place_block z b (spot_or wanted (map fst (zs_taken s)) GROUP_GAP (inside_zone z)) s)"

record zone_layout =
  zl_group :: zone_group
  zl_places :: places
  zl_groups :: "(jstring \<times> group_meta) list"
  zl_width :: real
  zl_height :: real

text \<open>\<open>compact\<close>: the groups keep their arrangement and start at the top left of the zone.\<close>

definition compact_zone :: "zone option \<Rightarrow> bool \<Rightarrow> zone_state \<Rightarrow> zone_state" where
  "compact_zone z packed s =
     (if packed \<and> zs_frames s \<noteq> [] then
        (let dx = fst (zone_inner z) - Min (set (map fst (zs_frames s)));
             dy = snd (zone_inner z) - Min (set (map (\<lambda>f. fst (snd f)) (zs_frames s)))
         in s\<lparr>zs_places := map (\<lambda>(n, p). (n, (fst p + dx, snd p + dy))) (zs_places s),
              zs_frames := map (\<lambda>(x, y, w). (x + dx, y, w)) (zs_frames s), zs_bottom := zs_bottom s + dy\<rparr>)
      else s)"

definition layoutServerZone :: "(jstring \<Rightarrow> jstring \<Rightarrow> int) \<Rightarrow> zone_group \<Rightarrow> link list \<Rightarrow> bool \<Rightarrow> zone_layout" where
  "layoutServerZone localeCompare g links packed =
     (let z = zg_zone g;
          blocks = map (\<lambda>(_, ns). zone_block_of localeCompare links (zg_id g) ns) (contextGroups localeCompare (zg_nodes g));
          pinned = js_sort compare_at (filter (\<lambda>b. zb_at b \<noteq> None) blocks);
          s0 = \<lparr>zs_places = [], zs_groups = [], zs_frames = [], zs_taken = [], zs_bottom = snd (zone_inner z)\<rparr>;
          s1 = foldl (place_pinned z) s0 pinned;
          rowTop = (if pinned \<noteq> [] then zs_bottom s1 + GROUP_GAP else snd (zone_inner z));
          s2 = place_rows z 0 0 rowTop rowTop (filter (\<lambda>b. zb_at b = None \<and> \<not> is_empty_block b) blocks) s1;
          s3 = foldl (place_empty z) s2 (filter (\<lambda>b. zb_at b = None \<and> is_empty_block b) blocks);
          s4 = compact_zone z packed s3;
          details = (case z of Some z \<Rightarrow> zn_details z | None \<Rightarrow> False)
      in \<lparr>zl_group = g, zl_places = zs_places s4, zl_groups = zs_groups s4,
          zl_width = Max (set ([0, if details then SERVER_ZONE_MIN_WIDTH - ZONE_PADDING * 2 else 0] @
                               map (\<lambda>(x, _, w). x + w) (zs_frames s4))),
          zl_height = zs_bottom s4 + ZONE_PADDING\<rparr>)"

record server_view =
  sv_places :: places
  sv_groups :: "(jstring \<times> group_meta) list"
  sv_zones :: "(jstring \<times> point) list"
  sv_taken :: "box list"

definition put_zone :: "point \<Rightarrow> zone_layout \<Rightarrow> server_view \<Rightarrow> server_view" where
  "put_zone origin l v =
     (let move = (\<lambda>p. (fst origin + fst p, snd origin + snd p))
      in v\<lparr>sv_places := sv_places v @ map (\<lambda>(n, p). (n, move p)) (zl_places l),
           sv_groups := sv_groups v @
             map (\<lambda>(k, m). (k, m\<lparr>gm_x := fst origin + gm_x m, gm_y := snd origin + gm_y m,
                                gm_inner := move (gm_inner m), gm_shift := move (gm_shift m)\<rparr>)) (zl_groups l),
           sv_zones := sv_zones v @ (case zg_id (zl_group l) of Some i \<Rightarrow> [(i, origin)] | None \<Rightarrow> []),
           sv_taken := sv_taken v @
             [\<lparr>b_x = fst origin - ZONE_PADDING, b_y = snd origin, b_w = zl_width l + ZONE_PADDING * 2, b_h = zl_height l\<rparr>]\<rparr>)"

definition savedPlace :: "zone_layout \<Rightarrow> point option" where
  "savedPlace l = (case zg_zone (zl_group l) of Some z \<Rightarrow> point_of (zn_position z) | None \<Rightarrow> None)"

fun stack_zones :: "box list \<Rightarrow> real \<Rightarrow> zone_layout list \<Rightarrow> server_view \<Rightarrow> server_view" where
  "stack_zones pinned y [] v = v"
| "stack_zones pinned y (l # ls) v =
     (let wanted = \<lparr>b_x = - ZONE_PADDING, b_y = y, b_w = zl_width l + ZONE_PADDING * 2, b_h = zl_height l\<rparr>;
          spot = (if pinned \<noteq> [] then spot_or wanted pinned ZONE_GAP (\<lambda>b. b_x b = b_x wanted \<and> b_y b \<ge> y) else wanted)
      in stack_zones pinned (b_y spot + zl_height l + ZONE_GAP) ls (put_zone (0, b_y spot) l v))"

definition layoutServerView :: "(jstring \<Rightarrow> jstring \<Rightarrow> int) \<Rightarrow> bool \<Rightarrow> graph \<Rightarrow> server_view" where
  "layoutServerView localeCompare packed g =
     (let laid = map (\<lambda>z. layoutServerZone localeCompare z (gr_links g) packed) (zoneGroups g);
          v0 = \<lparr>sv_places = [], sv_groups = [], sv_zones = [], sv_taken = []\<rparr>;
          v1 = foldl (\<lambda>v l. put_zone (the (savedPlace l)) l v) v0 (filter (\<lambda>l. savedPlace l \<noteq> None) laid)
      in stack_zones (sv_taken v1) 0 (filter (\<lambda>l. savedPlace l = None) laid) v1)"

section \<open>The connect view\<close>

fun place_list :: "real \<Rightarrow> real \<Rightarrow> card list \<Rightarrow> places \<times> real" where
  "place_list x y [] = ([], y)"
| "place_list x y (n # ns) =
     (let (ps, y') = place_list x (y + estimateNodeHeight n + ROW_GAP) ns in ((n, (x, y)) # ps, y'))"

fun place_contexts :: "(jstring \<Rightarrow> jstring \<Rightarrow> int) \<Rightarrow> real \<Rightarrow> real \<Rightarrow> context_group list \<Rightarrow> places \<times> real" where
  "place_contexts localeCompare x y [] = ([], y)"
| "place_contexts localeCompare x y ((_, ns) # gs) =
     (let (ps, y1) = place_list x (y + GROUP_HEADER + GROUP_PADDING) (js_sort (byTypeAndName localeCompare) ns);
          (qs, y2) = place_contexts localeCompare x (y1 + GROUP_PADDING - ROW_GAP + GROUP_GAP) gs
      in (ps @ qs, y2))"

definition layoutConnectView :: "(jstring \<Rightarrow> jstring \<Rightarrow> int) \<Rightarrow> graph \<Rightarrow> places" where
  "layoutConnectView localeCompare g =
     (let groups = zoneGroups g;
          variables = find (\<lambda>z. zg_id z = Some SOURCES_ZONE) groups;
          connected = find (\<lambda>z. zg_id z = Some CONNECTED_ZONE) groups;
          sources = (case variables of Some z \<Rightarrow> zg_nodes z | None \<Rightarrow> []);
          (ps, _) = place_list 0 (ZONE_HEADER + ZONE_PADDING)
                      (js_sort (\<lambda>a b. localeCompare (cd_name a) (cd_name b)) sources);
          offset = (if variables \<noteq> None then CARD_WIDTH + ZONE_PADDING * 2 + ZONE_GAP * 2 else 0);
          (qs, top0) =
            (case connected of
               None \<Rightarrow> ([], 0)
             | Some z \<Rightarrow>
                 (let (qs, y) = place_contexts localeCompare (offset + GROUP_PADDING) (ZONE_HEADER + ZONE_PADDING)
                                  (contextGroups localeCompare (zg_nodes z))
                  in (qs, y - GROUP_GAP + ZONE_PADDING + ZONE_GAP)));
          others = filter (\<lambda>z. zg_id z \<noteq> Some SOURCES_ZONE \<and> zg_id z \<noteq> Some CONNECTED_ZONE) groups;
          rest = layoutServerView localeCompare True
                   \<lparr>gr_layout = EnvironmentLayout,
                    gr_zones = List.map_filter zg_zone others,
                    gr_nodes = concat (map zg_nodes others), gr_links = [], gr_positions = (\<lambda>_. None)\<rparr>
      in ps @ qs @ map (\<lambda>(n, p). (n, (fst p + offset, snd p + top0))) (sv_places rest))"

definition layoutGraph :: "(jstring \<Rightarrow> jstring \<Rightarrow> int) \<Rightarrow> graph \<Rightarrow> jstring \<Rightarrow> point option" where
  "layoutGraph localeCompare g =
     place_of
       (case gr_layout g of
          ServerLayout \<Rightarrow> sv_places (layoutServerView localeCompare False g)
        | ConnectLayout \<Rightarrow> layoutConnectView localeCompare g
        | EnvironmentLayout \<Rightarrow> environment_places g)"

section \<open>What is shown\<close>

definition groupByUse :: "graph \<Rightarrow> graph" where
  "groupByUse g =
     (if gr_layout g \<noteq> ConnectLayout then g
      else g\<lparr>gr_nodes := map (\<lambda>n. if \<not> isSource n \<and> cd_id n \<in> lk_target ` set (gr_links g)
                                 then n\<lparr>cd_zone := Some CONNECTED_ZONE\<rparr> else n) (gr_nodes g)\<rparr>)"

record graph_filter =
  fl_project :: jstring
  fl_environment :: jstring

definition ref_is :: "named_ref option \<Rightarrow> jstring \<Rightarrow> bool" where
  "ref_is r u \<longleftrightarrow> (case r of Some q \<Rightarrow> rf_uuid q = u | None \<Rightarrow> False)"

definition kept_by :: "graph_filter \<Rightarrow> card \<Rightarrow> bool" where
  "kept_by f n \<longleftrightarrow> isSource n \<or>
     (fl_project f = [] \<or> ref_is (cd_project n) (fl_project f)) \<and>
     (fl_environment f = [] \<or> ref_is (cd_environment n) (fl_environment f))"

definition filterGraph :: "graph_filter \<Rightarrow> graph \<Rightarrow> graph" where
  "filterGraph f g =
     (if fl_project f = [] \<and> fl_environment f = [] then g
      else
        (let ns = filter (kept_by f) (gr_nodes g); ids = cd_id ` set ns
         in g\<lparr>gr_nodes := ns, gr_links := filter (\<lambda>l. lk_source l \<in> ids \<and> lk_target l \<in> ids) (gr_links g)\<rparr>))"

definition card_by_id :: "graph \<Rightarrow> jstring \<Rightarrow> card option" where
  "card_by_id g i = find (\<lambda>n. cd_id n = i) (gr_nodes g)"

definition canConnect :: "graph \<Rightarrow> jstring \<Rightarrow> jstring \<Rightarrow> bool" where
  "canConnect g source target =
     (let environment = (\<lambda>i. case card_by_id g i of
                               Some n \<Rightarrow> map_option rf_uuid (cd_environment n) | None \<Rightarrow> None)
      in case gr_layout g of
           ServerLayout \<Rightarrow>
             (case environment source of Some e \<Rightarrow> e \<noteq> [] \<and> source \<noteq> target \<and> environment target = Some e | None \<Rightarrow> False)
         | ConnectLayout \<Rightarrow>
             (case (card_by_id g source, card_by_id g target) of
                (Some a, Some b) \<Rightarrow> isSource a \<and> \<not> cd_missing a \<and> \<not> isSource b
              | _ \<Rightarrow> False)
         | EnvironmentLayout \<Rightarrow> source \<noteq> [] \<and> target \<noteq> [] \<and> source \<noteq> target)"

definition canLink :: "link list \<Rightarrow> jstring \<Rightarrow> jstring \<Rightarrow> bool" where
  "canLink links source target \<longleftrightarrow>
     source \<noteq> [] \<and> target \<noteq> [] \<and> source \<noteq> target \<and>
     \<not> list_ex (\<lambda>l. lk_source l = source \<and> lk_target l = target \<or> lk_source l = target \<and> lk_target l = source) links"

definition unreachableZones :: "graph \<Rightarrow> jstring set" where
  "unreachableZones g = zn_id ` set (filter (\<lambda>z. \<not> zn_icon z \<and> zn_reachable z = Some False) (gr_zones g))"

section \<open>Filter options\<close>

record project_option =
  po_uuid :: jstring
  po_name :: jstring
  po_environments :: "named_ref list"

text \<open>A \<open>Map\<close> keeps the place of a key and takes its last value.\<close>

definition last_refs :: "named_ref list \<Rightarrow> named_ref list" where
  "last_refs rs = map (\<lambda>u. the (find (\<lambda>r. rf_uuid r = u) (rev rs))) (set_to_array (map rf_uuid rs))"

definition filterOptions :: "(jstring \<Rightarrow> jstring \<Rightarrow> int) \<Rightarrow> graph \<Rightarrow> project_option list" where
  "filterOptions localeCompare g =
     (let refs = List.map_filter
            (\<lambda>n. case (cd_project n, cd_environment n) of (Some p, Some e) \<Rightarrow> Some (p, e) | _ \<Rightarrow> None) (gr_nodes g)
      in js_sort (\<lambda>a b. localeCompare (po_name a) (po_name b))
           (map (\<lambda>u. \<lparr>po_uuid = u, po_name = rf_name (the (find (\<lambda>p. rf_uuid p = u) (map fst refs))),
                      po_environments =
                        js_sort (\<lambda>a b. compareEnvironmentNames localeCompare (rf_name a) (rf_name b))
                          (last_refs (map snd (filter (\<lambda>(p, _). rf_uuid p = u) refs)))\<rparr>)
             (set_to_array (map (\<lambda>(p, _). rf_uuid p) refs))))"

end
