(* ===== verification/Env_Geometry.thy ===== *)
theory Env_Geometry
  imports Env_Views Js_Json
begin

text \<open>
  The geometry and the texts of the environment canvas, from \<open>resources/js/environment-canvas.js\<close>: frames around
  cards, what a dragged card must keep clear of, the curves of links, the view that fits, and status words.
  Rectangles are boxes.
\<close>

section \<open>Frames\<close>

type_synonym card_sizes = "jstring \<Rightarrow> (real \<times> real) option"
type_synonym positions = "jstring \<Rightarrow> point option"

definition cardRect :: "positions \<Rightarrow> card_sizes \<Rightarrow> card \<Rightarrow> box option" where
  "cardRect pos sizes n =
     (case pos (cd_id n) of
        None \<Rightarrow> None
      | Some p \<Rightarrow>
          Some \<lparr>b_x = fst p, b_y = snd p,
                b_w = (case sizes (cd_id n) of Some (w, _) \<Rightarrow> w | None \<Rightarrow> CARD_WIDTH),
                b_h = (case sizes (cd_id n) of Some (_, h) \<Rightarrow> h | None \<Rightarrow> estimateNodeHeight n)\<rparr>)"

definition min_x :: "box list \<Rightarrow> real" where "min_x bs = Min (set (map b_x bs))"
definition min_y :: "box list \<Rightarrow> real" where "min_y bs = Min (set (map b_y bs))"
definition max_x :: "box list \<Rightarrow> real" where "max_x bs = Max (set (map (\<lambda>b. b_x b + b_w b) bs))"
definition max_y :: "box list \<Rightarrow> real" where "max_y bs = Max (set (map (\<lambda>b. b_y b + b_h b) bs))"

text \<open>\<open>grow\<close>: \<open>side\<close> past the box left, right and below, \<open>header\<close> above it.\<close>

definition grow :: "box \<Rightarrow> real \<Rightarrow> real \<Rightarrow> box" where
  "grow b side header = \<lparr>b_x = b_x b - side, b_y = b_y b - header, b_w = b_w b + side * 2, b_h = b_h b + side + header\<rparr>"

definition frameAround :: "box list \<Rightarrow> real \<Rightarrow> real \<Rightarrow> box" where
  "frameAround bs side header =
     grow \<lparr>b_x = min_x bs, b_y = min_y bs, b_w = max_x bs - min_x bs, b_h = max_y bs - min_y bs\<rparr> side header"

record group_frame =
  gf_name :: jstring
  gf_key :: "jstring option"
  gf_zone :: "jstring option"
  gf_link :: "jstring option"
  gf_box :: box

definition groupFrames :: "(jstring \<Rightarrow> jstring \<Rightarrow> int) \<Rightarrow> card list \<Rightarrow> positions \<Rightarrow> card_sizes \<Rightarrow> group_frame list" where
  "groupFrames localeCompare ns pos sizes =
     List.map_filter
       (\<lambda>(name, members).
          let rects = List.map_filter (cardRect pos sizes) members
          in if rects = [] then None
             else Some \<lparr>gf_name = name, gf_key = groupKey members (cd_zone (hd members)), gf_zone = cd_zone (hd members),
                        gf_link = cd_context_link (hd members),
                        gf_box = frameAround rects GROUP_PADDING (GROUP_PADDING + GROUP_HEADER)\<rparr>)
       (contextGroups localeCompare ns)"

record zone_box =
  zx_id :: "jstring option"
  zx_name :: jstring
  zx_zone :: "zone option"
  zx_nodes :: "jstring list"
  zx_box :: box

definition zone_rects :: "(jstring \<Rightarrow> jstring \<Rightarrow> int) \<Rightarrow> card list \<Rightarrow> positions \<Rightarrow> card_sizes \<Rightarrow> box list" where
  "zone_rects localeCompare ns pos sizes =
     (if list_ex (\<lambda>n. context_key n \<noteq> []) ns then map gf_box (groupFrames localeCompare ns pos sizes)
      else List.map_filter (cardRect pos sizes) ns)"

definition zoneBoxes :: "(jstring \<Rightarrow> jstring \<Rightarrow> int) \<Rightarrow> graph \<Rightarrow> positions \<Rightarrow> card_sizes \<Rightarrow> zone_box list" where
  "zoneBoxes localeCompare g pos sizes =
     List.map_filter
       (\<lambda>z. let rects = zone_rects localeCompare (zg_nodes z) pos sizes;
                f = frameAround rects ZONE_PADDING (ZONE_PADDING + zoneHeader (zg_zone z));
                details = (case zg_zone z of Some q \<Rightarrow> zn_details q | None \<Rightarrow> False)
            in if rects = [] then None
               else Some \<lparr>zx_id = zg_id z, zx_name = zg_name z, zx_zone = zg_zone z, zx_nodes = map cd_id (zg_nodes z),
                          zx_box = f\<lparr>b_w := max (b_w f) (if details then SERVER_ZONE_MIN_WIDTH else 0)\<rparr>\<rparr>)
       (zoneGroups g)"

section \<open>Dragging a card\<close>

text \<open>The area of \<open>b\<close> within \<open>gap\<close> of \<open>a\<close>.\<close>

definition crowding :: "box \<Rightarrow> box \<Rightarrow> real \<Rightarrow> real" where
  "crowding a b gap =
     max 0 (min (b_x a + b_w a + gap) (b_x b + b_w b) - max (b_x a - gap) (b_x b)) *
     max 0 (min (b_y a + b_h a + gap) (b_y b + b_h b) - max (b_y a - gap) (b_y b))"

definition notCloser :: "box option \<Rightarrow> (box \<Rightarrow> box) \<Rightarrow> box list \<Rightarrow> real \<Rightarrow> box \<Rightarrow> bool" where
  "notCloser at0 frame boxes gap b =
     list_all (\<lambda>o'. crowding (frame b) o' gap \<le>
                 (case at0 of Some s \<Rightarrow> crowding (frame s) o' gap | None \<Rightarrow> 0)) boxes"

definition room :: "real \<Rightarrow> real \<Rightarrow> box \<Rightarrow> box" where
  "room s t b = \<lparr>b_x = b_x b - s, b_y = b_y b - s, b_w = b_w b + s * 2, b_h = b_h b + s + t\<rparr>"

record drag_rules =
  dr_others :: "box list"
  dr_fits :: "box \<Rightarrow> bool"

definition dragRules ::
  "(jstring \<Rightarrow> jstring \<Rightarrow> int) \<Rightarrow> graph \<Rightarrow> positions \<Rightarrow> card_sizes \<Rightarrow> jstring \<Rightarrow> drag_rules" where
  "dragRules localeCompare g pos sizes i =
     (let node = card_by_id g i;
          own = find (\<lambda>z. list_ex (\<lambda>n. cd_id n = i) (zg_nodes z)) (zoneGroups g);
          mates = (case own of Some z \<Rightarrow> zg_nodes z | None \<Rightarrow> []);
          grouped = list_ex (\<lambda>n. context_key n \<noteq> []) mates;
          context_of = (case node of Some n \<Rightarrow> context_key n | None \<Rightarrow> []);
          rects = (\<lambda>ns. List.map_filter (cardRect pos sizes) (filter (\<lambda>n. cd_id n \<noteq> i) ns));
          groupSide = (if grouped then GROUP_PADDING else 0);
          groupTop = (if grouped then GROUP_PADDING + GROUP_HEADER else 0);
          side = ZONE_PADDING + groupSide;
          header = ZONE_PADDING + zoneHeader (case own of Some z \<Rightarrow> zg_zone z | None \<Rightarrow> None) + groupTop;
          zones = map zx_box (filter (\<lambda>z. i \<notin> set (zx_nodes z)) (zoneBoxes localeCompare g pos sizes));
          groups = (if grouped
                    then map gf_box (groupFrames localeCompare (filter (\<lambda>n. context_key n \<noteq> context_of) mates) pos sizes)
                    else []);
          zoneMates = rects mates;
          groupMates = (if grouped then rects (filter (\<lambda>n. context_key n = context_of) mates) else []);
          at0 = (case node of Some n \<Rightarrow> cardRect pos sizes n | None \<Rightarrow> None)
      in \<lparr>dr_others = rects (gr_nodes g) @ map (room side header) zones @ map (room groupSide groupTop) groups,
          dr_fits = (\<lambda>b. notCloser at0 (\<lambda>b. frameAround (zoneMates @ [b]) side header) zones BOX_GAP b \<and>
                         (grouped \<longrightarrow>
                          notCloser at0 (\<lambda>b. frameAround (groupMates @ [b]) groupSide groupTop) groups GROUP_GAP b))\<rparr>)"

section \<open>Links\<close>

datatype side = SideRight | SideLeft | SideDown | SideUp

record link_path =
  lp_side :: side
  lp_from :: point
  lp_to :: point
  lp_c1 :: point
  lp_c2 :: point
  lp_mid :: point
  lp_d :: "real list"

definition link_side :: "box \<Rightarrow> box \<Rightarrow> side" where
  "link_side a b =
     (if b_x b \<ge> b_x a + b_w a then SideRight
      else if b_x b + b_w b \<le> b_x a then SideLeft
      else if b_y b + b_h b / 2 \<ge> b_y a + b_h a / 2 then SideDown else SideUp)"

definition round1 :: "real \<Rightarrow> real" where
  "round1 v = js_round (v * 10) / 10"

text \<open>The numbers of the path string, in their order, are \<open>lp_d\<close>.\<close>

definition linkPath :: "box \<Rightarrow> box \<Rightarrow> link_path" where
  "linkPath a b =
     (let s = link_side a b;
          from0 = (case s of
                     SideRight \<Rightarrow> (b_x a + b_w a, b_y a + b_h a / 2) | SideLeft \<Rightarrow> (b_x a, b_y a + b_h a / 2)
                   | SideDown \<Rightarrow> (b_x a + b_w a / 2, b_y a + b_h a) | SideUp \<Rightarrow> (b_x a + b_w a / 2, b_y a));
          to0 = (case s of
                   SideRight \<Rightarrow> (b_x b, b_y b + b_h b / 2) | SideLeft \<Rightarrow> (b_x b + b_w b, b_y b + b_h b / 2)
                 | SideDown \<Rightarrow> (b_x b + b_w b / 2, b_y b) | SideUp \<Rightarrow> (b_x b + b_w b / 2, b_y b + b_h b));
          dx = max 40 (\<bar>fst to0 - fst from0\<bar> / 2) * (if s = SideRight then 1 else -1);
          dy = max 40 (\<bar>snd to0 - snd from0\<bar> / 2) * (if s = SideDown then 1 else -1);
          flat = (s = SideRight \<or> s = SideLeft);
          c1 = (if flat then (fst from0 + dx, snd from0) else (fst from0, snd from0 + dy));
          c2 = (if flat then (fst to0 - dx, snd to0) else (fst to0, snd to0 - dy))
      in \<lparr>lp_side = s, lp_from = from0, lp_to = to0, lp_c1 = c1, lp_c2 = c2,
          lp_mid = ((fst from0 + 3 * fst c1 + 3 * fst c2 + fst to0) / 8, (snd from0 + 3 * snd c1 + 3 * snd c2 + snd to0) / 8),
          lp_d = map round1 [fst from0, snd from0, fst c1, snd c1, fst c2, snd c2, fst to0, snd to0]\<rparr>)"

section \<open>Views\<close>

record bounds =
  bd_minX :: real
  bd_minY :: real
  bd_maxX :: real
  bd_maxY :: real

definition READABLE_ZOOM :: real where "READABLE_ZOOM = 6 / 10"
definition FIT_PAD :: real where "FIT_PAD = 48"

text \<open>The free part of the viewport is a rectangle \<open>dom_rect\<close>. Bounds have a width and a height.\<close>

definition fitView :: "bounds \<Rightarrow> dom_rect \<Rightarrow> bool \<Rightarrow> view" where
  "fitView b area readable =
     (let w = bd_maxX b - bd_minX b; h = bd_maxY b - bd_minY b;
          rw = r_width area - FIT_PAD * 2; rh = r_height area - FIT_PAD * 2;
          whole = min (rw / w) (rh / h);
          z = min (11 / 10) (max (if readable then READABLE_ZOOM else MIN_ZOOM) whole);
          x = (if w * z \<le> rw then r_left area + (r_width area - w * z) / 2 else r_left area + FIT_PAD);
          y = (if h * z \<le> rh then r_top area + (r_height area - h * z) / 2 else r_top area + FIT_PAD)
      in \<lparr>vx = x - bd_minX b * z, vy = y - bd_minY b * z, vz = z\<rparr>)"

text \<open>\<open>readView\<close> from the parsed value of the storage; \<open>None\<close> where reading or parsing throws.\<close>

definition finite_number :: "json option \<Rightarrow> real option" where
  "finite_number v = (case v of Some (JNum q) \<Rightarrow> Some (of_rat q) | _ \<Rightarrow> None)"

definition readView :: "json option \<Rightarrow> view option" where
  "readView stored =
     (case stored of
        None \<Rightarrow> None
      | Some v \<Rightarrow>
          (case (finite_number (json_get v ''x''), finite_number (json_get v ''y''), finite_number (json_get v ''z'')) of
             (Some x, Some y, Some z) \<Rightarrow> if MIN_ZOOM \<le> z \<and> z \<le> MAX_ZOOM then Some \<lparr>vx = x, vy = y, vz = z\<rparr> else None
           | _ \<Rightarrow> None))"

section \<open>Status words\<close>

datatype tone = ToneOk | ToneWarn | ToneBad | ToneIdle | ToneBusy

definition BUSY :: "jstring list" where
  "BUSY = [''starting'', ''restarting'', ''created'', ''removing'', ''in_progress'', ''queued'', ''deploying'', ''building'']"

definition BAD :: "jstring list" where
  "BAD = [''exited'', ''stopped'', ''dead'', ''failed'', ''error'']"

definition is_status_sep :: "char \<Rightarrow> bool" where
  "is_status_sep c \<longleftrightarrow> c = CHR '':'' \<or> c = CHR ''(''"

text \<open>\<open>split(/\s*[:(]\s*/)\<close>: the first piece, and the rest after the first separator.\<close>

definition first_piece :: "jstring \<Rightarrow> jstring \<times> jstring option" where
  "first_piece s =
     (if list_ex is_status_sep s
      then (rev (dropWhile js_space (rev (takeWhile (\<lambda>c. \<not> is_status_sep c) s))),
            Some (dropWhile js_space (tl (dropWhile (\<lambda>c. \<not> is_status_sep c) s))))
      else (s, None))"

definition drop_paren :: "jstring \<Rightarrow> jstring" where
  "drop_paren s = (if s \<noteq> [] \<and> last s = CHR '')'' then butlast s else s)"

definition status_parts :: "jstring \<Rightarrow> jstring \<times> jstring option" where
  "status_parts s =
     (let (state, rest) = first_piece (drop_paren s) in (state, map_option (\<lambda>r. fst (first_piece r)) rest))"

definition statusTone :: "jstring option \<Rightarrow> tone" where
  "statusTone st =
     (let v = js_lower (trim (case st of Some s \<Rightarrow> s | None \<Rightarrow> []));
          (state, h) = status_parts v; health = (case h of Some h \<Rightarrow> h | None \<Rightarrow> [])
      in if v = [] then ToneIdle
         else if state \<in> set BUSY \<or> health = ''starting'' then ToneBusy
         else if state \<in> set BAD then ToneBad
         else if state = ''degraded'' then ToneWarn
         else if state = ''running'' \<or> state = ''healthy'' then (if health = ''unhealthy'' then ToneWarn else ToneOk)
         else ToneIdle)"

definition js_upper_char :: "char \<Rightarrow> char" where
  "js_upper_char c = (if is_lower_az c then char_of (of_char c - 32 :: nat) else c)"

text \<open>\<open>charAt(0).toUpperCase()\<close> for the letters a-z; the state words of Coolify have no others.\<close>

definition statusLabel :: "jstring option \<Rightarrow> jstring" where
  "statusLabel st =
     (let v = trim (case st of Some s \<Rightarrow> s | None \<Rightarrow> []);
          (state, h) = status_parts v;
          word = (case state of [] \<Rightarrow> [] | c # cs \<Rightarrow> js_upper_char c # map (\<lambda>c. if c = CHR ''_'' then CHR '' '' else c) cs)
      in if v = [] then ''Unknown''
         else case h of
                Some (h # hs) \<Rightarrow> word @ '' ('' @ (h # hs) @ '')''
              | _ \<Rightarrow> word)"

text \<open>\<open>replace(/\s*\(.*$/, '')\<close> on a text of one line.\<close>

definition statusWord :: "jstring option \<Rightarrow> jstring" where
  "statusWord st =
     (let s = statusLabel st
      in if CHR ''('' \<in> set s then rev (dropWhile js_space (rev (takeWhile (\<lambda>c. c \<noteq> CHR ''('') s))) else s)"

definition counted :: "card \<Rightarrow> bool" where
  "counted n \<longleftrightarrow> cd_type n \<noteq> ContainerCard \<and> cd_type n \<noteq> EmptyCard \<and> \<not> isSource n"

definition statusSummary :: "card list \<Rightarrow> tone \<Rightarrow> nat" where
  "statusSummary ns t = length (filter (\<lambda>n. counted n \<and> statusTone (cd_status n) = t) ns)"

text \<open>Numbers become text by \<open>num\<close>; \<open>Date.parse\<close> is the argument \<open>parse\<close>, in milliseconds.\<close>

definition formatMemory :: "(rat \<Rightarrow> jstring) \<Rightarrow> rat \<Rightarrow> jstring option" where
  "formatMemory num bytes =
     (if bytes = 0 then None
      else
        (let gb = bytes / (1024 ^ 3); r = (\<lambda>q. of_int \<lfloor>q + 1 / 2\<rfloor>)
         in Some (num (if gb < 10 then r (gb * 10) / 10 else r gb) @ '' GB'')))"

definition has_time_zone :: "jstring \<Rightarrow> bool" where
  "has_time_zone s \<longleftrightarrow> CHR ''z'' \<in> set s \<or> CHR ''Z'' \<in> set s \<or>
     (let t = drop (length s - 5) s; u = drop (length s - 6) s
      in length t = 5 \<and> t ! 0 \<in> {CHR ''+'', CHR ''-''} \<and> list_all is_digit (drop 1 t) \<or>
         length u = 6 \<and> u ! 0 \<in> {CHR ''+'', CHR ''-''} \<and> is_digit (u ! 1) \<and> is_digit (u ! 2) \<and> u ! 3 = CHR '':'' \<and>
           is_digit (u ! 4) \<and> is_digit (u ! 5))"

fun replace_space :: "jstring \<Rightarrow> jstring" where
  "replace_space [] = []"
| "replace_space (c # cs) = (if c = CHR '' '' then CHR ''T'' # cs else c # replace_space cs)"

definition formatUptime :: "(jstring \<Rightarrow> int option) \<Rightarrow> int \<Rightarrow> jstring option \<Rightarrow> jstring option" where
  "formatUptime parse now since =
     (let s = (case since of Some s \<Rightarrow> s | None \<Rightarrow> [])
      in case parse (replace_space s @ (if has_time_zone s then [] else ''Z'')) of
           None \<Rightarrow> None
         | Some at0 \<Rightarrow>
             (let minutes = nat (max 0 ((now - at0) div 60000))
              in Some (if minutes < 60 then nat_str minutes @ ''m''
                       else if minutes < 60 * 24 then nat_str (minutes div 60) @ ''h''
                       else nat_str (minutes div 1440) @ ''d'')))"

end
