(* ===== verification/Env_Canvas.thy ===== *)
theory Env_Canvas
  imports Env_Geometry
begin

text \<open>
  The state of an open environment canvas and its drags, the first part of
  \<open>resources/js/canvas/environment/EnvironmentCanvas.svelte\<close>: the loaded and the shown graph, what is selected, the
  moves that are not saved or not loaded back yet, and dragging cards, zones and groups. What the page decides (its
  data attributes, the measured sizes of the cards, the viewport) is in the records \<open>page\<close> and \<open>dom\<close>. An object
  that the code compares by identity has a number.
\<close>

section \<open>The page\<close>

record page =
  pg_endpoint :: jstring
  pg_mode :: jstring
  pg_project :: jstring
  pg_environment :: jstring

definition connectView :: "page \<Rightarrow> bool" where
  "connectView p \<longleftrightarrow> pg_mode p = ''variables'' \<or> pg_mode p = ''tags''"

definition serverView :: "page \<Rightarrow> bool" where
  "serverView p \<longleftrightarrow> pg_endpoint p \<noteq> [] \<and> \<not> connectView p"

definition filterView :: "page \<Rightarrow> bool" where
  "filterView p \<longleftrightarrow> connectView p \<or> serverView p"

definition hex_digit :: "nat \<Rightarrow> char" where
  "hex_digit n = (if n < 10 then char_of (48 + n) else char_of (55 + n))"

definition percent_byte :: "nat \<Rightarrow> jstring" where
  "percent_byte n = [CHR ''%'', hex_digit (n div 16), hex_digit (n mod 16)]"

definition encode_char :: "char \<Rightarrow> jstring" where
  "encode_char c =
     (let n = (of_char c :: nat)
      in if is_alnum c \<or> c \<in> set ''-_.!~*()'' \<or> n = 39 then [c]
         else if n < 128 then percent_byte n
         else percent_byte (192 + n div 64) @ percent_byte (128 + n mod 64))"

definition encodeURIComponent :: "jstring \<Rightarrow> jstring" where
  "encodeURIComponent s = concat (map encode_char s)"

definition canvas_path :: "jstring \<Rightarrow> jstring \<Rightarrow> jstring" where
  "canvas_path project environment =
     ''/projects/'' @ encodeURIComponent project @ ''/environments/'' @ encodeURIComponent environment @ ''/canvas''"

definition page_base :: "page \<Rightarrow> jstring" where
  "page_base p = (if pg_endpoint p \<noteq> [] then pg_endpoint p else canvas_path (pg_project p) (pg_environment p))"

definition environmentBase :: "page \<Rightarrow> card option \<Rightarrow> jstring" where
  "environmentBase p n =
     (let uuid = (\<lambda>f. case Option.bind n f of Some r \<Rightarrow> rf_uuid r | None \<Rightarrow> [])
      in if serverView p then canvas_path (uuid cd_project) (uuid cd_environment) else page_base p)"

section \<open>State\<close>

text \<open>A loaded graph: a graph with the rights it gives and where to read more. Missing lists are empty.\<close>

record loaded =
  ld_graph :: graph
  ld_can_edit :: bool
  ld_can_move :: bool
  ld_can_move_groups :: bool
  ld_can_move_zones :: bool
  ld_containers :: "jstring option"
  ld_usage :: "jstring \<Rightarrow> jstring option"

datatype selection = SelNode jstring | SelLink jstring

text \<open>A move that is being saved or not loaded back: the place with the number of its object, and the load that
  its save finished at (\<open>None\<close> is \<open>Infinity\<close>).\<close>

type_synonym place_object = "nat \<times> point"

record held_move =
  hl_at :: place_object
  hl_after :: "nat option"

datatype kept_map = KeptPositions | KeptSaved | KeptZones

type_synonym moves = "(jstring \<times> place_object) list"

text \<open>What a drag holds between its press and its release.\<close>

datatype drag =
    CardDrag jstring real real "point option" drag_rules "group_meta option" "jstring option" bool bool
  | ZoneDrag "jstring option" real real box "box list" "(jstring \<times> point) list" "point option"
  | GroupDrag jstring real real box "box list" "box \<Rightarrow> bool" "(jstring \<times> point) list" group_meta bool
  | ConnectDrag jstring point

text \<open>The requests the canvas waits for.\<close>

datatype env_call =
    Load nat bool
  | SavePositions moves
  | SaveGroup moves
  | SaveZones moves
  | PostLink jstring jstring nat bool
  | DropLink link
  | TakeLink link jstring jstring
  | PatchLabel link jstring
  | LoadContainers
  | LoadUsage jstring

record request =
  rq_method :: jstring
  rq_path :: jstring
  rq_call :: env_call

record env_canvas =
  cv_full :: "loaded option"
  cv_graph :: "loaded option"
  cv_same :: bool
  cv_positions :: positions
  cv_sizes :: card_sizes
  cv_selected :: "selection option"
  cv_filter :: graph_filter
  cv_hover :: "jstring option"
  cv_pending :: "(nat \<times> jstring \<times> jstring) list"
  cv_temp :: "(point \<times> point) option"
  cv_dropTarget :: "jstring option"
  cv_loading :: bool
  cv_error :: "jstring option"
  cv_toast :: "(jstring \<times> bool) option"
  cv_view :: view
  cv_interactions :: "jstring set"
  cv_drags :: "(nat \<times> drag) list"
  cv_deferred :: "loaded option"
  cv_unsaved :: "(jstring \<times> point) list"
  cv_settling :: "kept_map \<Rightarrow> jstring \<Rightarrow> held_move option"
  cv_loads :: nat
  cv_reloadQueued :: bool
  cv_fitted :: bool
  cv_restored :: bool
  cv_wanted :: jstring
  cv_destroyed :: bool
  cv_containers :: "card list option"
  cv_usage :: "(jstring \<times> json) list"
  cv_groupMeta :: "(jstring \<times> group_meta) list"
  cv_zoneOrigins :: "(jstring \<times> place_object) list"
  cv_save_timer :: bool
  cv_refresh_timer :: bool
  cv_view_timer :: bool
  cv_stored_view :: "view option"
  cv_requests :: "(nat \<times> request) list"
  cv_next :: nat
  cv_lastOpen :: "(jstring \<times> real \<times> real \<times> real) option"
  cv_opened :: "jstring list"

text \<open>The canvas of a page: \<open>restoredView\<close> is the view saved for it, \<open>wanted\<close> the card in its address.\<close>

definition open_canvas :: "page \<Rightarrow> graph_filter \<Rightarrow> view option \<Rightarrow> jstring \<Rightarrow> env_canvas" where
  "open_canvas p f restored wanted =
     \<lparr>cv_full = None, cv_graph = None, cv_same = True, cv_positions = Map.empty, cv_sizes = Map.empty, cv_selected = None,
      cv_filter = (if filterView p then f else \<lparr>fl_project = [], fl_environment = []\<rparr>), cv_hover = None, cv_pending = [],
      cv_temp = None, cv_dropTarget = None, cv_loading = False, cv_error = None, cv_toast = None,
      cv_view = (case restored of Some v \<Rightarrow> v | None \<Rightarrow> \<lparr>vx = 40, vy = 40, vz = 1\<rparr>), cv_interactions = {}, cv_drags = [],
      cv_deferred = None, cv_unsaved = [], cv_settling = (\<lambda>_. Map.empty), cv_loads = 0, cv_reloadQueued = False,
      cv_fitted = False, cv_restored = (restored \<noteq> None), cv_wanted = (if connectView p then wanted else []),
      cv_destroyed = False, cv_containers = None, cv_usage = [], cv_groupMeta = [], cv_zoneOrigins = [],
      cv_save_timer = False, cv_refresh_timer = False, cv_view_timer = False, cv_stored_view = restored, cv_requests = [],
      cv_next = 0, cv_lastOpen = None, cv_opened = []\<rparr>"

text \<open>What the browser measures.\<close>

record dom =
  dm_sizes :: card_sizes
  dm_rect :: dom_rect
  dm_inset_left :: real
  dm_inset_top :: real
  dm_compare :: "jstring \<Rightarrow> jstring \<Rightarrow> int"

section \<open>Reading the state\<close>

definition shown_graph :: "env_canvas \<Rightarrow> graph option" where
  "shown_graph s = map_option ld_graph (cv_graph s)"

definition nodeById :: "env_canvas \<Rightarrow> jstring \<Rightarrow> card option" where
  "nodeById s i = Option.bind (shown_graph s) (\<lambda>g. card_by_id g i)"

definition linkById :: "env_canvas \<Rightarrow> jstring \<Rightarrow> link option" where
  "linkById s i = Option.bind (shown_graph s) (\<lambda>g. find (\<lambda>l. lk_id l = i) (gr_links g))"

definition rectOf :: "env_canvas \<Rightarrow> jstring \<Rightarrow> box option" where
  "rectOf s i = Option.bind (nodeById s i) (cardRect (cv_positions s) (cv_sizes s))"

definition graph_right :: "(loaded \<Rightarrow> bool) \<Rightarrow> env_canvas \<Rightarrow> bool" where
  "graph_right r s \<longleftrightarrow> (case cv_graph s of Some g \<Rightarrow> ld_can_edit g \<and> r g | None \<Rightarrow> False)"

definition canEdit :: "env_canvas \<Rightarrow> bool" where "canEdit = graph_right (\<lambda>_. True)"
definition canMove :: "env_canvas \<Rightarrow> bool" where "canMove = graph_right ld_can_move"
definition canMoveGroups :: "env_canvas \<Rightarrow> bool" where "canMoveGroups = graph_right ld_can_move_groups"
definition canMoveZones :: "env_canvas \<Rightarrow> bool" where "canMoveZones = graph_right ld_can_move_zones"

definition movableGroupOf :: "env_canvas \<Rightarrow> card option \<Rightarrow> jstring option" where
  "movableGroupOf s n =
     (case n of Some n \<Rightarrow> if canMoveGroups s then groupKey [n] (cd_zone n) else None | None \<Rightarrow> None)"

definition group_nodes :: "env_canvas \<Rightarrow> jstring \<Rightarrow> jstring list" where
  "group_nodes s key =
     (case shown_graph s of
        Some g \<Rightarrow> map cd_id (filter (\<lambda>n. groupKey [n] (cd_zone n) = Some key) (gr_nodes g)) | None \<Rightarrow> [])"

definition meta_of :: "env_canvas \<Rightarrow> jstring \<Rightarrow> group_meta option" where
  "meta_of s key = map_of (rev (cv_groupMeta s)) key"

definition canvas_boxes :: "dom \<Rightarrow> env_canvas \<Rightarrow> zone_box list" where
  "canvas_boxes d s =
     (case shown_graph s of Some g \<Rightarrow> zoneBoxes (dm_compare d) g (cv_positions s) (cv_sizes s) | None \<Rightarrow> [])"

definition canvas_frames :: "dom \<Rightarrow> env_canvas \<Rightarrow> group_frame list" where
  "canvas_frames d s =
     (case shown_graph s of
        Some g \<Rightarrow>
          if gr_layout g = ServerLayout \<or> gr_layout g = ConnectLayout
          then concat (map (\<lambda>z. groupFrames (dm_compare d) (filter (\<lambda>n. context_key n \<noteq> []) (zg_nodes z)) (cv_positions s) (cv_sizes s))
                 (zoneGroups g))
          else []
      | None \<Rightarrow> [])"

definition linkCounts :: "env_canvas \<Rightarrow> jstring \<Rightarrow> nat" where
  "linkCounts s i =
     (case shown_graph s of Some g \<Rightarrow> length (filter (\<lambda>l. lk_source l = i) (gr_links g)) | None \<Rightarrow> 0)"

definition zoneNames :: "env_canvas \<Rightarrow> card \<Rightarrow> jstring list" where
  "zoneNames s n =
     (let names = (case shown_graph s of Some g \<Rightarrow> map (\<lambda>z. (zn_id z, zn_name z)) (gr_zones g) | None \<Rightarrow> []);
          ids = (case cd_zone n of Some z \<Rightarrow> z # cd_extra_zones n | None \<Rightarrow> cd_extra_zones n)
      in map (\<lambda>i. case map_of (rev names) i of Some name \<Rightarrow> if name = [] then i else name | None \<Rightarrow> i)
           (filter (\<lambda>i. i \<noteq> []) ids))"

text \<open>The curves of the links whose cards both have a place, and of the links being saved.\<close>

definition canvas_shapes :: "env_canvas \<Rightarrow> (link \<times> link_path) list" where
  "canvas_shapes s =
     (case shown_graph s of
        Some g \<Rightarrow> List.map_filter
          (\<lambda>l. case (rectOf s (lk_source l), rectOf s (lk_target l)) of (Some a, Some b) \<Rightarrow> Some (l, linkPath a b) | _ \<Rightarrow> None)
          (gr_links g)
      | None \<Rightarrow> [])"

definition pendingPaths :: "env_canvas \<Rightarrow> link_path list" where
  "pendingPaths s =
     List.map_filter
       (\<lambda>(_, a, b). case (rectOf s a, rectOf s b) of (Some p, Some q) \<Rightarrow> Some (linkPath p q) | _ \<Rightarrow> None) (cv_pending s)"

definition tempPath :: "env_canvas \<Rightarrow> real list option" where
  "tempPath s =
     (case cv_temp s of
        None \<Rightarrow> None
      | Some (p, q) \<Rightarrow>
          (let dx = max 40 (\<bar>fst q - fst p\<bar> / 2)
           in Some [fst p, snd p, fst p + dx, snd p, fst q - dx, snd q, fst q, snd q]))"


section \<open>Changing the state\<close>

definition toast :: "jstring \<Rightarrow> bool \<Rightarrow> env_canvas \<Rightarrow> env_canvas" where
  "toast message bad s = s\<lparr>cv_toast := Some (message, bad)\<rparr>"

definition select_item :: "selection option \<Rightarrow> env_canvas \<Rightarrow> env_canvas" where
  "select_item x s = s\<lparr>cv_selected := x\<rparr>"

definition closePanel :: "env_canvas \<Rightarrow> env_canvas" where
  "closePanel s = (if cv_selected s \<noteq> None then select_item None s else s)"

definition centre_view :: "dom \<Rightarrow> env_canvas \<Rightarrow> jstring \<Rightarrow> point \<Rightarrow> view" where
  "centre_view d s i p =
     (let (w, h) = (case cv_sizes s i of Some z \<Rightarrow> z | None \<Rightarrow> (260, 100))
      in \<lparr>vx = r_width (dm_rect d) / 2 - fst p - w / 2, vy = r_height (dm_rect d) / 2 - snd p - h / 2, vz = 1\<rparr>)"

definition showNode :: "dom \<Rightarrow> jstring \<Rightarrow> env_canvas \<Rightarrow> env_canvas" where
  "showNode d i s =
     (case cv_positions s i of
        None \<Rightarrow> s
      | Some p \<Rightarrow> select_item (Some (SelNode i)) (s\<lparr>cv_view := centre_view d s i p, cv_view_timer := True\<rparr>))"

text \<open>\<open>patchGraph\<close>; \<open>cv_same\<close> is \<open>full === graph\<close>.\<close>

definition patchGraph :: "(graph \<Rightarrow> graph) \<Rightarrow> env_canvas \<Rightarrow> env_canvas" where
  "patchGraph f s =
     (case cv_graph s of
        None \<Rightarrow> s
      | Some g \<Rightarrow>
          (let g' = g\<lparr>ld_graph := f (ld_graph g)\<rparr>
           in s\<lparr>cv_graph := Some g', cv_full := (if cv_same s then Some g' else cv_full s)\<rparr>))"

definition replaceLink :: "link \<Rightarrow> env_canvas \<Rightarrow> env_canvas" where
  "replaceLink l = patchGraph (\<lambda>g. g\<lparr>gr_links := map (\<lambda>k. if lk_id k = lk_id l then l else k) (gr_links g)\<rparr>)"

definition saveView :: "env_canvas \<Rightarrow> env_canvas" where
  "saveView s = s\<lparr>cv_view_timer := False, cv_stored_view := Some (cv_view s)\<rparr>"

text \<open>The panning or zooming of the user (\<open>onChange\<close> of \<open>panZoom\<close>).\<close>

definition view_changed :: "view \<Rightarrow> env_canvas \<Rightarrow> env_canvas" where
  "view_changed v s = s\<lparr>cv_view := v, cv_view_timer := True\<rparr>"

definition fit :: "dom \<Rightarrow> bool \<Rightarrow> env_canvas \<Rightarrow> env_canvas" where
  "fit d readable s =
     (let all = map zx_box (canvas_boxes d s); r = dm_rect d
      in view_changed
           (if all = [] \<or> r_width r = 0 then \<lparr>vx = dm_inset_left d + 40, vy = dm_inset_top d + 40, vz = 1\<rparr>
            else fitView \<lparr>bd_minX = min_x all, bd_minY = min_y all, bd_maxX = max_x all, bd_maxY = max_y all\<rparr>
                   \<lparr>r_left = dm_inset_left d, r_top = dm_inset_top d, r_width = r_width r - dm_inset_left d,
                    r_height = r_height r - dm_inset_top d\<rparr> readable) s)"

section \<open>Moves that are being saved\<close>

definition held_with :: "moves \<Rightarrow> (jstring \<Rightarrow> held_move option) \<Rightarrow> jstring \<Rightarrow> held_move option" where
  "held_with ms st i = (case map_of ms i of Some p \<Rightarrow> Some \<lparr>hl_at = p, hl_after = None\<rparr> | None \<Rightarrow> st i)"

definition hold_moves :: "kept_map \<Rightarrow> moves \<Rightarrow> env_canvas \<Rightarrow> env_canvas" where
  "hold_moves k ms s = s\<lparr>cv_settling := (cv_settling s)(k := held_with ms (cv_settling s k))\<rparr>"

text \<open>Whether the entry of \<open>i\<close> is the one that the save of \<open>ms\<close> made.\<close>

definition holds_move :: "moves \<Rightarrow> (jstring \<Rightarrow> held_move option) \<Rightarrow> jstring \<Rightarrow> bool" where
  "holds_move ms st i \<longleftrightarrow> (case (st i, map_of ms i) of (Some h, Some p) \<Rightarrow> fst (hl_at h) = fst p | _ \<Rightarrow> False)"

definition settled_with :: "moves \<Rightarrow> nat \<Rightarrow> (jstring \<Rightarrow> held_move option) \<Rightarrow> jstring \<Rightarrow> held_move option" where
  "settled_with ms ls st i = (if holds_move ms st i then map_option (\<lambda>h. h\<lparr>hl_after := Some ls\<rparr>) (st i) else st i)"

definition settle_moves :: "kept_map \<Rightarrow> moves \<Rightarrow> env_canvas \<Rightarrow> env_canvas" where
  "settle_moves k ms s = s\<lparr>cv_settling := (cv_settling s)(k := settled_with ms (cv_loads s) (cv_settling s k))\<rparr>"

definition release_moves :: "kept_map \<Rightarrow> moves \<Rightarrow> env_canvas \<Rightarrow> env_canvas" where
  "release_moves k ms s =
     s\<lparr>cv_settling := (cv_settling s)(k := \<lambda>i. if holds_move ms (cv_settling s k) i then None else cv_settling s k i)\<rparr>"

text \<open>The entries that stay when the graph of load \<open>started\<close> is there.\<close>

definition unsettled :: "nat \<Rightarrow> held_move option \<Rightarrow> held_move option" where
  "unsettled started e =
     (case e of
        Some h \<Rightarrow> (case hl_after h of Some a \<Rightarrow> if a < started then None else Some h | None \<Rightarrow> Some h)
      | None \<Rightarrow> None)"

definition dropSettled :: "nat \<Rightarrow> env_canvas \<Rightarrow> env_canvas" where
  "dropSettled started s = s\<lparr>cv_settling := \<lambda>k i. unsettled started (cv_settling s k i)\<rparr>"

section \<open>Showing a graph\<close>

definition raw_of :: "point \<Rightarrow> raw_point" where
  "raw_of p = \<lparr>rp_x = Some (fst p), rp_y = Some (snd p)\<rparr>"

definition held_at :: "env_canvas \<Rightarrow> kept_map \<Rightarrow> jstring \<Rightarrow> raw_point option" where
  "held_at s k i = map_option (\<lambda>h. raw_of (snd (hl_at h))) (cv_settling s k i)"

text \<open>Local moves that are not saved yet, or not loaded back yet, stay where the user put them.\<close>

definition keep_moves :: "env_canvas \<Rightarrow> graph \<Rightarrow> graph" where
  "keep_moves s g =
     g\<lparr>gr_positions := (\<lambda>i. case map_of (cv_unsaved s) i of
          Some p \<Rightarrow> Some (raw_of p)
        | None \<Rightarrow> (case held_at s KeptPositions i of Some p \<Rightarrow> Some p | None \<Rightarrow> gr_positions g i)),
       gr_nodes := map (\<lambda>n. case held_at s KeptSaved (cd_id n) of Some p \<Rightarrow> n\<lparr>cd_saved := Some p\<rparr> | None \<Rightarrow> n) (gr_nodes g),
       gr_zones := map (\<lambda>z. case held_at s KeptZones (zn_id z) of Some p \<Rightarrow> z\<lparr>zn_position := Some p\<rparr> | None \<Rightarrow> z) (gr_zones g)\<rparr>"

definition still_there :: "graph \<Rightarrow> selection \<Rightarrow> bool" where
  "still_there g x =
     (case x of SelNode i \<Rightarrow> card_by_id g i \<noteq> None | SelLink i \<Rightarrow> list_ex (\<lambda>l. lk_id l = i) (gr_links g))"

definition tag_places :: "nat \<Rightarrow> (jstring \<times> point) list \<Rightarrow> (jstring \<times> place_object) list" where
  "tag_places n ps = map (\<lambda>(k, i, p). (i, k, p)) (enumerate n ps)"

definition first_fit :: "dom \<Rightarrow> env_canvas \<Rightarrow> env_canvas" where
  "first_fit d s =
     (if cv_fitted s then s
      else
        (let s1 = s\<lparr>cv_fitted := True\<rparr>;
             s2 = (if cv_restored s1 then s1\<lparr>cv_restored := False\<rparr> else fit d True s1);
             s3 = (if cv_wanted s2 \<noteq> [] \<and> cv_selected s2 = None \<and> nodeById s2 (cv_wanted s2) \<noteq> None
                   then select_item (Some (SelNode (cv_wanted s2))) s2 else s2)
         in s3\<lparr>cv_wanted := []\<rparr>))"

definition show_graph :: "dom \<Rightarrow> loaded \<Rightarrow> env_canvas \<Rightarrow> env_canvas" where
  "show_graph d next0 s =
     (let g = keep_moves s (ld_graph next0);
          shown = groupByUse (filterGraph (cv_filter s) g);
          v = layoutServerView (dm_compare d) False shown;
          server = (gr_layout shown = ServerLayout);
          origins = (if server then tag_places (cv_next s) (sv_zones v) else [])
      in first_fit d
           (s\<lparr>cv_full := Some (next0\<lparr>ld_graph := g\<rparr>), cv_graph := Some (next0\<lparr>ld_graph := shown\<rparr>),
              cv_same := (fl_project (cv_filter s) = [] \<and> fl_environment (cv_filter s) = [] \<and> gr_layout g \<noteq> ConnectLayout),
              cv_groupMeta := (if server then sv_groups v else []), cv_zoneOrigins := origins,
              cv_next := cv_next s + length origins,
              cv_positions := (if server then place_of (sv_places v) else layoutGraph (dm_compare d) shown),
              cv_error := None,
              cv_hover := (case cv_hover s of Some i \<Rightarrow> if card_by_id shown i \<noteq> None then Some i else None | None \<Rightarrow> None),
              cv_selected := (case cv_selected s of Some x \<Rightarrow> if still_there shown x then Some x else None | None \<Rightarrow> None),
              cv_sizes := dm_sizes d\<rparr>))"

definition applyGraph :: "dom \<Rightarrow> loaded \<Rightarrow> env_canvas \<Rightarrow> env_canvas" where
  "applyGraph d next0 s =
     (if cv_destroyed s then s
      else if cv_interactions s \<noteq> {} then s\<lparr>cv_deferred := Some next0\<rparr>
      else show_graph d next0 s)"

text \<open>\<open>applyGraph(full)\<close>\<close>

definition apply_full :: "dom \<Rightarrow> env_canvas \<Rightarrow> env_canvas" where
  "apply_full d s = (case cv_full s of Some g \<Rightarrow> applyGraph d g s | None \<Rightarrow> s)"

definition setLinks :: "dom \<Rightarrow> (link list \<Rightarrow> link list) \<Rightarrow> env_canvas \<Rightarrow> env_canvas" where
  "setLinks d f s =
     (case cv_full s of
        Some g \<Rightarrow> applyGraph d (g\<lparr>ld_graph := (ld_graph g)\<lparr>gr_links := f (gr_links (ld_graph g))\<rparr>\<rparr>) s
      | None \<Rightarrow> s)"

definition setFilter :: "dom \<Rightarrow> graph_filter \<Rightarrow> env_canvas \<Rightarrow> env_canvas" where
  "setFilter d f s = apply_full d (s\<lparr>cv_filter := f, cv_fitted := False\<rparr>)"

definition begin_interaction :: "jstring \<Rightarrow> env_canvas \<Rightarrow> env_canvas" where
  "begin_interaction key s = s\<lparr>cv_interactions := insert key (cv_interactions s)\<rparr>"

definition end_interaction :: "dom \<Rightarrow> jstring \<Rightarrow> env_canvas \<Rightarrow> env_canvas" where
  "end_interaction d key s =
     (let s1 = s\<lparr>cv_interactions := cv_interactions s - {key}\<rparr>
      in if cv_interactions s1 = {}
         then (case cv_deferred s1 of Some g \<Rightarrow> applyGraph d g (s1\<lparr>cv_deferred := None\<rparr>) | None \<Rightarrow> s1) else s1)"

definition hoverCard :: "jstring \<Rightarrow> bool \<Rightarrow> env_canvas \<Rightarrow> env_canvas" where
  "hoverCard i on s =
     (if on \<and> cv_interactions s = {} then s\<lparr>cv_hover := Some i\<rparr>
      else if \<not> on \<and> cv_hover s = Some i then s\<lparr>cv_hover := None\<rparr> else s)"

section \<open>Drags\<close>

text \<open>A pointer that is down is not pressed again before its release.\<close>

definition begin_drag :: "nat \<Rightarrow> jstring \<Rightarrow> drag \<Rightarrow> env_canvas \<Rightarrow> env_canvas" where
  "begin_drag pid key dr s =
     (if pid \<in> fst ` set (cv_drags s) then s else begin_interaction key (s\<lparr>cv_drags := (pid, dr) # cv_drags s\<rparr>))"

definition inside_group :: "group_meta \<Rightarrow> box \<Rightarrow> bool" where
  "inside_group m b \<longleftrightarrow>
     b_x b \<ge> fst (gm_inner m) + GROUP_PADDING \<and> b_y b \<ge> snd (gm_inner m) + GROUP_HEADER + GROUP_PADDING"

definition card_key :: "jstring \<Rightarrow> jstring" where "card_key i = ''card:'' @ i"

text \<open>\<open>own\<close>: the main button, and not on a link, a button, an input or a port of the card.\<close>

definition startCardDrag :: "dom \<Rightarrow> nat \<Rightarrow> jstring \<Rightarrow> bool \<Rightarrow> real \<Rightarrow> real \<Rightarrow> env_canvas \<Rightarrow> env_canvas" where
  "startCardDrag d pid i own cx cy s =
     (case (own, shown_graph s) of
        (True, Some g) \<Rightarrow>
          (let key = movableGroupOf s (nodeById s i);
               m = Option.bind key (meta_of s);
               rules = dragRules (dm_compare d) g (cv_positions s) (cv_sizes s) i;
               fits = (case m of Some m \<Rightarrow> (\<lambda>b. inside_group m b \<and> dr_fits rules b) | None \<Rightarrow> dr_fits rules)
           in begin_drag pid (card_key i)
                (CardDrag i cx cy (cv_positions s i) (rules\<lparr>dr_fits := fits\<rparr>) m key (canMove s \<or> m \<noteq> None) False) s)
      | _ \<Rightarrow> s)"

definition places_now :: "env_canvas \<Rightarrow> jstring list \<Rightarrow> (jstring \<times> point) list" where
  "places_now s ids = List.map_filter (\<lambda>i. map_option (Pair i) (cv_positions s i)) ids"

definition startZoneDrag :: "dom \<Rightarrow> nat \<Rightarrow> jstring option \<Rightarrow> bool \<Rightarrow> real \<Rightarrow> real \<Rightarrow> env_canvas \<Rightarrow> env_canvas" where
  "startZoneDrag d pid z own cx cy s =
     (case find (\<lambda>b. zx_id b = z) (canvas_boxes d s) of
        Some b \<Rightarrow>
          if own \<and> (canMove s \<or> canMoveZones s)
          then begin_drag pid ''zone''
                 (ZoneDrag z cx cy (zx_box b) (map zx_box (filter (\<lambda>o'. zx_id o' \<noteq> z) (canvas_boxes d s)))
                    (places_now s (zx_nodes b)) None) s
          else s
      | None \<Rightarrow> s)"

text \<open>The frame of the zone around the other groups and the moved one.\<close>

definition zoneAround :: "box list \<Rightarrow> real \<Rightarrow> box \<Rightarrow> box" where
  "zoneAround others top0 b =
     (let all = others @ [b]; x = min_x all; y = min_y all; w = max_x all - x; h = max_y all - y
      in \<lparr>b_x = x - ZONE_PADDING, b_y = y - top0, b_w = w + ZONE_PADDING * 2, b_h = h + ZONE_PADDING + top0\<rparr>)"

definition startGroupDrag :: "dom \<Rightarrow> nat \<Rightarrow> nat \<Rightarrow> bool \<Rightarrow> real \<Rightarrow> real \<Rightarrow> env_canvas \<Rightarrow> env_canvas" where
  "startGroupDrag d pid k own cx cy s =
     (let fs = canvas_frames d s
      in if \<not> own \<or> \<not> canMoveGroups s \<or> length fs \<le> k then s
         else (case gf_key (fs ! k) of
                 None \<Rightarrow> s
               | Some key \<Rightarrow>
                   (case meta_of s key of
                      None \<Rightarrow> s
                    | Some m \<Rightarrow>
                        (let f = fs ! k;
                             others = map gf_box (List.map_filter
                               (\<lambda>(j, o'). if j \<noteq> k \<and> gf_zone o' = gf_zone f then Some o' else None) (enumerate 0 fs));
                             otherZones = (if canMoveZones s
                                           then map zx_box (filter (\<lambda>b. zx_id b \<noteq> gf_zone f) (canvas_boxes d s)) else []);
                             top0 = ZONE_PADDING + zoneHeader (Option.bind (find (\<lambda>b. zx_id b = gf_zone f) (canvas_boxes d s)) zx_zone);
                             fits = (\<lambda>b. b_x b \<ge> fst (gm_inner m) \<and> b_y b \<ge> snd (gm_inner m) \<and>
                                         list_all (\<lambda>z. apart (zoneAround others top0 b) z BOX_GAP) otherZones)
                         in begin_drag pid ''group''
                              (GroupDrag key cx cy (gf_box f) others fits (places_now s (group_nodes s key)) m False) s))))"

definition startConnect :: "nat \<Rightarrow> jstring \<Rightarrow> bool \<Rightarrow> env_canvas \<Rightarrow> env_canvas" where
  "startConnect pid i own s =
     (case rectOf s i of
        Some a \<Rightarrow>
          if own \<and> canEdit s
          then (begin_drag pid ''connect'' (ConnectDrag i (b_x a + b_w a, b_y a + b_h a / 2)) s)\<lparr>cv_hover := None\<rparr>
          else s
      | None \<Rightarrow> s)"

text \<open>The listener of \<open>pointermove\<close>, with the card under the pointer.\<close>

definition still :: "real \<Rightarrow> real \<Rightarrow> real \<Rightarrow> real \<Rightarrow> bool" where
  "still cx cy x y \<longleftrightarrow> hypot (x - cx) (y - cy) < 4"

definition set_drag :: "nat \<Rightarrow> drag \<Rightarrow> env_canvas \<Rightarrow> env_canvas" where
  "set_drag pid dr s = s\<lparr>cv_drags := map (\<lambda>(k, e). (k, if k = pid then dr else e)) (cv_drags s)\<rparr>"

definition shift_cards :: "(jstring \<times> point) list \<Rightarrow> real \<Rightarrow> real \<Rightarrow> env_canvas \<Rightarrow> env_canvas" where
  "shift_cards starts dx dy s =
     s\<lparr>cv_positions := (\<lambda>i. case map_of starts i of Some p \<Rightarrow> Some (fst p + dx, snd p + dy) | None \<Rightarrow> cv_positions s i)\<rparr>"

definition card_moved :: "nat \<Rightarrow> drag \<Rightarrow> real \<Rightarrow> real \<Rightarrow> env_canvas \<Rightarrow> env_canvas" where
  "card_moved pid dr x y s =
     (case dr of
        CardDrag i cx cy start rules m key movable moved \<Rightarrow>
          if (\<not> moved \<and> still cx cy x y) \<or> \<not> movable then s
          else
            (case (rectOf s i, start) of
               (Some r, Some p) \<Rightarrow>
                 (case freeSpot (r\<lparr>b_x := fst p + (x - cx) / vz (cv_view s), b_y := snd p + (y - cy) / vz (cv_view s)\<rparr>)
                         (dr_others rules) BOX_GAP (dr_fits rules) of
                    Some b \<Rightarrow>
                      set_drag pid (CardDrag i cx cy start rules m key movable True)
                        (s\<lparr>cv_positions := (cv_positions s)(i \<mapsto> (b_x b, b_y b))\<rparr>)
                  | None \<Rightarrow> s)
             | _ \<Rightarrow> s)
      | _ \<Rightarrow> s)"

definition zone_moved :: "nat \<Rightarrow> drag \<Rightarrow> real \<Rightarrow> real \<Rightarrow> env_canvas \<Rightarrow> env_canvas" where
  "zone_moved pid dr x y s =
     (case dr of
        ZoneDrag z cx cy box others starts moved \<Rightarrow>
          if moved = None \<and> still cx cy x y then s
          else
            (case freeSpot (box\<lparr>b_x := b_x box + (x - cx) / vz (cv_view s), b_y := b_y box + (y - cy) / vz (cv_view s)\<rparr>)
                    others BOX_GAP (\<lambda>_. True) of
               Some b \<Rightarrow>
                 (let dx = b_x b - b_x box; dy = b_y b - b_y box
                  in set_drag pid (ZoneDrag z cx cy box others starts (Some (dx, dy))) (shift_cards starts dx dy s))
             | None \<Rightarrow> s)
      | _ \<Rightarrow> s)"

definition group_moved :: "nat \<Rightarrow> drag \<Rightarrow> real \<Rightarrow> real \<Rightarrow> env_canvas \<Rightarrow> env_canvas" where
  "group_moved pid dr x y s =
     (case dr of
        GroupDrag key cx cy box others fits starts m moved \<Rightarrow>
          if \<not> moved \<and> still cx cy x y then s
          else
            (case freeSpot (box\<lparr>b_x := max (fst (gm_inner m)) (b_x box + (x - cx) / vz (cv_view s)),
                                b_y := max (snd (gm_inner m)) (b_y box + (y - cy) / vz (cv_view s))\<rparr>)
                    others GROUP_GAP fits of
               Some b \<Rightarrow>
                 set_drag pid (GroupDrag key cx cy box others fits starts m True)
                   (shift_cards starts (b_x b - b_x box) (b_y b - b_y box) s)
             | None \<Rightarrow> s)
      | _ \<Rightarrow> s)"

definition connect_moved :: "dom \<Rightarrow> drag \<Rightarrow> real \<Rightarrow> real \<Rightarrow> jstring option \<Rightarrow> env_canvas \<Rightarrow> env_canvas" where
  "connect_moved d dr x y hit s =
     (case dr of
        ConnectDrag i from0 \<Rightarrow>
          s\<lparr>cv_temp := Some (from0, toWorld (dm_rect d) (cv_view s) x y),
            cv_dropTarget :=
              (case (hit, shown_graph s) of
                 (Some t, Some g) \<Rightarrow> if t \<noteq> [] \<and> canConnect g i t then Some t else None | _ \<Rightarrow> None)\<rparr>
      | _ \<Rightarrow> s)"

definition drag_move :: "dom \<Rightarrow> nat \<Rightarrow> drag \<Rightarrow> real \<Rightarrow> real \<Rightarrow> jstring option \<Rightarrow> env_canvas \<Rightarrow> env_canvas" where
  "drag_move d pid dr x y hit s =
     (case dr of
        CardDrag _ _ _ _ _ _ _ _ _ \<Rightarrow> card_moved pid dr x y s
      | ZoneDrag _ _ _ _ _ _ _ \<Rightarrow> zone_moved pid dr x y s
      | GroupDrag _ _ _ _ _ _ _ _ _ \<Rightarrow> group_moved pid dr x y s
      | ConnectDrag _ _ \<Rightarrow> connect_moved d dr x y hit s)"

definition pointer_moved :: "dom \<Rightarrow> nat \<Rightarrow> real \<Rightarrow> real \<Rightarrow> jstring option \<Rightarrow> env_canvas \<Rightarrow> env_canvas" where
  "pointer_moved d pid x y hit s =
     (case map_of (cv_drags s) pid of Some dr \<Rightarrow> drag_move d pid dr x y hit s | None \<Rightarrow> s)"

section \<open>Opening a card\<close>

definition DOUBLE_CLICK_MS :: real where "DOUBLE_CLICK_MS = 400"

text \<open>\<open>openOnDoubleClick\<close>: \<open>href\<close> is the page of the card under the pointer; \<open>cv_opened\<close> holds the pages opened.\<close>

definition openOnDoubleClick :: "bool \<Rightarrow> jstring option \<Rightarrow> real \<Rightarrow> real \<Rightarrow> real \<Rightarrow> env_canvas \<Rightarrow> env_canvas" where
  "openOnDoubleClick own href time x y s =
     (case cv_lastOpen s of
        Some (page, at0, px, py) \<Rightarrow>
          if own \<and> time - at0 < DOUBLE_CLICK_MS \<and> hypot (x - px) (y - py) < 6
          then s\<lparr>cv_opened := cv_opened s @ [page], cv_lastOpen := None\<rparr>
          else s\<lparr>cv_lastOpen := (case href of Some h \<Rightarrow> if own \<and> h \<noteq> [] then Some (h, time, x, y) else None | None \<Rightarrow> None)\<rparr>
      | None \<Rightarrow>
          s\<lparr>cv_lastOpen := (case href of Some h \<Rightarrow> if own \<and> h \<noteq> [] then Some (h, time, x, y) else None | None \<Rightarrow> None)\<rparr>)"

section \<open>Saving moved cards\<close>

definition queueSave :: "(jstring \<times> point) list \<Rightarrow> env_canvas \<Rightarrow> env_canvas" where
  "queueSave ms s =
     s\<lparr>cv_unsaved := ms @ filter (\<lambda>e. fst e \<notin> fst ` set ms) (cv_unsaved s), cv_save_timer := True\<rparr>"

end
