(* ===== verification/Env_Sync.thy ===== *)
theory Env_Sync
  imports Env_Canvas
begin

text \<open>
  The requests of the environment canvas and the events that drive it, the second part of
  \<open>resources/js/canvas/environment/EnvironmentCanvas.svelte\<close>: loading, saving moves, drawing and removing links,
  releases of drags, timers, and closing the page. A request is parked in \<open>cv_requests\<close> until its answer comes,
  so answers come in any order; what the code does between two awaits is one step.
\<close>

section \<open>Requests\<close>

definition send :: "jstring \<Rightarrow> jstring \<Rightarrow> env_call \<Rightarrow> env_canvas \<Rightarrow> env_canvas" where
  "send verb path c s =
     s\<lparr>cv_requests := cv_requests s @ [(cv_next s, \<lparr>rq_method = verb, rq_path = path, rq_call = c\<rparr>)], cv_next := cv_next s + 1\<rparr>"

text \<open>New place objects for the moves of one save.\<close>

definition new_moves :: "env_canvas \<Rightarrow> (jstring \<times> point) list \<Rightarrow> moves" where
  "new_moves s ps = tag_places (cv_next s) ps"

definition round_point :: "point \<Rightarrow> point" where
  "round_point p = (js_round (fst p), js_round (snd p))"

definition load :: "page \<Rightarrow> bool \<Rightarrow> env_canvas \<Rightarrow> env_canvas" where
  "load p quiet s =
     (if cv_destroyed s then s
      else if cv_loading s then s\<lparr>cv_reloadQueued := True\<rparr>
      else send ''GET'' (page_base p) (Load (cv_loads s + 1) quiet) (s\<lparr>cv_loading := True, cv_loads := cv_loads s + 1\<rparr>))"

definition scheduleRefresh :: "env_canvas \<Rightarrow> env_canvas" where
  "scheduleRefresh s = s\<lparr>cv_refresh_timer := True\<rparr>"

definition loadContainers :: "jstring \<Rightarrow> env_canvas \<Rightarrow> env_canvas" where
  "loadContainers path s =
     send ''GET'' path LoadContainers
       (s\<lparr>cv_containers := (case cv_containers s of Some c \<Rightarrow> Some c | None \<Rightarrow> Some [])\<rparr>)"

definition loadUsage :: "env_canvas \<Rightarrow> env_canvas" where
  "loadUsage s =
     (case cv_full s of
        None \<Rightarrow> s
      | Some f \<Rightarrow>
          foldl (\<lambda>s z. case ld_usage f (zn_id z) of
                         Some path \<Rightarrow> if zn_details z \<and> path \<noteq> [] then send ''GET'' path (LoadUsage (zn_id z)) s else s
                       | None \<Rightarrow> s) s (gr_zones (ld_graph f)))"

definition flushSave :: "page \<Rightarrow> env_canvas \<Rightarrow> env_canvas" where
  "flushSave p s =
     (let s1 = s\<lparr>cv_save_timer := False\<rparr>
      in if cv_unsaved s1 = [] \<or> cv_graph s1 = None then s1
         else
           (let rounded = new_moves s1 (map (\<lambda>(i, q). (i, round_point q)) (cv_unsaved s1));
                s2 = hold_moves KeptPositions rounded (s1\<lparr>cv_next := cv_next s1 + length rounded\<rparr>)
            in send ''PATCH'' (page_base p @ ''/positions'') (SavePositions rounded) (s2\<lparr>cv_unsaved := []\<rparr>)))"

definition saveGroup :: "page \<Rightarrow> jstring list \<Rightarrow> point \<Rightarrow> env_canvas \<Rightarrow> env_canvas" where
  "saveGroup p ids shift s =
     (let at0 = map (\<lambda>(i, q). (i, round_point (fst q - fst shift, snd q - snd shift))) (places_now s ids);
          saved = new_moves s at0;
          node = (case ids of i # _ \<Rightarrow> nodeById s i | [] \<Rightarrow> None)
      in send ''PATCH'' (environmentBase p node @ ''/positions'') (SaveGroup saved)
           (hold_moves KeptSaved saved (s\<lparr>cv_next := cv_next s + length saved\<rparr>)))"

definition isPlaced :: "raw_point option \<Rightarrow> bool" where
  "isPlaced q \<longleftrightarrow> point_of q \<noteq> None"

text \<open>The moved zone, and every zone without a saved place where it is; the latter keep their place object.\<close>

definition zone_moves :: "jstring option \<Rightarrow> point \<Rightarrow> env_canvas \<Rightarrow> moves" where
  "zone_moves z delta s =
     (let zs = (case cv_full s of Some f \<Rightarrow> gr_zones (ld_graph f) | None \<Rightarrow> []);
          placed = (\<lambda>i. isPlaced (Option.bind (find (\<lambda>q. zn_id q = i) zs) zn_position));
          origin = (\<lambda>i. the (map_of (rev (cv_zoneOrigins s)) i))
      in map (\<lambda>i. (i, if Some i = z
                      then (cv_next s, round_point (fst (snd (origin i)) + fst delta, snd (snd (origin i)) + snd delta))
                      else origin i))
           (filter (\<lambda>i. Some i = z \<or> \<not> placed i) (set_to_array (map fst (cv_zoneOrigins s)))))"

definition saveZones :: "page \<Rightarrow> jstring option \<Rightarrow> point \<Rightarrow> env_canvas \<Rightarrow> env_canvas" where
  "saveZones p z delta s =
     (let saved = zone_moves z delta s
      in send ''PATCH'' (page_base p @ ''/positions'') (SaveZones saved)
           (hold_moves KeptZones saved (s\<lparr>cv_next := cv_next s + 1\<rparr>)))"

definition node_name :: "env_canvas \<Rightarrow> jstring \<Rightarrow> jstring" where
  "node_name s i = (case nodeById s i of Some n \<Rightarrow> cd_name n | None \<Rightarrow> ''undefined'')"

text \<open>The texts of the connect view (\<open>CONNECT_TEXT\<close>) are arguments: added, removed, already, by names.\<close>

record connect_text =
  ct_added :: "jstring \<Rightarrow> jstring \<Rightarrow> jstring"
  ct_removed :: "jstring \<Rightarrow> jstring \<Rightarrow> jstring"
  ct_already :: "jstring \<Rightarrow> jstring \<Rightarrow> jstring"

definition CONNECT_TEXT :: "jstring \<Rightarrow> connect_text" where
  "CONNECT_TEXT mode =
     (if mode = ''tags'' then
        \<lparr>ct_added = \<lambda>a b. ''Tagged '' @ b @ '' with '' @ a @ ''.'',
         ct_removed = \<lambda>a b. ''Removed the '' @ a @ '' tag from '' @ b @ ''.'',
         ct_already = \<lambda>a b. b @ '' already has the '' @ a @ '' tag.''\<rparr>
      else
        \<lparr>ct_added = \<lambda>a b. ''Added '' @ a @ '' to '' @ b @ ''. Redeploy it to use the variable.'',
         ct_removed = \<lambda>a b. ''Removed '' @ a @ '' from '' @ b @ ''. Redeploy it to apply.'',
         ct_already = \<lambda>a b. b @ '' already uses '' @ a @ ''.''\<rparr>)"

text \<open>\<open>createLink\<close>; \<open>dragged\<close>: the release of a drag waits for it and then ends its interaction.\<close>

definition createLink :: "dom \<Rightarrow> page \<Rightarrow> jstring \<Rightarrow> jstring \<Rightarrow> bool \<Rightarrow> env_canvas \<Rightarrow> env_canvas" where
  "createLink d p source target dragged s =
     (let links = (case shown_graph s of Some g \<Rightarrow> gr_links g | None \<Rightarrow> [])
      in if \<not> canLink links source target then
           (let s1 = toast (if connectView p then ct_already (CONNECT_TEXT (pg_mode p)) (node_name s source) (node_name s target)
                            else ''These resources are already linked.'') True s
            in if dragged then end_interaction d ''connect'' s1 else s1)
         else
           send ''POST'' (environmentBase p (nodeById s source) @ ''/links'') (PostLink source target (cv_next s) dragged)
             (s\<lparr>cv_pending := cv_pending s @ [(cv_next s, source, target)], cv_next := cv_next s + 1\<rparr>))"

definition link_path_of :: "jstring \<Rightarrow> link \<Rightarrow> jstring" where
  "link_path_of b l = b @ ''/links/'' @ encodeURIComponent (lk_id l)"

definition saveLabel :: "page \<Rightarrow> link \<Rightarrow> jstring \<Rightarrow> env_canvas \<Rightarrow> env_canvas" where
  "saveLabel p l v s = send ''PATCH'' (link_path_of (environmentBase p (nodeById s (lk_source l))) l) (PatchLabel l v) s"

definition deleteLink :: "page \<Rightarrow> link \<Rightarrow> env_canvas \<Rightarrow> env_canvas" where
  "deleteLink p l s = send ''DELETE'' (link_path_of (environmentBase p (nodeById s (lk_source l))) l) (DropLink l) s"

definition removeLink :: "page \<Rightarrow> link \<Rightarrow> env_canvas \<Rightarrow> env_canvas" where
  "removeLink p l s = send ''DELETE'' (link_path_of (page_base p) l) 
    (TakeLink l (node_name s (lk_source l)) (node_name s (lk_target l))) s"

section \<open>Answers\<close>

text \<open>What a request returns: nothing, a graph, a link, cards, or some other value; or the message of an error.\<close>

datatype reply = NoReply | GraphReply loaded | LinkReply link | CardsReply "card list" | ValueReply json

definition add_containers :: "card list option \<Rightarrow> loaded \<Rightarrow> loaded" where
  "add_containers cs g =
     (case cs of
        Some c \<Rightarrow> g\<lparr>ld_graph := (ld_graph g)\<lparr>gr_nodes := gr_nodes (ld_graph g) @ c\<rparr>\<rparr> | None \<Rightarrow> g)"

definition load_failed :: "jstring \<Rightarrow> env_canvas \<Rightarrow> env_canvas" where
  "load_failed message s =
     (if cv_destroyed s then s
      else if cv_graph s \<noteq> None then toast message True s else s\<lparr>cv_error := Some message\<rparr>)"

definition load_followups :: "bool \<Rightarrow> loaded option \<Rightarrow> env_canvas \<Rightarrow> env_canvas" where
  "load_followups quiet g s =
     (let s1 = (if \<not> quiet \<and> cv_fitted s \<and> g \<noteq> None then toast ''Canvas refreshed.'' False s else s);
          s2 = (case Option.bind g ld_containers of
                  Some path \<Rightarrow> if path \<noteq> [] \<and> (\<not> quiet \<or> cv_containers s1 = None) then loadContainers path s1 else s1
                | None \<Rightarrow> s1)
      in if \<not> quiet \<or> cv_usage s2 = [] then loadUsage s2 else s2)"

text \<open>The message of an exception of the engine, whose wording is not modelled, when the answer is empty.\<close>

definition NULL_ERROR :: jstring where "NULL_ERROR = ''TypeError''"

definition load_answered :: "dom \<Rightarrow> page \<Rightarrow> nat \<Rightarrow> bool \<Rightarrow> jstring + reply \<Rightarrow> env_canvas \<Rightarrow> env_canvas" where
  "load_answered d p started quiet r s =
     (let s1 = (case r of
                  Inl message \<Rightarrow> load_failed message s
                | Inr (GraphReply g) \<Rightarrow>
                    (let s0 = dropSettled started s; next0 = add_containers (cv_containers s0) g
                     in load_followups quiet (Some next0) (applyGraph d next0 s0))
                | Inr _ \<Rightarrow>
                    (let s0 = dropSettled started s
                     in if cv_destroyed s0 then load_followups quiet None s0
                        else if cv_interactions s0 \<noteq> {} then load_followups quiet None (s0\<lparr>cv_deferred := None\<rparr>)
                        else load_failed NULL_ERROR s0));
          s2 = s1\<lparr>cv_loading := False\<rparr>
      in if \<not> cv_destroyed s2 \<and> cv_reloadQueued s2 then load p True (s2\<lparr>cv_reloadQueued := False\<rparr>) else s2)"

definition containers_answered :: "dom \<Rightarrow> jstring + reply \<Rightarrow> env_canvas \<Rightarrow> env_canvas" where
  "containers_answered d r s =
     (let cards = (case r of Inr (CardsReply c) \<Rightarrow> Some c | Inr _ \<Rightarrow> Some [] | Inl _ \<Rightarrow> None)
      in case (cards, cv_full s) of
           (Some c, Some f) \<Rightarrow>
             if cv_destroyed s then s
             else applyGraph d (f\<lparr>ld_graph := (ld_graph f)\<lparr>gr_nodes :=
                    filter (\<lambda>n. cd_type n \<noteq> ContainerCard) (gr_nodes (ld_graph f)) @ c\<rparr>\<rparr>) (s\<lparr>cv_containers := Some c\<rparr>)
         | _ \<Rightarrow> s)"

definition usage_answered :: "jstring \<Rightarrow> jstring + reply \<Rightarrow> env_canvas \<Rightarrow> env_canvas" where
  "usage_answered z r s =
     (case r of
        Inr (ValueReply v) \<Rightarrow>
          if \<not> cv_destroyed s \<and> truthy v then s\<lparr>cv_usage := (z, v) # filter (\<lambda>e. fst e \<noteq> z) (cv_usage s)\<rparr> else s
      | _ \<Rightarrow> s)"

text \<open>A failed save: the moves are no longer held, and the canvas loads what is saved.\<close>

definition save_failed :: "page \<Rightarrow> kept_map \<Rightarrow> moves \<Rightarrow> jstring \<Rightarrow> env_canvas \<Rightarrow> env_canvas" where
  "save_failed p k ms message s =
     (let s1 = release_moves k ms s
      in if cv_destroyed s1 then s1 else load p True (toast message True s1))"

definition positions_answered :: "page \<Rightarrow> moves \<Rightarrow> jstring + reply \<Rightarrow> env_canvas \<Rightarrow> env_canvas" where
  "positions_answered p ms r s =
     (case r of
        Inl message \<Rightarrow> save_failed p KeptPositions ms message s
      | Inr _ \<Rightarrow>
          (let s1 = settle_moves KeptPositions ms s
           in if cv_graph s1 \<noteq> None \<and> \<not> cv_destroyed s1
              then patchGraph (\<lambda>g. g\<lparr>gr_positions := (\<lambda>i. case map_of ms i of
                     Some q \<Rightarrow> Some (raw_of (snd q)) | None \<Rightarrow> gr_positions g i)\<rparr>) s1
              else s1))"

definition moves_answered :: "dom \<Rightarrow> page \<Rightarrow> kept_map \<Rightarrow> moves \<Rightarrow> jstring + reply \<Rightarrow> env_canvas \<Rightarrow> env_canvas" where
  "moves_answered d p k ms r s =
     (case r of
        Inl message \<Rightarrow> save_failed p k ms message s
      | Inr _ \<Rightarrow>
          (let s1 = settle_moves k ms s in if cv_destroyed s1 then s1 else apply_full d s1))"

text \<open>A link in an answer: with an id that is not empty.\<close>

definition reply_link :: "reply \<Rightarrow> link option" where
  "reply_link r = (case r of LinkReply l \<Rightarrow> if lk_id l \<noteq> [] then Some l else None | _ \<Rightarrow> None)"

definition put_link :: "link \<Rightarrow> link list \<Rightarrow> link list" where
  "put_link l ls = filter (\<lambda>k. lk_id k \<noteq> lk_id l) ls @ [l]"

definition link_created :: "dom \<Rightarrow> page \<Rightarrow> jstring \<Rightarrow> jstring \<Rightarrow> reply \<Rightarrow> env_canvas \<Rightarrow> env_canvas" where
  "link_created d p source target r s =
     (if cv_destroyed s then s
      else if connectView p then
        (let keep = (cv_selected s = Some (SelNode source) \<or> cv_selected s = Some (SelNode target));
             s1 = (if keep then s else select_item (Some (SelNode source)) s);
             s2 = (case reply_link r of Some l \<Rightarrow> setLinks d (put_link l) s1 | None \<Rightarrow> apply_full d s1)
         in load p True (toast (ct_added (CONNECT_TEXT (pg_mode p)) (node_name s2 source) (node_name s2 target)) False s2))
      else
        (case reply_link r of
           Some l \<Rightarrow>
             select_item (Some (SelLink (lk_id l))) (patchGraph (\<lambda>g. g\<lparr>gr_links := put_link l (gr_links g)\<rparr>) s)
         | None \<Rightarrow> load p True s))"

definition create_answered ::
  "dom \<Rightarrow> page \<Rightarrow> jstring \<Rightarrow> jstring \<Rightarrow> nat \<Rightarrow> bool \<Rightarrow> jstring + reply \<Rightarrow> env_canvas \<Rightarrow> env_canvas" where
  "create_answered d p source target n dragged r s =
     (let s1 = (case r of Inl message \<Rightarrow> toast message True s | Inr v \<Rightarrow> link_created d p source target v s);
          s2 = s1\<lparr>cv_pending := filter (\<lambda>e. fst e \<noteq> n) (cv_pending s1)\<rparr>
      in if dragged then end_interaction d ''connect'' s2 else s2)"

definition delete_answered :: "link \<Rightarrow> jstring + reply \<Rightarrow> env_canvas \<Rightarrow> env_canvas" where
  "delete_answered l r s =
     (case r of
        Inl message \<Rightarrow> toast message True s
      | Inr _ \<Rightarrow>
          toast ''Link removed.'' False
            (select_item None (patchGraph (\<lambda>g. g\<lparr>gr_links := filter (\<lambda>k. lk_id k \<noteq> lk_id l) (gr_links g)\<rparr>) s)))"

text \<open>The names in the text are those of the press, taken before the request.\<close>

definition remove_answered :: "dom \<Rightarrow> page \<Rightarrow> link \<Rightarrow> jstring \<Rightarrow> jstring \<Rightarrow> jstring + reply \<Rightarrow> env_canvas \<Rightarrow> env_canvas" where
  "remove_answered d p l variable resource r s =
     (case r of
        Inl message \<Rightarrow> toast message True s
      | Inr _ \<Rightarrow>
          if cv_destroyed s then s
          else
            (let s1 = (case cv_selected s of
                         Some (SelLink _) \<Rightarrow> select_item (Some (SelNode (lk_source l))) s | _ \<Rightarrow> s)
             in load p True
                  (toast (ct_removed (CONNECT_TEXT (pg_mode p)) variable resource) False
                    (setLinks d (filter (\<lambda>k. lk_id k \<noteq> lk_id l)) s1))))"

definition label_answered :: "link \<Rightarrow> jstring \<Rightarrow> jstring + reply \<Rightarrow> env_canvas \<Rightarrow> env_canvas" where
  "label_answered l v r s =
     (case r of
        Inl message \<Rightarrow> toast message True s
      | Inr x \<Rightarrow>
          toast ''Label saved.'' False
            (replaceLink (case reply_link x of Some u \<Rightarrow> u | None \<Rightarrow> l\<lparr>lk_label := (if v = [] then None else Some v)\<rparr>) s))"


definition answered :: "dom \<Rightarrow> page \<Rightarrow> env_call \<Rightarrow> jstring + reply \<Rightarrow> env_canvas \<Rightarrow> env_canvas" where
  "answered d p c r s =
     (case c of
        Load started quiet \<Rightarrow> load_answered d p started quiet r s
      | SavePositions ms \<Rightarrow> positions_answered p ms r s
      | SaveGroup ms \<Rightarrow> moves_answered d p KeptSaved ms r s
      | SaveZones ms \<Rightarrow> moves_answered d p KeptZones ms r s
      | PostLink a b n dragged \<Rightarrow> create_answered d p a b n dragged r s
      | DropLink l \<Rightarrow> delete_answered l r s
      | TakeLink l a b \<Rightarrow> remove_answered d p l a b r s
      | PatchLabel l v \<Rightarrow> label_answered l v r s
      | LoadContainers \<Rightarrow> containers_answered d r s
      | LoadUsage z \<Rightarrow> usage_answered z r s)"

section \<open>Releases and the life of the page\<close>

definition card_released :: "dom \<Rightarrow> page \<Rightarrow> drag \<Rightarrow> env_canvas \<Rightarrow> env_canvas" where
  "card_released d p dr s =
     (case dr of
        CardDrag i cx cy start rules m key movable moved \<Rightarrow>
          end_interaction d (card_key i)
            (case (moved, m, key) of
               (True, Some m, Some key) \<Rightarrow> saveGroup p (group_nodes s key) (gm_shift m) s
             | (True, _, _) \<Rightarrow> queueSave (places_now s [i]) s
             | (False, _, _) \<Rightarrow> select_item (Some (SelNode i)) s)
      | _ \<Rightarrow> s)"

definition zone_released :: "dom \<Rightarrow> page \<Rightarrow> drag \<Rightarrow> env_canvas \<Rightarrow> env_canvas" where
  "zone_released d p dr s =
     (case dr of
        ZoneDrag z cx cy box others starts moved \<Rightarrow>
          end_interaction d ''zone''
            (case moved of
               Some delta \<Rightarrow> if canMove s then queueSave (places_now s (map fst starts)) s else saveZones p z delta s
             | None \<Rightarrow> s)
      | _ \<Rightarrow> s)"

definition group_released :: "dom \<Rightarrow> page \<Rightarrow> drag \<Rightarrow> env_canvas \<Rightarrow> env_canvas" where
  "group_released d p dr s =
     (case dr of
        GroupDrag key cx cy box others fits starts m moved \<Rightarrow>
          end_interaction d ''group'' (if moved then saveGroup p (map fst starts) (gm_shift m) s else s)
      | _ \<Rightarrow> s)"

definition connect_released :: "dom \<Rightarrow> page \<Rightarrow> drag \<Rightarrow> env_canvas \<Rightarrow> env_canvas" where
  "connect_released d p dr s =
     (case dr of
        ConnectDrag i from0 \<Rightarrow>
          (let s1 = s\<lparr>cv_dropTarget := None, cv_temp := None\<rparr>
           in case cv_dropTarget s of
                Some t \<Rightarrow> createLink d p i t True s1
              | None \<Rightarrow> end_interaction d ''connect'' s1)
      | _ \<Rightarrow> s)"

definition drag_release :: "dom \<Rightarrow> page \<Rightarrow> drag \<Rightarrow> env_canvas \<Rightarrow> env_canvas" where
  "drag_release d p dr s =
     (case dr of
        CardDrag _ _ _ _ _ _ _ _ _ \<Rightarrow> card_released d p dr s
      | ZoneDrag _ _ _ _ _ _ _ \<Rightarrow> zone_released d p dr s
      | GroupDrag _ _ _ _ _ _ _ _ _ \<Rightarrow> group_released d p dr s
      | ConnectDrag _ _ \<Rightarrow> connect_released d p dr s)"

definition pointer_released :: "dom \<Rightarrow> page \<Rightarrow> nat \<Rightarrow> env_canvas \<Rightarrow> env_canvas" where
  "pointer_released d p pid s =
     (case map_of (cv_drags s) pid of
        Some dr \<Rightarrow> drag_release d p dr (s\<lparr>cv_drags := filter (\<lambda>e. fst e \<noteq> pid) (cv_drags s)\<rparr>)
      | None \<Rightarrow> s)"

definition onPageHide :: "page \<Rightarrow> env_canvas \<Rightarrow> env_canvas" where
  "onPageHide p s = (let s1 = saveView s in if cv_unsaved s1 \<noteq> [] then flushSave p s1 else s1)"

definition unmount :: "page \<Rightarrow> env_canvas \<Rightarrow> env_canvas" where
  "unmount p s =
     (onPageHide p s)\<lparr>cv_destroyed := True, cv_save_timer := False, cv_refresh_timer := False, cv_view_timer := False\<rparr>"

definition mount :: "page \<Rightarrow> env_canvas \<Rightarrow> env_canvas" where
  "mount p s = load p True (s\<lparr>cv_view_timer := True\<rparr>)"

datatype env_event =
    Mount
  | PressCard nat jstring bool real real
  | PressZone nat "jstring option" bool real real
  | PressGroup nat nat bool real real
  | PressPort nat jstring bool
  | PointerMoved nat real real "jstring option"
  | PointerReleased nat
  | DoublePress bool "jstring option" real real real
  | HoverCard jstring bool
  | SelectItem selection
  | ShowNode jstring
  | ClosePanel
  | ViewChanged view
  | FitPressed
  | SetFilter graph_filter
  | RefreshPressed
  | AddLink jstring jstring
  | RemoveLink link
  | DeleteLink link
  | SaveLabel link jstring
  | StatusEvent
  | PageVisible
  | PollTick
  | UsageTick
  | SaveTimer
  | RefreshTimer
  | ToastTimer
  | ViewTimer
  | PageHidden
  | Unmounted
  | Answer nat "jstring + reply"

text \<open>One event. A timer fires only while it is set; the listeners and timers of a closed page are gone.\<close>

definition env_step :: "dom \<Rightarrow> page \<Rightarrow> env_event \<Rightarrow> env_canvas \<Rightarrow> env_canvas" where
  "env_step d p e s =
     (case e of
        Answer n r \<Rightarrow>
          (case map_of (cv_requests s) n of
             Some q \<Rightarrow> answered d p (rq_call q) r (s\<lparr>cv_requests := filter (\<lambda>x. fst x \<noteq> n) (cv_requests s)\<rparr>)
           | None \<Rightarrow> s)
      | Unmounted \<Rightarrow> if cv_destroyed s then s else unmount p s
      | ToastTimer \<Rightarrow> if cv_destroyed s then s else s\<lparr>cv_toast := None\<rparr>
      | _ \<Rightarrow>
          if cv_destroyed s then s
          else
            (case e of
               Mount \<Rightarrow> mount p s
             | PressCard k i own x y \<Rightarrow> startCardDrag d k i own x y s
             | PressZone k z own x y \<Rightarrow> startZoneDrag d k z own x y s
             | PressGroup k j own x y \<Rightarrow> startGroupDrag d k j own x y s
             | PressPort k i own \<Rightarrow> startConnect k i own s
             | PointerMoved k x y hit \<Rightarrow> pointer_moved d k x y hit s
             | PointerReleased k \<Rightarrow> pointer_released d p k s
             | DoublePress own href time x y \<Rightarrow> openOnDoubleClick own href time x y s
             | HoverCard i on \<Rightarrow> hoverCard i on s
             | SelectItem x \<Rightarrow> select_item (Some x) s
             | ShowNode i \<Rightarrow> showNode d i s
             | ClosePanel \<Rightarrow> closePanel s
             | ViewChanged v \<Rightarrow> view_changed v s
             | FitPressed \<Rightarrow> fit d False s
             | SetFilter f \<Rightarrow> if filterView p then setFilter d f s else s
             | RefreshPressed \<Rightarrow> load p False s
             | AddLink a b \<Rightarrow> if connectView p then createLink d p a b False s else s
             | RemoveLink l \<Rightarrow> if connectView p then removeLink p l s else s
             | DeleteLink l \<Rightarrow> if connectView p then s else deleteLink p l s
             | SaveLabel l v \<Rightarrow> if connectView p then s else saveLabel p l v s
             | StatusEvent \<Rightarrow> scheduleRefresh s
             | PageVisible \<Rightarrow> scheduleRefresh s
             | PollTick \<Rightarrow> load p True s
             | UsageTick \<Rightarrow> loadUsage s
             | SaveTimer \<Rightarrow> if cv_save_timer s then flushSave p s else s
             | RefreshTimer \<Rightarrow> if cv_refresh_timer s then load p True (s\<lparr>cv_refresh_timer := False\<rparr>) else s
             | ViewTimer \<Rightarrow> if cv_view_timer s then saveView s else s
             | PageHidden \<Rightarrow> onPageHide p s
             | _ \<Rightarrow> s))"

definition env_run :: "page \<Rightarrow> (dom \<times> env_event) list \<Rightarrow> env_canvas \<Rightarrow> env_canvas" where
  "env_run p es s = foldl (\<lambda>s (d, e). env_step d p e s) s es"

end
