(* ===== verification/Env_Layout_Safety.thy ===== *)
theory Env_Layout_Safety
  imports Env_Geometry Canvas_Core_Safety "HOL-Library.Multiset"
begin

text \<open>
  Where the cards of the environment canvas go: every card gets one place, new cards keep clear of the saved
  cards of their zone and of each other, and linked cards stand in the order of their links.
\<close>

section \<open>Places\<close>

definition card_box :: "card \<Rightarrow> point \<Rightarrow> box" where
  "card_box n p = \<lparr>b_x = fst p, b_y = snd p, b_w = CARD_WIDTH, b_h = estimateNodeHeight n\<rparr>"

abbreviation clear_of :: "card \<times> point \<Rightarrow> card \<times> point \<Rightarrow> bool" where
  "clear_of a b \<equiv> apart (card_box (fst a) (snd a)) (card_box (fst b) (snd b)) ROW_GAP"

lemma clear_sym: "clear_of a b \<longleftrightarrow> clear_of b a"
  by (rule apart_sym)

lemma height_pos: "0 < estimateNodeHeight n"
  by (simp add: estimateNodeHeight_def)

lemma clear_below: "snd (snd a) + estimateNodeHeight (fst a) + ROW_GAP \<le> snd (snd b) \<Longrightarrow> clear_of a b"
  by (simp add: apart_def card_box_def)

lemma clear_columns:
  assumes "fst (snd a) = columnLeft x j" "fst (snd b) = columnLeft x k" "j \<noteq> k"
  shows "clear_of a b"
proof -
  have "real j + 1 \<le> real k \<or> real k + 1 \<le> real j" using assms(3) by linarith
  then show ?thesis using assms(1,2) by (auto simp: apart_def card_box_def columnLeft_def env_constants)
qed

definition spaced :: "places \<Rightarrow> bool" where
  "spaced ps \<longleftrightarrow> sorted_wrt clear_of ps"

lemma spaced_append: "spaced (ps @ qs) \<longleftrightarrow> spaced ps \<and> spaced qs \<and> (\<forall>a \<in> set ps. \<forall>b \<in> set qs. clear_of a b)"
  by (simp add: spaced_def sorted_wrt_append)

lemma spaced_pair:
  assumes "spaced ps" "a \<in> set ps" "b \<in> set ps" "a \<noteq> b"
  shows "clear_of a b"
  using assms
proof (induction ps)
  case (Cons c ps)
  have all: "\<forall>d \<in> set ps. clear_of c d" and "spaced ps" using Cons.prems(1) by (simp_all add: spaced_def)
  then show ?case using Cons clear_sym [of c a] by (cases "a = c"; cases "b = c") simp_all
qed simp

lemma mset_fst: "\<lbrakk>mset (map fst ps) = mset ns; a \<in> set ps\<rbrakk> \<Longrightarrow> fst a \<in> set ns"
  using mset_eq_setD [of "map fst ps" ns] by auto

subsection \<open>Grids\<close>

definition column_start :: "real \<Rightarrow> real list \<Rightarrow> nat \<Rightarrow> real" where
  "column_start t ys j = (if j < length ys then ys ! j else t)"

lemma place_column_ok:
  assumes "place_column x fc t i ys ns = (ps, ys')" "i div MAX_ROWS \<le> length ys"
  shows "map fst ps = ns \<and> length ys \<le> length ys' \<and> (\<forall>j < length ys'. column_start t ys j \<le> ys' ! j) \<and>
    (\<forall>a \<in> set ps. \<exists>j < length ys'. fst (snd a) = columnLeft x (fc + j) \<and> column_start t ys j \<le> snd (snd a) \<and>
       snd (snd a) + estimateNodeHeight (fst a) + ROW_GAP \<le> ys' ! j) \<and> spaced ps"
  using assms
proof (induction ns arbitrary: i ys ps)
  case Nil
  then show ?case by (simp add: spaced_def column_start_def)
next
  case (Cons n ns)
  let ?k = "i div MAX_ROWS"
  define zs where "zs = (if ?k < length ys then ys else ys @ [t])"
  define y where "y = zs ! ?k"
  define ws where "ws = zs[?k := y + estimateNodeHeight n + ROW_GAP]"
  obtain qs where q: "place_column x fc t (i + 1) ws ns = (qs, ys')" and ps: "ps = (n, (columnLeft x (fc + ?k), y)) # qs"
    using Cons.prems(1) by (auto simp: Let_def zs_def y_def ws_def split: prod.splits)
  have k: "?k < length zs" using Cons.prems(2) by (simp add: zs_def)
  have y: "y = column_start t ys ?k" using Cons.prems(2) by (auto simp: y_def zs_def column_start_def nth_append)
  have len: "length ws = length zs" "length ys \<le> length zs" by (auto simp: ws_def zs_def)
  have "(i + 1) div MAX_ROWS \<le> ?k + 1" by (simp add: MAX_ROWS_def)
  then have "(i + 1) div MAX_ROWS \<le> length ws" using k len by linarith
  note IH = Cons.IH [OF q this]
  have h: "0 \<le> estimateNodeHeight n + ROW_GAP" using height_pos [of n] by (simp add: ROW_GAP_def)
  have mono: "column_start t ys j \<le> column_start t ws j" for j
    using h y by (auto simp: column_start_def ws_def zs_def nth_list_update nth_append y_def)
  have start: "column_start t ws ?k = y + estimateNodeHeight n + ROW_GAP"
    using k len by (simp add: column_start_def ws_def)
  have "clear_of (n, (columnLeft x (fc + ?k), y)) b" if b: "b \<in> set qs" for b
  proof -
    obtain j where j: "fst (snd b) = columnLeft x (fc + j)" "column_start t ws j \<le> snd (snd b)" using IH b by blast
    show ?thesis
    proof (cases "j = ?k")
      case True
      then show ?thesis using j start by (intro clear_below) simp
    next
      case False
      then show ?thesis using j by (intro clear_columns [of _ x "fc + ?k" _ "fc + j"]) simp_all
    qed
  qed
  then have "spaced ps" using IH by (simp add: ps spaced_def)
  moreover have "?k < length ys'" "y + estimateNodeHeight n + ROW_GAP \<le> ys' ! ?k"
    using IH k len start by (force, metis order_less_le_trans)
  moreover have "\<exists>j < length ys'. fst (snd a) = columnLeft x (fc + j) \<and> column_start t ys j \<le> snd (snd a) \<and>
       snd (snd a) + estimateNodeHeight (fst a) + ROW_GAP \<le> ys' ! j" if "a \<in> set qs" for a
    using IH that mono order_trans by blast
  moreover have "\<forall>j < length ys'. column_start t ys j \<le> ys' ! j" using IH mono order_trans by blast
  ultimately show ?case using IH ps y len by auto
qed

lemma foldl_max_ge: "b \<le> foldl max b (vs :: real list) \<and> (\<forall>v \<in> set vs. v \<le> foldl max b vs)"
proof (induction vs arbitrary: b)
  case (Cons v vs)
  show ?case using Cons [of "max b v"] by auto
qed simp

text \<open>All of a grid: one place per card, from \<open>t\<close> down to the bottom it returns.\<close>

definition grid_ok :: "real \<Rightarrow> nat \<Rightarrow> real \<Rightarrow> real \<Rightarrow> places \<Rightarrow> bool" where
  "grid_ok x fc t b ps \<longleftrightarrow> spaced ps \<and>
     (\<forall>a \<in> set ps. (\<exists>j \<ge> fc. fst (snd a) = columnLeft x j) \<and> t \<le> snd (snd a) \<and> snd (snd a) + estimateNodeHeight (fst a) \<le> b)"

lemma place_types_ok:
  assumes "place_types x t ns fc b cs = (ps, b')" "t \<le> b" "distinct cs"
  shows "b \<le> b' \<and> grid_ok x fc t b' ps \<and> mset (map fst ps) = mset (filter (\<lambda>n. columnOf n \<in> set cs) ns)"
  using assms
proof (induction cs arbitrary: fc b ps)
  case Nil
  then show ?case by (simp add: grid_ok_def spaced_def)
next
  case (Cons c cs)
  let ?ms = "filter (\<lambda>n. columnOf n = c) ns"
  obtain qs ys where q: "place_column x fc t 0 [] ?ms = (qs, ys)" by fastforce
  let ?b = "foldl max b (map (\<lambda>v. v - ROW_GAP) ys)"
  obtain rs where r: "place_types x t ns (fc + length ys) ?b cs = (rs, b')" and ps: "ps = qs @ rs"
    using Cons.prems(1) by (auto simp: q Let_def split: prod.splits)
  note col = place_column_ok [OF q]
  have b: "b \<le> ?b" "\<forall>j < length ys. ys ! j - ROW_GAP \<le> ?b"
    using foldl_max_ge [of b "map (\<lambda>v. v - ROW_GAP) ys"] by auto
  have "t \<le> ?b" using b Cons.prems(2) by linarith
  note IH = Cons.IH [OF r this] 
  have IH': "?b \<le> b'" "grid_ok x (fc + length ys) t b' rs" "mset (map fst rs) = mset (filter (\<lambda>n. columnOf n \<in> set cs) ns)"
    using IH Cons.prems(3) by simp_all
  have qcol: "\<exists>j < length ys. fst (snd a) = columnLeft x (fc + j) \<and> t \<le> snd (snd a) \<and>
      snd (snd a) + estimateNodeHeight (fst a) + ROW_GAP \<le> ys ! j" if "a \<in> set qs" for a
    using col that by (auto simp: column_start_def)
  have "clear_of a d" if a: "a \<in> set qs" and d: "d \<in> set rs" for a d
  proof -
    obtain j where "j < length ys" "fst (snd a) = columnLeft x (fc + j)" using qcol [OF a] by blast
    moreover obtain k where "k \<ge> fc + length ys" "fst (snd d) = columnLeft x k" using IH'(2) d by (auto simp: grid_ok_def)
    ultimately show ?thesis by (intro clear_columns [of _ x "fc + j" _ k]) simp_all
  qed
  moreover have "spaced qs" "map fst qs = ?ms" using col by simp_all
  moreover have "(\<exists>j \<ge> fc. fst (snd a) = columnLeft x j) \<and> t \<le> snd (snd a) \<and> snd (snd a) + estimateNodeHeight (fst a) \<le> b'"
    if a: "a \<in> set qs" for a
  proof -
    obtain j where "j < length ys" "fst (snd a) = columnLeft x (fc + j)" "t \<le> snd (snd a)"
      "snd (snd a) + estimateNodeHeight (fst a) + ROW_GAP \<le> ys ! j" using qcol [OF a] by blast
    moreover have "ys ! j - ROW_GAP \<le> b'" using b(2) IH'(1) \<open>j < length ys\<close> order_trans by blast
    ultimately show ?thesis by (intro conjI exI [of _ "fc + j"]) simp_all
  qed
  moreover have "(\<exists>j \<ge> fc. fst (snd a) = columnLeft x j) \<and> t \<le> snd (snd a) \<and> snd (snd a) + estimateNodeHeight (fst a) \<le> b'"
    if a: "a \<in> set rs" for a
  proof -
    obtain j where "j \<ge> fc + length ys" "fst (snd a) = columnLeft x j" "t \<le> snd (snd a)"
      "snd (snd a) + estimateNodeHeight (fst a) \<le> b'" using IH'(2) a by (auto simp: grid_ok_def)
    then show ?thesis by (intro conjI exI [of _ j]) simp_all
  qed
  moreover have "mset ?ms + mset (filter (\<lambda>n. columnOf n \<in> set cs) ns) = mset (filter (\<lambda>n. columnOf n \<in> set (c # cs)) ns)"
    using Cons.prems(3) by (induction ns) auto
  ultimately show ?case
    using IH' b(1) by (auto simp: ps grid_ok_def spaced_append)
qed

lemma columnOf_cases: "columnOf n \<in> {0, 1, 2}"
  by (simp add: columnOf_def split: card_type.split)

lemma placeGrid_ok:
  assumes "placeGrid ns x t = (ps, b)"
  shows "t \<le> b" "grid_ok x 0 t b ps" "mset (map fst ps) = mset ns"
proof -
  have "filter (\<lambda>n. columnOf n \<in> set [0, 1, 2]) ns = ns"
    using columnOf_cases by (simp add: filter_id_conv)
  then show "t \<le> b" "grid_ok x 0 t b ps" "mset (map fst ps) = mset ns"
    using place_types_ok [OF assms [unfolded placeGrid_def]] by simp_all
qed


subsection \<open>The environment view\<close>

lemma place_fresh_spaced:
  "spaced (place_fresh zs y) \<and> (\<forall>a \<in> set (place_fresh zs y). y + ZONE_HEADER + ZONE_PADDING \<le> snd (snd a)) \<and>
   mset (map fst (place_fresh zs y)) = mset (concat (map zg_nodes zs))"
proof (induction zs arbitrary: y)
  case Nil
  then show ?case by (simp add: spaced_def)
next
  case (Cons z zs)
  let ?t = "y + ZONE_HEADER + ZONE_PADDING"
  obtain ps b where p: "placeGrid (zg_nodes z) 0 ?t = (ps, b)" by fastforce
  note grid = placeGrid_ok [OF p]
  note IH = Cons.IH [of "b + ZONE_PADDING + ZONE_GAP"]
  have "clear_of a d" if "a \<in> set ps" "d \<in> set (place_fresh zs (b + ZONE_PADDING + ZONE_GAP))" for a d
  proof -
    have "snd (snd a) + estimateNodeHeight (fst a) \<le> b" using grid(2) that(1) by (simp add: grid_ok_def)
    moreover have "b + ZONE_PADDING + ZONE_GAP + ZONE_HEADER + ZONE_PADDING \<le> snd (snd d)" using IH that(2) by blast
    ultimately show ?thesis by (intro clear_below) (simp add: env_constants)
  qed
  moreover have "?t \<le> snd (snd d)" if "d \<in> set (place_fresh zs (b + ZONE_PADDING + ZONE_GAP))" for d
  proof -
    have "b + ZONE_PADDING + ZONE_GAP + ZONE_HEADER + ZONE_PADDING \<le> snd (snd d)" using IH that by blast
    then show ?thesis using grid(1) by (simp add: env_constants)
  qed
  ultimately show ?case
    using IH grid by (auto simp: p Let_def spaced_append grid_ok_def)
qed

definition ids :: "places \<Rightarrow> jstring set" where
  "ids ps = (\<lambda>a. cd_id (fst a)) ` set ps"

lemma place_of_None: "place_of ps i = None \<longleftrightarrow> i \<notin> ids ps"
  by (auto simp: place_of_def ids_def map_of_eq_None_iff image_iff case_prod_beta)

lemma place_of_Some:
  assumes "distinct (map (\<lambda>a. cd_id (fst a)) ps)" "a \<in> set ps"
  shows "place_of ps (cd_id (fst a)) = Some (snd a)"
proof -
  have "map fst (rev (map (\<lambda>(n, p). (cd_id n, p)) ps)) = rev (map (\<lambda>a. cd_id (fst a)) ps)"
    by (simp add: rev_map comp_def case_prod_beta)
  then have "distinct (map fst (rev (map (\<lambda>(n, p). (cd_id n, p)) ps)))" using assms(1) by simp
  moreover have "(cd_id (fst a), snd a) \<in> set (rev (map (\<lambda>(n, p). (cd_id n, p)) ps))"
    using assms(2) by (auto simp: image_iff case_prod_beta intro: bexI [of _ a])
  ultimately show ?thesis by (simp add: place_of_def)
qed

definition is_fresh :: "graph \<Rightarrow> zone_group \<Rightarrow> bool" where
  "is_fresh g z \<longleftrightarrow> (\<forall>n \<in> set (zg_nodes z). stored_place g n = None)"

text \<open>What holds of the places of the zones with stored cards.\<close>

definition stored_ok :: "graph \<Rightarrow> zone_group list \<Rightarrow> places \<Rightarrow> real list \<Rightarrow> bool" where
  "stored_ok g zs new bs \<longleftrightarrow>
     mset (map fst new) = mset (concat (map zg_nodes (filter (\<lambda>z. \<not> is_fresh g z) zs))) \<and>
     (\<forall>a \<in> set new. (stored_place g (fst a) \<noteq> None \<longrightarrow> stored_place g (fst a) = Some (snd a)) \<and>
        (\<exists>b \<in> set bs. snd (snd a) + estimateNodeHeight (fst a) \<le> b)) \<and>
     (\<forall>z \<in> set zs. \<forall>a \<in> set new. \<forall>d \<in> set new. fst a \<in> set (zg_nodes z) \<and> fst d \<in> set (zg_nodes z) \<and> a \<noteq> d \<and>
        stored_place g (fst a) = None \<longrightarrow> clear_of a d)"

lemma distinct_ids_mset:
  assumes "mset xs = mset ys" "distinct (map cd_id ys)"
  shows "distinct (map cd_id xs)"
proof -
  have "mset (map cd_id xs) = mset (map cd_id ys)" using assms(1) by simp
  then show ?thesis using assms(2) mset_eq_imp_distinct_iff by blast
qed

text \<open>One zone with stored cards: the new ones in a grid below these.\<close>

lemma stored_zone:
  fixes g :: graph and z :: zone_group and out :: places
  assumes "\<not> is_fresh g z" "distinct (map cd_id (zg_nodes z))" "ids out \<inter> cd_id ` set (zg_nodes z) = {}"
  defines "fixed \<equiv> filter (\<lambda>n. stored_place g n \<noteq> None) (zg_nodes z)"
  defines "o1 \<equiv> out @ map (\<lambda>n. (n, the (stored_place g n))) fixed"
  defines "loc \<equiv> \<lambda>n. the (place_of o1 (cd_id n))"
  defines "bottom0 \<equiv> Max (set (map (\<lambda>n. snd (loc n) + estimateNodeHeight n) fixed))"
  assumes "placeGrid (filter (\<lambda>n. place_of o1 (cd_id n) = None) (zg_nodes z)) x (bottom0 + ROW_GAP) = (ps, b)"
  defines "new \<equiv> map (\<lambda>n. (n, the (stored_place g n))) fixed @ ps"
  shows "mset (map fst new) = mset (zg_nodes z)"
    "\<forall>a \<in> set new. (stored_place g (fst a) \<noteq> None \<longrightarrow> stored_place g (fst a) = Some (snd a)) \<and>
       snd (snd a) + estimateNodeHeight (fst a) \<le> max bottom0 b"
    "\<forall>a \<in> set new. \<forall>d \<in> set new. a \<noteq> d \<and> stored_place g (fst a) = None \<longrightarrow> clear_of a d"
proof -
  let ?rest = "filter (\<lambda>n. stored_place g n = None) (zg_nodes z)"
  have inj: "inj_on cd_id (set (zg_nodes z))" using assms(2) by (simp add: distinct_map)
  have ids1: "ids o1 = ids out \<union> cd_id ` set fixed" by (simp add: ids_def o1_def image_Un image_image)
  have "place_of o1 (cd_id n) = None \<longleftrightarrow> stored_place g n = None" if n: "n \<in> set (zg_nodes z)" for n
    unfolding place_of_None ids1 using assms(3) n inj_on_contraD [OF inj] by (auto simp: fixed_def inj_on_def dest: inj_onD [OF inj])
  then have rest: "filter (\<lambda>n. place_of o1 (cd_id n) = None) (zg_nodes z) = ?rest" by (intro filter_cong) simp_all
  note grid = placeGrid_ok [OF assms(8) [unfolded rest]]
  have loc: "loc n = the (stored_place g n)" if n: "n \<in> set fixed" for n
  proof -
    let ?new = "map (\<lambda>(n, p). (cd_id n, p)) (map (\<lambda>n. (n, the (stored_place g n))) fixed)"
    have "distinct (map cd_id fixed)" using assms(2) by (simp add: fixed_def distinct_map inj_on_def)
    moreover have "map fst (rev ?new) = rev (map cd_id fixed)" by (simp add: rev_map comp_def)
    ultimately have "distinct (map fst (rev ?new))" by simp
    moreover have "(cd_id n, the (stored_place g n)) \<in> set (rev ?new)" using n by auto
    ultimately have "map_of (rev ?new) (cd_id n) = Some (the (stored_place g n))" by simp
    then show ?thesis by (simp add: loc_def place_of_def o1_def map_add_Some_iff)
  qed
  have part: "mset fixed + mset ?rest = mset (zg_nodes z)" unfolding fixed_def by (induction "zg_nodes z") auto
  then show "mset (map fst new) = mset (zg_nodes z)" using grid(3) by (simp add: new_def comp_def)
  have low: "snd (the (stored_place g n)) + estimateNodeHeight n \<le> bottom0" if "n \<in> set fixed" for n
    using that loc [OF that] unfolding bottom0_def by (intro Max_ge) (auto intro!: image_eqI [of _ _ n])
  have "fst a \<in> set ?rest" if "a \<in> set ps" for a
    by (rule mset_fst [OF grid(3) that])
  then have none: "stored_place g (fst a) = None" if "a \<in> set ps" for a using that by simp
  show "\<forall>a \<in> set new. (stored_place g (fst a) \<noteq> None \<longrightarrow> stored_place g (fst a) = Some (snd a)) \<and>
       snd (snd a) + estimateNodeHeight (fst a) \<le> max bottom0 b"
    using none low grid(2) by (fastforce simp: new_def fixed_def grid_ok_def)
  show "\<forall>a \<in> set new. \<forall>d \<in> set new. a \<noteq> d \<and> stored_place g (fst a) = None \<longrightarrow> clear_of a d"
  proof (intro ballI impI)
    fix a d
    assume a: "a \<in> set new" and d: "d \<in> set new" and ad: "a \<noteq> d \<and> stored_place g (fst a) = None"
    have aps: "a \<in> set ps" using a ad by (auto simp: new_def fixed_def)
    show "clear_of a d"
    proof (cases "d \<in> set ps")
      case True
      have "spaced ps" using grid(2) by (simp add: grid_ok_def)
      then show ?thesis using aps True ad by (blast intro: spaced_pair)
    next
      case False
      then obtain n where n: "n \<in> set fixed" "d = (n, the (stored_place g n))" using d by (auto simp: new_def)
      have "bottom0 + ROW_GAP \<le> snd (snd a)" using grid(2) aps by (simp add: grid_ok_def)
      then have "clear_of d a" using low [OF n(1)] n(2) by (intro clear_below) simp
      then show ?thesis using clear_sym by blast
    qed
  qed
qed


lemma place_stored_ok:
  assumes "place_stored g zs out = (o2, bs, fs)" "distinct (map cd_id (concat (map zg_nodes zs)))"
    "ids out \<inter> cd_id ` set (concat (map zg_nodes zs)) = {}"
  shows "\<exists>new. o2 = out @ new \<and> fs = filter (is_fresh g) zs \<and> stored_ok g zs new bs"
  using assms
proof (induction zs arbitrary: out bs fs)
  case Nil
  then show ?case by (simp add: stored_ok_def)
next
  case (Cons z zs)
  let ?fixed = "filter (\<lambda>n. stored_place g n \<noteq> None) (zg_nodes z)"
  have dz: "distinct (map cd_id (zg_nodes z))" "ids out \<inter> cd_id ` set (zg_nodes z) = {}"
    and dzs: "distinct (map cd_id (concat (map zg_nodes zs)))"
    and apart_ids: "cd_id ` set (zg_nodes z) \<inter> cd_id ` set (concat (map zg_nodes zs)) = {}"
    using Cons.prems(2,3) by auto
  have empty: "?fixed = [] \<longleftrightarrow> is_fresh g z" by (simp only: is_fresh_def filter_empty_conv not_not)
  show ?case
  proof (cases "is_fresh g z")
    case True
    obtain fs' where "place_stored g zs out = (o2, bs, fs')" "fs = z # fs'"
      using Cons.prems(1) True empty by (auto simp: Let_def split: prod.splits)
    moreover obtain new where new: "o2 = out @ new" "fs' = filter (is_fresh g) zs" "stored_ok g zs new bs"
      using Cons.IH [OF \<open>place_stored g zs out = (o2, bs, fs')\<close> dzs] Cons.prems(3) by auto
    moreover have "fst a \<notin> set (zg_nodes z)" if "a \<in> set new" for a
    proof -
      have "fst a \<in> set (concat (map zg_nodes (filter (\<lambda>z. \<not> is_fresh g z) zs)))"
        using new(3) that mset_fst unfolding stored_ok_def by blast
      then show ?thesis using apart_ids by (auto simp: disjoint_iff)
    qed
    ultimately show ?thesis using True by (intro exI [of _ new]) (auto simp: stored_ok_def)
  next
    case False
    let ?o1 = "out @ map (\<lambda>n. (n, the (stored_place g n))) ?fixed"
    let ?bottom = "Max (set (map (\<lambda>n. snd (the (place_of ?o1 (cd_id n))) + estimateNodeHeight n) ?fixed))"
    obtain ps b where p: "placeGrid (filter (\<lambda>n. place_of ?o1 (cd_id n) = None) (zg_nodes z))
        (Min (set (map (\<lambda>n. fst (the (place_of ?o1 (cd_id n)))) ?fixed))) (?bottom + ROW_GAP) = (ps, b)" by fastforce
    note zone = stored_zone [OF False dz p]
    let ?newz = "map (\<lambda>n. (n, the (stored_place g n))) ?fixed @ ps"
    obtain bs' where rest: "place_stored g zs (out @ ?newz) = (o2, bs', fs)" "bs = max ?bottom b # bs'"
      using Cons.prems(1) False empty p by (auto simp: Let_def split: prod.splits if_splits)
    have in_z: "fst a \<in> set (zg_nodes z)" if "a \<in> set ?newz" for a
      by (rule mset_fst [OF zone(1) that])
    have "cd_id (fst a) \<in> cd_id ` set (zg_nodes z)" if "a \<in> set ?newz" for a
      by (rule imageI [OF in_z [OF that]])
    then have "ids ?newz \<subseteq> cd_id ` set (zg_nodes z)" unfolding ids_def by blast
    moreover have "ids (out @ ?newz) = ids out \<union> ids ?newz" by (simp add: ids_def image_Un)
    moreover have "ids out \<inter> cd_id ` set (concat (map zg_nodes zs)) = {}" using Cons.prems(3) by auto
    ultimately have "ids (out @ ?newz) \<inter> cd_id ` set (concat (map zg_nodes zs)) = {}" using apart_ids by blast
    then obtain new where new: "o2 = (out @ ?newz) @ new" "fs = filter (is_fresh g) zs" "stored_ok g zs new bs'"
      using Cons.IH [OF rest(1) dzs] by blast
    have in_zs: "fst a \<in> set (concat (map zg_nodes zs))" if "a \<in> set new" for a
    proof -
      have "fst a \<in> set (concat (map zg_nodes (filter (\<lambda>z. \<not> is_fresh g z) zs)))"
        using new(3) that mset_fst unfolding stored_ok_def by blast
      then show ?thesis by auto
    qed
    have apart_nodes: "n \<notin> set (concat (map zg_nodes zs))" if "n \<in> set (zg_nodes z)" for n
      using imageI [OF that, of cd_id] imageI [of n _ cd_id] apart_ids by blast
    have sep: "fst a \<noteq> fst d" "fst a \<notin> set (concat (map zg_nodes zs))" "fst d \<notin> set (zg_nodes z)"
      if "a \<in> set ?newz" "d \<in> set new" for a d
    proof -
      show 1: "fst a \<notin> set (concat (map zg_nodes zs))" by (rule apart_nodes [OF in_z [OF that(1)]])
      show "fst d \<notin> set (zg_nodes z)" using in_zs [OF that(2)] apart_nodes by blast
      show "fst a \<noteq> fst d" using 1 in_zs [OF that(2)] by metis
    qed
    have "stored_ok g (z # zs) (?newz @ new) bs"
      unfolding stored_ok_def
    proof (intro conjI ballI impI)
      show "mset (map fst (?newz @ new)) = mset (concat (map zg_nodes (filter (\<lambda>z. \<not> is_fresh g z) (z # zs))))"
        using zone(1) new(3) False by (simp add: stored_ok_def)
    next
      fix a
      assume a: "a \<in> set (?newz @ new)"
      show "\<exists>b \<in> set bs. snd (snd a) + estimateNodeHeight (fst a) \<le> b"
        using a zone(2) new(3) by (auto simp: rest(2) stored_ok_def)
      assume "stored_place g (fst a) \<noteq> None"
      then show "stored_place g (fst a) = Some (snd a)"
        using a zone(2) new(3) by (auto simp: stored_ok_def)
    next
      fix y a d
      assume y: "y \<in> set (z # zs)" and a: "a \<in> set (?newz @ new)" and d: "d \<in> set (?newz @ new)"
        and ad: "fst a \<in> set (zg_nodes y) \<and> fst d \<in> set (zg_nodes y) \<and> a \<noteq> d \<and> stored_place g (fst a) = None"
      show "clear_of a d"
      proof (cases "a \<in> set ?newz")
        case True
        have "d \<in> set ?newz"
        proof (rule ccontr)
          assume "d \<notin> set ?newz"
          then have "d \<in> set new" using d by simp
          then have "fst a \<notin> set (concat (map zg_nodes zs))" "fst d \<notin> set (zg_nodes z)" using sep [OF True] by simp_all
          then show False using y ad by auto
        qed
        then show ?thesis using zone(3) True ad by blast
      next
        case False
        then have an: "a \<in> set new" using a by simp
        have dn: "d \<in> set new"
        proof (rule ccontr)
          assume "d \<notin> set new"
          then have "d \<in> set ?newz" using d by simp
          then have "fst d \<notin> set (concat (map zg_nodes zs))" "fst a \<notin> set (zg_nodes z)" using sep an by simp_all
          then show False using y ad by auto
        qed
        have "y \<in> set zs"
        proof -
          have "fst a \<notin> set (zg_nodes z)" using in_zs [OF an] apart_ids by (auto simp: disjoint_iff)
          then show ?thesis using y ad by auto
        qed
        then show ?thesis using new(3) an dn ad unfolding stored_ok_def by blast
      qed
    qed
    then show ?thesis using new(1,2) False by (intro exI [of _ "?newz @ new"]) simp
  qed
qed

lemma zone_parts_mset:
  "mset (concat (map zg_nodes (zone_parts ns zs))) = mset (filter (\<lambda>n. \<exists>z \<in> set zs. cd_zone n = Some (zn_id z)) ns)"
proof (induction zs arbitrary: ns)
  case (Cons z zs)
  have "mset (filter P ns) + mset (filter Q (filter (\<lambda>n. \<not> P n) ns)) = mset (filter (\<lambda>n. P n \<or> Q n) ns)" for P Q
    by (induction ns) (auto simp del: mset_filter filter_filter)
  from this [of "\<lambda>n. cd_zone n = Some (zn_id z)" "\<lambda>n. \<exists>z \<in> set zs. cd_zone n = Some (zn_id z)"]
  show ?case using Cons.IH by (simp del: mset_filter filter_filter)
qed simp

lemma concat_drop_empty: "concat (map zg_nodes (filter (\<lambda>z. zg_nodes z \<noteq> []) zs)) = concat (map zg_nodes zs)"
  by (induction zs) auto

lemma zoneGroups_mset: "mset (concat (map zg_nodes (zoneGroups g))) = mset (gr_nodes g)"
proof -
  have "(\<exists>z \<in> set (gr_zones g). cd_zone n = Some (zn_id z)) \<longleftrightarrow> known_zone g n" for n
    by (auto simp: known_zone_def split: option.split)
  then have "mset (concat (map zg_nodes (zone_parts (gr_nodes g) (gr_zones g)))) = mset (filter (known_zone g) (gr_nodes g))"
    by (simp add: zone_parts_mset)
  moreover have "mset (filter P ns) + mset (filter (\<lambda>n. \<not> P n) ns) = mset ns" for P and ns :: "card list"
    by (induction ns) auto
  ultimately show ?thesis unfolding zoneGroups_def concat_drop_empty by (simp del: mset_filter)
qed

text \<open>The places of the environment view: one for every card.\<close>

definition fresh_zone :: "graph \<Rightarrow> card \<Rightarrow> bool" where
  "fresh_zone g n \<longleftrightarrow> list_ex (\<lambda>z. n \<in> set (zg_nodes z) \<and> is_fresh g z) (zoneGroups g)"

definition same_zone :: "graph \<Rightarrow> card \<Rightarrow> card \<Rightarrow> bool" where
  "same_zone g m n \<longleftrightarrow> list_ex (\<lambda>z. m \<in> set (zg_nodes z) \<and> n \<in> set (zg_nodes z)) (zoneGroups g)"

lemma environment_places_ok:
  assumes "distinct (map cd_id (gr_nodes g))"
  shows "mset (map fst (environment_places g)) = mset (gr_nodes g)"
    "\<And>a. a \<in> set (environment_places g) \<Longrightarrow> stored_place g (fst a) \<noteq> None \<Longrightarrow> stored_place g (fst a) = Some (snd a)"
    "\<And>a d. \<lbrakk>a \<in> set (environment_places g); d \<in> set (environment_places g); a \<noteq> d; stored_place g (fst a) = None;
        same_zone g (fst a) (fst d) \<or> fresh_zone g (fst a) \<or> fresh_zone g (fst d)\<rbrakk> \<Longrightarrow> clear_of a d"
proof -
  let ?zs = "zoneGroups g"
  obtain out bs fs where st: "place_stored g ?zs [] = (out, bs, fs)" by (cases "place_stored g ?zs []")
  have dist: "distinct (map cd_id (concat (map zg_nodes ?zs)))"
    using distinct_ids_mset [OF zoneGroups_mset assms] .
  have ok: "fs = filter (is_fresh g) ?zs" "stored_ok g ?zs out bs"
    using place_stored_ok [OF st dist] by (simp_all add: ids_def)
  let ?y = "if bs \<noteq> [] then Max (set bs) + ZONE_PADDING + ZONE_GAP else 0"
  let ?fr = "place_fresh fs ?y"
  have pl: "environment_places g = out @ ?fr" by (simp add: environment_places_def st)
  note fr = place_fresh_spaced [of fs ?y]
  have part: "mset (concat (map zg_nodes (filter (\<lambda>z. \<not> P z) zs))) + mset (concat (map zg_nodes (filter P zs))) =
      mset (concat (map zg_nodes zs))" for P and zs :: "zone_group list"
    by (induction zs) auto
  show "mset (map fst (environment_places g)) = mset (gr_nodes g)"
    using ok fr part [of "is_fresh g" ?zs] zoneGroups_mset [of g] by (simp add: pl stored_ok_def)
  have fresh_node: "stored_place g (fst a) = None" if a: "a \<in> set ?fr" for a
  proof -
    have "fst a \<in> set (concat (map zg_nodes fs))" using fr a mset_fst by blast
    then show ?thesis by (auto simp: ok(1) is_fresh_def)
  qed
  show "stored_place g (fst a) = Some (snd a)" if "a \<in> set (environment_places g)" "stored_place g (fst a) \<noteq> None" for a
  proof -
    have "a \<notin> set ?fr"
    proof
      assume "a \<in> set ?fr"
      from fresh_node [OF this] that(2) show False by (rule notE [rotated])
    qed
    then have "a \<in> set out" using that(1) by (simp add: pl)
    moreover have "\<forall>a \<in> set out. stored_place g (fst a) \<noteq> None \<longrightarrow> stored_place g (fst a) = Some (snd a)"
      using ok(2) by (simp add: stored_ok_def)
    ultimately show ?thesis using that(2) by blast
  qed
  have cross: "clear_of a d" if a: "a \<in> set out" and d: "d \<in> set ?fr" for a d
  proof -
    obtain b where b: "b \<in> set bs" "snd (snd a) + estimateNodeHeight (fst a) \<le> b" using ok(2) a by (auto simp: stored_ok_def)
    have "b \<le> Max (set bs)" "bs \<noteq> []" using b(1) by auto
    moreover have "?y + ZONE_HEADER + ZONE_PADDING \<le> snd (snd d)" using fr d by blast
    ultimately show ?thesis using b(2) by (intro clear_below) (simp add: env_constants)
  qed
  have in_fresh: "a \<in> set ?fr" if a: "a \<in> set (environment_places g)" "fresh_zone g (fst a)" for a
  proof (rule ccontr)
    assume "a \<notin> set ?fr"
    then have "a \<in> set out" using a(1) pl by simp
    then have "fst a \<in> set (concat (map zg_nodes (filter (\<lambda>z. \<not> is_fresh g z) ?zs)))"
      using ok(2) mset_fst unfolding stored_ok_def by blast
    moreover have "fst a \<in> set (concat (map zg_nodes (filter (is_fresh g) ?zs)))"
      using a(2) by (auto simp: fresh_zone_def list_ex_iff)
    moreover have "distinct (concat (map zg_nodes (filter (\<lambda>z. \<not> is_fresh g z) ?zs)) @ concat (map zg_nodes (filter (is_fresh g) ?zs)))"
      using part [of "is_fresh g" ?zs] dist by (metis distinct_map mset_append mset_eq_imp_distinct_iff)
    ultimately show False by auto
  qed
  show "clear_of a d" if "a \<in> set (environment_places g)" "d \<in> set (environment_places g)" "a \<noteq> d" "stored_place g (fst a) = None"
    "same_zone g (fst a) (fst d) \<or> fresh_zone g (fst a) \<or> fresh_zone g (fst d)" for a d
  proof -
    note prems = that
    have in_ad: "a \<in> set out \<or> a \<in> set ?fr" "d \<in> set out \<or> d \<in> set ?fr"
      using that(1,2) unfolding pl set_append Un_iff .
    consider "a \<in> set out" "d \<in> set out" | "a \<in> set out" "d \<in> set ?fr" | "a \<in> set ?fr" "d \<in> set out" | "a \<in> set ?fr" "d \<in> set ?fr"
      using in_ad by blast
    then show ?thesis
    proof cases
      case 1
      show ?thesis
      proof (cases "fresh_zone g (fst a) \<or> fresh_zone g (fst d)")
        case True
        then show ?thesis using 1 in_fresh prems(1,2) cross clear_sym by blast
      next
        case False
        then obtain z where "z \<in> set ?zs" "fst a \<in> set (zg_nodes z)" "fst d \<in> set (zg_nodes z)"
          using prems(5) by (auto simp: same_zone_def list_ex_iff)
        then show ?thesis using ok(2) 1 prems(3,4) unfolding stored_ok_def by blast
      qed
    next
      case 2
      then show ?thesis by (rule cross)
    next
      case 3
      then show ?thesis using cross clear_sym by blast
    next
      case 4
      then show ?thesis using spaced_pair fr prems(3) by blast
    qed
  qed
qed

text \<open>C26: 
  The environment view has a place for every card. A card whose place is stored stands there; a card without a stored place stands at
  least \<open>ROW_GAP\<close> clear of every other card of its zone, and of every card at all when one of the two is in a zone
  without stored places.
\<close>

theorem new_cards_keep_clear:
  assumes "gr_layout g = EnvironmentLayout" "distinct (map cd_id (gr_nodes g))" "m \<in> set (gr_nodes g)" "n \<in> set (gr_nodes g)" "m \<noteq> n"
    and "stored_place g m = None" "same_zone g m n \<or> fresh_zone g m \<or> fresh_zone g n"
  shows "\<exists>p q. layoutGraph lc g (cd_id m) = Some p \<and> layoutGraph lc g (cd_id n) = Some q \<and>
    apart (card_box m p) (card_box n q) ROW_GAP \<and> (stored_place g n \<noteq> None \<longrightarrow> q = the (stored_place g n))"
proof -
  note ok = environment_places_ok [OF assms(2)]
  have "map (\<lambda>a. cd_id (fst a)) (environment_places g) = map cd_id (map fst (environment_places g))" by simp
  then have dist: "distinct (map (\<lambda>a. cd_id (fst a)) (environment_places g))"
    using distinct_ids_mset [OF ok(1) assms(2)] by metis
  have place: "\<exists>p. (k, p) \<in> set (environment_places g)" if "k \<in> set (gr_nodes g)" for k
  proof -
    have "k \<in> set (map fst (environment_places g))" using that mset_eq_setD [OF ok(1)] by simp
    then obtain a where "a \<in> set (environment_places g)" "fst a = k" by auto
    then show ?thesis by (intro exI [of _ "snd a"]) (cases a, simp)
  qed
  obtain p q where p: "(m, p) \<in> set (environment_places g)" and q: "(n, q) \<in> set (environment_places g)"
    using place assms(3,4) by blast
  have "layoutGraph lc g (cd_id m) = Some p" "layoutGraph lc g (cd_id n) = Some q"
    using place_of_Some [OF dist p] place_of_Some [OF dist q] by (simp_all add: layoutGraph_def assms(1))
  moreover have "apart (card_box m p) (card_box n q) ROW_GAP"
    using ok(3) [OF p q] assms(5-7) by simp
  moreover have "stored_place g n \<noteq> None \<longrightarrow> q = the (stored_place g n)" using ok(2) [OF q] by auto
  ultimately show ?thesis by blast
qed

section \<open>Chains\<close>

text \<open>Depths of the cards of a chain. \<open>lagging\<close>: the links whose target does not stand after its source.\<close>

definition lagging :: "depths \<Rightarrow> jstring \<times> jstring \<Rightarrow> bool" where
  "lagging depth e = (case depth (fst e) of
     None \<Rightarrow> False
   | Some d \<Rightarrow> (case depth (snd e) of None \<Rightarrow> True | Some f \<Rightarrow> d + 1 > f))"

lemma relax_Cons:
  "relax (e # es) depth changed =
     (if lagging depth e then relax es (depth(snd e \<mapsto> the (depth (fst e)) + 1)) True else relax es depth changed)"
  by (cases e) (auto simp: lagging_def split: option.split)

lemma relax_unchanged: "relax es depth c = (d, False) \<Longrightarrow> d = depth \<and> \<not> c \<and> (\<forall>e \<in> set es. \<not> lagging depth e)"
  by (induction es arbitrary: depth c) (auto simp: relax_Cons simp del: relax.simps(2) split: if_splits)

text \<open>Once a link lags at a depth of at least \<open>k\<close>, it lags at greater depths only.\<close>

definition late :: "nat \<Rightarrow> depths \<Rightarrow> jstring \<times> jstring \<Rightarrow> bool" where
  "late k depth e \<longleftrightarrow> (lagging depth e \<longrightarrow> k \<le> the (depth (fst e)))"

lemma late_step:
  assumes "lagging depth (a, b)" "late k depth (a, b)" "a \<noteq> b"
  defines "depth1 \<equiv> depth(b \<mapsto> the (depth a) + 1)"
  shows "late (Suc k) depth1 (a, b)" "late k depth e \<Longrightarrow> late k depth1 e" "late (Suc k) depth e \<Longrightarrow> late (Suc k) depth1 e"
  using assms(1-3) by (cases e; auto simp: late_def lagging_def depth1_def split: option.splits if_splits)+

lemma relax_late:
  assumes "relax es depth c = (d, c')" "\<forall>e \<in> set es. late k depth e" "\<forall>e \<in> D. late (Suc k) depth e" "\<forall>(a, b) \<in> set es. a \<noteq> b"
  shows "\<forall>e \<in> D \<union> set es. late (Suc k) d e"
  using assms
proof (induction es arbitrary: depth c D)
  case (Cons e es)
  obtain a b where e: "e = (a, b)" by (cases e)
  show ?case
  proof (cases "lagging depth e")
    case True
    let ?d = "depth(b \<mapsto> the (depth a) + 1)"
    have lag: "lagging depth (a, b)" "late k depth (a, b)" "a \<noteq> b" using True Cons.prems(2,4) e by simp_all
    note step = late_step [OF lag]
    have irr: "\<forall>(a, b) \<in> set es. a \<noteq> b" using Cons.prems(4) by simp
    have "relax es ?d True = (d, c')" using Cons.prems(1) True by (simp add: relax_Cons e del: relax.simps(2))
    moreover have "\<forall>e \<in> set es. late k ?d e" using Cons.prems(2) step(2) by simp
    moreover have "\<forall>e \<in> insert (a, b) D. late (Suc k) ?d e" using Cons.prems(3) step(1,3) by blast
    ultimately have "\<forall>e \<in> insert (a, b) D \<union> set es. late (Suc k) d e" by (rule Cons.IH [OF _ _ _ irr])
    then show ?thesis by (simp add: e)
  next
    case False
    have "relax es depth c = (d, c')" using Cons.prems(1) False by (simp add: relax_Cons del: relax.simps(2))
    moreover have "late (Suc k) depth e" using False by (simp add: late_def)
    ultimately have "\<forall>e \<in> insert e D \<union> set es. late (Suc k) d e"
      using Cons.prems(2-4) by (intro Cons.IH [of depth c]) simp_all
    then show ?thesis by simp
  qed
qed simp

text \<open>The depth of a card is at most the number of cards before it.\<close>

definition before :: "edges \<Rightarrow> jstring \<Rightarrow> jstring set" where
  "before es b = {a. (a, b) \<in> (set es)\<^sup>+}"

lemma finite_before: "finite (before es b)"
proof (rule finite_subset)
  show "before es b \<subseteq> fst ` set es" unfolding before_def by (auto dest!: tranclD simp: rev_image_eqI)
qed simp

lemma before_grows:
  assumes "acyclic (set es)" "(a, b) \<in> set es"
  shows "card (before es a) + 1 \<le> card (before es b)"
proof -
  have "insert a (before es a) \<subseteq> before es b" using assms(2) by (auto simp: before_def intro: trancl_into_trancl)
  moreover have "a \<notin> before es a" using assms(1) by (simp add: before_def acyclic_def)
  ultimately show ?thesis using card_mono [OF finite_before] finite_before by (metis Suc_eq_plus1 card_insert_disjoint)
qed

definition bounded :: "edges \<Rightarrow> depths \<Rightarrow> bool" where
  "bounded es depth \<longleftrightarrow> (\<forall>i d. depth i = Some d \<longrightarrow> d \<le> card (before es i))"

lemma relax_bounded:
  assumes "relax fs depth c = (d, c')" "set fs \<subseteq> set es" "acyclic (set es)" "bounded es depth"
  shows "bounded es d"
  using assms(1,2,4)
proof (induction fs arbitrary: depth c)
  case (Cons e fs)
  obtain a b where e: "e = (a, b)" by (cases e)
  show ?case
  proof (cases "lagging depth e")
    case True
    then obtain k where k: "depth a = Some k" by (auto simp: lagging_def e split: option.splits)
    have "k \<le> card (before es a)" using Cons.prems(3) k by (simp add: bounded_def)
    then have "k + 1 \<le> card (before es b)" using before_grows [OF assms(3), of a b] Cons.prems(2) e by simp
    then have "bounded es (depth(b \<mapsto> k + 1))" using Cons.prems(3) by (simp add: bounded_def)
    moreover have "relax fs (depth(b \<mapsto> k + 1)) True = (d, c')" using Cons.prems(1) True k by (simp add: relax_Cons e del: relax.simps(2))
    ultimately show ?thesis using Cons.IH Cons.prems(2) by simp
  next
    case False
    then show ?thesis using Cons by (simp add: relax_Cons del: relax.simps(2))
  qed
qed simp

lemma relax_keeps: "\<lbrakk>relax es depth c = (d, c'); depth i \<noteq> None\<rbrakk> \<Longrightarrow> d i \<noteq> None"
  by (induction es arbitrary: depth c) (auto simp: relax_Cons simp del: relax.simps(2) split: if_splits)

text \<open>With as many rounds as there are cards, no link lags.\<close>

lemma depth_rounds_done:
  assumes "acyclic (set es)" "bounded es depth" "\<forall>i. card (before es i) < k + j" "\<forall>e \<in> set es. late j depth e"
  shows "(\<forall>e \<in> set es. \<not> lagging (depth_rounds k es depth) e) \<and> (\<forall>i. depth i \<noteq> None \<longrightarrow> depth_rounds k es depth i \<noteq> None)"
  using assms(2-4)
proof (induction k arbitrary: depth j)
  case 0
  have "\<not> lagging depth e" if e: "e \<in> set es" for e
  proof
    assume lag: "lagging depth e"
    then obtain d where d: "depth (fst e) = Some d" by (auto simp: lagging_def split: option.splits)
    have "late j depth e" using 0(3) e by blast
    then have "j \<le> d" using lag d by (simp add: late_def)
    moreover have "d \<le> card (before es (fst e))" using 0(1) d by (simp add: bounded_def)
    moreover have "card (before es (fst e)) < j" using 0(2) by simp
    ultimately show False by simp
  qed
  then show ?case by simp
next
  case (Suc k)
  obtain d c where r: "relax es depth False = (d, c)" by (cases "relax es depth False")
  have irr: "\<forall>(a, b) \<in> set es. a \<noteq> b" using assms(1) by (auto simp: acyclic_def)
  have keep: "depth i \<noteq> None \<Longrightarrow> d i \<noteq> None" for i by (rule relax_keeps [OF r])
  show ?case
  proof (cases c)
    case True
    have "bounded es d" by (rule relax_bounded [OF r subset_refl assms(1) Suc.prems(1)])
    moreover have "\<forall>e \<in> set es. late (Suc j) d e" using relax_late [OF r Suc.prems(3), of "{}"] irr by simp
    ultimately show ?thesis using Suc.IH [of d "Suc j"] Suc.prems(2) True keep r by simp
  next
    case False
    then show ?thesis using relax_unchanged [of es depth False d] r by simp
  qed
qed

lemma before_members:
  assumes "acyclic (set es)" "\<forall>(a, b) \<in> set es. a \<in> S" "finite S" "S \<noteq> {}"
  shows "card (before es i) < card S \<or> i \<notin> S"
proof -
  have sub: "before es i \<subseteq> S" using assms(2) unfolding before_def by (fastforce dest!: tranclD)
  have "i \<notin> before es i" using assms(1) by (simp add: before_def acyclic_def)
  then have "i \<in> S \<Longrightarrow> before es i \<subset> S" using sub by blast
  then show ?thesis using psubset_card_mono [OF assms(3)] by blast
qed

definition chain_edges :: "card list \<Rightarrow> edges \<Rightarrow> edges" where
  "chain_edges members inside = filter (\<lambda>(a, b). a \<in> cd_id ` set members) inside"

lemma chain_depth_edges:
  "chain_depth members inside n =
     (case depth_rounds (length members) (chain_edges members inside) (start_depths members (chain_edges members inside)) (cd_id n) of
        Some d \<Rightarrow> d | None \<Rightarrow> 0)"
  by (simp add: chain_depth_def chain_edges_def)

lemma start_depths_root:
  assumes "i \<in> cd_id ` set members" "\<forall>a. (a, i) \<notin> set es"
  shows "start_depths members es i = Some 0"
proof -
  obtain n where n: "n \<in> set members" "cd_id n = i" using assms(1) by auto
  have "n \<in> set (filter (\<lambda>n. \<not> list_ex (\<lambda>(a, b). b = cd_id n) es) members)"
    using n assms(2) by (auto simp: list_ex_iff)
  moreover from this have "filter (\<lambda>n. \<not> list_ex (\<lambda>(a, b). b = cd_id n) es) members \<noteq> []" by (metis empty_iff list.set(1))
  ultimately show ?thesis using n by (auto simp: start_depths_def Let_def)
qed

lemma chain_depth_step:
  assumes "distinct (map cd_id members)" "acyclic (set (chain_edges members inside))"
    and "\<forall>(a, b) \<in> set (chain_edges members inside). b \<in> cd_id ` set members"
    and "(cd_id m, cd_id n) \<in> set (chain_edges members inside)"
  shows "chain_depth members inside m + 1 \<le> chain_depth members inside n"
proof -
  let ?es = "chain_edges members inside" and ?S = "cd_id ` set members"
  let ?d = "depth_rounds (length members) ?es (start_depths members ?es)"
  have src: "\<forall>(a, b) \<in> set ?es. a \<in> ?S" by (auto simp: chain_edges_def)
  have ne: "?S \<noteq> {}" using src assms(4) by auto
  have cardS: "card ?S = length members" using assms(1) distinct_card by fastforce
  have "card (before ?es i) < length members" for i
  proof (cases "i \<in> ?S")
    case True
    then show ?thesis using before_members [OF assms(2) src _ ne, of i] cardS by simp
  next
    case False
    then have "before ?es i = {}" using assms(3) unfolding before_def by (fastforce dest: tranclD2)
    then show ?thesis using ne by simp
  qed
  moreover have "bounded ?es (start_depths members ?es)"
    by (auto simp: bounded_def start_depths_def Let_def split: list.splits if_splits)
  ultimately have ends: "\<forall>e \<in> set ?es. \<not> lagging ?d e" "\<And>i. start_depths members ?es i \<noteq> None \<Longrightarrow> ?d i \<noteq> None"
    using depth_rounds_done [OF assms(2), of "start_depths members ?es" "length members" 0] by (auto simp: late_def)
  have "wf (set ?es)" using finite_acyclic_wf assms(2) by blast
  then have defined: "i \<in> ?S \<longrightarrow> ?d i \<noteq> None" for i
  proof (induction i rule: wf_induct_rule)
    case (less i)
    show ?case
    proof (cases "\<exists>a. (a, i) \<in> set ?es")
      case True
      then obtain a where a: "(a, i) \<in> set ?es" by blast
      then have "?d a \<noteq> None" using less.IH src by fastforce
      then show ?thesis using ends(1) a by (fastforce simp: lagging_def split: option.splits)
    next
      case False
      then show ?thesis using ends(2) [of i] start_depths_root [of i members ?es] by auto
    qed
  qed
  obtain d where d: "?d (cd_id m) = Some d" using defined [of "cd_id m"] src assms(4) by fastforce
  have "\<not> lagging ?d (cd_id m, cd_id n)" using ends(1) assms(4) by blast
  then show ?thesis using d by (auto simp: chain_depth_edges lagging_def split: option.splits)
qed

subsection \<open>Linked cards are in one chain\<close>

text \<open>\<open>parent\<close> as a up_forest: parent links lead up without cycles, and only cards of \<open>S\<close> have a parent.\<close>

definition ups :: "(jstring \<Rightarrow> jstring) \<Rightarrow> (jstring \<times> jstring) set" where
  "ups parent = {(i, parent i) | i. parent i \<noteq> i}"

definition up_forest :: "jstring set \<Rightarrow> (jstring \<Rightarrow> jstring) \<Rightarrow> bool" where
  "up_forest S parent \<longleftrightarrow> finite S \<and> acyclic (ups parent) \<and> (\<forall>i. parent i \<noteq> i \<longrightarrow> i \<in> S) \<and> (\<forall>i \<in> S. parent i \<in> S)"

lemma find_root_up: "(i, find_root k parent i) \<in> (ups parent)\<^sup>*"
  by (induction k arbitrary: i) (auto simp: ups_def intro: converse_rtrancl_into_rtrancl)

definition above_of :: "(jstring \<Rightarrow> jstring) \<Rightarrow> jstring \<Rightarrow> jstring set" where
  "above_of parent i = {j. (i, j) \<in> (ups parent)\<^sup>* \<and> parent j \<noteq> j}"

lemma finite_above_of: "up_forest S parent \<Longrightarrow> finite (above_of parent i)"
  by (rule finite_subset [of _ S]) (auto simp: up_forest_def above_of_def)

lemma above_of_parent:
  assumes "up_forest S parent" "parent i \<noteq> i"
  shows "card (above_of parent (parent i)) < card (above_of parent i)"
proof -
  have up: "(i, parent i) \<in> ups parent" using assms(2) by (auto simp: ups_def)
  have "above_of parent (parent i) \<subseteq> above_of parent i" using up by (auto simp: above_of_def intro: converse_rtrancl_into_rtrancl)
  moreover have "i \<in> above_of parent i" using assms(2) by (simp add: above_of_def)
  moreover have "i \<notin> above_of parent (parent i)"
  proof
    assume "i \<in> above_of parent (parent i)"
    then have "(parent i, i) \<in> (ups parent)\<^sup>*" by (simp add: above_of_def)
    then have "(i, i) \<in> (ups parent)\<^sup>+" by (rule rtrancl_into_trancl2 [OF up])
    then show False using assms(1) by (auto simp: up_forest_def acyclic_def)
  qed
  ultimately show ?thesis using finite_above_of [OF assms(1)] by (intro psubset_card_mono) auto
qed

lemma find_root_is_root:
  assumes "up_forest S parent" "card (above_of parent i) \<le> k"
  shows "parent (find_root k parent i) = find_root k parent i"
  using assms(2)
proof (induction k arbitrary: i)
  case 0
  then have "above_of parent i = {}" using finite_above_of [OF assms(1)] by simp
  then show ?case by (auto simp: above_of_def)
next
  case (Suc k)
  then show ?case using above_of_parent [OF assms(1), of i] by (cases "parent i = i") simp_all
qed

lemma above_of_card: "up_forest S parent \<Longrightarrow> card (above_of parent i) \<le> card S"
  by (rule card_mono) (auto simp: up_forest_def above_of_def)

lemma find_root_fix: "parent r = r \<Longrightarrow> find_root k parent r = r"
  by (cases k) simp_all

text \<open>The root of a card: what \<open>find\<close> returns with fuel for all cards.\<close>

lemma find_root_unique:
  assumes "up_forest S parent" "(i, r) \<in> (ups parent)\<^sup>*" "parent r = r" "card S \<le> k"
  shows "find_root k parent i = r"
proof -
  let ?q = "find_root k parent i"
  have q: "(i, ?q) \<in> (ups parent)\<^sup>*" "parent ?q = ?q"
    using find_root_up find_root_is_root [OF assms(1)] above_of_card [OF assms(1), of i] assms(4) by (auto intro: order_trans)
  have det: "single_valued (ups parent)" by (auto simp: single_valued_def ups_def)
  have stuck: "(r, x) \<in> (ups parent)\<^sup>* \<Longrightarrow> parent r = r \<Longrightarrow> x = r" for r x
    by (erule converse_rtranclE) (auto simp: ups_def)
  from single_valued_confluent [OF det assms(2) q(1)] show ?thesis using stuck assms(3) q(2) by metis
qed

lemma find_root_in: "\<lbrakk>up_forest S parent; i \<in> S\<rbrakk> \<Longrightarrow> find_root k parent i \<in> S"
  by (induction k arbitrary: i) (auto simp: up_forest_def)

lemma union_step:
  assumes "up_forest S parent" "a \<in> S" "b \<in> S" "card S \<le> k"
  defines "ra \<equiv> find_root k parent a" and "rb \<equiv> find_root k parent b"
  defines "p2 \<equiv> parent(ra := rb)"
  shows "up_forest S p2" "find_root k p2 x = (if find_root k parent x = ra then rb else find_root k parent x)"
proof -
  have fix_of: "parent (find_root k parent i) = find_root k parent i" for i
    using find_root_is_root [OF assms(1)] above_of_card [OF assms(1), of i] assms(4) by (meson order_trans)
  have roots: "parent ra = ra" "parent rb = rb" using fix_of by (simp_all add: ra_def rb_def)
  have inS: "ra \<in> S" "rb \<in> S" using find_root_in [OF assms(1)] assms(2,3) by (simp_all add: ra_def rb_def)
  have stuck: "(rb, x) \<in> (ups parent)\<^sup>* \<Longrightarrow> x = rb" for x
    using roots(2) by (auto simp: ups_def elim: converse_rtranclE)
  have ups2: "ups p2 = (if ra = rb then ups parent else insert (ra, rb) (ups parent))"
    using roots by (auto simp: ups_def p2_def)
  then have "acyclic (ups p2)" using assms(1) stuck by (auto simp: up_forest_def acyclic_insert)
  then show f: "up_forest S p2" using assms(1) inS by (auto simp: up_forest_def p2_def)
  have more: "ups parent \<subseteq> ups p2" by (auto simp: ups2)
  have path: "(x, find_root k parent x) \<in> (ups p2)\<^sup>*"
    using rtrancl_mono [OF more] find_root_up [of x k parent] by blast
  show "find_root k p2 x = (if find_root k parent x = ra then rb else find_root k parent x)"
  proof (cases "find_root k parent x = ra")
    case True
    have "(ra, rb) \<in> (ups p2)\<^sup>*" by (auto simp: ups2)
    then have "(x, rb) \<in> (ups p2)\<^sup>*" using path True by simp
    moreover have "p2 rb = rb" using roots by (simp add: p2_def)
    ultimately show ?thesis using find_root_unique [OF f _ _ assms(4)] True by simp
  next
    case False
    then have "p2 (find_root k parent x) = find_root k parent x" using fix_of by (simp add: p2_def)
    then show ?thesis using find_root_unique [OF f path _ assms(4)] False by simp
  qed
qed

lemma union_links_ok:
  assumes "up_forest S p" "card S \<le> k" "\<forall>(a, b) \<in> set es. a \<in> S \<and> b \<in> S"
  defines "link \<equiv> \<lambda>parent (a, b). parent(find_root k parent a := find_root k parent b)"
  shows "(\<forall>x y. find_root k p x = find_root k p y \<longrightarrow> find_root k (foldl link p es) x = find_root k (foldl link p es) y) \<and>
    (\<forall>(a, b) \<in> set es. find_root k (foldl link p es) a = find_root k (foldl link p es) b)"
  using assms(1,3)
proof (induction es arbitrary: p)
  case (Cons e es)
  obtain a b where e: "e = (a, b)" by (cases e)
  have ab: "a \<in> S" "b \<in> S" "\<forall>(a, b) \<in> set es. a \<in> S \<and> b \<in> S" using Cons.prems(2) e by simp_all
  note step = union_step [OF Cons.prems(1) ab(1,2) assms(2)]
  have l: "link p e = p(find_root k p a := find_root k p b)" by (simp add: link_def e)
  note IH = Cons.IH [OF step(1) ab(3), folded l]
  let ?r = "find_root k (foldl link (link p e) es)"
  show ?case unfolding foldl_Cons
  proof (intro conjI allI impI ballI)
    fix x y
    assume "find_root k p x = find_root k p y"
    then have "find_root k (link p e) x = find_root k (link p e) y" using step(2) by (simp add: l)
    then show "?r x = ?r y" using IH by blast
  next
    fix c
    assume c: "c \<in> set (e # es)"
    have "find_root k (link p e) a = find_root k (link p e) b" using step(2) by (simp add: l)
    then have "?r a = ?r b" using IH by blast
    then show "case c of (a, b) \<Rightarrow> ?r a = ?r b" using c e conjunct2 [OF IH] by (cases "c = e") auto
  qed
qed simp

lemma linked_same_root:
  assumes "(a, b) \<in> set (inside_links ns links)" "distinct (map cd_id ns)"
  shows "find_root (length ns) (union_links (length ns) (inside_links ns links)) a =
    find_root (length ns) (union_links (length ns) (inside_links ns links)) b"
proof -
  let ?S = "cd_id ` set ns"
  have "up_forest ?S (\<lambda>i. i)" by (simp add: up_forest_def ups_def acyclic_def)
  moreover have "card ?S \<le> length ns" using card_length [of "map cd_id ns"] by simp
  moreover have "\<forall>(a, b) \<in> set (inside_links ns links). a \<in> ?S \<and> b \<in> ?S" by (auto simp: inside_links_def)
  ultimately have "\<forall>(a, b) \<in> set (inside_links ns links).
      find_root (length ns) (union_links (length ns) (inside_links ns links)) a =
      find_root (length ns) (union_links (length ns) (inside_links ns links)) b"
    unfolding union_links_def by (rule conjunct2 [OF union_links_ok])
  then show ?thesis using assms(1) by blast
qed


subsection \<open>Linked cards stand from left to right\<close>

definition root_of :: "card list \<Rightarrow> edges \<Rightarrow> card \<Rightarrow> jstring" where
  "root_of order es n = find_root (length order) (union_links (length order) es) (cd_id n)"

definition chain_of :: "card list \<Rightarrow> edges \<Rightarrow> card \<Rightarrow> card list" where
  "chain_of order es n = filter (\<lambda>m. root_of order es m = root_of order es n) order"

lemma components_chain_of: "ms \<in> set (components order es) \<Longrightarrow> n \<in> set ms \<Longrightarrow> ms = chain_of order es n"
  by (auto simp: components_def chain_of_def root_of_def Let_def)

lemma components_subset: "ms \<in> set (components order es) \<Longrightarrow> n \<in> set ms \<Longrightarrow> n \<in> set order"
  by (auto simp: components_def Let_def)

lemma chain_of_component: "n \<in> set order \<Longrightarrow> chain_of order es n \<in> set (components order es)"
  by (auto simp: components_def chain_of_def root_of_def Let_def)

lemma place_chain_places:
  "place_chain depth t ys ns = (ps, ys') \<Longrightarrow> map fst ps = ns \<and> (\<forall>a \<in> set ps. fst (snd a) = real (depth (fst a)) * CHAIN_STEP)"
proof (induction ns arbitrary: ys ps ys')
  case (Cons n ns)
  let ?ys = "ys(depth n \<mapsto> (case ys (depth n) of Some v \<Rightarrow> v | None \<Rightarrow> t) + estimateNodeHeight n + ROW_GAP)"
  obtain qs zs where q: "place_chain depth t ?ys ns = (qs, zs)" by fastforce
  then have "ps = (n, (real (depth n) * CHAIN_STEP, case ys (depth n) of Some v \<Rightarrow> v | None \<Rightarrow> t)) # qs" "zs = ys'"
    using Cons.prems by (simp_all add: Let_def)
  then show ?case using Cons.IH [OF q] by simp
qed simp

lemma place_chains_many:
  assumes "length ms \<noteq> 1"
  shows "place_chains es t c (ms # rest) =
    (let depth = chain_depth ms es;
         (ps, nextY) = place_chain depth t Map.empty ms;
         bottoms = map (\<lambda>n. the (nextY (depth n))) ms;
         (qs, t', c', singles) = place_chains es (Max (set bottoms) + ROW_GAP) (max c (Max (set (map depth ms)) + 1)) rest
     in (ps @ qs, t', c', singles))"
proof (cases ms)
  case Nil
  then show ?thesis by (simp only: place_chains.simps list.case)
next
  case (Cons n ns)
  then obtain m ks where "ns = m # ks" using assms by (cases ns) simp_all
  then show ?thesis unfolding Cons by (simp only: place_chains.simps list.case)
qed

lemma place_singles_places: "place_singles i t h ns = (ps, t', h') \<Longrightarrow> map fst ps = ns"
  by (induction ns arbitrary: i t h ps) (auto simp: Let_def split: prod.splits)

lemma place_chains_places:
  assumes "place_chains es t c comps = (ps, t', c', singles)"
  shows "(\<forall>ms \<in> set comps. length ms \<noteq> 1 \<longrightarrow> set ms \<subseteq> fst ` set ps) \<and>
    (\<forall>a \<in> set ps. \<exists>ms \<in> set comps. length ms \<noteq> 1 \<and> fst a \<in> set ms \<and> fst (snd a) = real (chain_depth ms es (fst a)) * CHAIN_STEP) \<and>
    (\<forall>n \<in> set singles. [n] \<in> set comps)"
  using assms
proof (induction comps arbitrary: t c ps singles t' c')
  case (Cons ms comps)
  show ?case
  proof (cases "length ms = 1")
    case True
    then obtain n where ms: "ms = [n]" by (auto simp: length_Suc_conv)
    obtain qs t1 c1 ss where r: "place_chains es t c comps = (qs, t1, c1, ss)" by (cases "place_chains es t c comps")
    show ?thesis using Cons.IH [OF r] Cons.prems r by (auto simp: ms)
  next
    case False
    let ?depth = "chain_depth ms es"
    obtain qs ys where q: "place_chain ?depth t Map.empty ms = (qs, ys)" by fastforce
    let ?t = "Max (set (map (\<lambda>n. the (ys (?depth n))) ms)) + ROW_GAP" and ?c = "max c (Max (set (map ?depth ms)) + 1)"
    obtain rs t1 c1 ss where r: "place_chains es ?t ?c comps = (rs, t1, c1, ss)" by (cases "place_chains es ?t ?c comps")
    have "place_chains es t c (ms # comps) = (qs @ rs, t1, c1, ss)"
      unfolding place_chains_many [OF False] Let_def q r prod.case by (rule refl)
    then have eq: "ps = qs @ rs" "singles = ss" using Cons.prems by simp_all
    have "set ms = fst ` set qs" using place_chain_places [OF q] by (metis set_map)
    moreover have "\<forall>a \<in> set qs. fst a \<in> set ms \<and> fst (snd a) = real (?depth (fst a)) * CHAIN_STEP"
      using place_chain_places [OF q] by (simp add: calculation)
    ultimately show ?thesis using Cons.IH [OF r] False unfolding eq by (auto simp: image_Un)
  qed
qed simp


lemma place_of_constant:
  assumes "\<exists>a \<in> set ps. cd_id (fst a) = i" "\<forall>a \<in> set ps. cd_id (fst a) = i \<longrightarrow> fst (snd a) = x"
  shows "\<exists>p. place_of ps i = Some p \<and> fst p = x"
proof -
  have "place_of ps i \<noteq> None" using assms(1) by (auto simp: place_of_None ids_def)
  then obtain p where p: "place_of ps i = Some p" by blast
  then have "(i, p) \<in> set (map (\<lambda>(n, p). (cd_id n, p)) ps)" unfolding place_of_def by (metis map_of_SomeD set_rev)
  then show ?thesis using assms(2) p by (auto intro!: exI [of _ p])
qed

text \<open>The place of a card that has links: its depth in its chain.\<close>

lemma layoutBlock_chain:
  fixes ns :: "card list" and links :: "link list" and lc :: "jstring \<Rightarrow> jstring \<Rightarrow> int" and n :: card
  assumes "\<forall>k \<in> set ns. saved_of k = None" "distinct (map cd_id ns)" "n \<in> set ns"
  defines "inside \<equiv> inside_links ns links"
  defines "order \<equiv> js_sort (byTypeAndName lc) ns"
  assumes "length (chain_of order inside n) \<noteq> 1"
  shows "\<exists>p. place_of (bl_places (layoutBlock lc ns links)) (cd_id n) = Some p \<and>
    fst p = real (chain_depth (chain_of order inside n) inside n) * CHAIN_STEP"
proof (rule place_of_constant)
  obtain ps t c singles where chains: "place_chains inside 0 0 (components order inside) = (ps, t, c, singles)"
    by (cases "place_chains inside 0 0 (components order inside)")
  obtain qs t1 h where sq: "place_singles 0 t 0 singles = (qs, t1, h)" by (cases "place_singles 0 t 0 singles")
  have none: "filter (\<lambda>n. saved_of n \<noteq> None) ns = []" using assms(1) by (simp add: filter_empty_conv)
  have bl: "bl_places (layoutBlock lc ns links) = ps @ qs"
    unfolding layoutBlock_def inside_def [symmetric] order_def [symmetric] Let_def none chains
    by (simp add: sq)
  note all = place_chains_places [OF chains]
  have set_order: "set order = set ns" by (simp add: order_def set_js_sort)
  have comp: "chain_of order inside n \<in> set (components order inside)" "n \<in> set (chain_of order inside n)"
    using assms(3) set_order chain_of_component by (auto simp: chain_of_def)
  then have "n \<in> fst ` set ps" using all assms(6) by blast
  then show "\<exists>a \<in> set (bl_places (layoutBlock lc ns links)). cd_id (fst a) = cd_id n" unfolding bl by auto
  have in_ns: "k \<in> set ns" if "ms \<in> set (components order inside)" "k \<in> set ms" for ms k
    using components_subset [OF that] set_order by simp
  have same: "k = n" if "cd_id k = cd_id n" "k \<in> set ns" for k
    using inj_onD [OF _ that assms(3)] assms(2) by (simp add: distinct_map)
  have ps_ok: "fst (snd a) = real (chain_depth (chain_of order inside n) inside n) * CHAIN_STEP"
    if a: "a \<in> set ps" "cd_id (fst a) = cd_id n" for a
  proof -
    obtain ms where ms: "ms \<in> set (components order inside)" "fst a \<in> set ms"
      "fst (snd a) = real (chain_depth ms inside (fst a)) * CHAIN_STEP" using all a(1) by blast
    have "fst a = n" using same a(2) in_ns ms(1,2) by blast
    then show ?thesis using ms components_chain_of by metis
  qed
  have "cd_id (fst a) \<noteq> cd_id n" if a: "a \<in> set qs" for a
  proof
    assume eq: "cd_id (fst a) = cd_id n"
    have "fst a \<in> set singles" using place_singles_places [OF sq] a by force
    then have "[fst a] \<in> set (components order inside)" using all by blast
    moreover from this have "fst a = n" using same eq in_ns by force
    ultimately have "[n] = chain_of order inside n" using components_chain_of by (metis list.set_intros(1))
    then show False using assms(6) by (metis One_nat_def length_Cons list.size(3))
  qed
  then show "\<forall>a \<in> set (bl_places (layoutBlock lc ns links)). cd_id (fst a) = cd_id n \<longrightarrow>
      fst (snd a) = real (chain_depth (chain_of order inside n) inside n) * CHAIN_STEP"
    unfolding bl using ps_ok by auto
qed

text \<open>C25: 
  In a group without saved cards whose links have no cycle, every link runs from left to right: its target
  stands at least one column after its source.
\<close>

theorem links_run_right:
  assumes "\<forall>k \<in> set ns. saved_of k = None" "distinct (map cd_id ns)" "acyclic (set (inside_links ns links))"
    and "m \<in> set ns" "n \<in> set ns" "(cd_id m, cd_id n) \<in> set (inside_links ns links)"
  shows "\<exists>p q. place_of (bl_places (layoutBlock lc ns links)) (cd_id m) = Some p \<and>
    place_of (bl_places (layoutBlock lc ns links)) (cd_id n) = Some q \<and> fst p + CHAIN_STEP \<le> fst q"
proof -
  define es where "es = inside_links ns links"
  define order where "order = js_sort (byTypeAndName lc) ns"
  have len: "length order = length ns" using assms(2) distinct_js_sort set_js_sort
    by (metis distinct_card distinct_map order_def)
  have set_order: "set order = set ns" by (simp add: order_def set_js_sort)
  have root: "root_of order es a = root_of order es b" if "(cd_id a, cd_id b) \<in> set es" for a b
    using linked_same_root [OF that [unfolded es_def] assms(2)] by (simp add: root_of_def len es_def)
  let ?ms = "chain_of order es m"
  have same: "chain_of order es n = ?ms" using root assms(6) by (simp add: chain_of_def es_def)
  have mem: "m \<in> set ?ms" "n \<in> set ?ms" using root [of m n] assms(4-6) set_order by (auto simp: chain_of_def es_def)
  have ne: "cd_id m \<noteq> cd_id n" using assms(6) by (auto simp: inside_links_def)
  then have many: "length ?ms \<noteq> 1" using mem by (cases ?ms) auto
  have inj: "inj_on cd_id (set ns)" using assms(2) by (simp add: distinct_map)
  have dms: "distinct (map cd_id ?ms)"
    using assms(2) set_order by (auto simp: chain_of_def distinct_map distinct_js_sort order_def set_js_sort intro: inj_on_subset)
  have edges_in: "\<forall>(a, b) \<in> set (chain_edges ?ms es). b \<in> cd_id ` set ?ms"
  proof (clarify)
    fix a b
    assume ab: "(a, b) \<in> set (chain_edges ?ms es)"
    then obtain k where k: "k \<in> set ?ms" "cd_id k = a" "(a, b) \<in> set es" by (auto simp: chain_edges_def)
    then obtain l where l: "l \<in> set ns" "cd_id l = b" by (auto simp: es_def inside_links_def)
    have "root_of order es l = root_of order es m" using root [of k l] k l by (simp add: chain_of_def)
    then show "b \<in> cd_id ` set ?ms" using l set_order by (auto simp: chain_of_def)
  qed
  have acyc: "acyclic (set (chain_edges ?ms es))"
    using assms(3) by (rule acyclic_subset) (auto simp: chain_edges_def es_def)
  have "(cd_id m, cd_id n) \<in> set (chain_edges ?ms es)" using mem assms(6) by (simp add: chain_edges_def es_def)
  then have step: "chain_depth ?ms es m + 1 \<le> chain_depth ?ms es n"
    by (rule chain_depth_step [OF dms acyc edges_in])
  obtain p where p: "place_of (bl_places (layoutBlock lc ns links)) (cd_id m) = Some p" "fst p = real (chain_depth ?ms es m) * CHAIN_STEP"
    using layoutBlock_chain [OF assms(1,2,4), of lc links] many by (auto simp: es_def order_def)
  obtain q where q: "place_of (bl_places (layoutBlock lc ns links)) (cd_id n) = Some q" "fst q = real (chain_depth ?ms es n) * CHAIN_STEP"
    using layoutBlock_chain [OF assms(1,2,5), of lc links] many same by (auto simp: es_def order_def)
  have "real (chain_depth ?ms es m) + 1 \<le> real (chain_depth ?ms es n)" using step by linarith
  then have "(real (chain_depth ?ms es m) + 1) * CHAIN_STEP \<le> real (chain_depth ?ms es n) * CHAIN_STEP"
    by (intro mult_right_mono) (simp_all add: CHAIN_STEP_def env_constants)
  then show ?thesis using p q by (simp add: algebra_simps)
qed

section \<open>Examples\<close>

definition blank_card :: card where
  "blank_card = \<lparr>cd_id = [], cd_type = ApplicationCard, cd_name = [], cd_zone = None, cd_extra_zones = [], cd_urls = [],
     cd_security = None, cd_children = 0, cd_status = None, cd_context = None, cd_context_link = None, cd_project = None,
     cd_environment = None, cd_saved = None, cd_missing = False\<rparr>"

definition plain_card :: "jstring \<Rightarrow> jstring \<Rightarrow> card" where
  "plain_card i z = blank_card\<lparr>cd_id := i, cd_zone := Some z\<rparr>"

definition plain_zone :: "jstring \<Rightarrow> zone" where
  "plain_zone i = \<lparr>zn_id = i, zn_name = i, zn_details = False, zn_position = None, zn_icon = False, zn_reachable = None\<rparr>"

definition plain_link :: "jstring \<Rightarrow> jstring \<Rightarrow> link" where
  "plain_link a b = \<lparr>lk_id = a @ b, lk_source = a, lk_target = b, lk_label = None, lk_missing = False\<rparr>"

lemmas plain_defs = plain_card_def plain_zone_def plain_link_def blank_card_def

text \<open>Two servers with one saved card each, and a new card on the first.\<close>

definition two_servers :: graph where
  "two_servers = \<lparr>gr_layout = EnvironmentLayout, gr_zones = [plain_zone ''1'', plain_zone ''2''],
     gr_nodes = [plain_card ''a'' ''1'', plain_card ''b'' ''2'', plain_card ''n'' ''1''], gr_links = [],
     gr_positions = (\<lambda>i. if i = ''a'' then Some \<lparr>rp_x = Some 0, rp_y = Some 0\<rparr>
                         else if i = ''b'' then Some \<lparr>rp_x = Some 0, rp_y = Some 100\<rparr> else None)\<rparr>"

lemma two_servers_stored:
  "stored_place two_servers (plain_card ''a'' ''1'') = Some (0, 0)"
  "stored_place two_servers (plain_card ''b'' ''2'') = Some (0, 100)"
  "stored_place two_servers (plain_card ''n'' ''1'') = None"
  by (simp_all add: stored_place_def two_servers_def plain_defs point_of_def)

lemma two_servers_groups:
  "zoneGroups two_servers =
     [\<lparr>zg_id = Some ''1'', zg_name = ''1'', zg_zone = Some (plain_zone ''1''), zg_nodes = [plain_card ''a'' ''1'', plain_card ''n'' ''1'']\<rparr>,
      \<lparr>zg_id = Some ''2'', zg_name = ''2'', zg_zone = Some (plain_zone ''2''), zg_nodes = [plain_card ''b'' ''2'']\<rparr>]"
  by (simp add: zoneGroups_def two_servers_def known_zone_def plain_defs)

lemma plain_height [simp]: "estimateNodeHeight (plain_card i z) = 58"
  by (simp add: estimateNodeHeight_def plain_defs)

lemma plain_fields [simp]:
  "cd_id (plain_card i z) = i" "cd_zone (plain_card i z) = Some z" "columnOf (plain_card i z) = 0" "saved_of (plain_card i z) = None"
  by (simp_all add: plain_defs columnOf_def saved_of_def point_of_def)

theorem new_cards_keep_clear_witness:
  "\<exists>p q. layoutGraph (\<lambda>_ _. 0) two_servers ''n'' = Some p \<and> layoutGraph (\<lambda>_ _. 0) two_servers ''a'' = Some q \<and>
     apart (card_box (plain_card ''n'' ''1'') p) (card_box (plain_card ''a'' ''1'') q) ROW_GAP \<and> q = (0, 0)"
proof -
  have "same_zone two_servers (plain_card ''n'' ''1'') (plain_card ''a'' ''1'')"
    by (simp add: same_zone_def two_servers_groups)
  moreover have "distinct (map cd_id (gr_nodes two_servers))" by (simp add: two_servers_def)
  moreover have "gr_layout two_servers = EnvironmentLayout" "plain_card ''n'' ''1'' \<in> set (gr_nodes two_servers)"
    "plain_card ''a'' ''1'' \<in> set (gr_nodes two_servers)" by (simp_all add: two_servers_def)
  moreover have "plain_card ''n'' ''1'' \<noteq> plain_card ''a'' ''1''" by (simp add: plain_defs)
  ultimately show ?thesis
    using new_cards_keep_clear [of two_servers "plain_card ''n'' ''1''" "plain_card ''a'' ''1''" "\<lambda>_ _. 0"]
    by (simp add: two_servers_stored)
qed

lemma two_servers_places:
  "environment_places two_servers =
     [(plain_card ''a'' ''1'', (0, 0)), (plain_card ''n'' ''1'', (0, 82)), (plain_card ''b'' ''2'', (0, 100))]"
  by (simp add: environment_places_def two_servers_groups two_servers_stored place_of_def placeGrid_def
      env_constants columnLeft_def)


theorem links_run_right_witness:
  "\<exists>p q. place_of (bl_places (layoutBlock (\<lambda>_ _. 0) [plain_card ''a'' ''1'', plain_card ''b'' ''1'', plain_card ''c'' ''1'']
        [plain_link ''c'' ''a'', plain_link ''a'' ''b''])) ''c'' = Some p \<and>
     place_of (bl_places (layoutBlock (\<lambda>_ _. 0) [plain_card ''a'' ''1'', plain_card ''b'' ''1'', plain_card ''c'' ''1'']
        [plain_link ''c'' ''a'', plain_link ''a'' ''b''])) ''a'' = Some q \<and> fst p + CHAIN_STEP \<le> fst q"
proof -
  let ?ns = "[plain_card ''a'' ''1'', plain_card ''b'' ''1'', plain_card ''c'' ''1'']"
  let ?ls = "[plain_link ''c'' ''a'', plain_link ''a'' ''b'']"
  have inside: "inside_links ?ns ?ls = [(''c'', ''a''), (''a'', ''b'')]"
    by (simp add: inside_links_def plain_link_def)
  have "acyclic {(''c'', ''a''), (''a'', ''b'')}"
    by (rule acyclicI_order [of _ "\<lambda>i. if i = ''c'' then 2 else if i = ''a'' then 1 else (0 :: nat)"]) auto
  then show ?thesis
    using links_run_right [of ?ns ?ls "plain_card ''c'' ''1''" "plain_card ''a'' ''1''" "\<lambda>_ _. 0"] by (simp add: inside)
qed

end
