(* ===== verification/Env_Sync_Safety.thy ===== *)
theory Env_Sync_Safety
  imports Env_Sync Env_Layout_Safety
begin

text \<open>
  The environment canvas together with the server that stores its places: a card the user has dropped stays where it was
  dropped, whatever answers are late, and its place reaches the server.
\<close>

section \<open>Places of stored cards\<close>

lemma place_fresh_fst: "a \<in> set (place_fresh zs y) \<Longrightarrow> fst a \<in> set (concat (map zg_nodes zs))"
  using place_fresh_spaced [of zs y] mset_fst by blast

lemma placeGrid_fst: "\<lbrakk>placeGrid ns x t = (ps, b); a \<in> set ps\<rbrakk> \<Longrightarrow> fst a \<in> set ns"
  using placeGrid_ok(3) mset_fst by blast

definition stands :: "graph \<Rightarrow> places \<Rightarrow> bool" where
  "stands g ps \<longleftrightarrow> (\<forall>a \<in> set ps. \<forall>p. stored_place g (fst a) = Some p \<longrightarrow> snd a = p)"

lemma stands_append: "stands g (ps @ qs) \<longleftrightarrow> stands g ps \<and> stands g qs"
  by (auto simp: stands_def)

lemma stands_fresh: "\<forall>z \<in> set zs. is_fresh g z \<Longrightarrow> stands g (place_fresh zs y)"
  using place_fresh_fst by (fastforce simp: stands_def is_fresh_def)

lemma place_stored_stands:
  assumes "place_stored g zs out = (o2, bs, fs)" "stands g out"
  shows "stands g o2 \<and> (\<forall>z \<in> set fs. is_fresh g z)"
  using assms
proof (induction zs arbitrary: out bs fs)
  case (Cons z zs)
  let ?fixed = "filter (\<lambda>n. stored_place g n \<noteq> None) (zg_nodes z)"
  have empty: "?fixed = [] \<longleftrightarrow> is_fresh g z" by (simp only: is_fresh_def filter_empty_conv not_not)
  show ?case
  proof (cases "is_fresh g z")
    case True
    obtain fs' where "place_stored g zs out = (o2, bs, fs')" "fs = z # fs'"
      using Cons.prems(1) True empty by (auto simp: Let_def split: prod.splits)
    then show ?thesis using Cons.IH [of out bs fs'] Cons.prems(2) True by simp
  next
    case False
    let ?new = "map (\<lambda>n. (n, the (stored_place g n))) ?fixed"
    let ?o1 = "out @ ?new"
    let ?bottom = "Max (set (map (\<lambda>n. snd (the (place_of ?o1 (cd_id n))) + estimateNodeHeight n) ?fixed))"
    obtain ps b where p: "placeGrid (filter (\<lambda>n. place_of ?o1 (cd_id n) = None) (zg_nodes z))
        (Min (set (map (\<lambda>n. fst (the (place_of ?o1 (cd_id n)))) ?fixed))) (?bottom + ROW_GAP) = (ps, b)" by fastforce
    obtain bs' where rest: "place_stored g zs (?o1 @ ps) = (o2, bs', fs)"
      using Cons.prems(1) False empty p by (auto simp: Let_def split: prod.splits if_splits)
    have "stored_place g (fst a) = None" if a: "a \<in> set ps" for a
    proof -
      have n: "fst a \<in> set (zg_nodes z)" "place_of ?o1 (cd_id (fst a)) = None" using placeGrid_fst [OF p a] by simp_all
      show ?thesis
      proof (rule ccontr)
        assume "stored_place g (fst a) \<noteq> None"
        then have "fst a \<in> set ?fixed" using n(1) by simp
        then have "(fst a, the (stored_place g (fst a))) \<in> set ?o1" by (simp add: image_iff)
        then have "cd_id (fst a) \<in> ids ?o1" unfolding ids_def by (rule rev_image_eqI) simp
        then show False using n(2) by (simp add: place_of_None)
      qed
    qed
    then have "stands g ps" by (simp add: stands_def)
    moreover have "stands g ?new" by (auto simp: stands_def)
    ultimately show ?thesis using Cons.IH [OF rest] Cons.prems(2) by (simp add: stands_append)
  qed
qed simp

text \<open>A stored place is where the card stands.\<close>

lemma environment_stored:
  assumes "gr_positions g i = Some (raw_of p)" "gr_layout g = EnvironmentLayout"
  shows "layoutGraph lc g i \<in> {None, Some p}"
proof -
  obtain out bs fs where st: "place_stored g (zoneGroups g) [] = (out, bs, fs)" by (cases "place_stored g (zoneGroups g) []")
  have "stands g []" by (simp add: stands_def)
  from place_stored_stands [OF st this] have "stands g (environment_places g)"
    by (simp add: environment_places_def st stands_append stands_fresh)
  moreover have "stored_place g n = Some p" if "cd_id n = i" for n
    using assms(1) that by (simp add: stored_place_def point_of_def raw_of_def)
  ultimately have all: "\<forall>a \<in> set (environment_places g). cd_id (fst a) = i \<longrightarrow> snd a = p"
    unfolding stands_def by blast
  show ?thesis
  proof (cases "place_of (environment_places g) i")
    case None
    then show ?thesis by (simp add: layoutGraph_def assms(2))
  next
    case (Some q)
    then have "(i, q) \<in> set (map (\<lambda>(n, p). (cd_id n, p)) (environment_places g))" unfolding place_of_def by (metis map_of_SomeD set_rev)
    then have "q = p" using all by auto
    then show ?thesis using Some by (simp add: layoutGraph_def assms(2))
  qed
qed


section \<open>The canvas and its server\<close>

text \<open>
  \<open>sy_server\<close> are the stored places, \<open>sy_replies\<close> the answers that the server has made and that are on their way, by
  request, and \<open>sy_wanted\<close> where the user last dropped each card.
\<close>

record sync =
  sy_canvas :: env_canvas
  sy_server :: "jstring \<Rightarrow> point option"
  sy_replies :: "nat \<Rightarrow> (jstring + reply) option"
  sy_wanted :: "jstring \<Rightarrow> point option"

text \<open>A graph of an environment canvas whose user may move cards.\<close>

definition editable_graph :: "loaded \<Rightarrow> bool" where
  "editable_graph g \<longleftrightarrow>
     gr_layout (ld_graph g) = EnvironmentLayout \<and> ld_can_edit g \<and> ld_can_move g \<and> \<not> ld_can_move_groups g \<and>
     \<not> ld_can_move_zones g \<and> ld_containers g = None"

definition moves_of :: "env_call \<Rightarrow> moves option" where
  "moves_of c = (case c of SavePositions ms \<Rightarrow> Some ms | _ \<Rightarrow> None)"

definition load_of :: "env_call \<Rightarrow> nat option" where
  "load_of c = (case c of Load k _ \<Rightarrow> Some k | _ \<Rightarrow> None)"

text \<open>The moves of a request in flight.\<close>

definition in_flight :: "(nat \<times> request) list \<Rightarrow> nat \<Rightarrow> moves \<Rightarrow> bool" where
  "in_flight rs n ms \<longleftrightarrow> list_ex (\<lambda>(m, q). m = n \<and> moves_of (rq_call q) = Some ms) rs"

definition places_moved :: "moves \<Rightarrow> (jstring \<Rightarrow> point option) \<Rightarrow> jstring \<Rightarrow> point option" where
  "places_moved ms v i = (case map_of ms i of Some p \<Rightarrow> Some (snd p) | None \<Rightarrow> v i)"

text \<open>The cards that a release drops, with their places.\<close>

definition dropped :: "env_event \<Rightarrow> env_canvas \<Rightarrow> (jstring \<times> point) list" where
  "dropped e s =
     (case e of
        PointerReleased k \<Rightarrow>
          if cv_destroyed s then []
          else
            (case map_of (cv_drags s) k of
               Some (CardDrag i _ _ _ _ _ _ _ moved) \<Rightarrow> if moved then places_now s [i] else []
             | Some (ZoneDrag _ _ _ _ _ starts moved) \<Rightarrow> if moved \<noteq> None then places_now s (map fst starts) else []
             | _ \<Rightarrow> [])
      | _ \<Rightarrow> [])"

definition is_answer :: "env_event \<Rightarrow> bool" where
  "is_answer e \<longleftrightarrow> (case e of Answer _ _ \<Rightarrow> True | _ \<Rightarrow> False)"

text \<open>
  One step: an event of the page, the server carrying out a request, or an answer arriving. The server carries
  out the saves in the order they were sent and does not refuse them; it answers a load with what is stored then,
  or fails. All other requests are answered in any way.
\<close>

inductive sync_step :: "page \<Rightarrow> sync \<Rightarrow> sync \<Rightarrow> bool" for p where
  event: "\<not> is_answer e \<Longrightarrow>
    sync_step p S (S\<lparr>sy_canvas := env_step d p e (sy_canvas S),
      sy_wanted := sy_wanted S ++ map_of (dropped e (sy_canvas S))\<rparr>)"
| save: "\<lbrakk>in_flight (cv_requests (sy_canvas S)) n ms; sy_replies S n = None;
    \<forall>m ms'. m < n \<longrightarrow> in_flight (cv_requests (sy_canvas S)) m ms' \<longrightarrow> sy_replies S m \<noteq> None\<rbrakk> \<Longrightarrow>
    sync_step p S (S\<lparr>sy_server := places_moved ms (sy_server S), sy_replies := (sy_replies S)(n \<mapsto> Inr NoReply)\<rparr>)"
| read: "\<lbrakk>(n, q) \<in> set (cv_requests (sy_canvas S)); load_of (rq_call q) \<noteq> None; sy_replies S n = None; editable_graph g;
    gr_positions (ld_graph g) = (\<lambda>i. map_option raw_of (sy_server S i))\<rbrakk> \<Longrightarrow>
    sync_step p S (S\<lparr>sy_replies := (sy_replies S)(n \<mapsto> Inr (GraphReply g))\<rparr>)"
| other: "\<lbrakk>(n, q) \<in> set (cv_requests (sy_canvas S)); moves_of (rq_call q) = None; sy_replies S n = None;
    load_of (rq_call q) \<noteq> None \<Longrightarrow> (case r of Inr (GraphReply _) \<Rightarrow> False | _ \<Rightarrow> True)\<rbrakk> \<Longrightarrow>
    sync_step p S (S\<lparr>sy_replies := (sy_replies S)(n \<mapsto> r)\<rparr>)"
| arrive: "sy_replies S n = Some r \<Longrightarrow>
    sync_step p S (S\<lparr>sy_canvas := env_step d p (Answer n r) (sy_canvas S), sy_replies := (sy_replies S)(n := None)\<rparr>)"

definition sync_start :: "page \<Rightarrow> graph_filter \<Rightarrow> view option \<Rightarrow> jstring \<Rightarrow> (jstring \<Rightarrow> point option) \<Rightarrow> sync" where
  "sync_start p f v w stored =
     \<lparr>sy_canvas = open_canvas p f v w, sy_server = stored, sy_replies = (\<lambda>_. None), sy_wanted = Map.empty\<rparr>"

section \<open>The invariant\<close>

declare split_paired_All [simp del] split_paired_Ex [simp del]

text \<open>The requests in flight, and the replies to them.\<close>

definition plain_call :: "env_call \<Rightarrow> bool" where
  "plain_call c = (case c of SaveGroup _ \<Rightarrow> False | SaveZones _ \<Rightarrow> False | TakeLink _ _ _ \<Rightarrow> False | LoadContainers \<Rightarrow> False | _ \<Rightarrow> True)"

definition loads_in :: "(nat \<times> request) list \<Rightarrow> nat list" where
  "loads_in rs = List.map_filter (\<lambda>(n, q). load_of (rq_call q)) rs"

definition tags_ok :: "(nat \<times> request) list \<Rightarrow> bool" where
  "tags_ok rs \<longleftrightarrow> (\<forall>n ms. in_flight rs n ms \<longrightarrow>
     (\<forall>e \<in> set ms. fst (snd e) < n \<and> (\<forall>m \<in> fst ` set rs. m < n \<longrightarrow> m < fst (snd e))))"

definition replies_ok :: "(nat \<Rightarrow> (jstring + reply) option) \<Rightarrow> (nat \<times> request) list \<Rightarrow> bool" where
  "replies_ok R rs \<longleftrightarrow>
     (\<forall>n. R n \<noteq> None \<longrightarrow> n \<in> fst ` set rs) \<and>
     (\<forall>m n ms ms'. in_flight rs m ms \<and> in_flight rs n ms' \<and> m < n \<and> R n \<noteq> None \<longrightarrow> R m \<noteq> None) \<and>
     (\<forall>n ms r. in_flight rs n ms \<and> R n = Some r \<longrightarrow> (\<exists>x. r = Inr x)) \<and>
     (\<forall>(n, q) \<in> set rs. \<forall>g. load_of (rq_call q) \<noteq> None \<and> R n = Some (Inr (GraphReply g)) \<longrightarrow> editable_graph g)"

definition wire :: "(nat \<Rightarrow> (jstring + reply) option) \<Rightarrow> (nat \<times> request) list \<Rightarrow> nat \<Rightarrow> nat \<Rightarrow> bool \<Rightarrow> bool" where
  "wire R rs nx ls ld \<longleftrightarrow>
     sorted_wrt (<) (map fst rs) \<and> (\<forall>n \<in> fst ` set rs. n < nx) \<and> (\<forall>e \<in> set rs. plain_call (rq_call (snd e))) \<and>
     (loads_in rs = [] \<or> ld \<and> loads_in rs = [ls]) \<and> tags_ok rs \<and> replies_ok R rs"

text \<open>The graphs and the drags.\<close>

definition drag_ok :: "drag \<Rightarrow> bool" where
  "drag_ok dr = (case dr of CardDrag _ _ _ _ _ m _ _ _ \<Rightarrow> m = None | GroupDrag _ _ _ _ _ _ _ _ _ \<Rightarrow> False | _ \<Rightarrow> True)"

definition screen :: "graph_filter \<Rightarrow> loaded option \<Rightarrow> loaded option \<Rightarrow> jstring set \<Rightarrow> (nat \<times> drag) list \<Rightarrow> card list option \<Rightarrow> bool" where
  "screen fi gr de ias drs cont \<longleftrightarrow>
     fl_project fi = [] \<and> fl_environment fi = [] \<and> (\<forall>g. gr = Some g \<longrightarrow> editable_graph g) \<and>
     (\<forall>g. de = Some g \<longrightarrow> editable_graph g) \<and> (ias = {} \<longrightarrow> de = None) \<and> distinct (map fst drs) \<and>
     (\<forall>e \<in> set drs. drag_ok (snd e)) \<and> (drs \<noteq> [] \<longrightarrow> gr \<noteq> None) \<and> cont = None"

text \<open>What keeps the place \<open>p\<close> of a dropped card \<open>i\<close>.\<close>

definition reads :: "(nat \<Rightarrow> (jstring + reply) option) \<Rightarrow> (nat \<times> request) list \<Rightarrow> (nat \<Rightarrow> bool) \<Rightarrow> jstring \<Rightarrow> point \<Rightarrow> bool" where
  "reads R rs P i r \<longleftrightarrow>
     (\<forall>(n, q) \<in> set rs. \<forall>k g. load_of (rq_call q) = Some k \<and> P k \<and> R n = Some (Inr (GraphReply g)) \<longrightarrow>
        gr_positions (ld_graph g) i = Some (raw_of r))"

definition saved_ok ::
  "(jstring \<Rightarrow> point option) \<Rightarrow> (nat \<Rightarrow> (jstring + reply) option) \<Rightarrow> (nat \<times> request) list \<Rightarrow> held_move option \<Rightarrow> jstring \<Rightarrow> point \<Rightarrow> bool" where
  "saved_ok V R rs h i r \<longleftrightarrow>
     V i = Some r \<and>
     (\<forall>m ms e. in_flight rs m ms \<and> map_of ms i = Some e \<longrightarrow> R m \<noteq> None \<and> (\<forall>k. h = Some k \<longrightarrow> fst e \<noteq> fst (hl_at k)))"

definition sent_ok ::
  "(jstring \<Rightarrow> point option) \<Rightarrow> (nat \<Rightarrow> (jstring + reply) option) \<Rightarrow> (nat \<times> request) list \<Rightarrow> held_move \<Rightarrow> jstring \<Rightarrow> point \<Rightarrow> bool" where
  "sent_ok V R rs h i r \<longleftrightarrow>
     (\<exists>n ms. in_flight rs n ms \<and> map_of ms i = Some (hl_at h) \<and> (R n \<noteq> None \<longrightarrow> V i = Some r) \<and>
        (\<forall>m ms'. in_flight rs m ms' \<longrightarrow> map_of ms' i \<noteq> None \<longrightarrow> m \<le> n))"

definition kept_ok ::
  "(jstring \<Rightarrow> point option) \<Rightarrow> (nat \<Rightarrow> (jstring + reply) option) \<Rightarrow> (jstring \<times> point) list \<Rightarrow> (jstring \<Rightarrow> held_move option) \<Rightarrow>
   loaded option \<Rightarrow> (nat \<times> request) list \<Rightarrow> nat \<Rightarrow> jstring \<Rightarrow> point \<Rightarrow> bool" where
  "kept_ok V R un st de rs ls i p \<longleftrightarrow>
     (case map_of un i of
        Some q \<Rightarrow> q = p
      | None \<Rightarrow>
          (let r = round_point p
           in case st i of
                Some h \<Rightarrow>
                  snd (hl_at h) = r \<and>
                  (case hl_after h of
                     None \<Rightarrow> sent_ok V R rs h i r
                   | Some a \<Rightarrow> a \<le> ls \<and> saved_ok V R rs (Some h) i r \<and> reads R rs (\<lambda>k. a < k) i r)
              | None \<Rightarrow>
                  saved_ok V R rs None i r \<and> reads R rs (\<lambda>_. True) i r \<and>
                  (\<forall>g. de = Some g \<longrightarrow> gr_positions (ld_graph g) i = Some (raw_of r))))"

definition places_ok where
  "places_ok W V R un st de rs ls \<longleftrightarrow>
     (\<forall>i q. map_of un i = Some q \<longrightarrow> W i = Some q) \<and> (\<forall>i p. W i = Some p \<longrightarrow> kept_ok V R un st de rs ls i p)"

text \<open>What is shown. \<open>moving\<close>: the cards that a drag has moved.\<close>

definition drag_cards :: "drag \<Rightarrow> jstring set" where
  "drag_cards dr =
     (case dr of
        CardDrag i _ _ _ _ _ _ _ moved \<Rightarrow> if moved then {i} else {}
      | ZoneDrag _ _ _ _ _ starts moved \<Rightarrow> if moved \<noteq> None then fst ` set starts else {}
      | GroupDrag _ _ _ _ _ _ starts _ moved \<Rightarrow> if moved then fst ` set starts else {}
      | ConnectDrag _ _ \<Rightarrow> {})"

definition moving :: "(nat \<times> drag) list \<Rightarrow> jstring set" where
  "moving drs = (\<Union>e \<in> set drs. drag_cards (snd e))"

definition shown_ok :: "(jstring \<Rightarrow> point option) \<Rightarrow> jstring set \<Rightarrow> positions \<Rightarrow> bool" where
  "shown_ok W mv pos \<longleftrightarrow> (\<forall>i p. W i = Some p \<and> i \<notin> mv \<longrightarrow> pos i \<in> {None, Some p, Some (round_point p)})"

definition canvas_ok ::
  "(jstring \<Rightarrow> point option) \<Rightarrow> (jstring \<Rightarrow> point option) \<Rightarrow> (nat \<Rightarrow> (jstring + reply) option) \<Rightarrow> env_canvas \<Rightarrow> bool" where
  "canvas_ok W V R s \<longleftrightarrow>
     wire R (cv_requests s) (cv_next s) (cv_loads s) (cv_loading s) \<and>
     screen (cv_filter s) (cv_graph s) (cv_deferred s) (cv_interactions s) (cv_drags s) (cv_containers s) \<and>
     places_ok W V R (cv_unsaved s) (cv_settling s KeptPositions) (cv_deferred s) (cv_requests s) (cv_loads s) \<and>
     shown_ok W (moving (cv_drags s)) (cv_positions s)"

named_theorems unseen

lemma canvas_ok_fields [unseen]:
  "canvas_ok W V R (s\<lparr>cv_full := x1\<rparr>) = canvas_ok W V R s"
  "canvas_ok W V R (s\<lparr>cv_same := x2\<rparr>) = canvas_ok W V R s"
  "canvas_ok W V R (s\<lparr>cv_sizes := x3\<rparr>) = canvas_ok W V R s"
  "canvas_ok W V R (s\<lparr>cv_selected := x4\<rparr>) = canvas_ok W V R s"
  "canvas_ok W V R (s\<lparr>cv_hover := x5\<rparr>) = canvas_ok W V R s"
  "canvas_ok W V R (s\<lparr>cv_pending := x6\<rparr>) = canvas_ok W V R s"
  "canvas_ok W V R (s\<lparr>cv_temp := x7\<rparr>) = canvas_ok W V R s"
  "canvas_ok W V R (s\<lparr>cv_dropTarget := x8\<rparr>) = canvas_ok W V R s"
  "canvas_ok W V R (s\<lparr>cv_error := x9\<rparr>) = canvas_ok W V R s"
  "canvas_ok W V R (s\<lparr>cv_toast := x10\<rparr>) = canvas_ok W V R s"
  "canvas_ok W V R (s\<lparr>cv_view := x11\<rparr>) = canvas_ok W V R s"
  "canvas_ok W V R (s\<lparr>cv_fitted := x12\<rparr>) = canvas_ok W V R s"
  "canvas_ok W V R (s\<lparr>cv_restored := x13\<rparr>) = canvas_ok W V R s"
  "canvas_ok W V R (s\<lparr>cv_wanted := x14\<rparr>) = canvas_ok W V R s"
  "canvas_ok W V R (s\<lparr>cv_usage := x15\<rparr>) = canvas_ok W V R s"
  "canvas_ok W V R (s\<lparr>cv_groupMeta := x16\<rparr>) = canvas_ok W V R s"
  "canvas_ok W V R (s\<lparr>cv_zoneOrigins := x17\<rparr>) = canvas_ok W V R s"
  "canvas_ok W V R (s\<lparr>cv_save_timer := x18\<rparr>) = canvas_ok W V R s"
  "canvas_ok W V R (s\<lparr>cv_refresh_timer := x19\<rparr>) = canvas_ok W V R s"
  "canvas_ok W V R (s\<lparr>cv_view_timer := x20\<rparr>) = canvas_ok W V R s"
  "canvas_ok W V R (s\<lparr>cv_stored_view := x21\<rparr>) = canvas_ok W V R s"
  "canvas_ok W V R (s\<lparr>cv_lastOpen := x22\<rparr>) = canvas_ok W V R s"
  "canvas_ok W V R (s\<lparr>cv_opened := x23\<rparr>) = canvas_ok W V R s"
  "canvas_ok W V R (s\<lparr>cv_reloadQueued := x24\<rparr>) = canvas_ok W V R s"
  by (simp_all add: canvas_ok_def)

lemma in_flight_append: "in_flight (rs @ [(n, q)]) m ms \<longleftrightarrow> in_flight rs m ms \<or> m = n \<and> moves_of (rq_call q) = Some ms"
  by (auto simp: in_flight_def)

lemma in_flight_number: "in_flight rs n ms \<Longrightarrow> n \<in> fst ` set rs"
  by (force simp: in_flight_def list_ex_iff)

lemma wire_next: "\<lbrakk>wire R rs nx ls ld; nx \<le> ny\<rbrakk> \<Longrightarrow> wire R rs ny ls ld"
  by (auto simp: wire_def)

lemma canvas_ok_next: "\<lbrakk>canvas_ok W V R s; cv_next s \<le> n\<rbrakk> \<Longrightarrow> canvas_ok W V R (s\<lparr>cv_next := n\<rparr>)"
  by (auto simp: canvas_ok_def intro: wire_next)

lemma wire_fresh: "wire R rs nx ls ld \<Longrightarrow> R nx = None"
  by (force simp: wire_def replies_ok_def)

lemma wire_append:
  assumes "wire R rs nx ls ld" "plain_call (rq_call q)"
    and "\<And>ms e. \<lbrakk>moves_of (rq_call q) = Some ms; e \<in> set ms\<rbrakk> \<Longrightarrow> fst (snd e) < nx \<and> (\<forall>m \<in> fst ` set rs. m < fst (snd e))"
    and "load_of (rq_call q) \<noteq> None \<Longrightarrow> loads_in rs = [] \<and> load_of (rq_call q) = Some ls' \<and> ld'"
    and "load_of (rq_call q) = None \<Longrightarrow> ls' = ls \<and> ld' = ld"
  shows "wire R (rs @ [(nx, q)]) (nx + 1) ls' ld'"
proof -
  note w = assms(1) [unfolded wire_def replies_ok_def]
  have "R nx = None" by (rule wire_fresh [OF assms(1)])
  have lt: "n < nx" if "in_flight rs n ms" for n ms using w in_flight_number [OF that] by blast
  have "tags_ok (rs @ [(nx, q)])"
    using w assms(3) lt by (fastforce simp: tags_ok_def in_flight_append)
  moreover have "replies_ok R (rs @ [(nx, q)])"
    unfolding replies_ok_def
  proof (intro conjI allI impI)
    fix n
    assume "R n \<noteq> None"
    then show "n \<in> fst ` set (rs @ [(nx, q)])" using w by auto
  next
    fix m n ms ms'
    assume a: "in_flight (rs @ [(nx, q)]) m ms \<and> in_flight (rs @ [(nx, q)]) n ms' \<and> m < n \<and> R n \<noteq> None"
    then have n: "in_flight rs n ms'" using \<open>R nx = None\<close> by (auto simp: in_flight_append)
    then have "m < nx" using a lt [OF n] by simp
    then have "in_flight rs m ms" using a by (auto simp: in_flight_append)
    then show "R m \<noteq> None" using w n a by blast
  next
    fix n ms r
    assume "in_flight (rs @ [(nx, q)]) n ms \<and> R n = Some r"
    then show "\<exists>x. r = Inr x" using w \<open>R nx = None\<close> by (auto simp: in_flight_append)
  next
    show "\<forall>(n, q) \<in> set (rs @ [(nx, q)]). \<forall>g. load_of (rq_call q) \<noteq> None \<and> R n = Some (Inr (GraphReply g)) \<longrightarrow> editable_graph g"
      using w \<open>R nx = None\<close> by auto
  qed
  moreover have "loads_in (rs @ [(nx, q)]) = [] \<or> ld' \<and> loads_in (rs @ [(nx, q)]) = [ls']"
    using w assms(4,5) by (cases "load_of (rq_call q)") (auto simp: loads_in_def List.map_filter_def)
  ultimately show ?thesis
    using w assms(2) by (auto simp: wire_def sorted_wrt_append)
qed


text \<open>A request that does not move card \<open>i\<close> changes nothing for it.\<close>

lemma saved_ok_other:
  assumes "\<And>ms. moves_of (rq_call q) = Some ms \<Longrightarrow> map_of ms i = None"
  shows "saved_ok V R (rs @ [(n, q)]) h i r = saved_ok V R rs h i r"
proof -
  have "(in_flight (rs @ [(n, q)]) m ms \<and> map_of ms i = Some e) = (in_flight rs m ms \<and> map_of ms i = Some e)" for m ms e
    using assms by (auto simp: in_flight_append)
  then show ?thesis unfolding saved_ok_def by presburger
qed

lemma sent_ok_other:
  assumes "\<And>ms. moves_of (rq_call q) = Some ms \<Longrightarrow> map_of ms i = None" "sent_ok V R rs h i r"
  shows "sent_ok V R (rs @ [(n, q)]) h i r"
proof -
  obtain m ms where m: "in_flight rs m ms" "map_of ms i = Some (hl_at h)" "R m \<noteq> None \<longrightarrow> V i = Some r"
    "\<forall>k ms'. in_flight rs k ms' \<longrightarrow> map_of ms' i \<noteq> None \<longrightarrow> k \<le> m" using assms(2) unfolding sent_ok_def by blast
  have "\<forall>k ms'. in_flight (rs @ [(n, q)]) k ms' \<longrightarrow> map_of ms' i \<noteq> None \<longrightarrow> k \<le> m"
  proof (intro allI impI)
    fix k ms'
    assume "in_flight (rs @ [(n, q)]) k ms'" "map_of ms' i \<noteq> None"
    then have "in_flight rs k ms'" using assms(1) by (auto simp: in_flight_append)
    then show "k \<le> m" using m(4) \<open>map_of ms' i \<noteq> None\<close> by blast
  qed
  then show ?thesis using m unfolding sent_ok_def in_flight_append by blast
qed

lemma reads_append: "R n = None \<Longrightarrow> reads R (rs @ [(n, q)]) P i r = reads R rs P i r"
  by (simp add: reads_def)

lemma kept_ok_other:
  assumes "kept_ok V R un st de rs ls i p" "R nx = None" "ls \<le> ls'"
    and "\<And>ms. moves_of (rq_call q) = Some ms \<Longrightarrow> map_of ms i = None"
  shows "kept_ok V R un st de (rs @ [(nx, q)]) ls' i p"
proof -
  have sv: "saved_ok V R (rs @ [(nx, q)]) h i r = saved_ok V R rs h i r" for h r
    using assms(4) by (rule saved_ok_other)
  have se: "sent_ok V R rs h i r \<Longrightarrow> sent_ok V R (rs @ [(nx, q)]) h i r" for h r
    using assms(4) by (rule sent_ok_other)
  have rd: "reads R (rs @ [(nx, q)]) P i r = reads R rs P i r" for P r
    using assms(2) by (rule reads_append)
  show ?thesis using assms(1,3) unfolding kept_ok_def Let_def sv rd by (auto split: option.splits intro: se)
qed

lemma kept_ok_append:
  assumes "kept_ok V R un st de rs ls i p" "R nx = None" "moves_of (rq_call q) = None" "ls \<le> ls'"
  shows "kept_ok V R un st de (rs @ [(nx, q)]) ls' i p"
  by (rule kept_ok_other [OF assms(1,2,4)]) (simp add: assms(3))

lemma canvas_ok_send:
  assumes "canvas_ok W V R s" "plain_call c" "moves_of c = None" "load_of c = None"
  shows "canvas_ok W V R (send verb path c s)"
proof -
  let ?q = "\<lparr>rq_method = verb, rq_path = path, rq_call = c\<rparr>"
  have w: "wire R (cv_requests s) (cv_next s) (cv_loads s) (cv_loading s)" using assms(1) by (simp add: canvas_ok_def)
  have "wire R (cv_requests s @ [(cv_next s, ?q)]) (cv_next s + 1) (cv_loads s) (cv_loading s)"
    using assms(2-4) by (intro wire_append [OF w]) simp_all
  moreover have "kept_ok V R un st de (cv_requests s @ [(cv_next s, ?q)]) (cv_loads s) i p"
    if "kept_ok V R un st de (cv_requests s) (cv_loads s) i p" for un st de i p
    using kept_ok_append [OF that wire_fresh [OF w]] assms(3) by simp
  ultimately show ?thesis using assms(1) by (simp add: canvas_ok_def send_def places_ok_def)
qed

lemma canvas_ok_load:
  assumes "canvas_ok W V R s"
  shows "canvas_ok W V R (load p quiet s)"
proof (cases "cv_destroyed s \<or> cv_loading s")
  case True
  then show ?thesis using assms by (auto simp: load_def unseen)
next
  case False
  let ?q = "\<lparr>rq_method = ''GET'', rq_path = page_base p, rq_call = Load (cv_loads s + 1) quiet\<rparr>"
  have w: "wire R (cv_requests s) (cv_next s) (cv_loads s) (cv_loading s)" using assms by (simp add: canvas_ok_def)
  then have none: "loads_in (cv_requests s) = []" using False by (simp add: wire_def)
  have "wire R (cv_requests s @ [(cv_next s, ?q)]) (cv_next s + 1) (cv_loads s + 1) True"
    using none by (intro wire_append [OF w]) (simp_all add: plain_call_def moves_of_def load_of_def)
  moreover have "kept_ok V R un st de (cv_requests s @ [(cv_next s, ?q)]) (cv_loads s + 1) i p"
    if "kept_ok V R un st de (cv_requests s) (cv_loads s) i p" for un st de i p
    using kept_ok_append [OF that wire_fresh [OF w], of ?q "cv_loads s + 1"] by (simp add: moves_of_def)
  ultimately show ?thesis using assms False by (simp add: canvas_ok_def load_def send_def places_ok_def)
qed

subsection \<open>Saving\<close>

lemma tag_places_Cons: "tag_places n ((i, p) # ps) = (i, n, p) # tag_places (Suc n) ps"
  by (simp add: tag_places_def)

lemma tag_places_Nil: "tag_places n [] = []"
  by (simp add: tag_places_def)

lemma map_of_tag_places:
  "map_of (tag_places n ps) i = None \<longleftrightarrow> map_of ps i = None"
  "map_of (tag_places n ps) i = Some e \<Longrightarrow> map_of ps i = Some (snd e)"
  by (induction ps arbitrary: n) (auto simp: tag_places_Cons tag_places_Nil split: if_splits)

lemma tag_places_range: "e \<in> set (tag_places n ps) \<Longrightarrow> n \<le> fst (snd e) \<and> fst (snd e) < n + length ps"
  by (induction ps arbitrary: n) (force simp: tag_places_Cons tag_places_Nil)+

lemma length_tag_places: "length (tag_places n ps) = length ps"
  by (simp add: tag_places_def)

lemma canvas_ok_flush:
  assumes "canvas_ok W V R s"
  shows "canvas_ok W V R (flushSave p s)"
proof (cases "cv_unsaved s = [] \<or> cv_graph s = None")
  case True
  then show ?thesis using assms by (auto simp: flushSave_def unseen)
next
  case False
  let ?un = "cv_unsaved s"
  let ?ms = "tag_places (cv_next s) (map (\<lambda>(i, q). (i, round_point q)) ?un)"
  let ?nx = "cv_next s + length ?ms"
  let ?q = "\<lparr>rq_method = ''PATCH'', rq_path = page_base p @ ''/positions'', rq_call = SavePositions ?ms\<rparr>"
  let ?rs = "cv_requests s @ [(?nx, ?q)]"
  let ?st = "held_with ?ms (cv_settling s KeptPositions)"
  have "wire R (cv_requests s) (cv_next s) (cv_loads s) (cv_loading s)" using assms by (simp add: canvas_ok_def)
  then have w: "wire R (cv_requests s) ?nx (cv_loads s) (cv_loading s)" by (rule wire_next) simp
  have old: "n < cv_next s" if "n \<in> fst ` set (cv_requests s)" for n
    using assms that unfolding canvas_ok_def wire_def by blast
  have w1: "wire R ?rs (?nx + 1) (cv_loads s) (cv_loading s)"
    using old tag_places_range [of _ "cv_next s" "map (\<lambda>(i, q). (i, round_point q)) ?un"]
    by (intro wire_append [OF w]) (fastforce simp: plain_call_def moves_of_def load_of_def length_tag_places)+
  have k1: "kept_ok V R [] ?st (cv_deferred s) ?rs (cv_loads s) i p" if W: "W i = Some p" for i p
  proof (cases "map_of ?un i")
    case None
    then have no: "map_of ?ms i = None" by (simp add: map_of_tag_places map_of_map)
    have "kept_ok V R ?un (cv_settling s KeptPositions) (cv_deferred s) (cv_requests s) (cv_loads s) i p"
      using assms W by (simp add: canvas_ok_def places_ok_def)
    moreover have "?st i = cv_settling s KeptPositions i" using no by (simp add: held_with_def)
    ultimately have "kept_ok V R [] ?st (cv_deferred s) (cv_requests s) (cv_loads s) i p"
      using None by (simp add: kept_ok_def)
    then show ?thesis using wire_fresh [OF w] by (rule kept_ok_other) (simp_all add: moves_of_def no)
  next
    case (Some q)
    then have "q = p" using assms W by (auto simp: canvas_ok_def places_ok_def)
    have "map_of ?ms i \<noteq> None" using Some by (simp add: map_of_tag_places map_of_map)
    then obtain e where e: "map_of ?ms i = Some e" by blast
    have "snd e = round_point p" using map_of_tag_places(2) [OF e] Some \<open>q = p\<close> by (simp add: map_of_map)
    moreover have "sent_ok V R ?rs \<lparr>hl_at = e, hl_after = None\<rparr> i (round_point p)"
      unfolding sent_ok_def
    proof (intro exI conjI)
      show "in_flight ?rs ?nx ?ms" by (simp add: in_flight_append moves_of_def)
      show "R ?nx \<noteq> None \<longrightarrow> V i = Some (round_point p)" using wire_fresh [OF w] by simp
      show "\<forall>m ms'. in_flight ?rs m ms' \<longrightarrow> map_of ms' i \<noteq> None \<longrightarrow> m \<le> ?nx"
        using old in_flight_number by (fastforce simp: in_flight_append)
    qed (simp_all add: e)
    ultimately show ?thesis using e by (simp add: kept_ok_def held_with_def)
  qed
  have p1: "places_ok W V R [] ?st (cv_deferred s) ?rs (cv_loads s)"
    unfolding places_ok_def by (intro conjI allI impI, simp, rule k1)
  have frame: "cv_loads (flushSave p s) = cv_loads s" "cv_loading (flushSave p s) = cv_loading s"
    "cv_filter (flushSave p s) = cv_filter s" "cv_graph (flushSave p s) = cv_graph s" "cv_deferred (flushSave p s) = cv_deferred s"
    "cv_interactions (flushSave p s) = cv_interactions s" "cv_drags (flushSave p s) = cv_drags s"
    "cv_containers (flushSave p s) = cv_containers s" "cv_positions (flushSave p s) = cv_positions s"
    by (simp_all add: flushSave_def hold_moves_def send_def Let_def)
  have "cv_requests (flushSave p s) = ?rs" "cv_next (flushSave p s) = ?nx + 1" "cv_unsaved (flushSave p s) = []"
    "cv_settling (flushSave p s) KeptPositions = ?st"
    using False by (auto simp add: flushSave_def new_moves_def hold_moves_def send_def Let_def)
  moreover have "screen (cv_filter s) (cv_graph s) (cv_deferred s) (cv_interactions s) (cv_drags s) (cv_containers s)"
    "shown_ok W (moving (cv_drags s)) (cv_positions s)" using assms by (simp_all add: canvas_ok_def)
  ultimately show ?thesis using w1 p1 by (simp only: canvas_ok_def frame)
qed


subsection \<open>Queueing, showing and waiting\<close>

lemma canvas_ok_queue:
  assumes "canvas_ok W V R s" "\<And>i p. map_of ms i = Some p \<Longrightarrow> cv_positions s i = Some p"
  shows "canvas_ok (W ++ map_of ms) V R (queueSave ms s)"
proof -
  let ?un = "ms @ filter (\<lambda>e. fst e \<notin> fst ` set ms) (cv_unsaved s)"
  have out: "map_of ?un i = map_of (cv_unsaved s) i" if "map_of ms i = None" for i
  proof -
    have "i \<notin> fst ` set ms" using that by (simp add: map_of_eq_None_iff)
    then have "map_of (filter (\<lambda>e. fst e \<notin> fst ` set ms) un) i = map_of un i" for un by (induction un) auto
    then show ?thesis using that by (simp add: map_add_def)
  qed
  have "map_of ?un i = Some q \<Longrightarrow> (W ++ map_of ms) i = Some q" for i q
  proof (cases "map_of ms i")
    case None
    assume "map_of ?un i = Some q"
    then have "map_of (cv_unsaved s) i = Some q" using out [OF None] by simp
    then show ?thesis using assms(1) None by (simp add: canvas_ok_def places_ok_def map_add_def)
  qed (simp add: map_add_def)
  moreover have "kept_ok V R ?un (cv_settling s KeptPositions) (cv_deferred s) (cv_requests s) (cv_loads s) i p"
    if "(W ++ map_of ms) i = Some p" for i p
  proof (cases "map_of ms i")
    case None
    then have "kept_ok V R (cv_unsaved s) (cv_settling s KeptPositions) (cv_deferred s) (cv_requests s) (cv_loads s) i p"
      using assms(1) that by (simp add: canvas_ok_def places_ok_def map_add_def)
    then show ?thesis unfolding kept_ok_def out [OF None] .
  next
    case (Some q)
    then have "map_of ?un i = Some q" "q = p" using that by (simp_all add: map_add_def)
    then show ?thesis by (simp add: kept_ok_def)
  qed
  ultimately have "places_ok (W ++ map_of ms) V R ?un (cv_settling s KeptPositions) (cv_deferred s) (cv_requests s) (cv_loads s)"
    unfolding places_ok_def by blast
  moreover have "shown_ok (W ++ map_of ms) (moving (cv_drags s)) (cv_positions s)"
    using assms unfolding canvas_ok_def shown_ok_def by (fastforce simp: map_add_Some_iff)
  ultimately show ?thesis using assms(1) by (simp add: canvas_ok_def queueSave_def)
qed

text \<open>A graph that agrees with the saved places.\<close>

definition agrees :: "(jstring \<Rightarrow> point option) \<Rightarrow> env_canvas \<Rightarrow> loaded \<Rightarrow> bool" where
  "agrees W s g \<longleftrightarrow> editable_graph g \<and>
     (\<forall>i p. W i = Some p \<and> map_of (cv_unsaved s) i = None \<and> cv_settling s KeptPositions i = None \<longrightarrow>
        gr_positions (ld_graph g) i = Some (raw_of (round_point p)))"

lemma keep_moves_position:
  assumes "canvas_ok W V R s" "agrees W s g" "W i = Some p"
  shows "gr_positions (keep_moves s (ld_graph g)) i \<in> {Some (raw_of p), Some (raw_of (round_point p))}"
proof -
  have k: "kept_ok V R (cv_unsaved s) (cv_settling s KeptPositions) (cv_deferred s) (cv_requests s) (cv_loads s) i p"
    using assms(1,3) by (simp add: canvas_ok_def places_ok_def)
  show ?thesis
  proof (cases "map_of (cv_unsaved s) i")
    case None
    then show ?thesis using k assms(2,3)
      by (cases "cv_settling s KeptPositions i") (auto simp: keep_moves_def held_at_def kept_ok_def agrees_def Let_def)
  qed (use k in \<open>simp add: keep_moves_def kept_ok_def\<close>)
qed

lemma first_fit_ok [unseen]: "canvas_ok W V R (first_fit d s) = canvas_ok W V R s"
  by (simp add: first_fit_def fit_def view_changed_def select_item_def Let_def unseen)

lemma same_graph:
  assumes "screen fi gr de ias drs cont" "gr_layout g = EnvironmentLayout"
  shows "groupByUse (filterGraph fi g) = g"
  using assms by (simp add: screen_def filterGraph_def groupByUse_def)

lemma canvas_ok_show:
  assumes "canvas_ok W V R s" "agrees W s g"
  shows "canvas_ok W V R (show_graph d g s)"
proof -
  let ?g = "keep_moves s (ld_graph g)"
  have e: "editable_graph g" using assms(2) by (simp add: agrees_def)
  then have lay: "gr_layout ?g = EnvironmentLayout" by (simp add: keep_moves_def editable_graph_def)
  have sc: "screen (cv_filter s) (cv_graph s) (cv_deferred s) (cv_interactions s) (cv_drags s) (cv_containers s)"
    using assms(1) by (simp add: canvas_ok_def)
  note shown = same_graph [OF sc lay]
  have pos: "layoutGraph lc ?g i \<in> {None, Some p, Some (round_point p)}" if "W i = Some p" for i p lc
    using keep_moves_position [OF assms that] environment_stored [OF _ lay, of i _ lc] by blast
  have "shown_ok W mv (layoutGraph lc ?g)" for mv lc
    using pos by (simp add: shown_ok_def)
  moreover have "screen (cv_filter s) (Some (g\<lparr>ld_graph := ?g\<rparr>)) (cv_deferred s) (cv_interactions s) (cv_drags s) (cv_containers s)"
    using sc e lay by (simp add: screen_def editable_graph_def)
  ultimately show ?thesis
    using assms(1) lay unfolding show_graph_def Let_def first_fit_ok by (simp add: shown canvas_ok_def)
qed

lemma canvas_ok_defer:
  assumes "canvas_ok W V R s" "agrees W s g" "cv_interactions s \<noteq> {}"
  shows "canvas_ok W V R (s\<lparr>cv_deferred := Some g\<rparr>)"
proof -
  have "kept_ok V R (cv_unsaved s) (cv_settling s KeptPositions) (Some g) (cv_requests s) (cv_loads s) i p" if "W i = Some p" for i p
  proof -
    have "kept_ok V R (cv_unsaved s) (cv_settling s KeptPositions) (cv_deferred s) (cv_requests s) (cv_loads s) i p"
      using assms(1) that by (simp add: canvas_ok_def places_ok_def)
    then show ?thesis using assms(2) that by (auto simp: kept_ok_def agrees_def Let_def split: option.splits)
  qed
  then show ?thesis using assms by (simp add: canvas_ok_def screen_def agrees_def places_ok_def)
qed

lemma canvas_ok_apply:
  assumes "canvas_ok W V R s" "agrees W s g"
  shows "canvas_ok W V R (applyGraph d g s)"
  using assms canvas_ok_show canvas_ok_defer by (simp add: applyGraph_def)

lemma canvas_ok_undefer: "canvas_ok W V R s \<Longrightarrow> canvas_ok W V R (s\<lparr>cv_deferred := None\<rparr>)"
proof -
  assume ok: "canvas_ok W V R s"
  have "kept_ok V R (cv_unsaved s) (cv_settling s KeptPositions) None (cv_requests s) (cv_loads s) i p" if "W i = Some p" for i p
  proof -
    have "kept_ok V R (cv_unsaved s) (cv_settling s KeptPositions) (cv_deferred s) (cv_requests s) (cv_loads s) i p"
      using ok that by (simp add: canvas_ok_def places_ok_def)
    then show ?thesis by (auto simp: kept_ok_def Let_def split: option.splits)
  qed
  then show ?thesis using ok by (simp add: canvas_ok_def screen_def places_ok_def)
qed

lemma deferred_agrees:
  assumes "canvas_ok W V R s" "cv_deferred s = Some g"
  shows "agrees W s g"
proof -
  have "gr_positions (ld_graph g) i = Some (raw_of (round_point p))"
    if "W i = Some p" "map_of (cv_unsaved s) i = None" "cv_settling s KeptPositions i = None" for i p
  proof -
    have "kept_ok V R (cv_unsaved s) (cv_settling s KeptPositions) (cv_deferred s) (cv_requests s) (cv_loads s) i p"
      using assms(1) that by (simp add: canvas_ok_def places_ok_def)
    then show ?thesis using that assms(2) by (simp add: kept_ok_def Let_def)
  qed
  then show ?thesis using assms by (simp add: agrees_def canvas_ok_def screen_def)
qed

lemma canvas_ok_end:
  assumes "canvas_ok W V R s"
  shows "canvas_ok W V R (end_interaction d key s)"
proof -
  let ?s = "s\<lparr>cv_interactions := cv_interactions s - {key}\<rparr>"
  show ?thesis
  proof (cases "cv_interactions ?s = {} \<and> cv_deferred ?s \<noteq> None")
    case True
    then obtain g where g: "cv_deferred s = Some g" by auto
    have "canvas_ok W V R (s\<lparr>cv_deferred := None\<rparr>)" using assms by (rule canvas_ok_undefer)
    then have "canvas_ok W V R (?s\<lparr>cv_deferred := None\<rparr>)" by (simp add: canvas_ok_def screen_def)
    moreover have "agrees W (?s\<lparr>cv_deferred := None\<rparr>) g" using deferred_agrees [OF assms g] by (simp add: agrees_def)
    ultimately show ?thesis using True g by (simp add: end_interaction_def Let_def canvas_ok_apply)
  next
    case False
    then have "canvas_ok W V R ?s" using assms by (auto simp: canvas_ok_def screen_def)
    then show ?thesis using False by (auto simp: end_interaction_def Let_def split: option.split)
  qed
qed

end
