(* ===== verification/Env_Moves_Safety.thy ===== *)
theory Env_Moves_Safety
  imports Env_Sync_Safety
begin

text \<open>
  Every event of the environment canvas, every step of its server and every answer keeps the invariant of
  \<open>Env_Sync_Safety\<close>: a card stays where the user dropped it, and its place reaches the server.
\<close>

section \<open>Links and drags\<close>

lemma canvas_ok_patch:
  assumes "canvas_ok W V R s" "\<And>g. gr_layout (f g) = gr_layout g"
  shows "canvas_ok W V R (patchGraph f s)"
proof (cases "cv_graph s")
  case (Some g)
  have "screen (cv_filter s) (Some (g\<lparr>ld_graph := f (ld_graph g)\<rparr>)) (cv_deferred s) (cv_interactions s) (cv_drags s) (cv_containers s)"
    using assms Some by (auto simp: canvas_ok_def screen_def editable_graph_def)
  then show ?thesis using assms(1) Some by (simp add: canvas_ok_def patchGraph_def Let_def)
qed (use assms in \<open>simp add: patchGraph_def\<close>)

lemma canvas_ok_begin:
  assumes "canvas_ok W V R s" "drag_ok dr" "drag_cards dr = {}" "cv_graph s \<noteq> None"
  shows "canvas_ok W V R (begin_drag pid key dr s)"
  using assms by (auto simp: begin_drag_def begin_interaction_def canvas_ok_def screen_def moving_def)

lemma canvas_rights:
  assumes "canvas_ok W V R s"
  shows "\<not> canMoveGroups s" "\<not> canMoveZones s" "canMove s \<longleftrightarrow> cv_graph s \<noteq> None" "cv_containers s = None"
  using assms
  by (auto simp: canvas_ok_def screen_def editable_graph_def canMoveGroups_def canMoveZones_def canMove_def graph_right_def split: option.splits)

lemma canvas_ok_press:
  assumes "canvas_ok W V R s"
  shows "canvas_ok W V R (startCardDrag d k i own x y s)" "canvas_ok W V R (startZoneDrag d k z own x y s)"
    "canvas_ok W V R (startGroupDrag d k j own x y s)" "canvas_ok W V R (startConnect k i own s)"
proof -
  note rights = canvas_rights [OF assms]
  show "canvas_ok W V R (startCardDrag d k i own x y s)"
    using assms rights(1)
    by (auto simp: startCardDrag_def movableGroupOf_def shown_graph_def drag_ok_def drag_cards_def Let_def
        intro!: canvas_ok_begin split: option.splits bool.splits)
  show "canvas_ok W V R (startZoneDrag d k z own x y s)"
    using assms rights
    by (auto simp: startZoneDrag_def drag_ok_def drag_cards_def intro!: canvas_ok_begin split: option.splits)
  show "canvas_ok W V R (startGroupDrag d k j own x y s)"
    using assms rights(1) by (simp add: startGroupDrag_def Let_def)
  show "canvas_ok W V R (startConnect k i own s)"
    using assms
    by (auto simp: startConnect_def rectOf_def nodeById_def shown_graph_def drag_ok_def drag_cards_def unseen bind_eq_Some_conv
        intro!: canvas_ok_begin split: option.splits)
qed

lemma moving_set_drag:
  assumes "distinct (map fst drs)" "map_of drs pid = Some dr" "drag_cards dr \<subseteq> drag_cards dr2"
  shows "moving drs \<subseteq> moving (map (\<lambda>(k, e). (k, if k = pid then dr2 else e)) drs)"
    "drag_cards dr2 \<subseteq> moving (map (\<lambda>(k, e). (k, if k = pid then dr2 else e)) drs)"
proof -
  have mem: "(pid, dr) \<in> set drs" using assms(2) by (rule map_of_SomeD)
  show "drag_cards dr2 \<subseteq> moving (map (\<lambda>(k, e). (k, if k = pid then dr2 else e)) drs)"
    using mem by (force simp: moving_def)
  have "drag_cards e \<subseteq> moving (map (\<lambda>(k, e). (k, if k = pid then dr2 else e)) drs)" if e: "(k, e) \<in> set drs" for k e
  proof (cases "k = pid")
    case True
    then have "e = dr" using e mem assms(1) by (metis map_of_is_SomeI option.inject)
    then show ?thesis using assms(3) \<open>drag_cards dr2 \<subseteq> _\<close> by blast
  next
    case False
    then show ?thesis using e by (force simp: moving_def)
  qed
  then show "moving drs \<subseteq> moving (map (\<lambda>(k, e). (k, if k = pid then dr2 else e)) drs)"
    unfolding moving_def by fastforce
qed

lemma canvas_ok_set_drag:
  assumes "canvas_ok W V R s" "map_of (cv_drags s) pid = Some dr" "drag_ok dr2" "drag_cards dr \<subseteq> drag_cards dr2"
    and "\<And>i. i \<notin> drag_cards dr2 \<Longrightarrow> pos i = cv_positions s i"
  shows "canvas_ok W V R (set_drag pid dr2 (s\<lparr>cv_positions := pos\<rparr>))"
proof -
  have d: "distinct (map fst (cv_drags s))" using assms(1) by (simp add: canvas_ok_def screen_def)
  let ?drs = "map (\<lambda>(k, e). (k, if k = pid then dr2 else e)) (cv_drags s)"
  note mv = moving_set_drag [OF d assms(2,4)]
  have "shown_ok W (moving ?drs) pos"
    unfolding shown_ok_def
  proof (intro allI impI)
    fix i p
    assume a: "W i = Some p \<and> i \<notin> moving ?drs"
    then have "i \<notin> moving (cv_drags s)" "pos i = cv_positions s i" using mv assms(5) [of i] by blast+
    then show "pos i \<in> {None, Some p, Some (round_point p)}"
      using a assms(1) unfolding canvas_ok_def shown_ok_def by auto
  qed
  moreover have "fst \<circ> (\<lambda>(k, e). (k, if k = pid then dr2 else e)) = fst" by auto
  moreover have "\<forall>e \<in> set (cv_drags s). drag_ok (snd e)" using assms(1) by (simp add: canvas_ok_def screen_def)
  then have "\<forall>e \<in> set ?drs. drag_ok (snd e)" using assms(3) by (auto simp: case_prod_beta)
  ultimately show ?thesis
    using assms(1) by (simp add: canvas_ok_def screen_def set_drag_def)
qed

lemma canvas_ok_move:
  assumes "canvas_ok W V R s"
  shows "canvas_ok W V R (pointer_moved d k x y hit s)"
proof (cases "map_of (cv_drags s) k")
  case (Some dr)
  have ok: "drag_ok dr" using assms map_of_SomeD [OF Some] by (force simp: canvas_ok_def screen_def)
  have same: "s\<lparr>cv_positions := cv_positions s\<rparr> = s" by simp
  show ?thesis
  proof (cases dr)
    case (CardDrag i cx cy start rules m key movable moved)
    have "canvas_ok W V R (set_drag k (CardDrag i cx cy start rules m key movable True)
        (s\<lparr>cv_positions := (cv_positions s)(i \<mapsto> p)\<rparr>))" for p
      using assms Some ok by (intro canvas_ok_set_drag) (auto simp: CardDrag drag_ok_def drag_cards_def split: if_splits)
    then show ?thesis using assms by (auto simp: pointer_moved_def drag_move_def card_moved_def Some CardDrag split: option.split)
  next
    case (ZoneDrag z cx cy box others starts moved)
    have "canvas_ok W V R (set_drag k (ZoneDrag z cx cy box others starts (Some q)) (shift_cards starts dx dy s))" for q dx dy
      unfolding shift_cards_def
    proof (rule canvas_ok_set_drag [OF assms Some])
      show "drag_cards dr \<subseteq> drag_cards (ZoneDrag z cx cy box others starts (Some q))" by (simp add: ZoneDrag drag_cards_def)
      show "(case map_of starts i of Some p \<Rightarrow> Some (fst p + dx, snd p + dy) | None \<Rightarrow> cv_positions s i) = cv_positions s i"
        if "i \<notin> drag_cards (ZoneDrag z cx cy box others starts (Some q))" for i
      proof -
        have "map_of starts i = None" using that by (simp add: drag_cards_def map_of_eq_None_iff)
        then show ?thesis by simp
      qed
    qed (simp add: drag_ok_def)
    then show ?thesis using assms by (auto simp: pointer_moved_def drag_move_def zone_moved_def Some ZoneDrag Let_def split: option.split)
  next
    case GroupDrag
    then show ?thesis using ok by (simp add: drag_ok_def)
  next
    case ConnectDrag
    then show ?thesis using assms by (simp add: pointer_moved_def drag_move_def connect_moved_def Some unseen)
  qed
qed (use assms in \<open>simp add: pointer_moved_def\<close>)

text \<open>The release of a pointer: the cards of its drag are dropped where they are.\<close>

lemma canvas_ok_lift:
  assumes "canvas_ok W V R s" "map_of (cv_drags s) k = Some dr"
    and "\<And>i p. \<lbrakk>W i = Some p; i \<in> drag_cards dr\<rbrakk> \<Longrightarrow> cv_positions s i \<in> {None, Some p, Some (round_point p)}"
  shows "canvas_ok W V R (s\<lparr>cv_drags := filter (\<lambda>e. fst e \<noteq> k) (cv_drags s)\<rparr>)"
proof -
  let ?drs = "filter (\<lambda>e. fst e \<noteq> k) (cv_drags s)"
  have d: "distinct (map fst (cv_drags s))" using assms(1) by (simp add: canvas_ok_def screen_def)
  have "i \<in> drag_cards dr" if inm: "i \<in> moving (cv_drags s)" and out: "i \<notin> moving ?drs" for i
  proof -
    obtain e where e: "e \<in> set (cv_drags s)" "i \<in> drag_cards (snd e)" using inm unfolding moving_def by blast
    then have "fst e = k" using out unfolding moving_def by auto
    then have "snd e = dr" using e(1) d assms(2) by (metis map_of_is_SomeI option.inject prod.collapse)
    then show ?thesis using e(2) by simp
  qed
  then have "shown_ok W (moving ?drs) (cv_positions s)"
    using assms(1,3) unfolding canvas_ok_def shown_ok_def by blast
  moreover have "distinct (map fst ?drs)" using d by (simp add: distinct_map_filter)
  moreover have "?drs \<noteq> [] \<longrightarrow> cv_drags s \<noteq> []" by auto
  ultimately show ?thesis using assms(1) by (simp add: canvas_ok_def screen_def)
qed

lemma map_of_places_now: "map_of (places_now s cs) i = (if i \<in> set cs then cv_positions s i else None)"
  by (induction cs) (auto simp: places_now_def List.map_filter_def)

lemma canvas_ok_drop_cards:
  assumes "canvas_ok W V R s" "map_of (cv_drags s) k = Some dr" "drag_cards dr = set cs"
  shows "canvas_ok (W ++ map_of (places_now s cs)) V R
    (queueSave (places_now s cs) (s\<lparr>cv_drags := filter (\<lambda>e. fst e \<noteq> k) (cv_drags s)\<rparr>))"
proof -
  let ?ms = "places_now s cs" and ?s = "queueSave (places_now s cs) s"
  have "canvas_ok (W ++ map_of ?ms) V R ?s"
    using assms(1) by (rule canvas_ok_queue) (simp add: map_of_places_now split: if_splits)
  then have "canvas_ok (W ++ map_of ?ms) V R (?s\<lparr>cv_drags := filter (\<lambda>e. fst e \<noteq> k) (cv_drags ?s)\<rparr>)"
    using assms(2,3) by (rule_tac canvas_ok_lift) (auto simp: queueSave_def map_of_places_now map_add_def split: option.splits)
  moreover have "?s\<lparr>cv_drags := filter (\<lambda>e. fst e \<noteq> k) (cv_drags ?s)\<rparr> =
      queueSave ?ms (s\<lparr>cv_drags := filter (\<lambda>e. fst e \<noteq> k) (cv_drags s)\<rparr>)"
    by (simp add: queueSave_def)
  ultimately show ?thesis by simp
qed


section \<open>Answers\<close>

abbreviation without :: "nat \<Rightarrow> (nat \<times> request) list \<Rightarrow> (nat \<times> request) list" where
  "without n rs \<equiv> filter (\<lambda>x. fst x \<noteq> n) rs"

lemma in_flight_without: "in_flight (without n rs) m ms \<longleftrightarrow> in_flight rs m ms \<and> m \<noteq> n"
  by (auto simp: in_flight_def list_ex_iff)

lemma loads_in_Cons: "loads_in (e # rs) = (case load_of (rq_call (snd e)) of Some k \<Rightarrow> k # loads_in rs | None \<Rightarrow> loads_in rs)"
  by (auto simp: loads_in_def List.map_filter_def case_prod_beta split: option.split)

lemma loads_in_sub: "length (loads_in (without n rs)) \<le> length (loads_in rs) \<and> set (loads_in (without n rs)) \<subseteq> set (loads_in rs)"
proof (induction rs)
  case (Cons e rs)
  then show ?case by (cases "fst e = n"; cases "load_of (rq_call (snd e))") (auto simp: loads_in_Cons)
qed (simp add: loads_in_def)

lemma loads_in_without:
  assumes "loads_in rs = [] \<or> P \<and> loads_in rs = [k]"
  shows "loads_in (without n rs) = [] \<or> P \<and> loads_in (without n rs) = [k]"
  using loads_in_sub [of n rs] assms by (cases "loads_in (without n rs)") auto

lemma sorted_number:
  fixes rs :: "(nat \<times> request) list"
  assumes "sorted_wrt (<) (map fst rs)" "(n, q) \<in> set rs" "(n, q2) \<in> set rs"
  shows "q = q2"
proof -
  have "distinct (map fst rs)" using assms(1) by (simp add: strict_sorted_iff)
  then show ?thesis using assms(2,3) by (rule eq_key_imp_eq_value)
qed

lemma wire_without:
  assumes "wire R rs nx ls ld"
  shows "wire (R(n := None)) (without n rs) nx ls ld"
proof -
  note w = assms [unfolded wire_def]
  have "sorted_wrt (<) (map fst rs)" using w by blast
  then have "sorted_wrt (<) (map fst (without n rs))" unfolding sorted_wrt_map by (rule sorted_wrt_filter)
  moreover have "tags_ok (without n rs)"
    unfolding tags_ok_def in_flight_without
  proof (intro allI impI ballI conjI)
    fix k ms e
    assume k: "in_flight rs k ms \<and> k \<noteq> n" and e: "e \<in> set ms"
    have t: "fst (snd e) < k \<and> (\<forall>m \<in> fst ` set rs. m < k \<longrightarrow> m < fst (snd e))" using w k e unfolding tags_ok_def by blast
    then show "fst (snd e) < k" by blast
    fix m
    assume "m \<in> fst ` set (without n rs)" "m < k"
    then show "m < fst (snd e)" using t by auto
  qed
  moreover have "replies_ok (R(n := None)) (without n rs)"
  proof -
    have r: "replies_ok R rs" using w by blast
    show ?thesis unfolding replies_ok_def in_flight_without
    proof (intro conjI allI impI)
      fix k assume "(R(n := None)) k \<noteq> None"
      then show "k \<in> fst ` set (without n rs)" using r unfolding replies_ok_def by (auto simp: image_iff split: if_splits)
    next
      fix m k ms ms'
      assume a: "(in_flight rs m ms \<and> m \<noteq> n) \<and> (in_flight rs k ms' \<and> k \<noteq> n) \<and> m < k \<and> (R(n := None)) k \<noteq> None"
      then have "R k \<noteq> None" by (cases "k = n") auto
      then have "R m \<noteq> None" using r a unfolding replies_ok_def by blast
      then show "(R(n := None)) m \<noteq> None" using a by simp
    next
      fix k ms x
      assume a: "(in_flight rs k ms \<and> k \<noteq> n) \<and> (R(n := None)) k = Some x"
      then have "R k = Some x" by (cases "k = n") auto
      then show "\<exists>y. x = Inr y" using r a unfolding replies_ok_def by blast
    next
      show "\<forall>(k, q) \<in> set (without n rs). \<forall>g. load_of (rq_call q) \<noteq> None \<and> (R(n := None)) k = Some (Inr (GraphReply g)) \<longrightarrow>
          editable_graph g" using r unfolding replies_ok_def by auto
    qed
  qed
  moreover have "loads_in (without n rs) = [] \<or> ld \<and> loads_in (without n rs) = [ls]"
    using w loads_in_without by blast
  ultimately show ?thesis using w by (auto simp: wire_def)
qed

lemma saved_ok_without: "saved_ok V R rs h i r \<Longrightarrow> saved_ok V (R(n := None)) (without n rs) h i r"
  unfolding saved_ok_def in_flight_without by auto

lemma reads_without: "reads R rs P i r \<Longrightarrow> reads (R(n := None)) (without n rs) P i r"
  unfolding reads_def by auto

lemma sent_ok_without:
  assumes "sent_ok V R rs h i r" "\<And>ms. in_flight rs n ms \<Longrightarrow> map_of ms i \<noteq> Some (hl_at h)"
  shows "sent_ok V (R(n := None)) (without n rs) h i r"
proof -
  obtain m ms where m: "in_flight rs m ms" "map_of ms i = Some (hl_at h)" "R m \<noteq> None \<longrightarrow> V i = Some r"
    "\<forall>k ms'. in_flight rs k ms' \<longrightarrow> map_of ms' i \<noteq> None \<longrightarrow> k \<le> m" using assms(1) unfolding sent_ok_def by blast
  then have "m \<noteq> n" using assms(2) by blast
  then show ?thesis using m unfolding sent_ok_def in_flight_without by (intro exI [of _ m] exI [of _ ms]) auto
qed

text \<open>The answer to a request that moves nothing.\<close>

lemma canvas_ok_without:
  assumes "canvas_ok W V R s" "\<And>ms. \<not> in_flight (cv_requests s) n ms"
  shows "canvas_ok W V (R(n := None)) (s\<lparr>cv_requests := without n (cv_requests s)\<rparr>)"
proof -
  have "kept_ok V (R(n := None)) un st de (without n (cv_requests s)) ls i p"
    if k: "kept_ok V R un st de (cv_requests s) ls i p" for un st de ls i p
    using k assms(2) unfolding kept_ok_def Let_def
    by (auto split: option.splits intro: saved_ok_without reads_without sent_ok_without)
  moreover have "wire (R(n := None)) (without n (cv_requests s)) (cv_next s) (cv_loads s) (cv_loading s)"
    using assms(1) by (intro wire_without) (simp add: canvas_ok_def)
  ultimately show ?thesis using assms(1) by (simp add: canvas_ok_def places_ok_def)
qed


text \<open>The answer to a save.\<close>

lemma holds_tags:
  assumes "wire R rs nx ls ld" "in_flight rs n ms" "in_flight rs m ms2" "m < n" "map_of ms i = Some e" "map_of ms2 i = Some f"
  shows "fst f < fst e"
proof -
  have t: "tags_ok rs" using assms(1) by (simp add: wire_def)
  have "m < fst e" using t assms(2,4) map_of_SomeD [OF assms(5)] in_flight_number [OF assms(3)] unfolding tags_ok_def by fastforce
  moreover have "fst f < m" using t assms(3) map_of_SomeD [OF assms(6)] unfolding tags_ok_def by fastforce
  ultimately show ?thesis by simp
qed

lemma in_flight_unique:
  assumes "wire R rs nx ls ld" "in_flight rs n ms" "in_flight rs n ms2"
  shows "ms = ms2"
proof -
  obtain q q2 where q: "(n, q) \<in> set rs" "moves_of (rq_call q) = Some ms" "(n, q2) \<in> set rs" "moves_of (rq_call q2) = Some ms2"
    using assms(2,3) by (auto simp: in_flight_def list_ex_iff)
  have "q = q2" using assms(1) q(1,3) by (intro sorted_number [of rs n]) (simp_all add: wire_def)
  then show ?thesis using q by simp
qed

lemma load_number:
  assumes "wire R rs nx ls ld" "(m, q) \<in> set rs" "load_of (rq_call q) = Some k"
  shows "k = ls"
proof -
  have "k \<in> set (loads_in rs)" using assms(2,3) by (induction rs) (auto simp: loads_in_Cons split: option.split)
  then show ?thesis using assms(1) by (auto simp: wire_def)
qed

lemma kept_ok_settled:
  assumes w: "wire R rs nx ls ld" and fl: "in_flight rs n ms" and R: "R n \<noteq> None"
    and k: "kept_ok V R un st de rs ls i p"
  shows "kept_ok V (R(n := None)) un (settled_with ms ls st) de (without n rs) ls i p"
proof (cases "map_of un i")
  case None
  let ?r = "round_point p"
  show ?thesis
  proof (cases "st i")
    case no: None
    then have "settled_with ms ls st i = None" by (simp add: settled_with_def)
    then show ?thesis using k None no
      by (auto simp: kept_ok_def Let_def intro: saved_ok_without reads_without)
  next
    case (Some h)
    show ?thesis
    proof (cases "hl_after h")
      case (Some a)
      have s: "saved_ok V R rs (Some h) i ?r" "reads R rs (\<lambda>k. a < k) i ?r" "snd (hl_at h) = ?r" "a \<le> ls"
        using k None \<open>st i = Some h\<close> Some by (simp_all add: kept_ok_def Let_def)
      have no: "fst e \<noteq> fst (hl_at h)" if "map_of ms i = Some e" for e
        using s(1) fl that unfolding saved_ok_def by blast
      have "\<not> holds_move ms st i"
        using no \<open>st i = Some h\<close> by (cases "map_of ms i") (simp_all add: holds_move_def)
      then have "settled_with ms ls st i = Some h" using \<open>st i = Some h\<close> by (simp add: settled_with_def)
      then show ?thesis using s None Some by (simp add: kept_ok_def Let_def saved_ok_without reads_without)
    next
      case held: None
      have s: "sent_ok V R rs h i ?r" "snd (hl_at h) = ?r"
        using k None \<open>st i = Some h\<close> held by (simp_all add: kept_ok_def Let_def)
      then obtain m ms2 where m: "in_flight rs m ms2" "map_of ms2 i = Some (hl_at h)" "R m \<noteq> None \<longrightarrow> V i = Some ?r"
        "\<forall>k ms'. in_flight rs k ms' \<longrightarrow> map_of ms' i \<noteq> None \<longrightarrow> k \<le> m" unfolding sent_ok_def by blast
      show ?thesis
      proof (cases "m = n")
        case True
        then have ms2: "ms2 = ms" using in_flight_unique [OF w] m(1) fl by blast
        then have st2: "settled_with ms ls st i = Some (h\<lparr>hl_after := Some ls\<rparr>)"
          using \<open>st i = Some h\<close> m(2) by (simp add: settled_with_def holds_move_def)
        have "saved_ok V (R(n := None)) (without n rs) (Some (h\<lparr>hl_after := Some ls\<rparr>)) i ?r"
          unfolding saved_ok_def in_flight_without
        proof (intro conjI allI impI)
          show "V i = Some ?r" using m(3) R True by simp
          fix k ms3 e
          assume a: "(in_flight rs k ms3 \<and> k \<noteq> n) \<and> map_of ms3 i = Some e"
          then have "k < n" using m(4) True by (metis le_neq_implies_less option.distinct(1))
          then have "R k \<noteq> None" using w fl R a unfolding wire_def replies_ok_def by blast
          then show "(R(n := None)) k \<noteq> None" using a by simp
          fix j
          assume "Some (h\<lparr>hl_after := Some ls\<rparr>) = Some j"
          moreover have "fst e < fst (hl_at h)"
            using holds_tags [OF w fl _ \<open>k < n\<close>, of ms3 i "hl_at h" e] a m(2) ms2 by blast
          ultimately show "fst e \<noteq> fst (hl_at j)" by auto
        qed
        moreover have "reads (R(n := None)) (without n rs) (\<lambda>k. ls < k) i ?r"
          using load_number [OF w] unfolding reads_def by fastforce
        ultimately show ?thesis using st2 s(2) None by (simp add: kept_ok_def Let_def)
      next
        case False
        have "map_of ms i \<noteq> Some (hl_at h)" and "\<not> holds_move ms st i"
        proof -
          have less: "fst e < fst (hl_at h)" if "map_of ms i = Some e" for e
          proof -
            have "n < m" using m(4) fl that False by (metis le_neq_implies_less option.distinct(1))
            then show ?thesis using holds_tags [OF w m(1) fl _ m(2) that] by blast
          qed
          then show "map_of ms i \<noteq> Some (hl_at h)" by blast
          show "\<not> holds_move ms st i" using less \<open>st i = Some h\<close> by (auto simp: holds_move_def split: option.splits)
        qed
        then have "settled_with ms ls st i = Some h" "sent_ok V (R(n := None)) (without n rs) h i ?r"
          using \<open>st i = Some h\<close> sent_ok_without [OF s(1), of n] in_flight_unique [OF w fl]
          by (auto simp: settled_with_def)
        then show ?thesis using s(2) None held by (simp add: kept_ok_def Let_def)
      qed
    qed
  qed
qed (use k in \<open>simp add: kept_ok_def\<close>)

lemma canvas_ok_settled:
  assumes "canvas_ok W V R s" "in_flight (cv_requests s) n ms" "R n \<noteq> None"
  shows "canvas_ok W V (R(n := None)) (settle_moves KeptPositions ms (s\<lparr>cv_requests := without n (cv_requests s)\<rparr>))"
proof -
  have w: "wire R (cv_requests s) (cv_next s) (cv_loads s) (cv_loading s)" using assms(1) by (simp add: canvas_ok_def)
  show ?thesis
    using assms(1) wire_without [OF w, of n] kept_ok_settled [OF w assms(2,3)]
    by (simp add: canvas_ok_def settle_moves_def places_ok_def)
qed

text \<open>The answer to a load: what it settled is in its graph.\<close>

lemma loads_in_less:
  "\<lbrakk>(n, q) \<in> set rs; load_of (rq_call q) \<noteq> None\<rbrakk> \<Longrightarrow> length (loads_in (without n rs)) < length (loads_in rs)"
proof (induction rs)
  case (Cons e rs)
  have sub: "length (loads_in (without n rs)) \<le> length (loads_in rs)" using loads_in_sub by blast
  show ?case
  proof (cases "e = (n, q)")
    case True
    then show ?thesis using Cons.prems(2) sub by (auto simp: loads_in_Cons)
  next
    case False
    then have "length (loads_in (without n rs)) < length (loads_in rs)" using Cons by auto
    then show ?thesis by (auto simp: loads_in_Cons split: option.split)
  qed
qed simp

lemma load_arrived:
  assumes "wire R rs nx ls ld" "(n, q) \<in> set rs" "load_of (rq_call q) = Some k"
  shows "loads_in (without n rs) = []" "k = ls" "\<not> in_flight rs n ms"
proof -
  have "length (loads_in (without n rs)) < length (loads_in rs)" using loads_in_less [OF assms(2)] assms(3) by simp
  moreover have "length (loads_in rs) \<le> 1" using assms(1) by (auto simp: wire_def)
  ultimately show "loads_in (without n rs) = []" by (cases "loads_in (without n rs)") simp_all
  show "k = ls" using assms by (rule load_number)
  have "moves_of (rq_call q) = None" using assms(3) by (simp add: load_of_def moves_of_def split: env_call.splits)
  moreover have "q2 = q" if "(n, q2) \<in> set rs" for q2
    using assms(1) that assms(2) by (intro sorted_number [of rs n]) (simp_all add: wire_def)
  ultimately show "\<not> in_flight rs n ms" unfolding in_flight_def list_ex_iff by fastforce
qed

lemma no_load: "loads_in rs = [] \<Longrightarrow> (m, q) \<in> set rs \<Longrightarrow> load_of (rq_call q) = None"
  by (induction rs) (auto simp: loads_in_Cons split: option.splits)

lemma reads_none: "loads_in rs = [] \<Longrightarrow> reads R rs P i r"
  using no_load by (fastforce simp: reads_def)

lemma kept_ok_loaded:
  assumes w: "wire R rs nx ls ld" and q: "(n, q) \<in> set rs" "load_of (rq_call q) = Some k"
    and k: "kept_ok V R un st de rs ls i p"
  shows "kept_ok V (R(n := None)) un (\<lambda>i. unsettled k (st i)) None (without n rs) ls i p"
    and "\<lbrakk>R n = Some (Inr (GraphReply g)); map_of un i = None; unsettled k (st i) = None\<rbrakk> \<Longrightarrow>
      gr_positions (ld_graph g) i = Some (raw_of (round_point p))"
proof -
  let ?r = "round_point p"
  note none = load_arrived [OF w q]
  have rd: "reads (R(n := None)) (without n rs) P i r" for P r using none(1) by (rule reads_none)
  have read: "gr_positions (ld_graph g) i = Some (raw_of r)"
    if "reads R rs P i r" "P k" "R n = Some (Inr (GraphReply g))" for P r
    using that q unfolding reads_def by fast
  have sent: "sent_ok V (R(n := None)) (without n rs) h i r" if "sent_ok V R rs h i r" for h r
    using sent_ok_without [OF that] none(3) by blast
  have weak: "saved_ok V R rs None i r" if "saved_ok V R rs h i r" for h r using that by (auto simp: saved_ok_def)
  show "kept_ok V (R(n := None)) un (\<lambda>i. unsettled k (st i)) None (without n rs) ls i p"
    using k by (auto simp: kept_ok_def unsettled_def Let_def split: option.splits intro: rd sent weak saved_ok_without)
  assume a: "R n = Some (Inr (GraphReply g))" "map_of un i = None" "unsettled k (st i) = None"
  show "gr_positions (ld_graph g) i = Some (raw_of ?r)"
  proof (cases "st i")
    case None
    then have "reads R rs (\<lambda>_. True) i ?r" using k a(2) by (simp add: kept_ok_def Let_def)
    then show ?thesis by (rule read [OF _ TrueI a(1)])
  next
    case (Some h)
    then obtain b where b: "hl_after h = Some b" "b < k" using a(3) by (auto simp: unsettled_def split: option.splits if_splits)
    then have "reads R rs (\<lambda>k. b < k) i ?r" using k a(2) Some by (simp add: kept_ok_def Let_def)
    then show ?thesis by (rule read) (simp_all add: a(1) b(2))
  qed
qed

definition quiet_wire :: "env_canvas \<Rightarrow> bool" where
  "quiet_wire s \<longleftrightarrow> loads_in (cv_requests s) = []"

lemma canvas_ok_loaded:
  assumes ok: "canvas_ok W V R s" and q: "(n, q) \<in> set (cv_requests s)" "load_of (rq_call q) = Some k"
  shows "canvas_ok W V (R(n := None)) ((dropSettled k (s\<lparr>cv_requests := without n (cv_requests s)\<rparr>))\<lparr>cv_deferred := None\<rparr>)" (is ?ok)
    and "quiet_wire (s\<lparr>cv_requests := without n (cv_requests s)\<rparr>)"
    and "R n = Some (Inr (GraphReply g)) \<Longrightarrow> agrees W (dropSettled k (s\<lparr>cv_requests := without n (cv_requests s)\<rparr>)) g"
    and "canvas_ok W V (R(n := None)) (s\<lparr>cv_requests := without n (cv_requests s)\<rparr>)"
proof -
  have w: "wire R (cv_requests s) (cv_next s) (cv_loads s) (cv_loading s)" using ok by (simp add: canvas_ok_def)
  have kept: "kept_ok V R (cv_unsaved s) (cv_settling s KeptPositions) (cv_deferred s) (cv_requests s) (cv_loads s) i p"
    if "W i = Some p" for i p using ok that by (simp add: canvas_ok_def places_ok_def)
  show ?ok
    using ok wire_without [OF w] kept_ok_loaded(1) [OF w q kept]
    by (simp add: canvas_ok_def screen_def places_ok_def dropSettled_def)
  show "quiet_wire (s\<lparr>cv_requests := without n (cv_requests s)\<rparr>)" using load_arrived(1) [OF w q] by (simp add: quiet_wire_def)
  show "canvas_ok W V (R(n := None)) (s\<lparr>cv_requests := without n (cv_requests s)\<rparr>)"
    using canvas_ok_without [OF ok] load_arrived(3) [OF w q] by blast
  assume g: "R n = Some (Inr (GraphReply g))"
  have "editable_graph g" using w q g unfolding wire_def replies_ok_def by fastforce
  then show "agrees W (dropSettled k (s\<lparr>cv_requests := without n (cv_requests s)\<rparr>)) g"
    using kept_ok_loaded(2) [OF w q kept g] by (simp add: agrees_def dropSettled_def)
qed

lemma canvas_ok_loading: "\<lbrakk>canvas_ok W V R s; quiet_wire s\<rbrakk> \<Longrightarrow> canvas_ok W V R (s\<lparr>cv_loading := b\<rparr>)"
  by (auto simp: canvas_ok_def wire_def quiet_wire_def)

lemma quiet_wire_send: "load_of c = None \<Longrightarrow> quiet_wire (send verb path c s) = quiet_wire s"
  by (simp add: quiet_wire_def send_def loads_in_def List.map_filter_def)

lemma loadUsage_keeps:
  assumes "canvas_ok W V R s"
  shows "canvas_ok W V R (loadUsage s)" "quiet_wire (loadUsage s) = quiet_wire s"
proof -
  have "canvas_ok W V R (foldl (\<lambda>s z. case u z of Some path \<Rightarrow>
      if zn_details z \<and> path \<noteq> [] then send ''GET'' path (LoadUsage (zn_id z)) s else s | None \<Rightarrow> s) t zs)"
    if "canvas_ok W V R t" for u t and zs :: "zone list"
    using that
  proof (induction zs arbitrary: t)
    case (Cons z zs)
    show ?case
      by (cases "u z") (auto intro!: Cons canvas_ok_send simp: plain_call_def moves_of_def load_of_def)
  qed simp
  then show "canvas_ok W V R (loadUsage s)" using assms by (simp add: loadUsage_def split: option.split)
  have "quiet_wire (foldl (\<lambda>s z. case u z of Some path \<Rightarrow>
      if zn_details z \<and> path \<noteq> [] then send ''GET'' path (LoadUsage (zn_id z)) s else s | None \<Rightarrow> s) t zs) = quiet_wire t"
    for u t and zs :: "zone list"
    by (induction zs arbitrary: t) (auto simp: quiet_wire_send load_of_def split: option.split)
  then show "quiet_wire (loadUsage s) = quiet_wire s" by (simp add: loadUsage_def split: option.split)
qed

lemma quiet_fields [simp]:
  "quiet_wire (s\<lparr>cv_toast := x1\<rparr>) = quiet_wire s" "quiet_wire (s\<lparr>cv_error := x2\<rparr>) = quiet_wire s"
  "quiet_wire (s\<lparr>cv_deferred := x3\<rparr>) = quiet_wire s" "quiet_wire (dropSettled k s) = quiet_wire s"
  by (simp_all add: quiet_wire_def dropSettled_def)

lemma requests_apply [simp]: "cv_requests (applyGraph d g s) = cv_requests s"
  by (simp add: applyGraph_def show_graph_def first_fit_def fit_def view_changed_def select_item_def Let_def)

lemma followups_keep:
  assumes "canvas_ok W V R s" "\<And>f. g = Some f \<Longrightarrow> ld_containers f = None" "quiet_wire s"
  shows "canvas_ok W V R (load_followups quiet g s)" "quiet_wire (load_followups quiet g s)"
proof -
  have none: "Option.bind g ld_containers = None" using assms(2) by (cases g) simp_all
  show "canvas_ok W V R (load_followups quiet g s)"
    using assms(1) loadUsage_keeps(1) unfolding load_followups_def Let_def none
    by (simp add: toast_def unseen)
  show "quiet_wire (load_followups quiet g s)"
    using assms loadUsage_keeps(2) unfolding load_followups_def Let_def none
    by (simp add: toast_def unseen)
qed

lemma deferred_none:
  assumes "canvas_ok W V R s" "cv_interactions s = {}"
  shows "cv_deferred s = None"
  using assms by (simp add: canvas_ok_def screen_def)

lemma undefer_same: "cv_deferred s = None \<Longrightarrow> s\<lparr>cv_deferred := None\<rparr> = s"
  by (cases s) simp

lemma applied_ok:
  assumes "canvas_ok W V R (s\<lparr>cv_deferred := None\<rparr>)" "agrees W s g"
    and "cv_interactions s = {} \<Longrightarrow> cv_deferred s = None" and alive: "\<not> cv_destroyed s"
  shows "canvas_ok W V R (applyGraph d g s)"
proof (cases "cv_interactions s = {}")
  case True
  then have "s\<lparr>cv_deferred := None\<rparr> = s" using assms(3) by (simp add: undefer_same)
  then show ?thesis using assms canvas_ok_apply by simp
next
  case False
  have "agrees W (s\<lparr>cv_deferred := None\<rparr>) g" using assms(2) by (simp add: agrees_def)
  from canvas_ok_defer [OF assms(1) this] show ?thesis using False alive by (simp add: applyGraph_def)
qed

lemma loaded_end:
  assumes "canvas_ok W V R s" "quiet_wire s"
  shows "canvas_ok W V R (let s2 = s\<lparr>cv_loading := False\<rparr>
    in if \<not> cv_destroyed s2 \<and> cv_reloadQueued s2 then load p True (s2\<lparr>cv_reloadQueued := False\<rparr>) else s2)"
  using canvas_ok_loading [OF assms] by (simp add: Let_def canvas_ok_load unseen)

lemma load_failed_ok: "canvas_ok W V R s \<Longrightarrow> canvas_ok W V R (load_failed m s)"
  by (simp add: load_failed_def toast_def unseen)

lemma quiet_failed [simp]: "quiet_wire (load_failed m s) = quiet_wire s"
  by (simp add: load_failed_def toast_def)

lemma dropSettled_fields [simp]:
  "cv_destroyed (dropSettled k s) = cv_destroyed s" "cv_interactions (dropSettled k s) = cv_interactions s"
  "cv_deferred (dropSettled k s) = cv_deferred s" "cv_containers (dropSettled k s) = cv_containers s"
  by (simp_all add: dropSettled_def)

lemma quiet_apply [simp]: "quiet_wire (applyGraph d g s) = quiet_wire s"
  by (simp add: quiet_wire_def)

lemma canvas_ok_load_answered:
  assumes ok: "canvas_ok W V R s" and q: "(n, q) \<in> set (cv_requests s)" "rq_call q = Load k quiet"
    and r: "R n = Some r" and alive: "\<not> cv_destroyed s"
  shows "canvas_ok W V (R(n := None)) (load_answered d p k quiet r (s\<lparr>cv_requests := without n (cv_requests s)\<rparr>))"
proof -
  let ?t = "s\<lparr>cv_requests := without n (cv_requests s)\<rparr>"
  have l: "load_of (rq_call q) = Some k" using q(2) by (simp add: load_of_def)
  note loaded = canvas_ok_loaded [OF ok q(1) l]
  have quiet: "quiet_wire (dropSettled k ?t)" using loaded(2) by simp
  have still: "cv_deferred (dropSettled k ?t) = None" if "cv_interactions (dropSettled k ?t) = {}"
    using deferred_none [OF ok] that by simp
  have cont: "cv_containers s = None" using canvas_rights(4) [OF ok] .
  consider m where "r = Inl m" | g where "r = Inr (GraphReply g)"
    | x where "r = Inr x" "\<And>g. x \<noteq> GraphReply g" by (metis sum.exhaust)
  then show ?thesis
  proof cases
    case 1
    have "canvas_ok W V (R(n := None)) (load_failed m ?t)" "quiet_wire (load_failed m ?t)"
      using loaded(2,4) by (simp_all add: load_failed_ok)
    from loaded_end [OF this] show ?thesis by (simp add: load_answered_def 1 Let_def)
  next
    case 2
    then have g: "agrees W (dropSettled k ?t) g" using loaded(3) r by simp
    have "canvas_ok W V (R(n := None)) (applyGraph d g (dropSettled k ?t))"
      using applied_ok [OF loaded(1) g still] alive by simp
    moreover have "ld_containers g = None" using g by (simp add: agrees_def editable_graph_def)
    ultimately have "canvas_ok W V (R(n := None)) (load_followups quiet (Some g) (applyGraph d g (dropSettled k ?t)))"
      "quiet_wire (load_followups quiet (Some g) (applyGraph d g (dropSettled k ?t)))"
      using quiet by (auto intro!: followups_keep)
    from loaded_end [OF this] show ?thesis
      by (simp add: load_answered_def 2 cont add_containers_def Let_def)
  next
    case 3
    let ?u = "if cv_interactions s \<noteq> {} then load_followups quiet None ((dropSettled k ?t)\<lparr>cv_deferred := None\<rparr>)
      else load_failed NULL_ERROR (dropSettled k ?t)"
    have "canvas_ok W V (R(n := None)) ?u \<and> quiet_wire ?u"
    proof (cases "cv_interactions s = {}")
      case True
      then have "(dropSettled k ?t)\<lparr>cv_deferred := None\<rparr> = dropSettled k ?t" using still by (intro undefer_same) simp
      then show ?thesis using True loaded(1) quiet by (simp add: load_failed_ok)
    next
      case False
      then show ?thesis using loaded(1) quiet by (auto intro!: followups_keep)
    qed
    then have "canvas_ok W V (R(n := None)) (let s2 = ?u\<lparr>cv_loading := False\<rparr>
      in if \<not> cv_destroyed s2 \<and> cv_reloadQueued s2 then load p True (s2\<lparr>cv_reloadQueued := False\<rparr>) else s2)"
      by (intro loaded_end) simp_all
    moreover have "load_answered d p k quiet r ?t = (let s2 = ?u\<lparr>cv_loading := False\<rparr>
      in if \<not> cv_destroyed s2 \<and> cv_reloadQueued s2 then load p True (s2\<lparr>cv_reloadQueued := False\<rparr>) else s2)"
    proof (cases x)
      case (GraphReply g)
      then show ?thesis using 3 by blast
    qed (use 3 alive in \<open>simp_all add: load_answered_def Let_def\<close>)
    ultimately show ?thesis by simp
  qed
qed

text \<open>The other answers.\<close>

lemma canvas_ok_positions:
  assumes ok: "canvas_ok W V R s" and fl: "in_flight (cv_requests s) n ms" and r: "R n = Some r"
  shows "canvas_ok W V (R(n := None)) (positions_answered p ms r (s\<lparr>cv_requests := without n (cv_requests s)\<rparr>))"
proof -
  have "replies_ok R (cv_requests s)" using ok by (simp add: canvas_ok_def wire_def)
  then obtain x where x: "r = Inr x" using fl r unfolding replies_ok_def by blast
  have "canvas_ok W V (R(n := None)) (settle_moves KeptPositions ms (s\<lparr>cv_requests := without n (cv_requests s)\<rparr>))"
    using ok fl r by (intro canvas_ok_settled) simp_all
  then show ?thesis by (simp add: positions_answered_def x Let_def canvas_ok_patch)
qed

lemma canvas_ok_created:
  assumes "canvas_ok W V R s" "\<not> filterView p"
  shows "canvas_ok W V R (create_answered d p a b n dragged r s)"
proof -
  have "\<not> connectView p" using assms(2) by (simp add: filterView_def)
  have "canvas_ok W V R (link_created d p a b v s)" for v
    using assms(1) \<open>\<not> connectView p\<close> canvas_ok_load
    by (auto simp: link_created_def select_item_def unseen canvas_ok_patch split: option.split)
  then have "canvas_ok W V R (case r of Inl m \<Rightarrow> toast m True s | Inr v \<Rightarrow> link_created d p a b v s)"
    using assms(1) by (simp add: toast_def unseen split: sum.split)
  then show ?thesis by (simp add: create_answered_def Let_def unseen canvas_ok_end)
qed

lemma canvas_ok_edited:
  assumes "canvas_ok W V R s"
  shows "canvas_ok W V R (delete_answered l r s)" "canvas_ok W V R (label_answered l v r s)"
    "canvas_ok W V R (usage_answered z r s)"
  using assms
  by (auto simp: delete_answered_def label_answered_def usage_answered_def toast_def select_item_def replaceLink_def unseen
      canvas_ok_patch split: sum.split reply.split)

lemma canvas_ok_answer:
  assumes ok: "canvas_ok W V R s" and r: "R n = Some r" and alive: "\<not> cv_destroyed s" and p: "\<not> filterView p"
  shows "canvas_ok W V (R(n := None)) (env_step d p (Answer n r) s)"
proof -
  have rep: "replies_ok R (cv_requests s)" and w: "wire R (cv_requests s) (cv_next s) (cv_loads s) (cv_loading s)"
    using ok by (simp_all add: canvas_ok_def wire_def)
  then have "n \<in> fst ` set (cv_requests s)" using r by (auto simp: replies_ok_def)
  then obtain q where m: "map_of (cv_requests s) n = Some q" by (metis domD dom_map_of_conv_image_fst)
  have q: "(n, q) \<in> set (cv_requests s)" using m by (rule map_of_SomeD)
  let ?t = "s\<lparr>cv_requests := without n (cv_requests s)\<rparr>"
  have plain: "plain_call (rq_call q)" using w q by (force simp: wire_def)
  have fl: "in_flight (cv_requests s) n ms" if "moves_of (rq_call q) = Some ms" for ms
    using q that by (force simp: in_flight_def list_ex_iff)
  have only: "q2 = q" if "(n, q2) \<in> set (cv_requests s)" for q2
    using w that q by (intro sorted_number [of "cv_requests s" n]) (simp_all add: wire_def)
  have other: "canvas_ok W V (R(n := None)) ?t" if "moves_of (rq_call q) = None"
    using only that by (intro canvas_ok_without [OF ok]) (auto simp: in_flight_def list_ex_iff)
  have "canvas_ok W V (R(n := None)) (answered d p (rq_call q) r ?t)"
  proof (cases "rq_call q")
    case (Load k quiet)
    then show ?thesis using canvas_ok_load_answered [OF ok q Load r alive] by (simp add: answered_def)
  next
    case (SavePositions ms)
    then show ?thesis using canvas_ok_positions [OF ok fl r] by (simp add: answered_def moves_of_def)
  qed (use plain other p in \<open>simp_all add: answered_def plain_call_def moves_of_def canvas_ok_created canvas_ok_edited\<close>)
  then show ?thesis by (simp add: env_step_def m)
qed

section \<open>Events\<close>

lemma canvas_rights_filter:
  assumes "canvas_ok W V R s" "cv_drags s \<noteq> []"
  shows "canMove s"
  using assms by (auto simp: canvas_ok_def screen_def editable_graph_def canMove_def graph_right_def split: option.split)

lemma canvas_ok_createLink:
  assumes "canvas_ok W V R s"
  shows "canvas_ok W V R (createLink d p a b dragged s)"
proof -
  have "canvas_ok W V R (s\<lparr>cv_pending := x, cv_next := cv_next s + 1\<rparr>)" for x
    using canvas_ok_next [OF assms, of "cv_next s + 1"] by (simp add: canvas_ok_def)
  then show ?thesis using assms
    by (auto simp: createLink_def Let_def toast_def unseen plain_call_def moves_of_def load_of_def
        intro!: canvas_ok_send canvas_ok_end)
qed

lemma dropped_cards:
  assumes "canvas_ok W V R s" "map_of (cv_drags s) k = Some dr" "drag_cards dr = set cs"
  shows "canvas_ok (W ++ map_of (places_now s cs)) V R
    (end_interaction d key (queueSave (places_now s cs) (s\<lparr>cv_drags := filter (\<lambda>e. fst e \<noteq> k) (cv_drags s)\<rparr>)))"
  using canvas_ok_end canvas_ok_drop_cards [OF assms] by blast

lemma places_now_drags [simp]: "places_now (s\<lparr>cv_drags := x\<rparr>) = places_now s"
  by (intro ext) (simp add: places_now_def)

lemma map_add_none: "W ++ map_of [] = W"
  by simp

lemma canvas_ok_release:
  assumes ok: "canvas_ok W V R s" and alive: "\<not> cv_destroyed s"
  shows "canvas_ok (W ++ map_of (dropped (PointerReleased k) s)) V R (pointer_released d p k s)"
proof (cases "map_of (cv_drags s) k")
  case None
  then show ?thesis using ok by (simp add: pointer_released_def dropped_def)
next
  case (Some dr)
  let ?t = "s\<lparr>cv_drags := filter (\<lambda>e. fst e \<noteq> k) (cv_drags s)\<rparr>"
  have dok: "drag_ok dr" using ok map_of_SomeD [OF Some] by (force simp: canvas_ok_def screen_def)
  have lift: "canvas_ok W V R ?t" if "drag_cards dr = {}"
    using canvas_ok_lift [OF ok Some] that by blast
  have "cv_drags s \<noteq> []" using Some by auto
  then have move: "canMove ?t"
    using canvas_rights_filter [OF ok] by (simp add: canMove_def graph_right_def)
  show ?thesis
  proof (cases dr)
    case (CardDrag i cx cy start rules m key movable moved)
    then have m: "m = None" using dok by (simp add: drag_ok_def)
    show ?thesis
    proof (cases moved)
      case True
      then show ?thesis using dropped_cards [OF ok Some, of "[i]" d "card_key i"]
        by (simp add: pointer_released_def drag_release_def card_released_def dropped_def Some CardDrag alive m drag_cards_def)
    next
      case False
      then show ?thesis using lift
        by (simp add: pointer_released_def drag_release_def card_released_def dropped_def Some CardDrag alive drag_cards_def
            select_item_def unseen canvas_ok_end)
    qed
  next
    case (ZoneDrag z cx cy box others starts moved)
    show ?thesis
    proof (cases moved)
      case (Some q)
      then show ?thesis using dropped_cards [OF ok \<open>map_of (cv_drags s) k = Some dr\<close>, of "map fst starts" d "''zone''"] move
        by (simp add: pointer_released_def drag_release_def zone_released_def dropped_def \<open>map_of (cv_drags s) k = Some dr\<close>
            ZoneDrag alive drag_cards_def)
    next
      case None
      then show ?thesis using lift
        by (simp add: pointer_released_def drag_release_def zone_released_def dropped_def Some ZoneDrag alive drag_cards_def canvas_ok_end)
    qed
  next
    case GroupDrag
    then show ?thesis using dok by (simp add: drag_ok_def)
  next
    case (ConnectDrag i q)
    then have "canvas_ok W V R (?t\<lparr>cv_dropTarget := None, cv_temp := None\<rparr>)" using lift by (simp add: drag_cards_def unseen)
    then show ?thesis
      by (auto simp: pointer_released_def drag_release_def connect_released_def dropped_def Some ConnectDrag alive Let_def
          canvas_ok_end canvas_ok_createLink split: option.split)
  qed
qed

lemma canvas_ok_links:
  assumes "canvas_ok W V R s"
  shows "canvas_ok W V R (deleteLink p l s)" "canvas_ok W V R (saveLabel p l v s)"
  using assms
  by (auto simp: deleteLink_def saveLabel_def plain_call_def moves_of_def load_of_def intro!: canvas_ok_send)

lemma canvas_ok_view:
  assumes "canvas_ok W V R s"
  shows "canvas_ok W V R (fit d b s)" "canvas_ok W V R (showNode d i s)" "canvas_ok W V R (closePanel s)"
    "canvas_ok W V R (hoverCard i b s)" "canvas_ok W V R (openOnDoubleClick b h t x y s)" "canvas_ok W V R (saveView s)"
    "canvas_ok W V R (scheduleRefresh s)" "canvas_ok W V R (view_changed v s)" "canvas_ok W V R (select_item z s)"
    "canvas_ok W V R (onPageHide p s)"
proof -
  show saved: "canvas_ok W V R (saveView s)" using assms by (simp add: saveView_def unseen)
  then show "canvas_ok W V R (onPageHide p s)" by (simp add: onPageHide_def Let_def canvas_ok_flush)
qed (use assms in \<open>auto simp: fit_def view_changed_def showNode_def closePanel_def select_item_def hoverCard_def
    openOnDoubleClick_def scheduleRefresh_def Let_def unseen split: option.split prod.split\<close>)

lemma canvas_ok_event:
  assumes ok: "canvas_ok W V R s" and e: "\<not> is_answer e" and p: "\<not> filterView p"
  shows "cv_destroyed (env_step d p e s) \<or>
    canvas_ok (W ++ map_of (dropped e s)) V R (env_step d p e s)"
proof (cases "cv_destroyed s")
  case False
  have c: "\<not> connectView p" using p by (simp add: filterView_def)
  show ?thesis
  proof (cases e)
    case Mount
    have "canvas_ok W V R (mount p s)" using ok by (simp add: mount_def unseen canvas_ok_load)
    then show ?thesis using Mount False by (simp add: env_step_def dropped_def)
  next
    case (PointerReleased k)
    then show ?thesis using canvas_ok_release [OF ok False] False by (simp add: env_step_def)
  next
    case Unmounted
    then show ?thesis using False by (simp add: env_step_def unmount_def)
  next
    case (Answer n r)
    then show ?thesis using e by (simp add: is_answer_def)
  next
    case SaveTimer
    then show ?thesis using ok False by (simp add: env_step_def dropped_def canvas_ok_flush)
  next
    case UsageTick
    then show ?thesis using ok False by (simp add: env_step_def dropped_def loadUsage_keeps)
  next
    case RefreshTimer
    then show ?thesis using ok False by (simp add: env_step_def dropped_def canvas_ok_load unseen)
  qed (use ok False c p in \<open>simp_all add: env_step_def dropped_def canvas_ok_press canvas_ok_move canvas_ok_view
      canvas_ok_load canvas_ok_links unseen\<close>)
qed (use e in \<open>auto simp: env_step_def is_answer_def split: env_event.splits\<close>)

section \<open>The server\<close>

lemma answers_sent:
  assumes "sent_ok V R rs h i r" "\<And>m ms. in_flight rs m ms \<Longrightarrow> R' m \<noteq> None \<Longrightarrow> R m \<noteq> None"
  shows "sent_ok V R' rs h i r"
proof -
  obtain m ms where "in_flight rs m ms" "map_of ms i = Some (hl_at h)" "R m \<noteq> None \<longrightarrow> V i = Some r"
    "\<forall>k ms'. in_flight rs k ms' \<longrightarrow> map_of ms' i \<noteq> None \<longrightarrow> k \<le> m" using assms(1) unfolding sent_ok_def by blast
  then show ?thesis using assms(2) unfolding sent_ok_def by blast
qed

text \<open>An answer to a request that moves nothing: a load reads what is stored.\<close>

lemma canvas_ok_replied:
  assumes ok: "canvas_ok W V R s" and q: "(n, q) \<in> set (cv_requests s)" "moves_of (rq_call q) = None"
    and g: "\<And>g. \<lbrakk>load_of (rq_call q) \<noteq> None; r = Inr (GraphReply g)\<rbrakk> \<Longrightarrow>
      editable_graph g \<and> gr_positions (ld_graph g) = (\<lambda>i. map_option raw_of (V i))"
  shows "canvas_ok W V (R(n \<mapsto> r)) s"
proof -
  let ?rs = "cv_requests s" and ?R = "R(n \<mapsto> r)"
  have w: "wire R ?rs (cv_next s) (cv_loads s) (cv_loading s)" using ok by (simp add: canvas_ok_def)
  then have rep: "replies_ok R ?rs" by (simp add: wire_def)
  have only: "q2 = q" if "(n, q2) \<in> set ?rs" for q2
    using w that q(1) by (intro sorted_number [of ?rs n]) (simp_all add: wire_def)
  have out: "m \<noteq> n" if "in_flight ?rs m ms" for m ms
    using only q(2) that by (auto simp: in_flight_def list_ex_iff)
  have same: "?R m = R m" if "in_flight ?rs m ms" for m ms using out [OF that] by simp
  have "replies_ok ?R ?rs"
    unfolding replies_ok_def
  proof (intro conjI allI impI)
    fix m assume "?R m \<noteq> None"
    moreover have "n \<in> fst ` set ?rs" using q(1) by (rule rev_image_eqI) simp
    ultimately show "m \<in> fst ` set ?rs" using rep unfolding replies_ok_def by (cases "m = n") auto
  next
    fix m k ms ms' assume "in_flight ?rs m ms \<and> in_flight ?rs k ms' \<and> m < k \<and> ?R k \<noteq> None"
    then show "?R m \<noteq> None" using rep same unfolding replies_ok_def by metis
  next
    fix k ms x assume "in_flight ?rs k ms \<and> ?R k = Some x"
    then show "\<exists>y. x = Inr y" using rep same unfolding replies_ok_def by metis
  next
    show "\<forall>(m, q2) \<in> set ?rs. \<forall>g. load_of (rq_call q2) \<noteq> None \<and> ?R m = Some (Inr (GraphReply g)) \<longrightarrow> editable_graph g"
    proof (clarify, rename_tac m q2 g y)
      fix m q2 h y assume a: "(m, q2) \<in> set ?rs" "?R m = Some (Inr (GraphReply h))" "load_of (rq_call q2) = Some y"
      show "editable_graph h"
      proof (cases "m = n")
        case True
        then show ?thesis using a g only by auto
      next
        case False
        then show ?thesis using a rep unfolding replies_ok_def by fastforce
      qed
    qed
  qed
  then have "wire ?R ?rs (cv_next s) (cv_loads s) (cv_loading s)" using w by (simp add: wire_def)
  moreover have "kept_ok V ?R un st de ?rs ls i p" if k: "kept_ok V R un st de ?rs ls i p" for un st de ls i p
  proof -
    have saved: "saved_ok V ?R ?rs h i r" if "saved_ok V R ?rs h i r" for h r
      using that by (auto simp: saved_ok_def)
    have sent: "sent_ok V ?R ?rs h i r" if "sent_ok V R ?rs h i r" for h r
      using that same by (auto intro: answers_sent)
    have read: "reads ?R ?rs P i r2" if rd: "reads R ?rs P i r2" "V i = Some r2" for P r2
      unfolding reads_def
    proof (clarify, rename_tac m q2 k h)
      fix m q2 k h
      assume a: "(m, q2) \<in> set ?rs" "load_of (rq_call q2) = Some k" "P k" "?R m = Some (Inr (GraphReply h))"
      show "gr_positions (ld_graph h) i = Some (raw_of r2)"
      proof (cases "m = n")
        case True
        then show ?thesis using a g only rd(2) by auto
      next
        case False
        then show ?thesis using a rd(1) unfolding reads_def by fastforce
      qed
    qed
    have v: "V i = Some r2" if "saved_ok V R ?rs h i r2" for h r2 using that by (simp add: saved_ok_def)
    show ?thesis using k
      by (auto simp: kept_ok_def Let_def split: option.splits intro: saved sent read v)
  qed
  ultimately show ?thesis using ok by (simp add: canvas_ok_def places_ok_def)
qed

text \<open>The server carries out a save, in turn.\<close>

lemma canvas_ok_saved:
  assumes ok: "canvas_ok W V R s" and fl: "in_flight (cv_requests s) n ms" and R: "R n = None"
    and turn: "\<And>m ms'. \<lbrakk>m < n; in_flight (cv_requests s) m ms'\<rbrakk> \<Longrightarrow> R m \<noteq> None"
  shows "canvas_ok W (places_moved ms V) (R(n \<mapsto> Inr NoReply)) s"
proof -
  let ?rs = "cv_requests s" and ?R = "R(n \<mapsto> Inr NoReply)" and ?V = "places_moved ms V"
  have w: "wire R ?rs (cv_next s) (cv_loads s) (cv_loading s)" using ok by (simp add: canvas_ok_def)
  then have rep: "replies_ok R ?rs" by (simp add: wire_def)
  have order: "R m \<noteq> None" if "in_flight ?rs m ms1" "in_flight ?rs k ms2" "m < k" "R k \<noteq> None" for m k ms1 ms2
    using rep that unfolding replies_ok_def by blast
  have "replies_ok ?R ?rs"
    unfolding replies_ok_def
  proof (intro conjI allI impI)
    fix m assume "?R m \<noteq> None"
    then show "m \<in> fst ` set ?rs"
      using rep in_flight_number [OF fl] unfolding replies_ok_def by (cases "m = n") auto
  next
    fix m k ms1 ms2 assume a: "in_flight ?rs m ms1 \<and> in_flight ?rs k ms2 \<and> m < k \<and> ?R k \<noteq> None"
    show "?R m \<noteq> None"
    proof (cases "k = n")
      case True
      then show ?thesis using a turn by auto
    next
      case False
      then show ?thesis using a order by auto
    qed
  next
    fix k ms1 x assume a: "in_flight ?rs k ms1 \<and> ?R k = Some x"
    then show "\<exists>y. x = Inr y" using rep unfolding replies_ok_def by (cases "k = n") auto
  next
    show "\<forall>(m, q) \<in> set ?rs. \<forall>g. load_of (rq_call q) \<noteq> None \<and> ?R m = Some (Inr (GraphReply g)) \<longrightarrow> editable_graph g"
      using rep unfolding replies_ok_def by (auto split: if_splits)
  qed
  then have "wire ?R ?rs (cv_next s) (cv_loads s) (cv_loading s)" using w by (simp add: wire_def)
  moreover have "kept_ok ?V ?R un st de ?rs ls i p" if k: "kept_ok V R un st de ?rs ls i p" for un st de ls i p
  proof -
    have saved: "saved_ok ?V ?R ?rs h i r" if sv: "saved_ok V R ?rs h i r" for h r
    proof -
      have "map_of ms i = None" using sv fl R unfolding saved_ok_def by (metis option.exhaust)
      then show ?thesis using sv by (auto simp: saved_ok_def places_moved_def)
    qed
    have sent: "sent_ok ?V ?R ?rs h i r" if st: "sent_ok V R ?rs h i r" and h: "snd (hl_at h) = r" for h r
    proof -
      obtain m ms2 where m: "in_flight ?rs m ms2" "map_of ms2 i = Some (hl_at h)" "R m \<noteq> None \<longrightarrow> V i = Some r"
        "\<forall>k ms'. in_flight ?rs k ms' \<longrightarrow> map_of ms' i \<noteq> None \<longrightarrow> k \<le> m" using st unfolding sent_ok_def by blast
      have "?V i = Some r" if "?R m \<noteq> None"
      proof (cases "m = n")
        case True
        then have "ms2 = ms" using in_flight_unique [OF w] m(1) fl by blast
        then show ?thesis using m(2) h by (simp add: places_moved_def)
      next
        case False
        then have "R m \<noteq> None" using that by simp
        have "map_of ms i = None"
        proof (rule ccontr)
          assume "map_of ms i \<noteq> None"
          then have "n < m" using m(4) fl False by (metis le_neq_implies_less)
          then show False using order [OF fl m(1)] \<open>R m \<noteq> None\<close> R by blast
        qed
        then show ?thesis using m(3) \<open>R m \<noteq> None\<close> by (simp add: places_moved_def)
      qed
      then show ?thesis using m(1,2,4) unfolding sent_ok_def by blast
    qed
    have read: "reads ?R ?rs P i r" if "reads R ?rs P i r" for P r
      using that unfolding reads_def by (auto split: if_splits)
    show ?thesis using k
      by (auto simp: kept_ok_def Let_def split: option.splits intro: saved sent read)
  qed
  ultimately show ?thesis using ok by (simp add: canvas_ok_def places_ok_def)
qed

section \<open>The closed page\<close>

lemma destroyed_kept:
  "cv_destroyed (applyGraph d g s) = cv_destroyed s" "cv_destroyed (toast m b s) = cv_destroyed s"
  "cv_destroyed (end_interaction d key s) = cv_destroyed s" "cv_destroyed (patchGraph f s) = cv_destroyed s"
  "cv_destroyed (send v pa c s) = cv_destroyed s" "cv_destroyed (select_item x s) = cv_destroyed s"
  "cv_destroyed (settle_moves k ms s) = cv_destroyed s" "cv_destroyed (release_moves k ms s) = cv_destroyed s"
  by (simp_all add: applyGraph_def show_graph_def first_fit_def fit_def view_changed_def select_item_def Let_def toast_def
      end_interaction_def patchGraph_def send_def settle_moves_def release_moves_def split: option.split)

lemma destroyed_followups: "cv_destroyed (load_followups q g s) = cv_destroyed s"
proof -
  have "cv_destroyed (foldl (\<lambda>s z. case u z of Some path \<Rightarrow>
      if zn_details z \<and> path \<noteq> [] then send ''GET'' path (LoadUsage (zn_id z)) s else s | None \<Rightarrow> s) t zs) = cv_destroyed t"
    for u t and zs :: "zone list"
    by (induction zs arbitrary: t) (auto simp: destroyed_kept split: option.split)
  then have "cv_destroyed (loadUsage t) = cv_destroyed t" for t by (simp add: loadUsage_def split: option.split)
  then show ?thesis by (simp add: load_followups_def Let_def loadContainers_def destroyed_kept split: option.split)
qed

lemma destroyed_answered:
  assumes "cv_destroyed s"
  shows "cv_destroyed (answered d p c r s)"
proof (cases c)
  case (Load k quiet)
  then show ?thesis using assms
    by (auto simp: answered_def load_answered_def Let_def destroyed_followups destroyed_kept load_failed_def split: sum.split reply.split)
qed (use assms in \<open>auto simp: answered_def positions_answered_def moves_answered_def create_answered_def delete_answered_def
    remove_answered_def label_answered_def containers_answered_def usage_answered_def save_failed_def apply_full_def
    replaceLink_def link_created_def Let_def destroyed_kept split: sum.split option.split reply.split\<close>)

lemma destroyed_stays: "cv_destroyed s \<Longrightarrow> cv_destroyed (env_step d p e s)"
  by (cases e) (auto simp: env_step_def destroyed_answered split: option.split)

section \<open>All steps\<close>

definition sync_ok :: "sync \<Rightarrow> bool" where
  "sync_ok S \<longleftrightarrow> cv_destroyed (sy_canvas S) \<or> canvas_ok (sy_wanted S) (sy_server S) (sy_replies S) (sy_canvas S)"

lemma sync_ok_start: "\<not> filterView p \<Longrightarrow> sync_ok (sync_start p f v w stored)"
  by (simp add: sync_ok_def sync_start_def open_canvas_def canvas_ok_def wire_def screen_def places_ok_def shown_ok_def
      loads_in_def tags_ok_def replies_ok_def in_flight_def List.map_filter_def)

lemma sync_ok_step:
  assumes "sync_step p S S'" "sync_ok S" "\<not> filterView p"
  shows "sync_ok S'"
proof (cases "cv_destroyed (sy_canvas S)")
  case True
  from assms(1) show ?thesis by cases (use True in \<open>simp_all add: sync_ok_def destroyed_stays\<close>)
next
  case False
  then have ok: "canvas_ok (sy_wanted S) (sy_server S) (sy_replies S) (sy_canvas S)" using assms(2) by (simp add: sync_ok_def)
  from assms(1) show ?thesis
  proof (cases rule: sync_step.cases)
    case (event e d)
    then show ?thesis using canvas_ok_event [OF ok _ assms(3)] by (simp add: sync_ok_def)
  next
    case (save n ms)
    have "canvas_ok (sy_wanted S) (places_moved ms (sy_server S)) ((sy_replies S)(n \<mapsto> Inr NoReply)) (sy_canvas S)"
      by (rule canvas_ok_saved [OF ok save(2,3)]) (use save(4) in blast)
    then show ?thesis by (simp add: sync_ok_def save(1))
  next
    case (read n q g)
    have "moves_of (rq_call q) = None" using read(3) by (simp add: load_of_def moves_of_def split: env_call.splits)
    then have "canvas_ok (sy_wanted S) (sy_server S) ((sy_replies S)(n \<mapsto> Inr (GraphReply g))) (sy_canvas S)"
      using read by (intro canvas_ok_replied [OF ok read(2)]) simp_all
    then show ?thesis by (simp add: sync_ok_def read(1))
  next
    case (other n q r)
    have "canvas_ok (sy_wanted S) (sy_server S) ((sy_replies S)(n \<mapsto> r)) (sy_canvas S)"
      using other by (intro canvas_ok_replied [OF ok other(2,3)]) auto
    then show ?thesis by (simp add: sync_ok_def other(1))
  next
    case (arrive n r d)
    then show ?thesis using canvas_ok_answer [OF ok arrive(2) False assms(3)] by (simp add: sync_ok_def)
  qed
qed

lemma sync_ok_reachable:
  assumes "(sync_step p)\<^sup>*\<^sup>* (sync_start p f v w stored) S" "\<not> filterView p"
  shows "sync_ok S"
  using assms(1) by (induction rule: rtranclp_induct) (use assms(2) sync_ok_start sync_ok_step in blast)+

section \<open>A first drag\<close>

definition first_page :: page where
  "first_page = \<lparr>pg_endpoint = [], pg_mode = [], pg_project = ''p'', pg_environment = ''e''\<rparr>"

definition first_dom :: dom where
  "first_dom = \<lparr>dm_sizes = Map.empty, dm_rect = \<lparr>r_left = 0, r_top = 0, r_width = 0, r_height = 0\<rparr>, dm_inset_left = 0,
     dm_inset_top = 0, dm_compare = (\<lambda>_ _. 0)\<rparr>"

definition first_graph :: loaded where
  "first_graph =
     \<lparr>ld_graph = \<lparr>gr_layout = EnvironmentLayout, gr_zones = [plain_zone ''1''], gr_nodes = [plain_card ''a'' ''1''], gr_links = [],
        gr_positions = (\<lambda>i. map_option raw_of ([''a'' \<mapsto> (0, 0)] i))\<rparr>,
      ld_can_edit = True, ld_can_move = True, ld_can_move_groups = False, ld_can_move_zones = False, ld_containers = None,
      ld_usage = Map.empty\<rparr>"

definition first_sync :: sync where
  "first_sync = sync_start first_page \<lparr>fl_project = [], fl_environment = []\<rparr> None [] [''a'' \<mapsto> (0, 0)]"

definition loaded_canvas :: env_canvas where
  "loaded_canvas = env_run first_page [(first_dom, Mount), (first_dom, Answer 0 (Inr (GraphReply first_graph)))]
     (open_canvas first_page \<lparr>fl_project = [], fl_environment = []\<rparr> None [])"

lemma keep_moves_none:
  "\<lbrakk>cv_unsaved s = []; \<And>k. cv_settling s k = Map.empty\<rbrakk> \<Longrightarrow> keep_moves s g = g"
  by (cases g) (simp add: keep_moves_def held_at_def)

lemma first_layout: "layoutGraph c (ld_graph first_graph) = [''a'' \<mapsto> (0, 0)]"
proof -
  have "zoneGroups (ld_graph first_graph) =
      [\<lparr>zg_id = Some ''1'', zg_name = ''1'', zg_zone = Some (plain_zone ''1''), zg_nodes = [plain_card ''a'' ''1'']\<rparr>]"
    by (simp add: zoneGroups_def first_graph_def known_zone_def plain_defs)
  moreover have "stored_place (ld_graph first_graph) (plain_card ''a'' ''1'') = Some (0, 0)"
    by (simp add: stored_place_def first_graph_def plain_defs point_of_def raw_of_def)
  ultimately have "environment_places (ld_graph first_graph) = [(plain_card ''a'' ''1'', (0, 0))]"
    by (simp add: environment_places_def place_of_def placeGrid_def env_constants columnLeft_def)
  then show ?thesis by (simp add: layoutGraph_def first_graph_def fun_eq_iff place_of_def)
qed

lemma foldl_same: "foldl (\<lambda>s z. s) t zs = t"
  by (induction zs) simp_all

lemma loaded_canvas_fields:
  "cv_positions loaded_canvas = [''a'' \<mapsto> (0, 0)]" "cv_graph loaded_canvas = Some first_graph"
  "cv_drags loaded_canvas = []" "cv_deferred loaded_canvas = None" "\<not> cv_destroyed loaded_canvas" "cv_sizes loaded_canvas = Map.empty"
  "vz (cv_view loaded_canvas) = 1" "cv_unsaved loaded_canvas = []" "cv_requests loaded_canvas = []"
proof -
  have shown: "groupByUse (filterGraph \<lparr>fl_project = [], fl_environment = []\<rparr> (ld_graph first_graph)) = ld_graph first_graph"
    by (simp add: groupByUse_def filterGraph_def first_graph_def)
  have lay: "gr_layout (ld_graph first_graph) = EnvironmentLayout" "ld_containers first_graph = None" "ld_usage first_graph = Map.empty"
    by (simp_all add: first_graph_def)
  note defs = loaded_canvas_def env_run_def env_step_def open_canvas_def filterView_def serverView_def connectView_def
    mount_def load_def send_def answered_def load_answered_def first_page_def Let_def dropSettled_def unsettled_def add_containers_def
    applyGraph_def show_graph_def first_fit_def fit_def view_changed_def load_followups_def loadUsage_def keep_moves_none shown
    first_layout first_dom_def lay foldl_same
  show "cv_positions loaded_canvas = [''a'' \<mapsto> (0, 0)]" "cv_graph loaded_canvas = Some first_graph"
    "cv_drags loaded_canvas = []" "cv_deferred loaded_canvas = None" "\<not> cv_destroyed loaded_canvas" "cv_sizes loaded_canvas = Map.empty"
    "vz (cv_view loaded_canvas) = 1" "cv_unsaved loaded_canvas = []" "cv_requests loaded_canvas = []"
    by (simp_all add: defs)
qed

definition first_rules :: drag_rules where
  "first_rules = (dragRules (\<lambda>_ _. 0) (ld_graph first_graph) [''a'' \<mapsto> (0, 0)] Map.empty ''a'')"

lemma first_rules_fields: "dr_others first_rules = []" "dr_fits first_rules b"
proof -
  have zones: "zoneGroups (ld_graph first_graph) =
      [\<lparr>zg_id = Some ''1'', zg_name = ''1'', zg_zone = Some (plain_zone ''1''), zg_nodes = [plain_card ''a'' ''1'']\<rparr>]"
    by (simp add: zoneGroups_def first_graph_def known_zone_def plain_defs)
  have key: "context_key (plain_card ''a'' ''1'') = []" by (simp add: context_key_def plain_defs)
  have nodes: "gr_nodes (ld_graph first_graph) = [plain_card ''a'' ''1'']" by (simp add: first_graph_def)
  have boxes: "filter (\<lambda>z. ''a'' \<notin> set (zx_nodes z)) (zoneBoxes c (ld_graph first_graph) pos sizes) = []" for c pos sizes
    by (simp add: zoneBoxes_def zones Let_def List.map_filter_def)
  show "dr_others first_rules = []" "dr_fits first_rules b"
    by (simp_all add: first_rules_def dragRules_def Let_def zones key nodes boxes notCloser_def List.map_filter_def)
qed

definition dragged_canvas :: env_canvas where
  "dragged_canvas = env_run first_page
     [(first_dom, PressCard 1 ''a'' True 0 0), (first_dom, PointerMoved 1 10 0 None)] loaded_canvas"

lemma dragged_fields:
  "cv_positions dragged_canvas = [''a'' \<mapsto> (10, 0)]" "\<not> cv_destroyed dragged_canvas" "cv_deferred dragged_canvas = None"
  "cv_unsaved dragged_canvas = []" "cv_requests dragged_canvas = []" "cv_graph dragged_canvas = Some first_graph"
  "\<exists>r. cv_drags dragged_canvas = [(1, CardDrag ''a'' 0 0 (Some (0, 0)) r None None True True)]"
proof -
  have far: "\<not> still 0 0 10 0" by (simp add: still_def hypot_def)
  note defs = dragged_canvas_def env_run_def env_step_def startCardDrag_def shown_graph_def loaded_canvas_fields movableGroupOf_def
    canMoveGroups_def canMove_def graph_right_def nodeById_def begin_drag_def begin_interaction_def pointer_moved_def
    drag_move_def card_moved_def far rectOf_def
  have card: "card_by_id (ld_graph first_graph) ''a'' = Some (plain_card ''a'' ''1'')"
    by (simp add: card_by_id_def first_graph_def)
  have rights: "ld_can_edit first_graph" "ld_can_move first_graph" "\<not> ld_can_move_groups first_graph" by (simp_all add: first_graph_def)
  have rules: "dragRules (dm_compare first_dom) (ld_graph first_graph) [''a'' \<mapsto> (0, 0)] Map.empty ''a'' = first_rules"
    by (simp add: first_rules_def first_dom_def)
  show "cv_positions dragged_canvas = [''a'' \<mapsto> (10, 0)]" "\<not> cv_destroyed dragged_canvas" "cv_deferred dragged_canvas = None"
  "cv_unsaved dragged_canvas = []" "cv_requests dragged_canvas = []" "cv_graph dragged_canvas = Some first_graph"
    "\<exists>r. cv_drags dragged_canvas = [(1, CardDrag ''a'' 0 0 (Some (0, 0)) r None None True True)]"
    by (simp_all add: defs card rights rules first_rules_fields cardRect_def freeSpot_def is_free_def set_drag_def)
qed

lemma first_drag_reached:
  "\<exists>S. (sync_step first_page)\<^sup>*\<^sup>* first_sync S \<and> sy_wanted S ''a'' = Some (10, 0) \<and> \<not> cv_destroyed (sy_canvas S) \<and>
     cv_drags (sy_canvas S) = [] \<and> cv_unsaved (sy_canvas S) = [(''a'', (10, 0))] \<and> cv_requests (sy_canvas S) = [] \<and>
     cv_graph (sy_canvas S) = Some first_graph \<and> cv_save_timer (sy_canvas S) \<and> sy_replies S = Map.empty"
proof -
  define S1 where "S1 = first_sync\<lparr>sy_canvas := env_step first_dom first_page Mount (sy_canvas first_sync)\<rparr>"
  define S2 where "S2 = S1\<lparr>sy_replies := [0 \<mapsto> Inr (GraphReply first_graph)]\<rparr>"
  define S3 where "S3 = S2\<lparr>sy_canvas := loaded_canvas, sy_replies := Map.empty\<rparr>"
  define S5 where "S5 = S3\<lparr>sy_canvas := dragged_canvas\<rparr>"
  let ?e = "PointerReleased 1"
  define S6 where "S6 = S5\<lparr>sy_canvas := env_step first_dom first_page ?e dragged_canvas, sy_wanted := [''a'' \<mapsto> (10, 0)]\<rparr>"
  have start: "sy_wanted first_sync = Map.empty" "sy_replies first_sync = Map.empty"
    by (simp_all add: first_sync_def sync_start_def)
  have none: "sy_wanted S3 = Map.empty" by (simp add: S3_def S2_def S1_def start)
  have mv: "sync_step p S (S\<lparr>sy_canvas := env_step d p e (sy_canvas S)\<rparr>)" if "\<not> is_answer e" "dropped e (sy_canvas S) = []" for p S d e
    using sync_step.event [OF that(1), of p S d] that(2) by simp
  have 1: "sync_step first_page first_sync S1"
    unfolding S1_def by (rule mv) (simp_all add: is_answer_def dropped_def)
  have req: "cv_requests (sy_canvas S1) = [(0, \<lparr>rq_method = ''GET'', rq_path = page_base first_page, rq_call = Load 1 True\<rparr>)]"
    by (simp add: S1_def first_sync_def sync_start_def open_canvas_def env_step_def mount_def load_def send_def)
  have 2: "sync_step first_page S1 S2"
  proof -
    have "sy_replies S1 = Map.empty" by (simp add: S1_def start)
    moreover have "sy_server S1 = [''a'' \<mapsto> (0, 0)]" by (simp add: S1_def first_sync_def sync_start_def)
    ultimately show ?thesis
      unfolding S2_def using sync_step.read [of 0 _ S1 first_graph first_page] req
      by (simp add: load_of_def editable_graph_def first_graph_def)
  qed
  have 3: "sync_step first_page S2 S3"
  proof -
    have "loaded_canvas = env_step first_dom first_page (Answer 0 (Inr (GraphReply first_graph))) (sy_canvas S2)"
      by (simp add: loaded_canvas_def env_run_def S2_def S1_def first_sync_def sync_start_def)
    then show ?thesis unfolding S3_def
      using sync_step.arrive [of S2 0 "Inr (GraphReply first_graph)" first_page first_dom] by (simp add: S2_def)
  qed
  define S4 where "S4 = S3\<lparr>sy_canvas := env_step first_dom first_page (PressCard 1 ''a'' True 0 0) (sy_canvas S3)\<rparr>"
  have 4: "sync_step first_page S3 S4"
    unfolding S4_def by (rule mv) (simp_all add: is_answer_def dropped_def)
  have "S5 = S4\<lparr>sy_canvas := env_step first_dom first_page (PointerMoved 1 10 0 None) (sy_canvas S4)\<rparr>"
    by (simp add: S5_def S4_def S3_def dragged_canvas_def env_run_def)
  then have 5: "sync_step first_page S4 S5"
    by (simp only:) (rule mv, simp_all add: is_answer_def dropped_def)
  obtain r where r: "cv_drags dragged_canvas = [(1, CardDrag ''a'' 0 0 (Some (0, 0)) r None None True True)]"
    using dragged_fields(7) by blast
  have "dropped ?e dragged_canvas = [(''a'', (10, 0))]"
    by (simp add: dropped_def r dragged_fields places_now_def List.map_filter_def)
  then have 6: "sync_step first_page S5 S6"
    unfolding S6_def using sync_step.event [of ?e first_page S5 first_dom] none by (simp add: is_answer_def S5_def)
  have "env_step first_dom first_page ?e dragged_canvas =
      end_interaction first_dom (card_key ''a'') (queueSave [(''a'', (10, 0))] (dragged_canvas\<lparr>cv_drags := []\<rparr>))"
    by (simp add: env_step_def pointer_released_def drag_release_def card_released_def r dragged_fields places_now_def List.map_filter_def)
  also have "\<dots> = (queueSave [(''a'', (10, 0))] (dragged_canvas\<lparr>cv_drags := []\<rparr>))\<lparr>cv_interactions := cv_interactions dragged_canvas - {card_key ''a''}\<rparr>"
    by (simp add: end_interaction_def queueSave_def dragged_fields Let_def)
  finally have "cv_drags (sy_canvas S6) = [] \<and> \<not> cv_destroyed (sy_canvas S6) \<and> cv_unsaved (sy_canvas S6) = [(''a'', (10, 0))] \<and>
      cv_requests (sy_canvas S6) = [] \<and> cv_graph (sy_canvas S6) = Some first_graph \<and> cv_save_timer (sy_canvas S6)"
    by (simp add: S6_def queueSave_def dragged_fields)
  moreover have "sy_wanted S6 ''a'' = Some (10, 0)" "sy_replies S6 = Map.empty" by (simp_all add: S6_def S5_def S3_def)
  moreover have "(sync_step first_page)\<^sup>*\<^sup>* first_sync S6"
    using 1 2 3 4 5 6 by (meson converse_rtranclp_into_rtranclp rtranclp.rtrancl_refl)
  ultimately show ?thesis by blast
qed

lemma first_save_reached:
  "\<exists>S. (sync_step first_page)\<^sup>*\<^sup>* first_sync S \<and> sy_wanted S ''a'' = Some (10, 0) \<and> \<not> cv_destroyed (sy_canvas S) \<and>
     cv_unsaved (sy_canvas S) = [] \<and> cv_requests (sy_canvas S) = []"
proof -
  obtain S where S: "(sync_step first_page)\<^sup>*\<^sup>* first_sync S" "sy_wanted S ''a'' = Some (10, 0)" "\<not> cv_destroyed (sy_canvas S)"
    "cv_unsaved (sy_canvas S) = [(''a'', (10, 0))]" "cv_requests (sy_canvas S) = []" "cv_graph (sy_canvas S) = Some first_graph"
    "cv_save_timer (sy_canvas S)" "sy_replies S = Map.empty"
    using first_drag_reached by blast
  let ?n = "cv_next (sy_canvas S) + 1" and ?ms = "[(''a'', cv_next (sy_canvas S), round_point (10, 0))]"
  define t where "t = env_step first_dom first_page SaveTimer (sy_canvas S)"
  have flush: "t = flushSave first_page (sy_canvas S)" using S(3,7) by (simp add: t_def env_step_def)
  then have t: "cv_requests t = [(?n, \<lparr>rq_method = ''PATCH'', rq_path = page_base first_page @ ''/positions'', rq_call = SavePositions ?ms\<rparr>)]"
      "cv_unsaved t = []" "\<not> cv_destroyed t"
    using S(3-6) by (simp_all add: flushSave_def new_moves_def hold_moves_def send_def tag_places_def Let_def)
  define S1 where "S1 = S\<lparr>sy_canvas := t\<rparr>"
  have 1: "sync_step first_page S S1"
    using sync_step.event [of SaveTimer first_page S first_dom] by (simp add: S1_def is_answer_def dropped_def t_def)
  define S2 where "S2 = S1\<lparr>sy_server := places_moved ?ms (sy_server S1), sy_replies := [?n \<mapsto> Inr NoReply]\<rparr>"
  have 2: "sync_step first_page S1 S2"
    using sync_step.save [of S1 ?n ?ms first_page] S(8) by (simp add: S1_def S2_def t in_flight_def moves_of_def)
  define S3 where "S3 = S2\<lparr>sy_canvas := env_step first_dom first_page (Answer ?n (Inr NoReply)) t, sy_replies := Map.empty\<rparr>"
  have 3: "sync_step first_page S2 S3"
    using sync_step.arrive [of S2 ?n "Inr NoReply" first_page first_dom] by (simp add: S1_def S2_def S3_def)
  have "cv_requests (sy_canvas S3) = [] \<and> cv_unsaved (sy_canvas S3) = [] \<and> \<not> cv_destroyed (sy_canvas S3)"
    using t by (simp add: S3_def env_step_def answered_def positions_answered_def settle_moves_def patchGraph_def Let_def split: option.split)
  moreover have "sy_wanted S3 = sy_wanted S" by (simp add: S1_def S2_def S3_def)
  moreover have "(sync_step first_page)\<^sup>*\<^sup>* first_sync S3" using S(1) 1 2 3 by (meson rtranclp.rtrancl_into_rtrancl)
  ultimately show ?thesis using S(2) by metis
qed

lemma first_page_plain: "\<not> filterView first_page"
  by (simp add: first_page_def filterView_def serverView_def connectView_def)

section \<open>What holds\<close>





end
