(* ===== verification/Page_Helpers.thy ===== *)
theory Page_Helpers
  imports Js_Json
begin

text \<open>
  The helpers of the pages around the canvases: failed Livewire requests (\<open>resources/js/livewire-request-failure.js\<close>),
  superseded updates (\<open>livewire-update-dedupe.js\<close>), the submit action of a confirmation (\<open>modal-confirmation.js\<close>),
  the security callout (\<open>security-callout.js\<close>), the search for a vulnerability (\<open>vulnerability-search.js\<close>), number
  inputs (\<open>number-stepper.js\<close>), the traffic lists (\<open>traffic-table.js\<close>), copying (\<open>clipboard.js\<close>) and scrolling to a
  section (\<open>app.js\<close>). Times are milliseconds; \<open>None\<close> stands for \<open>-Infinity\<close>.
\<close>

section \<open>Submit actions\<close>

record submit_scan =
  sc_params :: "jstring list"
  sc_current :: jstring
  sc_quote :: "char option"
  sc_quoted :: bool

text \<open>\<open>finish\<close>\<close>

definition finish_param :: "submit_scan \<Rightarrow> submit_scan" where
  "finish_param a =
     (let value = (if sc_quoted a then sc_current a else trim (sc_current a))
      in a\<lparr>sc_params := (if value \<noteq> [] \<or> sc_quoted a then sc_params a @ [value] else sc_params a),
           sc_current := [], sc_quoted := False\<rparr>)"

text \<open>The loop over the characters.\<close>

fun scan_params :: "jstring \<Rightarrow> submit_scan \<Rightarrow> submit_scan" where
  "scan_params [] a = a"
| "scan_params (c # cs) a =
     (case sc_quote a of
        Some q \<Rightarrow>
          (case cs of
             d # ds \<Rightarrow>
               if c = CHR 0x5C then scan_params ds (a\<lparr>sc_current := sc_current a @ [d]\<rparr>)
               else if c = q then scan_params cs (a\<lparr>sc_quote := None\<rparr>)
               else scan_params cs (a\<lparr>sc_current := sc_current a @ [c]\<rparr>)
           | [] \<Rightarrow> if c = q then a\<lparr>sc_quote := None\<rparr> else a\<lparr>sc_current := sc_current a @ [c]\<rparr>)
      | None \<Rightarrow>
          if (c = CHR 0x27 \<or> c = CHR 0x22) \<and> trim (sc_current a) = []
          then scan_params cs (a\<lparr>sc_quote := Some c, sc_quoted := True, sc_current := []\<rparr>)
          else if c = CHR '','' then scan_params cs (finish_param a)
          else if \<not> sc_quoted a then scan_params cs (a\<lparr>sc_current := sc_current a @ [c]\<rparr>)
          else scan_params cs a)"

definition parseSubmitAction :: "jstring \<Rightarrow> jstring \<times> jstring list" where
  "parseSubmitAction submitAction =
     (case index_of ''('' submitAction of
        None \<Rightarrow> (trim submitAction, [])
      | Some o' \<Rightarrow>
          (let c = last_index_of (CHR '')'') submitAction;
               rest = drop (o' + 1) submitAction;
               argumentText = (if c > int o' then take (nat c - (o' + 1)) rest else rest);
               a = finish_param (scan_params argumentText
                     \<lparr>sc_params = [], sc_current = [], sc_quote = None, sc_quoted = False\<rparr>)
           in (trim (take o' submitAction), sc_params a)))"

section \<open>Superseded updates\<close>

text \<open>The keys are read once, before the first one is deleted.\<close>

definition superseded :: "jstring list \<Rightarrow> jstring \<Rightarrow> bool" where
  "superseded keys key \<longleftrightarrow> list_ex (\<lambda>parent. starts_with key (parent @ ''.'')) keys"

definition removeSupersededUpdates :: "(jstring \<times> json) list \<Rightarrow> (jstring \<times> json) list" where
  "removeSupersededUpdates updates = filter (\<lambda>e. \<not> superseded (map fst updates) (fst e)) updates"

section \<open>Failed requests\<close>

definition INFRASTRUCTURE_FAILURE_STATUSES :: "int list" where
  "INFRASTRUCTURE_FAILURE_STATUSES = [502, 503, 504, 520, 521, 522, 523, 524, 525, 526, 527, 530]"

definition GESTURE_WINDOW_MS :: int where "GESTURE_WINDOW_MS = 2000"
definition WARN_COOLDOWN_MS :: int where "WARN_COOLDOWN_MS = 10000"
definition WARN_CONTENT_MAX_LENGTH :: nat where "WARN_CONTENT_MAX_LENGTH = 2000"

text \<open>
  The state of one registered handler: the last gesture, the last warning and the gesture of the last toast; the
  requests in flight with the gesture they were sent for; and what was shown: the gestures of the toasts, the
  warnings, and for every failed request whether its default error page was suppressed.
\<close>

record failure_state =
  fs_lastGestureAt :: "int option"
  fs_lastWarnAt :: "int option"
  fs_lastToastGestureAt :: "int option"
  fs_sent :: "(nat \<times> int option) list"
  fs_toasts :: "int list"
  fs_warnings :: "(int \<times> int \<times> (jstring + json)) list"
  fs_prevented :: "(nat \<times> bool) list"

definition failure_start :: failure_state where
  "failure_start = \<lparr>fs_lastGestureAt = None, fs_lastWarnAt = None, fs_lastToastGestureAt = None, fs_sent = [], fs_toasts = [],
     fs_warnings = [], fs_prevented = []\<rparr>"

definition later :: "int option \<Rightarrow> int option \<Rightarrow> bool" where
  "later a b = (case (a, b) of (Some x, Some y) \<Rightarrow> x > y | (Some x, None) \<Rightarrow> True | _ \<Rightarrow> False)"

text \<open>The handler of \<open>createLivewireRequestFailureHandler\<close>; the content of a response is a string or another value.\<close>

definition warn_once :: "int \<Rightarrow> int \<Rightarrow> jstring + json \<Rightarrow> failure_state \<Rightarrow> failure_state" where
  "warn_once time code content s =
     (if (case fs_lastWarnAt s of Some t \<Rightarrow> time - t \<ge> WARN_COOLDOWN_MS | None \<Rightarrow> True)
      then s\<lparr>fs_lastWarnAt := Some time,
             fs_warnings := fs_warnings s @
               [(time, code, case content of Inl t \<Rightarrow> Inl (take WARN_CONTENT_MAX_LENGTH t) | Inr v \<Rightarrow> Inr v)]\<rparr>
      else s)"

definition toast_once :: "bool \<Rightarrow> int option \<Rightarrow> failure_state \<Rightarrow> failure_state" where
  "toast_once has_toast gestureAt s =
     (if later gestureAt (fs_lastToastGestureAt s)
      then s\<lparr>fs_lastToastGestureAt := gestureAt,
             fs_toasts := (case gestureAt of Some g \<Rightarrow> if has_toast then fs_toasts s @ [g] else fs_toasts s | None \<Rightarrow> fs_toasts s)\<rparr>
      else s)"

definition handleFailure ::
  "bool \<Rightarrow> bool \<Rightarrow> int \<Rightarrow> nat \<Rightarrow> int \<Rightarrow> jstring + json \<Rightarrow> int option \<Rightarrow> failure_state \<Rightarrow> failure_state" where
  "handleFailure upgrading has_toast time n code content gestureAt s =
     (if upgrading then s\<lparr>fs_prevented := (n, True) # fs_prevented s\<rparr>
      else if code \<notin> set INFRASTRUCTURE_FAILURE_STATUSES then s\<lparr>fs_prevented := (n, False) # fs_prevented s\<rparr>
      else toast_once has_toast gestureAt (warn_once time code content (s\<lparr>fs_prevented := (n, True) # fs_prevented s\<rparr>)))"

datatype failure_event =
    Gesture bool int
  | Sent nat int
  | Failed nat int int "jstring + json" bool bool

definition request_gesture :: "int \<Rightarrow> int option \<Rightarrow> int option" where
  "request_gesture time lastGestureAt =
     (case lastGestureAt of Some g \<Rightarrow> if time - g \<le> GESTURE_WINDOW_MS then Some g else None | None \<Rightarrow> None)"

definition failure_step :: "failure_event \<Rightarrow> failure_state \<Rightarrow> failure_state" where
  "failure_step e s =
     (case e of
        Gesture isTrusted time \<Rightarrow> if isTrusted then s\<lparr>fs_lastGestureAt := Some time\<rparr> else s
      | Sent n time \<Rightarrow> s\<lparr>fs_sent := (n, request_gesture time (fs_lastGestureAt s)) # fs_sent s\<rparr>
      | Failed n time code content upgrading has_toast \<Rightarrow>
          (case map_of (fs_sent s) n of
             Some gestureAt \<Rightarrow> handleFailure upgrading has_toast time n code content gestureAt s
           | None \<Rightarrow> s))"

definition failure_run :: "failure_event list \<Rightarrow> failure_state" where
  "failure_run es = foldl (\<lambda>s e. failure_step e s) failure_start es"

section \<open>The security callout\<close>

text \<open>
  \<open>String(v)\<close>; the texts of numbers, arrays and objects are the argument \<open>other\<close>. \<open>stored\<close> is what \<open>JSON.parse\<close> makes
  of the stored text, \<open>None\<close> where it throws.
\<close>

definition json_text :: "(json \<Rightarrow> jstring) \<Rightarrow> json \<Rightarrow> jstring" where
  "json_text other v =
     (case v of JStr s \<Rightarrow> s | JBool b \<Rightarrow> if b then ''true'' else ''false'' | JNull \<Rightarrow> ''null'' | _ \<Rightarrow> other v)"

definition dismissedSet :: "(json \<Rightarrow> jstring) \<Rightarrow> json option \<Rightarrow> jstring list option" where
  "dismissedSet other stored =
     (case stored of Some (JArr vs) \<Rightarrow> Some (set_to_array (map (json_text other) vs)) | _ \<Rightarrow> None)"

record callout =
  co_visible :: bool
  co_reset :: bool

definition securityCallout :: "(json \<Rightarrow> jstring) \<Rightarrow> jstring list \<Rightarrow> json option \<Rightarrow> callout" where
  "securityCallout other current stored =
     (let dismissed = dismissedSet other stored
      in if current = [] then \<lparr>co_visible = False, co_reset = (dismissed \<noteq> None)\<rparr>
         else \<lparr>co_visible = (case dismissed of None \<Rightarrow> True | Some d \<Rightarrow> list_ex (\<lambda>uuid. uuid \<notin> set d) current), co_reset = False\<rparr>)"

text \<open>The value whose text is stored.\<close>

definition dismissSecurityCallout :: "(json \<Rightarrow> jstring) \<Rightarrow> jstring list \<Rightarrow> json option \<Rightarrow> json" where
  "dismissSecurityCallout other current stored =
     JArr (map JStr (set_to_array ((case dismissedSet other stored of Some d \<Rightarrow> d | None \<Rightarrow> []) @ current)))"

section \<open>Searching for a vulnerability\<close>

definition js_upper_char :: "char \<Rightarrow> char" where
  "js_upper_char c = (if is_lower_az c then char_of ((of_char c :: nat) - 32) else c)"

definition id_char :: "char \<Rightarrow> bool" where
  "id_char c \<longleftrightarrow> is_alnum c \<or> c = CHR ''-''"

definition is_vulnerability_id :: "jstring \<Rightarrow> bool" where
  "is_vulnerability_id s \<longleftrightarrow>
     list_ex (\<lambda>p. map js_lower_char (take (length p) s) = p \<and> drop (length p) s \<noteq> [] \<and> list_all id_char (drop (length p) s))
       [''cve-'', ''ghsa-'']"

text \<open>The id with its leading letters in upper case; \<open>is_alnum\<close> without digits are the letters.\<close>

definition vulnerability_id :: "jstring \<Rightarrow> jstring" where
  "vulnerability_id s =
     (let letter = (\<lambda>c. is_lower_az c \<or> is_upper_az c) in map js_upper_char (takeWhile letter s) @ dropWhile letter s)"

text \<open>The name, the link and the search text of the entry; \<open>encode\<close> is \<open>encodeURIComponent\<close>.\<close>

definition vulnerabilitySearchItem :: "(jstring \<Rightarrow> jstring) \<Rightarrow> jstring option \<Rightarrow> jstring option \<Rightarrow> (jstring \<times> jstring \<times> jstring) option" where
  "vulnerabilitySearchItem encode query url =
     (let trimmed = trim (case query of Some q \<Rightarrow> q | None \<Rightarrow> [])
      in case url of
           Some u \<Rightarrow>
             if u = [] \<or> \<not> is_vulnerability_id trimmed then None
             else (let i = vulnerability_id trimmed
                   in Some (''Find '' @ i @ '' in your images'', u @ ''?search='' @ encode i, i))
         | None \<Rightarrow> None)"

section \<open>Number inputs\<close>

text \<open>
  The fields of the input as numbers: \<open>value\<close> and \<open>step\<close> after \<open>parseFloat\<close>, \<open>min\<close> and \<open>max\<close> after \<open>Number\<close>, each
  \<open>None\<close> where it is empty or not finite.
\<close>

record number_input =
  ni_value :: "rat option"
  ni_step :: "rat option"
  ni_min :: "rat option"
  ni_max :: "rat option"

text \<open>\<open>Number.parseFloat(x.toFixed(10))\<close>: half a unit is rounded away from zero.\<close>

definition DECIMALS :: int where "DECIMALS = 10 ^ 10"

definition fixed10 :: "rat \<Rightarrow> rat" where
  "fixed10 x =
     (let n = \<lfloor>\<bar>x\<bar> * of_int DECIMALS + 1 / 2\<rfloor> in (if x < 0 then - of_int n else of_int n) / of_int DECIMALS)"

definition nextStepValue :: "number_input \<Rightarrow> rat \<Rightarrow> rat" where
  "nextStepValue i direction =
     (let stepSize = (case ni_step i of Some q \<Rightarrow> if q > 0 then q else 1 | None \<Rightarrow> 1);
          n0 = (case ni_value i of Some q \<Rightarrow> q | None \<Rightarrow> 0) + direction * stepSize;
          n1 = (case ni_min i of Some m \<Rightarrow> max n0 m | None \<Rightarrow> n0);
          n2 = (case ni_max i of Some m \<Rightarrow> min n1 m | None \<Rightarrow> n1)
      in fixed10 n2)"

section \<open>Traffic lists\<close>

text \<open>
  A row has an identity, its sort values (what \<open>JSON.parse\<close> makes of \<open>data-row\<close>, \<open>None\<close> where it throws) and its marks.
  The state holds the rows in the order of the document; \<open>tt_ranks\<close> is the weak map of the ranks.
\<close>

record traffic_row =
  tr_id :: nat
  tr_data :: "json option"
  tr_pinned :: bool
  tr_hidable :: bool

record traffic_table =
  tt_page :: nat
  tt_per :: nat
  tt_total :: nat
  tt_key :: jstring
  tt_asc :: bool
  tt_tick :: nat
  tt_showHidden :: bool
  tt_hiddenCount :: nat
  tt_rows :: "traffic_row list"
  tt_ranks :: "nat \<Rightarrow> nat option"

definition row_value :: "jstring \<Rightarrow> traffic_row \<Rightarrow> json" where
  "row_value key r =
     (case tr_data r of
        Some v \<Rightarrow> (case json_get v key of Some w \<Rightarrow> w | None \<Rightarrow> JNull)
      | None \<Rightarrow> JNull)"

text \<open>\<open>compareValues\<close>; a comparison only counts by its sign. \<open>localeCompare\<close> compares the texts of two values.\<close>

definition sign_of :: "rat \<Rightarrow> int" where
  "sign_of q = (if q < 0 then -1 else if q > 0 then 1 else 0)"

definition compareValues :: "(json \<Rightarrow> json \<Rightarrow> int) \<Rightarrow> json \<Rightarrow> json \<Rightarrow> int" where
  "compareValues localeCompare a b = (case (a, b) of (JNum x, JNum y) \<Rightarrow> sign_of (x - y) | _ \<Rightarrow> localeCompare a b)"

definition flag :: "bool \<Rightarrow> int" where
  "flag b = (if b then 1 else 0)"

text \<open>The comparison of \<open>rows.sort\<close>: rows are pairs of their place before the sort and the row.\<close>

definition compare_rows :: "(json \<Rightarrow> json \<Rightarrow> int) \<Rightarrow> jstring \<Rightarrow> bool \<Rightarrow> nat \<times> traffic_row \<Rightarrow> nat \<times> traffic_row \<Rightarrow> int" where
  "compare_rows localeCompare key asc a b =
     (let x = row_value key (snd a); y = row_value key (snd b);
          p = flag (tr_pinned (snd a)) - flag (tr_pinned (snd b));
          m = flag (x = JNull) - flag (y = JNull);
          v = compareValues localeCompare x y * (if asc then 1 else -1)
      in if p \<noteq> 0 then p else if m \<noteq> 0 then m else if v \<noteq> 0 then v else int (fst a) - int (fst b))"

definition rank_rows :: "traffic_row list \<Rightarrow> nat \<Rightarrow> nat option" where
  "rank_rows rows i = index_of [i] (map tr_id rows)"

definition last_page :: "nat \<Rightarrow> nat \<Rightarrow> nat" where
  "last_page n per = (n + per - 1) div per - 1"

definition resort :: "(json \<Rightarrow> json \<Rightarrow> int) \<Rightarrow> traffic_table \<Rightarrow> traffic_table" where
  "resort localeCompare t =
     (let listed = filter (\<lambda>r. tt_showHidden t \<or> \<not> tr_hidable r) (tt_rows t);
          numbered = enumerate 0 listed;
          sorted0 = js_sort (compare_rows localeCompare (tt_key t) (tt_asc t)) numbered;
          rows = map snd sorted0;
          ranks = (\<lambda>i. case rank_rows rows i of
                     Some k \<Rightarrow> Some k
                   | None \<Rightarrow> if i \<in> tr_id ` set (filter tr_hidable (tt_rows t)) then None else tt_ranks t i)
      in t\<lparr>tt_hiddenCount := length (filter tr_hidable (tt_rows t)), tt_ranks := ranks,
           tt_rows := (if map fst sorted0 \<noteq> [0..<length listed]
                       then filter (\<lambda>r. \<not> (tt_showHidden t \<or> \<not> tr_hidable r)) (tt_rows t) @ rows else tt_rows t),
           tt_total := length rows, tt_page := min (tt_page t) (last_page (length rows) (tt_per t)), tt_tick := tt_tick t + 1\<rparr>)"

definition sortBy :: "(json \<Rightarrow> json \<Rightarrow> int) \<Rightarrow> jstring \<Rightarrow> bool \<Rightarrow> traffic_table \<Rightarrow> traffic_table" where
  "sortBy localeCompare next0 firstAsc t =
     (let t1 = (if tt_key t = next0 then t\<lparr>tt_asc := \<not> tt_asc t\<rparr> else t\<lparr>tt_key := next0, tt_asc := firstAsc\<rparr>)
      in resort localeCompare (t1\<lparr>tt_page := 0\<rparr>))"

definition toggleHidden :: "(json \<Rightarrow> json \<Rightarrow> int) \<Rightarrow> traffic_table \<Rightarrow> traffic_table" where
  "toggleHidden localeCompare t = resort localeCompare (t\<lparr>tt_showHidden := \<not> tt_showHidden t, tt_page := 0\<rparr>)"

definition shown_row :: "traffic_table \<Rightarrow> nat \<Rightarrow> bool" where
  "shown_row t i =
     (case tt_ranks t i of
        Some rank \<Rightarrow> rank \<ge> tt_page t * tt_per t \<and> rank < (tt_page t + 1) * tt_per t
      | None \<Rightarrow> False)"

definition sorted_direction :: "traffic_table \<Rightarrow> jstring \<Rightarrow> bool option" where
  "sorted_direction t column = (if tt_key t = column then Some (tt_asc t) else None)"

section \<open>The time that a terminal session has left\<close>

text \<open>\<open>String(n).padStart(2, '0')\<close>\<close>

definition two_digits :: "nat \<Rightarrow> jstring" where
  "two_digits n = (if n < 10 then CHR ''0'' # nat_str n else nat_str n)"

definition formatTerminalSessionRemainingTime :: "rat \<Rightarrow> jstring" where
  "formatTerminalSessionRemainingTime seconds =
     (let remaining = nat (max 0 \<lceil>seconds\<rceil>); totalMinutes = remaining div 60; hours = totalMinutes div 60;
          minutes = totalMinutes mod 60; secondsPart = remaining mod 60
      in if remaining = 0 then ''expired''
         else if hours = 0 then nat_str minutes @ ''m '' @ two_digits secondsPart @ ''s''
         else nat_str hours @ ''h '' @ two_digits minutes @ ''m '' @ two_digits secondsPart @ ''s'')"

section \<open>Copying\<close>

text \<open>
  \<open>copyTextToClipboard\<close>: \<open>txt\<close> is how the promise of the text settles. \<open>write\<close> is the outcome of \<open>clipboard.write\<close> once
  the text is there, \<open>None\<close> without it or without \<open>ClipboardItem\<close>; it is refused when its promise is. The result is the
  error or the texts written, by the order of the calls that succeeded.
\<close>

definition copyTextToClipboard :: "jstring + jstring \<Rightarrow> (unit + unit) option \<Rightarrow> unit + unit \<Rightarrow> jstring + jstring list" where
  "copyTextToClipboard txt write writeText =
     (let plain = (case txt of
                     Inl e \<Rightarrow> Inl e
                   | Inr v \<Rightarrow> (case writeText of Inr _ \<Rightarrow> Inr [v] | Inl _ \<Rightarrow> Inl ''writeText''))
      in case write of
           Some w \<Rightarrow>
             (case txt of
                Inr v \<Rightarrow> (case w of Inr _ \<Rightarrow> Inr [v] | Inl _ \<Rightarrow> plain)
              | Inl e \<Rightarrow> Inl e)
         | None \<Rightarrow> plain)"

section \<open>Scrolling to a section\<close>

text \<open>One call of \<open>scrollToSettingsSection\<close>: its frames, and how often it has started the highlight of the section.\<close>

record section_scroll =
  ss_finished :: bool
  ss_listening :: bool
  ss_frame :: bool
  ss_lastTop :: "real option"
  ss_stable :: nat
  ss_frames :: nat
  ss_highlights :: nat

definition scroll_start :: section_scroll where
  "scroll_start = \<lparr>ss_finished = False, ss_listening = True, ss_frame = True, ss_lastTop = None, ss_stable = 0, ss_frames = 0,
     ss_highlights = 0\<rparr>"

definition finish_scroll :: "section_scroll \<Rightarrow> section_scroll" where
  "finish_scroll s =
     (if ss_finished s then s
      else s\<lparr>ss_finished := True, ss_frame := False, ss_listening := False, ss_highlights := ss_highlights s + 1\<rparr>)"

definition MAX_FRAMES :: nat where "MAX_FRAMES = 180"

definition scroll_tick :: "real \<Rightarrow> section_scroll \<Rightarrow> section_scroll" where
  "scroll_tick top0 s =
     (if ss_finished s then s
      else
        (let s1 = s\<lparr>ss_frames := ss_frames s + 1,
               ss_stable := (case ss_lastTop s of Some l \<Rightarrow> if \<bar>top0 - l\<bar> < 1 / 2 then ss_stable s + 1 else 0 | None \<Rightarrow> 0),
               ss_lastTop := Some top0\<rparr>
         in if ss_frames s1 > 4 \<and> ss_stable s1 \<ge> 4 then finish_scroll s1
            else if ss_frames s1 \<ge> MAX_FRAMES then finish_scroll s1
            else s1))"

text \<open>A frame fires while it is requested, the event of the browser while it is listened for; another call ends this one.\<close>

datatype scroll_event = Frame real | ScrollEnd | Superseded

definition scroll_step :: "scroll_event \<Rightarrow> section_scroll \<Rightarrow> section_scroll" where
  "scroll_step e s =
     (case e of
        Frame top0 \<Rightarrow> if ss_frame s then scroll_tick top0 s else s
      | ScrollEnd \<Rightarrow> if ss_listening s then finish_scroll s else s
      | Superseded \<Rightarrow> s\<lparr>ss_finished := True, ss_frame := False, ss_listening := False\<rparr>)"

definition scroll_run :: "scroll_event list \<Rightarrow> section_scroll" where
  "scroll_run es = foldl (\<lambda>s e. scroll_step e s) scroll_start es"

end
