(* ===== verification/Page_Helpers_Safety.thy ===== *)
theory Page_Helpers_Safety
  imports Page_Helpers
begin

text \<open>
  What the page helpers keep: submit actions are read back, one toast per gesture, superseded updates are exactly
  those under a sent one, a dismissed callout stays hidden, traffic rows are on one page each, steps stay in the
  bounds of their input, and a section is highlighted once.
\<close>

section \<open>Submit actions\<close>

text \<open>How a page writes a quoted argument: with its quotes and backslashes escaped.\<close>

definition escape_param :: "jstring \<Rightarrow> jstring" where
  "escape_param s = concat (map (\<lambda>c. if c = CHR 0x27 \<or> c = CHR 0x5C then [CHR 0x5C, c] else [c]) s)"

definition quote_param :: "jstring \<Rightarrow> jstring" where
  "quote_param s = [CHR 0x27] @ escape_param s @ [CHR 0x27]"

definition submit_action :: "jstring \<Rightarrow> jstring list \<Rightarrow> jstring" where
  "submit_action method params = method @ ''('' @ join_with '', '' (map quote_param params) @ '')''"

lemma scan_escaped:
  assumes "sc_quote a = Some (CHR 0x27)"
  shows "scan_params (escape_param s @ CHR 0x27 # rest) a =
    scan_params rest (a\<lparr>sc_quote := None, sc_current := sc_current a @ s\<rparr>)"
  using assms
proof (induction s arbitrary: a)
  case Nil
  then show ?case by (cases rest) (simp_all add: escape_param_def)
next
  case (Cons c s)
  obtain d ds where rest: "escape_param s @ CHR 0x27 # rest = d # ds" by (cases "escape_param s @ CHR 0x27 # rest") auto
  have IH: "scan_params (escape_param s @ CHR 0x27 # rest) (a\<lparr>sc_current := sc_current a @ [c]\<rparr>) =
      scan_params rest (a\<lparr>sc_quote := None, sc_current := sc_current a @ c # s\<rparr>)"
    using Cons.IH [of "a\<lparr>sc_current := sc_current a @ [c]\<rparr>"] Cons.prems by simp
  have split: "escape_param (c # s) @ CHR 0x27 # rest =
      (if c = CHR 0x27 \<or> c = CHR 0x5C then [CHR 0x5C, c] else [c]) @ escape_param s @ CHR 0x27 # rest"
    by (simp add: escape_param_def)
  show ?case using IH Cons.prems unfolding split rest by auto
qed

lemma scan_quoted:
  assumes "sc_quote a = None" "trim (sc_current a) = []"
  shows "scan_params (quote_param s @ rest) a =
    scan_params rest (a\<lparr>sc_quote := None, sc_quoted := True, sc_current := s\<rparr>)"
  using assms scan_escaped [of "a\<lparr>sc_quote := Some (CHR 0x27), sc_quoted := True, sc_current := []\<rparr>" s rest]
  by (cases a) (simp add: quote_param_def)

lemma scan_quoted_list:
  assumes "sc_quote a = None" "trim (sc_current a) = []" "\<not> sc_quoted a" "ps \<noteq> []"
  shows "sc_params (finish_param (scan_params (join_with '', '' (map quote_param ps)) a)) = sc_params a @ ps"
  using assms
proof (induction ps arbitrary: a rule: induct_list012)
  case (2 p)
  then show ?case using scan_quoted [of a p "[]"] by (simp add: finish_param_def)
next
  case (3 p q ps)
  let ?b = "a\<lparr>sc_quote := None, sc_quoted := False, sc_current := '' '', sc_params := sc_params a @ [p]\<rparr>"
  have sp: "trim '' '' = []" by (simp add: trim_eq_Nil_iff js_space_def)
  have "scan_params (join_with '', '' (map quote_param (p # q # ps))) a =
      scan_params (join_with '', '' (map quote_param (q # ps))) ?b"
    using scan_quoted [OF 3(3,4), of p] by (cases a) (simp add: finish_param_def)
  then show ?case using 3(2) [of ?b] sp by simp
qed simp

lemma last_index_of_last: "last_index_of c (s @ [c]) = int (length s)"
  by (simp add: last_index_of_def)

text \<open>C32: 
  What a page writes as a call with quoted arguments is read back: the method, and every argument with its commas,
  parentheses, quotes and backslashes.
\<close>

theorem parseSubmitAction_roundtrip:
  assumes "CHR ''('' \<notin> set method"
  shows "parseSubmitAction (submit_action method params) = (trim method, params)"
proof -
  let ?a = "\<lparr>sc_params = [], sc_current = [], sc_quote = None, sc_quoted = False\<rparr>"
  have shape: "submit_action method params = (method @ ''('' @ join_with '', '' (map quote_param params)) @ [CHR '')'']"
    by (simp add: submit_action_def)
  have o': "index_of ''('' (submit_action method params) = Some (length method)"
    using assms by (simp add: index_of_single submit_action_def)
  have c: "last_index_of (CHR '')'') (submit_action method params) = int (length method + 1 + length (join_with '', '' (map quote_param params)))"
    unfolding shape last_index_of_last by simp
  have "parseSubmitAction (submit_action method params) =
      (trim method, sc_params (finish_param (scan_params (join_with '', '' (map quote_param params)) ?a)))"
    unfolding parseSubmitAction_def o' c by (simp add: submit_action_def Let_def)
  moreover have "sc_params (finish_param (scan_params (join_with '', '' (map quote_param params)) ?a)) = params"
  proof (cases params)
    case Nil
    then show ?thesis by (simp add: finish_param_def)
  next
    case Cons
    then show ?thesis using scan_quoted_list [of ?a params] by simp
  qed
  ultimately show ?thesis by simp
qed

theorem parseSubmitAction_roundtrip_witness:
  "parseSubmitAction (submit_action ''save'' [''a, b'', ''c)d'', ''it'' @ [CHR 0x27] @ ''s'', []]) =
     (trim ''save'', [''a, b'', ''c)d'', ''it'' @ [CHR 0x27] @ ''s'', []])"
  by (rule parseSubmitAction_roundtrip) simp

section \<open>Superseded updates\<close>

lemma superseded_shorter:
  assumes "superseded ks k"
  shows "\<exists>p \<in> set ks. starts_with k (p @ ''.'') \<and> length p < length k"
proof -
  obtain p where p: "p \<in> set ks" "starts_with k (p @ ''.'')" using assms unfolding superseded_def list_ex_iff by blast
  have "length (p @ ''.'') \<le> length k" by (rule prefix_length_le [OF p(2)])
  then show ?thesis using p by (intro bexI [of _ p]) simp_all
qed

text \<open>
  Of the queued updates, those are sent that no other update covers: no key that is sent lies under another one, every
  key that is dropped lies under one that is sent, and what is sent keeps its value.
\<close>

theorem removeSupersededUpdates_exact:
  "(\<forall>k \<in> fst ` set (removeSupersededUpdates us). \<not> superseded (map fst (removeSupersededUpdates us)) k) \<and>
   (\<forall>k \<in> fst ` set us - fst ` set (removeSupersededUpdates us). superseded (map fst (removeSupersededUpdates us)) k) \<and>
   set (removeSupersededUpdates us) \<subseteq> set us"
proof -
  let ?ks = "map fst us" and ?rs = "map fst (removeSupersededUpdates us)"
  have mem: "k \<in> set ?rs \<longleftrightarrow> k \<in> set ?ks \<and> \<not> superseded ?ks k" for k
    by (auto simp: removeSupersededUpdates_def)
  have trans: "starts_with r (p @ ''.'')" if "starts_with q (p @ ''.'')" "starts_with r (q @ ''.'')" for p q r :: jstring
    by (rule prefix_order.trans [OF that(1)], rule append_prefixD, rule that(2))
  have under: "superseded ?ks k \<Longrightarrow> superseded ?rs k" for k
  proof (induction "length k" arbitrary: k rule: less_induct)
    case less
    obtain p where p: "p \<in> set ?ks" "starts_with k (p @ ''.'')" "length p < length k" using superseded_shorter [OF less.prems] by blast
    show ?case
    proof (cases "superseded ?ks p")
      case True
      then have "superseded ?rs p" using less.hyps [OF p(3)] by blast
      then show ?thesis using trans [OF _ p(2)] unfolding superseded_def list_ex_iff by blast
    next
      case False
      then show ?thesis using p mem unfolding superseded_def list_ex_iff by blast
    qed
  qed
  have "\<not> superseded ?rs k" if "k \<in> set ?rs" for k
    using that mem unfolding superseded_def list_ex_iff by blast
  then show ?thesis using under mem by (auto simp: removeSupersededUpdates_def)
qed

section \<open>Failed requests\<close>

definition newest :: "int option \<Rightarrow> int list \<Rightarrow> bool" where
  "newest a ts \<longleftrightarrow> (case a of Some g \<Rightarrow> \<forall>t \<in> set ts. t \<le> g | None \<Rightarrow> ts = [])"

definition failures_ok :: "failure_state \<Rightarrow> int set \<Rightarrow> bool" where
  "failures_ok s gs \<longleftrightarrow>
     sorted_wrt (<) (fs_toasts s) \<and>
     newest (fs_lastToastGestureAt s) (fs_toasts s) \<and>
     (\<forall>g. fs_lastGestureAt s = Some g \<longrightarrow> g \<in> gs) \<and> (\<forall>n g. (n, Some g) \<in> set (fs_sent s) \<longrightarrow> g \<in> gs) \<and>
     set (fs_toasts s) \<subseteq> gs \<and>
     sorted_wrt (\<lambda>v w. fst v + WARN_COOLDOWN_MS \<le> fst w) (fs_warnings s) \<and>
     newest (fs_lastWarnAt s) (map fst (fs_warnings s))"

lemma toast_once_ok:
  assumes "failures_ok s gs" "\<And>g. gestureAt = Some g \<Longrightarrow> g \<in> gs"
  shows "failures_ok (toast_once h gestureAt s) gs"
proof (cases "later gestureAt (fs_lastToastGestureAt s)")
  case True
  then obtain g where g: "gestureAt = Some g" by (cases gestureAt) (simp_all add: later_def)
  have "\<forall>t \<in> set (fs_toasts s). t < g"
    using True assms(1) g by (cases "fs_lastToastGestureAt s") (auto simp: failures_ok_def newest_def later_def)
  then show ?thesis using assms True g
    by (auto simp: failures_ok_def newest_def [of "Some _"] toast_once_def sorted_wrt_append)
qed (use assms(1) in \<open>simp add: toast_once_def\<close>)

lemma warn_once_ok:
  assumes "failures_ok s gs"
  shows "failures_ok (warn_once time code content s) gs"
proof (cases "fs_lastWarnAt s")
  case None
  then show ?thesis using assms by (simp add: failures_ok_def newest_def [of None] newest_def [of "Some _"] warn_once_def)
next
  case (Some t)
  then have "\<forall>w \<in> set (fs_warnings s). fst w \<le> t" using assms by (simp add: failures_ok_def newest_def)
  moreover have "0 < WARN_COOLDOWN_MS" by (simp add: WARN_COOLDOWN_MS_def)
  ultimately show ?thesis using assms Some
    by (auto simp: failures_ok_def newest_def [of "Some _"] warn_once_def sorted_wrt_append)
qed

lemma failures_ok_prevented: "failures_ok (s\<lparr>fs_prevented := x\<rparr>) gs = failures_ok s gs"
  by (simp add: failures_ok_def)

lemma failures_ok_more: "\<lbrakk>failures_ok s gs; gs \<subseteq> hs\<rbrakk> \<Longrightarrow> failures_ok s hs"
  by (auto simp: failures_ok_def)

definition trusted_gestures :: "failure_event list \<Rightarrow> int set" where
  "trusted_gestures es = {t. Gesture True t \<in> set es}"

lemma failure_step_ok:
  assumes "failures_ok s (trusted_gestures es)"
  shows "failures_ok (failure_step e s) (trusted_gestures (es @ [e]))"
proof -
  have more: "failures_ok s (trusted_gestures (es @ [e]))"
    using assms by (rule failures_ok_more) (auto simp: trusted_gestures_def)
  show ?thesis
  proof (cases e)
    case (Gesture isTrusted t)
    then have "isTrusted \<Longrightarrow> t \<in> trusted_gestures (es @ [e])" by (simp add: trusted_gestures_def)
    then show ?thesis using more Gesture by (auto simp: failure_step_def failures_ok_def)
  next
    case (Sent n t)
    then show ?thesis using more
      by (auto simp: failure_step_def failures_ok_def request_gesture_def split: option.splits if_splits)
  next
    case (Failed n t code content u h)
    have sent: "\<And>g. map_of (fs_sent s) n = Some (Some g) \<Longrightarrow> g \<in> trusted_gestures (es @ [e])"
      using more by (auto simp: failures_ok_def dest: map_of_SomeD)
    show ?thesis
    proof (cases "map_of (fs_sent s) n")
      case None
      then show ?thesis using more Failed by (simp add: failure_step_def)
    next
      case (Some gestureAt)
      then have "failures_ok (toast_once h gestureAt (warn_once t code content (s\<lparr>fs_prevented := (n, True) # fs_prevented s\<rparr>)))
          (trusted_gestures (es @ [e]))"
        using sent more by (intro toast_once_ok warn_once_ok) (simp_all add: failures_ok_prevented)
      moreover have "failure_step e s = handleFailure u h t n code content gestureAt s" using Failed Some by (simp add: failure_step_def)
      ultimately show ?thesis using more unfolding handleFailure_def by (simp add: failures_ok_prevented)
    qed
  qed
qed

lemma failure_run_ok: "failures_ok (failure_run es) (trusted_gestures es)"
proof (induction es rule: rev_induct)
  case Nil
  show ?case by (simp add: failure_run_def failures_ok_def newest_def failure_start_def)
next
  case (snoc e es)
  then show ?case using failure_step_ok [OF snoc] by (simp add: failure_run_def)
qed

text \<open>C31: 
  A gesture of the user shows at most one toast, however many of its requests fail and whenever they do; a failure in
  the background shows none; and warnings are at least ten seconds apart.
\<close>

theorem one_toast_per_gesture:
  "sorted_wrt (<) (fs_toasts (failure_run es)) \<and> set (fs_toasts (failure_run es)) \<subseteq> trusted_gestures es \<and>
   sorted_wrt (\<lambda>v w. fst v + WARN_COOLDOWN_MS \<le> fst w) (fs_warnings (failure_run es))"
  using failure_run_ok [of es] by (simp add: failures_ok_def)

section \<open>The security callout\<close>

text \<open>
  A dismissed callout comes back for a resource that was not there when it was dismissed and had not been dismissed
  before, and only for one.
\<close>

theorem dismissed_callout_returns:
  "co_visible (securityCallout other current (Some (dismissSecurityCallout other before stored))) \<longleftrightarrow>
     (\<exists>u \<in> set current. u \<notin> set before \<and> (\<forall>d. dismissedSet other stored = Some d \<longrightarrow> u \<notin> set d))"
proof -
  have "map (json_text other \<circ> JStr) xs = xs" for xs by (rule map_idI) (simp add: json_text_def)
  then have "dismissedSet other (Some (dismissSecurityCallout other before stored)) =
      Some (set_to_array (set_to_array ((case dismissedSet other stored of Some d \<Rightarrow> d | None \<Rightarrow> []) @ before)))"
    by (simp add: dismissSecurityCallout_def dismissedSet_def)
  then show ?thesis
    by (auto simp: securityCallout_def Let_def list_ex_iff split: option.splits)
qed

section \<open>Number inputs\<close>

lemma DECIMALS_pos: "0 < DECIMALS" by (simp add: DECIMALS_def)

lemma fixed10_cases:
  "\<not> a < 0 \<Longrightarrow> fixed10 a = of_int \<lfloor>\<bar>a\<bar> * of_int DECIMALS + 1 / 2\<rfloor> / of_int DECIMALS"
  "a < 0 \<Longrightarrow> fixed10 a = - (of_int \<lfloor>\<bar>a\<bar> * of_int DECIMALS + 1 / 2\<rfloor> / of_int DECIMALS)"
  by (simp_all add: fixed10_def)

lemma units_mono: "a \<le> b \<Longrightarrow> \<lfloor>a * of_int DECIMALS + 1 / 2\<rfloor> \<le> \<lfloor>b * of_int DECIMALS + 1 / 2\<rfloor>" for a b :: rat
  by (intro floor_mono add_right_mono mult_right_mono) (simp_all add: DECIMALS_pos less_imp_le)

lemma units_nonneg: "0 \<le> of_int \<lfloor>\<bar>a\<bar> * of_int DECIMALS + 1 / 2\<rfloor> / (of_int DECIMALS :: rat)" for a :: rat
proof -
  have "0 \<le> \<bar>a\<bar> * of_int DECIMALS" by (simp add: DECIMALS_pos less_imp_le)
  then have "0 \<le> \<lfloor>\<bar>a\<bar> * of_int DECIMALS + 1 / 2\<rfloor>" by simp
  then show ?thesis using DECIMALS_pos by simp
qed

lemma units_le:
  "a \<le> b \<Longrightarrow> of_int \<lfloor>a * of_int DECIMALS + 1 / 2\<rfloor> / (of_int DECIMALS :: rat) \<le> of_int \<lfloor>b * of_int DECIMALS + 1 / 2\<rfloor> / of_int DECIMALS" for a b :: rat
  using units_mono DECIMALS_pos by (intro divide_right_mono) simp_all

lemma fixed10_mono:
  assumes "x \<le> y"
  shows "fixed10 x \<le> fixed10 y"
proof -
  consider "x < 0" "y < 0" | "x < 0" "\<not> y < 0" | "\<not> x < 0" "\<not> y < 0" using assms by linarith
  then show ?thesis
  proof cases
    case 1
    then show ?thesis using assms units_le [of "\<bar>y\<bar>" "\<bar>x\<bar>"] unfolding fixed10_cases(2) [OF 1(1)] fixed10_cases(2) [OF 1(2)] by linarith
  next
    case 2
    then show ?thesis using units_nonneg [of x] units_nonneg [of y] unfolding fixed10_cases(2) [OF 2(1)] fixed10_cases(1) [OF 2(2)]
      by linarith
  next
    case 3
    then show ?thesis using assms units_le [of "\<bar>x\<bar>" "\<bar>y\<bar>"] unfolding fixed10_cases(1) [OF 3(1)] fixed10_cases(1) [OF 3(2)]
      by linarith
  qed
qed

lemma fixed10_int: "fixed10 (of_int n) = of_int n"
proof -
  have "\<lfloor>of_int (\<bar>n\<bar> * DECIMALS) + (1 / 2 :: rat)\<rfloor> = \<bar>n\<bar> * DECIMALS" by linarith
  then have "\<lfloor>\<bar>of_int n\<bar> * of_int DECIMALS + (1 / 2 :: rat)\<rfloor> = \<bar>n\<bar> * DECIMALS" by simp
  then show ?thesis using DECIMALS_pos by (cases "n < 0") (simp_all add: fixed10_cases)
qed

text \<open>
  A step of a number input stays between its bounds, when these have at most ten decimals and are in order.
\<close>

theorem nextStepValue_bounds:
  assumes "\<And>m. ni_min i = Some m \<Longrightarrow> fixed10 m = m" "\<And>m. ni_max i = Some m \<Longrightarrow> fixed10 m = m"
    and "\<And>a b. \<lbrakk>ni_min i = Some a; ni_max i = Some b\<rbrakk> \<Longrightarrow> a \<le> b"
  shows "(case ni_min i of Some m \<Rightarrow> m \<le> nextStepValue i direction | None \<Rightarrow> True) \<and>
    (case ni_max i of Some m \<Rightarrow> nextStepValue i direction \<le> m | None \<Rightarrow> True)"
proof -
  have low: "m \<le> fixed10 n" if "ni_min i = Some m" "m \<le> n" for m n
    using fixed10_mono [OF that(2)] assms(1) [OF that(1)] by simp
  have high: "fixed10 n \<le> m" if "ni_max i = Some m" "n \<le> m" for m n
    using fixed10_mono [OF that(2)] assms(2) [OF that(1)] by simp
  show ?thesis using assms(3) by (auto simp: nextStepValue_def Let_def split: option.split intro!: low high)
qed

theorem nextStepValue_bounds_witness:
  "nextStepValue \<lparr>ni_value = Some 9, ni_step = Some (5 / 2), ni_min = Some 0, ni_max = Some 10\<rparr> 1 \<le> 10"
proof -
  have "fixed10 0 = 0" "fixed10 10 = 10" using fixed10_int [of 0] fixed10_int [of 10] by simp_all
  then show ?thesis
    using nextStepValue_bounds [of "\<lparr>ni_value = Some 9, ni_step = Some (5 / 2), ni_min = Some 0, ni_max = Some 10\<rparr>" 1] by simp
qed

section \<open>Traffic lists\<close>

lemma insort_keeps_last:
  assumes "sorted_wrt (\<lambda>a b. P a \<longrightarrow> P b) ys" "\<And>y. \<lbrakk>P x; \<not> P y\<rbrakk> \<Longrightarrow> 0 < cmp x y" "\<And>y. \<lbrakk>\<not> P x; P y\<rbrakk> \<Longrightarrow> cmp x y \<le> 0"
  shows "sorted_wrt (\<lambda>a b. P a \<longrightarrow> P b) (insort_cmp cmp x ys)"
  using assms(1)
proof (induction ys)
  case (Cons y ys)
  show ?case
  proof (cases "cmp x y \<le> 0")
    case True
    have "P x \<longrightarrow> P y"
    proof (rule impI, rule ccontr)
      assume "P x" "\<not> P y"
      then show False using assms(2) [of y] True by simp
    qed
    moreover have "P y \<longrightarrow> P b" if "b \<in> set ys" for b using Cons.prems that by simp
    ultimately have "P x \<longrightarrow> P b" if "b \<in> set (y # ys)" for b using that by (metis set_ConsD)
    then have "sorted_wrt (\<lambda>a b. P a \<longrightarrow> P b) (x # y # ys)" using Cons.prems unfolding sorted_wrt.simps(2) [of _ x] by metis
    moreover have "insort_cmp cmp x (y # ys) = x # y # ys" using True by simp
    ultimately show ?thesis by (simp only:)
  next
    case False
    then have "P y \<longrightarrow> P x" using assms(3) [of y] by blast
    then show ?thesis using False Cons by (simp add: set_insort_cmp)
  qed
qed simp

lemma js_sort_keeps_last:
  assumes "\<And>x y. \<lbrakk>P x; \<not> P y\<rbrakk> \<Longrightarrow> 0 < cmp x y" "\<And>x y. \<lbrakk>\<not> P x; P y\<rbrakk> \<Longrightarrow> cmp x y \<le> 0"
  shows "sorted_wrt (\<lambda>a b. P a \<longrightarrow> P b) (js_sort cmp xs)"
proof (induction xs)
  case Nil
  show ?case by (simp add: js_sort_def)
next
  case (Cons x xs)
  then show ?case unfolding js_sort_Cons using assms by (intro insort_keeps_last) auto
qed

definition listed_rows :: "traffic_table \<Rightarrow> traffic_row list" where
  "listed_rows t = filter (\<lambda>r. tt_showHidden t \<or> \<not> tr_hidable r) (tt_rows t)"

definition sorted_rows :: "(json \<Rightarrow> json \<Rightarrow> int) \<Rightarrow> traffic_table \<Rightarrow> traffic_row list" where
  "sorted_rows lc t = map snd (js_sort (compare_rows lc (tt_key t) (tt_asc t)) (enumerate 0 (listed_rows t)))"

lemma sorted_rows_set: "set (sorted_rows lc t) = set (listed_rows t)"
proof -
  have "set (sorted_rows lc t) = set (map snd (enumerate 0 (listed_rows t)))"
    unfolding sorted_rows_def set_map set_js_sort ..
  then show ?thesis by (simp only: map_snd_enumerate)
qed

lemma length_insort_cmp: "length (insort_cmp cmp x ys) = Suc (length ys)"
  by (induction ys) auto

lemma length_js_sort: "length (js_sort cmp xs) = length xs"
  by (induction xs) (simp_all add: js_sort_Cons length_insort_cmp, simp add: js_sort_def)

lemma sorted_rows_length: "length (sorted_rows lc t) = length (listed_rows t)"
  by (simp add: sorted_rows_def length_js_sort)

lemma sorted_rows_ids:
  assumes "distinct (map tr_id (tt_rows t))"
  shows "distinct (map tr_id (sorted_rows lc t))"
proof -
  have d: "distinct (map tr_id (listed_rows t))" using assms by (simp add: listed_rows_def distinct_map_filter)
  have "card (tr_id ` set (sorted_rows lc t)) = length (sorted_rows lc t)"
    unfolding sorted_rows_set sorted_rows_length using distinct_card [OF d] by simp
  then show ?thesis using card_distinct [of "map tr_id (sorted_rows lc t)"] by simp
qed

lemma pinned_last: "sorted_wrt (\<lambda>a b. tr_pinned a \<longrightarrow> tr_pinned b) (sorted_rows lc t)"
proof -
  have "sorted_wrt (\<lambda>a b. tr_pinned (snd a) \<longrightarrow> tr_pinned (snd b))
      (js_sort (compare_rows lc (tt_key t) (tt_asc t)) (enumerate 0 (listed_rows t)))"
    by (rule js_sort_keeps_last) (simp_all add: compare_rows_def flag_def Let_def)
  then show ?thesis unfolding sorted_rows_def sorted_wrt_map .
qed

lemma rank_of_sorted:
  assumes "distinct (map tr_id rows)" "k < length rows"
  shows "rank_rows rows (tr_id (rows ! k)) = Some k"
proof -
  let ?ids = "map tr_id rows"
  have "take k ?ids @ ?ids ! k # drop (Suc k) ?ids = ?ids" using assms(2) by (intro id_take_nth_drop [symmetric]) simp
  moreover have "?ids ! k \<notin> set (take k ?ids)"
    using assms nth_eq_iff_index_eq [OF assms(1), of _ k] by (auto simp: in_set_conv_nth)
  ultimately have "takeWhile (\<lambda>x. x \<noteq> ?ids ! k) ?ids = take k ?ids" by (metis takeWhile_sep)
  then show ?thesis using assms(2) by (simp add: rank_rows_def index_of_single)
qed

lemma rank_none: "i \<notin> tr_id ` set rows \<Longrightarrow> rank_rows rows i = None"
  by (simp add: rank_rows_def index_of_single)

lemma resort_fields:
  "tt_total (resort lc t) = length (listed_rows t)" "tt_per (resort lc t) = tt_per t"
  "tt_page (resort lc t) = min (tt_page t) (last_page (length (listed_rows t)) (tt_per t))"
  "tt_ranks (resort lc t) i =
     (case rank_rows (sorted_rows lc t) i of
        Some k \<Rightarrow> Some k | None \<Rightarrow> if i \<in> tr_id ` set (filter tr_hidable (tt_rows t)) then None else tt_ranks t i)"
  by (simp_all add: resort_def Let_def sorted_rows_def listed_rows_def length_js_sort)

lemma page_of_rank:
  assumes "0 < per" "k < n"
  shows "(\<exists>!p. p \<le> last_page n per \<and> k \<ge> p * per \<and> k < (p + 1) * per)"
proof (rule ex1I [of _ "k div per"])
  have "(k + per) div per \<le> (n + per - 1) div per" using assms by (intro div_le_mono) simp
  then have "k div per \<le> last_page n per" using assms(1) by (simp add: last_page_def)
  moreover have "k div per * per \<le> k" by simp
  moreover have "k < (k div per + 1) * per" using dividend_less_div_times [OF assms(1), of k] by simp
  ultimately show "k div per \<le> last_page n per \<and> k \<ge> k div per * per \<and> k < (k div per + 1) * per" by blast
next
  fix p assume "p \<le> last_page n per \<and> k \<ge> p * per \<and> k < (p + 1) * per"
  then have "p * per \<le> k" "k < Suc p * per" by simp_all
  then show "p = k div per" using div_nat_eqI [of per p k] by (simp add: mult.commute)
qed

text \<open>C34: 
  After a sort every listed row is on exactly one of the pages, the page shown is one of them, rows that are left out are on
  none, and the pinned rows come after all others.
\<close>

theorem traffic_pages:
  assumes "distinct (map tr_id (tt_rows t))" "0 < tt_per t"
  shows "(\<forall>r \<in> set (listed_rows t).
      \<exists>!p. p \<le> last_page (tt_total (resort lc t)) (tt_per t) \<and> shown_row ((resort lc t)\<lparr>tt_page := p\<rparr>) (tr_id r)) \<and>
    tt_page (resort lc t) \<le> last_page (tt_total (resort lc t)) (tt_per t) \<and>
    (\<forall>r \<in> set (tt_rows t) - set (listed_rows t). \<not> shown_row ((resort lc t)\<lparr>tt_page := p\<rparr>) (tr_id r)) \<and>
    (\<forall>a \<in> set (listed_rows t). \<forall>b \<in> set (listed_rows t). \<not> tr_pinned a \<and> tr_pinned b \<longrightarrow>
      the (tt_ranks (resort lc t) (tr_id a)) < the (tt_ranks (resort lc t) (tr_id b)))"
proof -
  let ?rows = "sorted_rows lc t" and ?n = "length (listed_rows t)"
  have d: "distinct (map tr_id ?rows)" by (rule sorted_rows_ids [OF assms(1)])
  have rank: "\<exists>k < ?n. ?rows ! k = r \<and> tt_ranks (resort lc t) (tr_id r) = Some k" if "r \<in> set (listed_rows t)" for r
  proof -
    obtain k where k: "k < length ?rows" "?rows ! k = r" using \<open>r \<in> _\<close> sorted_rows_set [of lc t] by (metis in_set_conv_nth)
    then have "rank_rows ?rows (tr_id r) = Some k" using rank_of_sorted [OF d k(1)] by simp
    then show ?thesis using k by (intro exI [of _ k]) (simp add: resort_fields sorted_rows_length)
  qed
  have "\<exists>!p. p \<le> last_page (tt_total (resort lc t)) (tt_per t) \<and> shown_row ((resort lc t)\<lparr>tt_page := p\<rparr>) (tr_id r)"
    if r: "r \<in> set (listed_rows t)" for r
  proof -
    obtain k where k: "k < ?n" "tt_ranks (resort lc t) (tr_id r) = Some k" using rank [OF r] by blast
    then show ?thesis using page_of_rank [OF assms(2) k(1)] by (simp add: shown_row_def resort_fields(1,2))
  qed
  moreover have "\<not> shown_row ((resort lc t)\<lparr>tt_page := p\<rparr>) (tr_id r)" if r: "r \<in> set (tt_rows t) - set (listed_rows t)" for r
  proof -
    have h: "tr_hidable r" using r by (auto simp: listed_rows_def)
    have "tr_id r \<notin> tr_id ` set (listed_rows t)"
      using r assms(1) by (auto simp: distinct_map inj_on_def listed_rows_def)
    then have "rank_rows ?rows (tr_id r) = None" by (intro rank_none) (simp add: sorted_rows_set)
    then show ?thesis using r h by (auto simp: shown_row_def resort_fields)
  qed
  moreover have "the (tt_ranks (resort lc t) (tr_id a)) < the (tt_ranks (resort lc t) (tr_id b))"
    if ab: "a \<in> set (listed_rows t)" "b \<in> set (listed_rows t)" "\<not> tr_pinned a" "tr_pinned b" for a b
  proof -
    obtain j k where jk: "j < ?n" "?rows ! j = a" "tt_ranks (resort lc t) (tr_id a) = Some j"
      "k < ?n" "?rows ! k = b" "tt_ranks (resort lc t) (tr_id b) = Some k" using rank ab(1,2) by meson
    have "\<not> k < j" using sorted_wrt_nth_less [OF pinned_last [of lc t], of k j] jk ab(3,4) by (auto simp: sorted_rows_length)
    moreover have "j \<noteq> k" using jk ab(3,4) by auto
    ultimately show ?thesis using jk by simp
  qed
  ultimately show ?thesis by (auto simp: resort_fields)
qed

text \<open>Three requests in pages of two rows, the remainder last.\<close>

definition three_rows :: traffic_table where
  "three_rows =
     \<lparr>tt_page = 5, tt_per = 2, tt_total = 0, tt_key = ''requests'', tt_asc = False, tt_tick = 0, tt_showHidden = False,
      tt_hiddenCount = 0,
      tt_rows = map (\<lambda>(i, v, p, h). \<lparr>tr_id = i, tr_data = Some (JObj [(''requests'', JNum v)]), tr_pinned = p, tr_hidable = h\<rparr>)
        [(1, 5, True, False), (2, 3, False, False), (3, 9, False, True), (4, 7, False, False)],
      tt_ranks = Map.empty\<rparr>"

theorem traffic_pages_witness:
  "tt_page (resort (\<lambda>_ _. 0) three_rows) \<le> last_page (tt_total (resort (\<lambda>_ _. 0) three_rows)) (tt_per three_rows) \<and>
   tt_total (resort (\<lambda>_ _. 0) three_rows) = 3"
proof -
  have "distinct (map tr_id (tt_rows three_rows))" "0 < tt_per three_rows" by (simp_all add: three_rows_def)
  moreover have "length (listed_rows three_rows) = 3" by (simp add: listed_rows_def three_rows_def)
  ultimately show ?thesis using traffic_pages [of three_rows "\<lambda>_ _. 0"] by (simp add: resort_fields(1))
qed

section \<open>Scrolling to a section\<close>

definition scroll_ok :: "section_scroll \<Rightarrow> bool" where
  "scroll_ok s \<longleftrightarrow>
     ss_highlights s \<le> 1 \<and> (ss_finished s \<longleftrightarrow> \<not> ss_frame s) \<and> (ss_frame s \<longrightarrow> ss_listening s \<and> ss_highlights s = 0 \<and> ss_frames s < MAX_FRAMES) \<and>
     (ss_listening s \<longrightarrow> ss_frame s)"

lemma scroll_step_ok: "scroll_ok s \<Longrightarrow> scroll_ok (scroll_step e s)"
  by (cases e) (auto simp: scroll_ok_def scroll_step_def scroll_tick_def finish_scroll_def Let_def)

lemma scroll_run_snoc: "scroll_run (es @ [e]) = scroll_step e (scroll_run es)"
  by (simp add: scroll_run_def)

lemma scroll_run_ok: "scroll_ok (scroll_run es)"
proof (induction es rule: rev_induct)
  case Nil
  show ?case by (simp add: scroll_run_def scroll_start_def scroll_ok_def MAX_FRAMES_def)
next
  case (snoc e es)
  then show ?case by (simp add: scroll_run_snoc scroll_step_ok)
qed

definition is_frame :: "scroll_event \<Rightarrow> bool" where
  "is_frame e = (case e of Frame _ \<Rightarrow> True | _ \<Rightarrow> False)"

lemma scroll_progress:
  assumes "Superseded \<notin> set es"
  shows "ss_highlights (scroll_run es) = 1 \<or> ss_frame (scroll_run es) \<and> ss_frames (scroll_run es) = length (filter is_frame es)"
  using assms
proof (induction es rule: rev_induct)
  case Nil
  show ?case by (simp add: scroll_run_def scroll_start_def)
next
  case (snoc e es)
  have ok: "scroll_ok (scroll_run es)" by (rule scroll_run_ok)
  then show ?case using snoc unfolding scroll_run_snoc
    by (cases e) (auto simp: scroll_step_def scroll_tick_def finish_scroll_def Let_def scroll_ok_def is_frame_def)
qed

text \<open>
  Scrolling to a section highlights it exactly once, at the latest in frame 180, also where the browser has no scrollend event
  or nothing scrolls; only another call for the section ends it before.
\<close>

theorem section_highlighted_once:
  assumes "Superseded \<notin> set es" "MAX_FRAMES \<le> length (filter is_frame es)"
  shows "ss_highlights (scroll_run es) = 1"
  using scroll_progress [OF assms(1)] scroll_run_ok [of es] assms(2) by (auto simp: scroll_ok_def)

theorem section_highlighted_once_witness: "ss_highlights (scroll_run (ScrollEnd # replicate 180 (Frame 0))) = 1"
  by (rule section_highlighted_once) (simp_all add: is_frame_def MAX_FRAMES_def)

section \<open>Copying\<close>

lemma copied_once:
  "copyTextToClipboard txt write writeText = Inr ws \<longleftrightarrow>
     (\<exists>v. txt = Inr v \<and> ws = [v] \<and> (write = Some (Inr ()) \<or> writeText = Inr ()))"
  by (auto simp: copyTextToClipboard_def Let_def split: sum.splits option.splits)

end
