(* ===== verification/Terminal_Layout.thy ===== *)
theory Terminal_Layout
  imports Canvas_Core Page_Helpers
begin

text \<open>
  The page around the terminal, the rest of \<open>resources/js/terminal.js\<close>: the themes, the labels of the session's time,
  the key handler, the insets of a software keyboard, and the full screen with its locks. The document is a map from
  elements (numbers) to their inline styles; what the browser measures is an argument.
\<close>

section \<open>Themes\<close>

text \<open>A theme is the list of its colours; a later entry with the same name wins, as in an object.\<close>

type_synonym theme = "(jstring \<times> jstring) list"

definition override :: "theme \<Rightarrow> theme \<Rightarrow> theme" where
  "override old new0 = filter (\<lambda>e. fst e \<notin> fst ` set new0) old @ new0"

definition baseApplicationTerminalTheme :: theme where
  "baseApplicationTerminalTheme =
     [(''black'', ''#675f70''), (''red'', ''#ef7272''), (''green'', ''#7bd88f''), (''yellow'', ''#e7bd68''),
      (''blue'', ''#85aacb''), (''magenta'', ''#c792ea''), (''cyan'', ''#72d5d0''), (''white'', ''#d8d2df''),
      (''brightBlack'', ''#8a8292''), (''brightRed'', ''#ff9b9b''), (''brightGreen'', ''#a5e7b2''),
      (''brightYellow'', ''#f2d596''), (''brightBlue'', ''#b0c8df''), (''brightMagenta'', ''#ddb3f4''),
      (''brightCyan'', ''#a7e8e4''), (''brightWhite'', ''#ffffff''), (''foreground'', ''#eee9f2''),
      (''background'', ''#00000000''), (''overviewRulerBorder'', ''#00000000'')]"

definition createApplicationTerminalTheme :: "jstring \<Rightarrow> theme \<Rightarrow> theme" where
  "createApplicationTerminalTheme accent colors =
     override (override baseApplicationTerminalTheme
       [(''cursor'', accent), (''cursorAccent'', ''#101012''), (''selectionBackground'', accent @ ''66'')]) colors"

definition light_colors :: theme where
  "light_colors =
     [(''black'', ''#18181b''), (''red'', ''#dc2626''), (''green'', ''#15803d''), (''yellow'', ''#a16207''),
      (''blue'', ''#2563eb''), (''magenta'', ''#9333ea''), (''cyan'', ''#0e7490''), (''white'', ''#52525b''),
      (''brightBlack'', ''#71717a''), (''brightRed'', ''#b91c1c''), (''brightGreen'', ''#166534''),
      (''brightYellow'', ''#854d0e''), (''brightBlue'', ''#1d4ed8''), (''brightMagenta'', ''#7e22ce''),
      (''brightCyan'', ''#155e75''), (''brightWhite'', ''#18181b''), (''foreground'', ''#18181b'')]"

definition THEME_COLOURS :: "(jstring \<times> jstring \<times> theme) list" where
  "THEME_COLOURS =
     [(''shadows-midnight'', ''#6d7a7c'',
        [(''blue'', ''#7392ad''), (''cyan'', ''#7fa3a6''), (''brightBlue'', ''#9bb4c9''), (''brightCyan'', ''#a8c4c6'')]),
      (''shadows-golden-hour'', ''#bf8c3c'',
        [(''yellow'', ''#d9a759''), (''red'', ''#df7756''), (''brightYellow'', ''#edc987''),
         (''brightRed'', ''#efa086'')]),
      (''shadows-cosmic-purple'', ''#A76DBE'',
        [(''blue'', ''#8f86d9''), (''magenta'', ''#c58ad8''), (''brightBlue'', ''#b1a9ed''),
         (''brightMagenta'', ''#ddb0e9'')]),
      (''shadows-neon-glow'', ''#DB425A'',
        [(''red'', ''#ed5d72''), (''magenta'', ''#f35fc2''), (''brightRed'', ''#ff8c9d''),
         (''brightMagenta'', ''#ff93d7'')]),
      (''shadows-icy-mist'', ''#93b7c4'',
        [(''blue'', ''#8fb7d0''), (''cyan'', ''#9acbd0''), (''brightBlue'', ''#b9d5e5''), (''brightCyan'', ''#c0e3e5'')]),
      (''shadows-tropical-storm'', ''#1fa771'',
        [(''green'', ''#45c98b''), (''cyan'', ''#4ec7ad''), (''brightGreen'', ''#7de0ad''),
         (''brightCyan'', ''#80dfcc'')]),
      (''shadows-golden-nebula'', ''#d4a20e'',
        [(''yellow'', ''#e5bb35''), (''red'', ''#ee755f''), (''blue'', ''#718fc1''), (''brightYellow'', ''#f4d375'')]),
      (''shadows-cosmic-lagoon'', ''#00b5b8'',
        [(''blue'', ''#668de0''), (''magenta'', ''#ba6ad0''), (''cyan'', ''#38c6c8''), (''brightCyan'', ''#76e0e2'')]),
      (''shadows-neon-nebula'', ''#ff55aa'',
        [(''blue'', ''#6f91dd''), (''magenta'', ''#ff72c1''), (''cyan'', ''#51d5d5''), (''brightMagenta'', ''#ffa1d4'')]),
      (''shadows-transparent'', ''#8C8E9C'', [])]"

definition applicationTerminalThemes :: "(jstring \<times> theme) list" where
  "applicationTerminalThemes = map (\<lambda>(n, accent, colors). (n, createApplicationTerminalTheme accent colors)) THEME_COLOURS"

text \<open>
  \<open>customThemeAccent\<close>: \<open>stored\<close> is the colour in the local storage. A channel is moved 15 % towards white; halves are
  rounded up.
\<close>

definition is_hex :: "char \<Rightarrow> bool" where
  "is_hex c \<longleftrightarrow> is_digit c \<or> c \<in> set ''abcdefABCDEF''"

definition hex_val :: "char \<Rightarrow> nat" where
  "hex_val c = (if is_digit c then digit_val c else (of_char (js_lower_char c) :: nat) - 87)"

definition hex_char :: "nat \<Rightarrow> char" where
  "hex_char n = ''0123456789abcdef'' ! n"

text \<open>\<open>n.toString(16).padStart(2, '0')\<close> of a channel.\<close>

definition hex2 :: "nat \<Rightarrow> jstring" where
  "hex2 n = [hex_char (n div 16), hex_char (n mod 16)]"

definition lighter :: "nat \<Rightarrow> nat" where
  "lighter c = (c * 85 + 255 * 15 + 50) div 100"

definition is_colour :: "jstring \<Rightarrow> bool" where
  "is_colour s \<longleftrightarrow> length s = 7 \<and> hd s = CHR ''#'' \<and> list_all is_hex (tl s)"

definition accent_of :: "jstring \<Rightarrow> jstring" where
  "accent_of color =
     (case color of
        [_, a, b, c, d, e, f] \<Rightarrow>
          CHR ''#'' # hex2 (lighter (hex_val a * 16 + hex_val b)) @ hex2 (lighter (hex_val c * 16 + hex_val d)) @
            hex2 (lighter (hex_val e * 16 + hex_val f))
      | _ \<Rightarrow> ''#7c3aed'')"

definition customThemeAccent :: "jstring option \<Rightarrow> jstring" where
  "customThemeAccent stored =
     (let color = (case stored of Some s \<Rightarrow> if s = [] then ''#6b16ed'' else s | None \<Rightarrow> ''#6b16ed'')
      in if \<not> is_colour color then ''#7c3aed'' else accent_of color)"

definition createSystemTerminalTheme :: "bool \<Rightarrow> bool \<Rightarrow> jstring option \<Rightarrow> theme" where
  "createSystemTerminalTheme isCustomTheme dark stored =
     (if dark then createApplicationTerminalTheme (if isCustomTheme then customThemeAccent stored else ''#8C8E9C'') []
      else createApplicationTerminalTheme (if isCustomTheme then customThemeAccent stored else ''#52525b'') light_colors)"

text \<open>The name of the theme and its colours as the terminal has them; an unknown name changes nothing.\<close>

record theme_state =
  th_selected :: jstring
  th_system :: theme
  th_stored :: jstring
  th_shown :: "theme option"

definition theme_named :: "theme_state \<Rightarrow> jstring \<Rightarrow> theme option" where
  "theme_named s n = (if n = ''system'' then Some (th_system s) else map_of applicationTerminalThemes n)"

definition initial_theme :: "jstring option \<Rightarrow> jstring" where
  "initial_theme stored =
     (case stored of
        Some n \<Rightarrow> if n = ''system'' \<or> n \<in> fst ` set applicationTerminalThemes then n else ''system''
      | None \<Rightarrow> ''system'')"

definition setTerminalTheme :: "theme \<Rightarrow> bool \<Rightarrow> jstring \<Rightarrow> theme_state \<Rightarrow> theme_state" where
  "setTerminalTheme system0 hasTerm n s =
     (if theme_named s n = None then s
      else
        (let s1 = (if n = ''system'' then s\<lparr>th_system := system0\<rparr> else s);
             s2 = s1\<lparr>th_selected := n, th_stored := n\<rparr>
         in if hasTerm then s2\<lparr>th_shown := theme_named s2 n\<rparr> else s2))"

definition theme_observed :: "theme \<Rightarrow> bool \<Rightarrow> theme_state \<Rightarrow> theme_state" where
  "theme_observed system0 hasTerm s =
     (if th_selected s = ''system'' then setTerminalTheme system0 hasTerm ''system'' (s\<lparr>th_system := system0\<rparr>) else s)"

definition consoleForeground :: "theme option \<Rightarrow> jstring" where
  "consoleForeground t =
     (case Option.bind t (\<lambda>t. map_of t ''foreground'') of Some c \<Rightarrow> if c = [] then ''#ffffff'' else c | None \<Rightarrow> ''#ffffff'')"

section \<open>The time left\<close>

definition TERMINAL_SESSION_WARNING_SECONDS :: rat where "TERMINAL_SESSION_WARNING_SECONDS = 30 * 60"
definition TERMINAL_SESSION_DANGER_SECONDS :: rat where "TERMINAL_SESSION_DANGER_SECONDS = 5 * 60"

definition terminalSessionRemainingLabel :: "rat option \<Rightarrow> jstring" where
  "terminalSessionRemainingLabel seconds =
     (case seconds of None \<Rightarrow> [] | Some q \<Rightarrow> ''Session expires in '' @ formatTerminalSessionRemainingTime q)"

datatype timer_class = Plain | Warning | Danger

definition terminalSessionTimerClass :: "rat option \<Rightarrow> timer_class" where
  "terminalSessionTimerClass seconds =
     (case seconds of
        None \<Rightarrow> Plain
      | Some q \<Rightarrow> if q \<le> TERMINAL_SESSION_DANGER_SECONDS then Danger
                  else if q \<le> TERMINAL_SESSION_WARNING_SECONDS then Warning else Plain)"

section \<open>Keys and the selection\<close>

record key_event =
  ke_down :: bool
  ke_key :: jstring
  ke_code :: jstring
  ke_ctrl :: bool
  ke_meta :: bool
  ke_alt :: bool

datatype key_effect = FocusConsole | CopyText jstring | ShowError jstring

text \<open>The custom key handler: its effects, and whether the terminal takes the key.\<close>

definition terminal_key :: "bool \<Rightarrow> jstring \<Rightarrow> key_event \<Rightarrow> key_effect list \<times> bool" where
  "terminal_key attach selection e =
     (if attach \<and> ke_down e \<and> length (ke_key e) = 1 \<and> \<not> ke_ctrl e \<and> \<not> ke_meta e \<and> \<not> ke_alt e then ([FocusConsole], False)
      else if ke_ctrl e \<and> ke_code e = ''KeyV'' \<and> ke_down e then ([], False)
      else if ke_ctrl e \<and> ke_code e = ''KeyC'' \<and> ke_down e \<and> selection \<noteq> [] then ([CopyText selection], False)
      else ([], True))"

definition focusConsoleFromOutput :: "bool \<Rightarrow> jstring \<Rightarrow> key_effect list" where
  "focusConsoleFromOutput attach selection = (if attach \<and> selection = [] then [FocusConsole] else [])"

definition copyTerminalSelection :: "jstring option \<Rightarrow> bool \<Rightarrow> key_effect list" where
  "copyTerminalSelection selection permitted =
     (case selection of
        Some s \<Rightarrow> if s = [] then [ShowError ''Select terminal text before copying.'']
                  else if permitted then [CopyText s] else [ShowError ''Clipboard copy permission was denied.'']
      | None \<Rightarrow> [ShowError ''Select terminal text before copying.''])"

section \<open>Inline styles\<close>

text \<open>
  The inline style of an element as the CSS object model has it: the value of every longhand property and whether it is
  important. The shorthands the code uses stand for two longhands; they read as empty unless both are set alike.
\<close>

type_synonym inline_style = "jstring \<Rightarrow> (jstring \<times> bool) option"

definition longhands :: "jstring \<Rightarrow> (jstring \<times> jstring) option" where
  "longhands p =
     (if p = ''overflow'' then Some (''overflow-x'', ''overflow-y'')
      else if p = ''overscroll-behavior'' then Some (''overscroll-behavior-x'', ''overscroll-behavior-y'') else None)"

definition getPropertyValue :: "inline_style \<Rightarrow> jstring \<Rightarrow> jstring" where
  "getPropertyValue st p =
     (case longhands p of
        Some (a, b) \<Rightarrow>
          (case (st a, st b) of
             (Some (v, i), Some (w, j)) \<Rightarrow> if i \<noteq> j then [] else if v = w then v else v @ '' '' @ w
           | _ \<Rightarrow> [])
      | None \<Rightarrow> (case st p of Some (v, i) \<Rightarrow> v | None \<Rightarrow> []))"

definition setProperty :: "jstring \<Rightarrow> jstring \<Rightarrow> bool \<Rightarrow> inline_style \<Rightarrow> inline_style" where
  "setProperty p v important st =
     (case longhands p of
        Some (a, b) \<Rightarrow>
          (case split_on (CHR '' '') v of
             [x, y] \<Rightarrow> st(a \<mapsto> (x, important), b \<mapsto> (y, important))
           | _ \<Rightarrow> st(a \<mapsto> (v, important), b \<mapsto> (v, important)))
      | None \<Rightarrow> st(p \<mapsto> (v, important)))"

definition removeProperty :: "jstring \<Rightarrow> inline_style \<Rightarrow> inline_style" where
  "removeProperty p st =
     (case longhands p of Some (a, b) \<Rightarrow> st(a := None, b := None) | None \<Rightarrow> st(p := None))"

text \<open>\<open>restore\<close>, and the loop over the saved entries of a patch: the priority of a property is not saved.\<close>

definition restore_property :: "jstring \<times> jstring \<Rightarrow> inline_style \<Rightarrow> inline_style" where
  "restore_property e st = (if snd e \<noteq> [] then setProperty (fst e) (snd e) False st else removeProperty (fst e) st)"

definition saved_values :: "jstring list \<Rightarrow> inline_style \<Rightarrow> (jstring \<times> jstring) list" where
  "saved_values ps st = map (\<lambda>p. (p, getPropertyValue st p)) ps"

section \<open>Full screen\<close>

text \<open>The page: the elements, the ancestors of the terminal below the root element, from its parent on.\<close>

record console_page =
  cp_html :: nat
  cp_body :: nat
  cp_wrapper :: nat
  cp_ancestors :: "nat list"
  cp_main :: "nat option"
  cp_main_static :: bool
  cp_inner_width :: real
  cp_client_width :: real

record fullscreen_state =
  fl_styles :: "nat \<Rightarrow> inline_style"
  fl_fullscreen :: bool
  fl_patches :: "(nat \<times> (jstring \<times> jstring) list) list"
  fl_locked :: bool
  fl_saved :: "((jstring \<times> jstring) list \<times> (jstring \<times> jstring) list) option"
  fl_lockY :: real
  fl_scrollY :: real
  fl_prevented :: bool

definition PATCHED :: "jstring list" where
  "PATCHED = [''isolation'', ''transform'', ''filter'', ''backdrop-filter'', ''contain'', ''overflow'', ''overflow-x'', ''overflow-y'',
     ''will-change'', ''perspective'', ''z-index'', ''position'']"

definition forced :: "(jstring \<times> jstring) list" where
  "forced = [(''isolation'', ''auto''), (''transform'', ''none''), (''filter'', ''none''), (''backdrop-filter'', ''none''),
     (''contain'', ''none''), (''perspective'', ''none''), (''will-change'', ''auto''), (''overflow'', ''visible''),
     (''overflow-x'', ''visible''), (''overflow-y'', ''visible''), (''z-index'', ''auto'')]"

definition force :: "(jstring \<times> jstring) list \<Rightarrow> inline_style \<Rightarrow> inline_style" where
  "force es st = foldl (\<lambda>st (p, v). setProperty p v True st) st es"

definition restoreAncestorsAfterFullscreen :: "fullscreen_state \<Rightarrow> fullscreen_state" where
  "restoreAncestorsAfterFullscreen s =
     s\<lparr>fl_styles := foldl (\<lambda>sts (el, es). sts(el := foldl (\<lambda>st e. restore_property e st) (sts el) es)) (fl_styles s) (fl_patches s),
       fl_patches := []\<rparr>"

definition patchAncestorsForFullscreen :: "console_page \<Rightarrow> fullscreen_state \<Rightarrow> fullscreen_state" where
  "patchAncestorsForFullscreen p s =
     (let s1 = restoreAncestorsAfterFullscreen s;
          patches = map (\<lambda>el. (el, saved_values PATCHED (fl_styles s1 el))) (cp_ancestors p);
          sts = foldl (\<lambda>sts el. sts(el := force forced (sts el))) (fl_styles s1) (cp_ancestors p)
      in case cp_main p of
           None \<Rightarrow> s1\<lparr>fl_patches := patches, fl_styles := sts\<rparr>
         | Some m \<Rightarrow>
             s1\<lparr>fl_patches := (if m \<in> fst ` set patches then patches else patches @ [(m, saved_values PATCHED (sts m))]),
                fl_styles := sts(m := setProperty ''z-index'' ''100001'' True
                  (if cp_main_static p then setProperty ''position'' ''relative'' True (sts m) else sts m))\<rparr>)"

definition HTML_LOCKED :: "jstring list" where
  "HTML_LOCKED = [''overflow'', ''overscroll-behavior'']"

definition BODY_LOCKED :: "jstring list" where
  "BODY_LOCKED = [''overflow'', ''position'', ''top'', ''left'', ''right'', ''width'', ''padding-right'', ''overscroll-behavior'']"

text \<open>\<open>px\<close> writes a length.\<close>

definition lockPageScroll :: "(real \<Rightarrow> jstring) \<Rightarrow> console_page \<Rightarrow> fullscreen_state \<Rightarrow> fullscreen_state" where
  "lockPageScroll px p s =
     (if fl_locked s then s
      else
        (let gap = max 0 (cp_inner_width p - cp_client_width p); sts = fl_styles s;
             html = force [(''overflow'', ''hidden''), (''overscroll-behavior'', ''none'')] (sts (cp_html p));
             body0 = (sts(cp_html p := html)) (cp_body p);
             body = force ([(''overflow'', ''hidden''), (''overscroll-behavior'', ''none''), (''position'', ''fixed''),
               (''top'', CHR ''-'' # px (fl_scrollY s)), (''left'', ''0''), (''right'', ''0''), (''width'', ''100%'')] @
               (if gap > 0 then [(''padding-right'', px gap)] else [])) body0
         in s\<lparr>fl_locked := True, fl_lockY := fl_scrollY s,
              fl_saved := Some (saved_values HTML_LOCKED (sts (cp_html p)), saved_values BODY_LOCKED (sts (cp_body p))),
              fl_styles := sts(cp_html p := html, cp_body p := body), fl_prevented := True\<rparr>))"

definition unlockPageScroll :: "console_page \<Rightarrow> fullscreen_state \<Rightarrow> fullscreen_state" where
  "unlockPageScroll p s =
     (if \<not> fl_locked s then s
      else
        (let (hs, bs) = (case fl_saved s of Some e \<Rightarrow> e | None \<Rightarrow> (map (\<lambda>q. (q, [])) HTML_LOCKED, map (\<lambda>q. (q, [])) BODY_LOCKED));
             html = foldl (\<lambda>st e. restore_property e st) (fl_styles s (cp_html p)) hs;
             sts = (fl_styles s)(cp_html p := html);
             body = foldl (\<lambda>st e. restore_property e st) (sts (cp_body p)) bs
         in s\<lparr>fl_locked := False, fl_prevented := False, fl_styles := sts(cp_body p := body), fl_saved := None,
              fl_scrollY := fl_lockY s, fl_lockY := 0\<rparr>))"

definition clear_wrapper :: "nat \<Rightarrow> fullscreen_state \<Rightarrow> fullscreen_state" where
  "clear_wrapper w s =
     s\<lparr>fl_styles := (fl_styles s)(w := removeProperty ''min-height'' (removeProperty ''height'' (removeProperty ''display'' (fl_styles s w))))\<rparr>"

definition enterFullscreen :: "(real \<Rightarrow> jstring) \<Rightarrow> console_page \<Rightarrow> fullscreen_state \<Rightarrow> fullscreen_state" where
  "enterFullscreen px p s =
     (if fl_fullscreen s then s
      else (clear_wrapper (cp_wrapper p) (lockPageScroll px p (patchAncestorsForFullscreen p s)))\<lparr>fl_fullscreen := True\<rparr>)"

definition exitFullscreen :: "console_page \<Rightarrow> fullscreen_state \<Rightarrow> fullscreen_state" where
  "exitFullscreen p s =
     clear_wrapper (cp_wrapper p) ((unlockPageScroll p (restoreAncestorsAfterFullscreen s))\<lparr>fl_fullscreen := False\<rparr>)"

definition makeFullscreen :: "(real \<Rightarrow> jstring) \<Rightarrow> console_page \<Rightarrow> fullscreen_state \<Rightarrow> fullscreen_state" where
  "makeFullscreen px p s = (if fl_fullscreen s then exitFullscreen p s else enterFullscreen px p s)"

text \<open>Whether the lock stops a wheel or touch event on an element inside the given selectors.\<close>

definition scroll_prevented :: "jstring list option \<Rightarrow> bool" where
  "scroll_prevented inside =
     (case inside of
        None \<Rightarrow> True
      | Some cs \<Rightarrow> set cs \<inter> {''.xterm-viewport'', ''[data-terminal-mobile-toolbar]'', ''.terminal-fullscreen-btn''} = {})"

section \<open>The software keyboard\<close>

record viewport =
  vp_width :: real
  vp_height :: real
  vp_offset :: real

record keyboard =
  kb_inset :: int
  kb_height :: real
  kb_width :: real
  kb_anchor :: int

definition no_keyboard :: keyboard where
  "no_keyboard = \<lparr>kb_inset = 0, kb_height = 0, kb_width = 0, kb_anchor = 0\<rparr>"

text \<open>\<open>updateKeyboardInset\<close> with the visual viewport, the inner size of the window and the height of the root element.\<close>

definition layout_height :: "viewport option \<Rightarrow> real \<Rightarrow> real \<Rightarrow> real" where
  "layout_height v innerHeight clientHeight =
     max (max innerHeight clientHeight) (case v of Some v \<Rightarrow> vp_height v + vp_offset v | None \<Rightarrow> 0)"

definition updateKeyboardInset :: "viewport option \<Rightarrow> real \<Rightarrow> real \<Rightarrow> real \<Rightarrow> keyboard \<Rightarrow> keyboard" where
  "updateKeyboardInset v innerWidth innerHeight clientHeight k =
     (let width = (case v of Some v \<Rightarrow> vp_width v | None \<Rightarrow> innerWidth);
          layoutHeight = layout_height v innerHeight clientHeight;
          height = (if \<bar>kb_width k - width\<bar> > 80 then layoutHeight else max (kb_height k) layoutHeight);
          bottom = (case v of Some v \<Rightarrow> vp_height v + vp_offset v | None \<Rightarrow> layoutHeight)
      in \<lparr>kb_inset = (if innerWidth < 640 \<and> v \<noteq> None then max 0 (js_round (height - bottom)) else 0),
          kb_height = height, kb_width = width, kb_anchor = js_round bottom\<rparr>)"

text \<open>\<open>syncFullscreenShellWithKeyboard\<close> on the style of the terminal.\<close>

definition syncFullscreenShell :: "(int \<Rightarrow> jstring) \<Rightarrow> bool \<Rightarrow> viewport option \<Rightarrow> keyboard \<Rightarrow> inline_style \<Rightarrow> inline_style" where
  "syncFullscreenShell px full v k st =
     (case v of
        Some v \<Rightarrow>
          if full \<and> kb_inset k > 0
          then setProperty ''bottom'' ''auto'' True (setProperty ''height'' (px (js_round (vp_height v))) True
                 (setProperty ''top'' (px (js_round (vp_offset v))) True st))
          else removeProperty ''bottom'' (removeProperty ''height'' (removeProperty ''top'' st))
      | None \<Rightarrow> removeProperty ''bottom'' (removeProperty ''height'' (removeProperty ''top'' st)))"

end
