(* ===== verification/Terminal_Layout_Safety.thy ===== *)
theory Terminal_Layout_Safety
  imports Terminal_Layout
begin

text \<open>
  Leaving the full screen gives the page its styles and its scroll position back, up to the overflow of the body; themes
  are complete; the accent of a custom theme is a light colour.
\<close>

section \<open>Inline styles\<close>

definition vals :: "inline_style \<Rightarrow> jstring \<Rightarrow> jstring option" where
  "vals st q = map_option fst (st q)"

text \<open>An inline style has longhands only, and no empty values.\<close>

definition plain_style :: "inline_style \<Rightarrow> bool" where
  "plain_style st \<longleftrightarrow> (\<forall>q v i. st q = Some (v, i) \<longrightarrow> v \<noteq> [] \<and> longhands q = None)"

lemma restore_longhand:
  assumes "plain_style st" "longhands q = None"
  shows "vals (restore_property (q, getPropertyValue st q) st') = (vals st')(q := vals st q)"
proof (cases "st q")
  case None
  then show ?thesis using assms(2) by (auto simp: restore_property_def getPropertyValue_def removeProperty_def vals_def)
next
  case (Some e)
  then have "fst e \<noteq> []" using assms(1) by (cases e) (auto simp: plain_style_def)
  then show ?thesis using assms(2) Some
    by (cases e) (auto simp: restore_property_def getPropertyValue_def setProperty_def vals_def)
qed

lemma restore_overflow:
  "\<exists>a b. vals (restore_property (''overflow'', v) st') = (vals st')(''overflow-x'' := a, ''overflow-y'' := b)"
proof (cases "v = []")
  case True
  then have "vals (restore_property (''overflow'', v) st') = (vals st')(''overflow-x'' := None, ''overflow-y'' := None)"
    by (auto simp: restore_property_def removeProperty_def longhands_def vals_def)
  then show ?thesis by blast
next
  case False
  define xy where "xy = (case split_on (CHR '' '') v of [x, y] \<Rightarrow> (x, y) | _ \<Rightarrow> (v, v))"
  have "setProperty ''overflow'' v False st' = st'(''overflow-x'' \<mapsto> (fst xy, False), ''overflow-y'' \<mapsto> (snd xy, False))"
    by (simp add: setProperty_def longhands_def xy_def split: list.split)
  then have "vals (restore_property (''overflow'', v) st') = (vals st')(''overflow-x'' := Some (fst xy), ''overflow-y'' := Some (snd xy))"
    using False by (auto simp: restore_property_def vals_def)
  then show ?thesis by blast
qed

definition restore_all :: "(jstring \<times> jstring) list \<Rightarrow> inline_style \<Rightarrow> inline_style" where
  "restore_all es st = foldl (\<lambda>st e. restore_property e st) st es"

definition PATCHED_LONG :: "jstring set" where
  "PATCHED_LONG = {''isolation'', ''transform'', ''filter'', ''backdrop-filter'', ''contain'', ''overflow-x'', ''overflow-y'',
     ''will-change'', ''perspective'', ''z-index'', ''position''}"

lemma restore_patched:
  assumes "plain_style st"
  shows "vals (restore_all (saved_values PATCHED st) st') q = (if q \<in> PATCHED_LONG then vals st q else vals st' q)"
proof -
  obtain a b where o': "vals (restore_property (''overflow'', getPropertyValue st ''overflow'') st2) =
      (vals st2)(''overflow-x'' := a st2, ''overflow-y'' := b st2)" for st2
    using restore_overflow [of "getPropertyValue st ''overflow''"] by metis
  have l: "longhands p = None" if "p \<in> PATCHED_LONG" for p
    using that by (auto simp: PATCHED_LONG_def longhands_def)
  have r: "vals (restore_property (p, getPropertyValue st p) st2) = (vals st2)(p := vals st p)" if "p \<in> PATCHED_LONG" for p st2
    using assms l [OF that] by (rule restore_longhand)
  have mem: "''isolation'' \<in> PATCHED_LONG" "''transform'' \<in> PATCHED_LONG" "''filter'' \<in> PATCHED_LONG"
    "''backdrop-filter'' \<in> PATCHED_LONG" "''contain'' \<in> PATCHED_LONG" "''overflow-x'' \<in> PATCHED_LONG" "''overflow-y'' \<in> PATCHED_LONG"
    "''will-change'' \<in> PATCHED_LONG" "''perspective'' \<in> PATCHED_LONG" "''z-index'' \<in> PATCHED_LONG" "''position'' \<in> PATCHED_LONG"
    by (simp_all add: PATCHED_LONG_def)
  show ?thesis
    unfolding restore_all_def saved_values_def PATCHED_def list.map foldl.simps
    unfolding r [OF mem(11)] r [OF mem(10)] r [OF mem(9)] r [OF mem(8)] r [OF mem(7)] r [OF mem(6)] o' r [OF mem(5)] r [OF mem(4)]
      r [OF mem(3)] r [OF mem(2)] r [OF mem(1)]
    by (simp add: PATCHED_LONG_def)
qed

lemma vals_set: "longhands p = None \<Longrightarrow> vals (setProperty p v i st) q = (if q = p then Some v else vals st q)"
  by (simp add: setProperty_def vals_def)

lemma force_outside:
  "q \<notin> PATCHED_LONG \<Longrightarrow> vals (force forced st) q = vals st q"
  by (simp add: force_def forced_def PATCHED_LONG_def setProperty_def longhands_def vals_def)

lemma forced_overflow: "getPropertyValue (force forced st) ''overflow'' = ''visible''"
  by (simp add: force_def forced_def getPropertyValue_def setProperty_def longhands_def)

section \<open>Many elements\<close>

lemma foldl_upd:
  "distinct els \<Longrightarrow> foldl (\<lambda>sts el. sts(el := f el (sts el))) sts els = (\<lambda>el. if el \<in> set els then f el (sts el) else sts el)"
  by (induction els arbitrary: sts) (auto simp: fun_eq_iff)

lemma foldl_patches:
  "distinct (map fst ps) \<Longrightarrow> foldl (\<lambda>sts (el, es). sts(el := foldl (\<lambda>st e. restore_property e st) (sts el) es)) sts ps =
    (\<lambda>el. case map_of ps el of Some es \<Rightarrow> restore_all es (sts el) | None \<Rightarrow> sts el)"
proof (induction ps arbitrary: sts)
  case (Cons a ps)
  obtain el es where a: "a = (el, es)" by (cases a)
  have new: "map_of ps el = None" using Cons.prems a by (simp add: map_of_eq_None_iff)
  have "(case map_of ps x of Some es \<Rightarrow> restore_all es ((sts(el := restore_all es0 (sts el))) x) | None \<Rightarrow> (sts(el := restore_all es0 (sts el))) x) =
      (case map_of ((el, es0) # ps) x of Some es \<Rightarrow> restore_all es (sts x) | None \<Rightarrow> sts x)" for x es0
    using new by (cases "x = el"; cases "map_of ps x") simp_all
  then show ?case using Cons.IH [of "sts(el := restore_all es (sts el))"] Cons.prems by (simp add: a restore_all_def)
qed simp

section \<open>Entering and leaving\<close>

definition page_ok :: "console_page \<Rightarrow> bool" where
  "page_ok p \<longleftrightarrow>
     distinct (cp_ancestors p) \<and> cp_html p \<notin> set (cp_ancestors p) \<and> cp_body p \<in> set (cp_ancestors p) \<and>
     cp_wrapper p \<notin> set (cp_ancestors p) \<and> cp_wrapper p \<noteq> cp_html p \<and>
     (\<forall>m. cp_main p = Some m \<longrightarrow> m \<noteq> cp_html p \<and> m \<noteq> cp_body p \<and> m \<noteq> cp_wrapper p)"

definition normal :: "fullscreen_state \<Rightarrow> bool" where
  "normal s \<longleftrightarrow> \<not> fl_fullscreen s \<and> fl_patches s = [] \<and> \<not> fl_locked s \<and> (\<forall>el. plain_style (fl_styles s el))"

definition patched :: "console_page \<Rightarrow> nat \<Rightarrow> bool" where
  "patched p el \<longleftrightarrow> el \<in> set (cp_ancestors p) \<or> cp_main p = Some el"

lemma patch_shape:
  assumes "page_ok p" "normal s"
  defines "t \<equiv> patchAncestorsForFullscreen p s"
  shows "distinct (map fst (fl_patches t))"
    "map_of (fl_patches t) el = (if patched p el then Some (saved_values PATCHED (fl_styles s el)) else None)"
    "q \<notin> PATCHED_LONG \<Longrightarrow> vals (fl_styles t el) q = vals (fl_styles s el) q"
    "\<not> patched p el \<Longrightarrow> fl_styles t el = fl_styles s el"
    "getPropertyValue (fl_styles t (cp_body p)) ''overflow'' = ''visible''"
    "\<not> fl_locked t" "fl_scrollY t = fl_scrollY s"
proof -
  let ?as = "cp_ancestors p"
  let ?ps = "map (\<lambda>el. (el, saved_values PATCHED (fl_styles s el))) ?as"
  let ?sts = "\<lambda>el. if el \<in> set ?as then force forced (fl_styles s el) else fl_styles s el"
  have d: "distinct ?as" "cp_body p \<in> set ?as" using assms(1) by (simp_all add: page_ok_def)
  have none: "restoreAncestorsAfterFullscreen s = s" using assms(2) by (cases s) (simp add: restoreAncestorsAfterFullscreen_def normal_def)
  have sts: "foldl (\<lambda>sts el. sts(el := force forced (sts el))) (fl_styles s) ?as = ?sts" by (rule foldl_upd [OF d(1)])
  have fst_ps: "map fst ?ps = ?as" by (simp add: comp_def)
  have of_ps: "map_of ?ps el = (if el \<in> set ?as then Some (saved_values PATCHED (fl_styles s el)) else None)" for el
    by (induction ?as rule: rev_induct) (simp_all add: map_of_map_restrict restrict_map_def)
  have lng: "longhands ''z-index'' = None" "longhands ''position'' = None" by (simp_all add: longhands_def)
  have "distinct (map fst (fl_patches t)) \<and>
      map_of (fl_patches t) el = (if patched p el then Some (saved_values PATCHED (fl_styles s el)) else None) \<and>
      (q \<notin> PATCHED_LONG \<longrightarrow> vals (fl_styles t el) q = vals (fl_styles s el) q) \<and>
      (\<not> patched p el \<longrightarrow> fl_styles t el = fl_styles s el) \<and>
      getPropertyValue (fl_styles t (cp_body p)) ''overflow'' = ''visible'' \<and> \<not> fl_locked t \<and> fl_scrollY t = fl_scrollY s"
  proof (cases "cp_main p")
    case None
    then have t: "t = s\<lparr>fl_patches := ?ps, fl_styles := ?sts\<rparr>"
      by (simp add: t_def patchAncestorsForFullscreen_def none sts Let_def)
    show ?thesis unfolding t using None d assms(2) force_outside of_ps
      by (auto simp: patched_def comp_def forced_overflow normal_def)
  next
    case (Some m)
    have m: "m \<noteq> cp_body p" using assms(1) Some by (simp add: page_ok_def)
    let ?st = "setProperty ''z-index'' ''100001'' True (if cp_main_static p then setProperty ''position'' ''relative'' True (?sts m) else ?sts m)"
    have t: "t = s\<lparr>fl_patches := (if m \<in> set ?as then ?ps else ?ps @ [(m, saved_values PATCHED (?sts m))]), fl_styles := ?sts(m := ?st)\<rparr>"
      unfolding t_def patchAncestorsForFullscreen_def none sts Let_def Some option.case
      by (simp add: image_image)
    have out: "q \<notin> PATCHED_LONG \<Longrightarrow> vals ?st q = vals (fl_styles s m) q"
      using force_outside [of q] by (auto simp: vals_set lng PATCHED_LONG_def)
    show ?thesis unfolding t using Some d assms(2) force_outside of_ps m out
      by (auto simp: patched_def comp_def forced_overflow normal_def)
  qed
  then show "distinct (map fst (fl_patches t))"
    "map_of (fl_patches t) el = (if patched p el then Some (saved_values PATCHED (fl_styles s el)) else None)"
    "q \<notin> PATCHED_LONG \<Longrightarrow> vals (fl_styles t el) q = vals (fl_styles s el) q"
    "\<not> patched p el \<Longrightarrow> fl_styles t el = fl_styles s el"
    "getPropertyValue (fl_styles t (cp_body p)) ''overflow'' = ''visible''"
    "\<not> fl_locked t" "fl_scrollY t = fl_scrollY s" by blast+
qed

text \<open>What entering leaves, apart from the locks on the root element and the body.\<close>

lemma enter_shape:
  fixes p px
  assumes "\<not> fl_fullscreen s"
  defines "t \<equiv> patchAncestorsForFullscreen p s" and "e \<equiv> enterFullscreen px p s"
  assumes "\<not> fl_locked t"
  shows "fl_patches e = fl_patches t" "fl_locked e" "fl_lockY e = fl_scrollY t"
    "\<lbrakk>el \<noteq> cp_html p; el \<noteq> cp_body p; el \<noteq> cp_wrapper p\<rbrakk> \<Longrightarrow> fl_styles e el = fl_styles t el"
    "fl_saved e = Some (saved_values HTML_LOCKED (fl_styles t (cp_html p)), saved_values BODY_LOCKED (fl_styles t (cp_body p)))"
  using assms by (simp_all add: enterFullscreen_def clear_wrapper_def lockPageScroll_def Let_def)

lemma restore_keeps:
  assumes "longhands q = None" "q \<noteq> a"
  shows "restore_property (q, v) st a = st a"
  using assms by (simp add: restore_property_def setProperty_def removeProperty_def)

lemma restore_body_overflow:
  assumes "getPropertyValue st ''overflow'' = ''visible''"
  shows "getPropertyValue (foldl (\<lambda>st e. restore_property e st) st' (saved_values BODY_LOCKED st)) ''overflow'' = ''visible''"
proof -
  have first: "restore_property (''overflow'', ''visible'') st2 ''overflow-x'' = Some (''visible'', False)"
    "restore_property (''overflow'', ''visible'') st2 ''overflow-y'' = Some (''visible'', False)" for st2
    by (simp_all add: restore_property_def setProperty_def longhands_def)
  have over: "restore_property (''overscroll-behavior'', v) st2 ''overflow-x'' = st2 ''overflow-x''"
    "restore_property (''overscroll-behavior'', v) st2 ''overflow-y'' = st2 ''overflow-y''" for v st2
    by (simp_all add: restore_property_def setProperty_def removeProperty_def longhands_def split: list.split)
  let ?st = "foldl (\<lambda>st e. restore_property e st) st' (saved_values BODY_LOCKED st)"
  have "?st ''overflow-x'' = Some (''visible'', False)" "?st ''overflow-y'' = Some (''visible'', False)"
    unfolding saved_values_def BODY_LOCKED_def list.map foldl.simps assms
    by (simp_all add: over first restore_keeps longhands_def)
  then show ?thesis by (simp add: getPropertyValue_def longhands_def)
qed


text \<open>A body whose content scrolls sideways is hidden: the page loses that after one full screen.\<close>

definition small_page :: console_page where
  "small_page = \<lparr>cp_html = 0, cp_body = 1, cp_wrapper = 3, cp_ancestors = [2, 1], cp_main = Some 2, cp_main_static = True,
     cp_inner_width = 800, cp_client_width = 800\<rparr>"

definition small_state :: fullscreen_state where
  "small_state = \<lparr>fl_styles = (\<lambda>_. Map.empty)(1 := [''overflow-x'' \<mapsto> (''hidden'', False)], 2 := [''z-index'' \<mapsto> (''1'', False)]),
     fl_fullscreen = False, fl_patches = [], fl_locked = False, fl_saved = None, fl_lockY = 0, fl_scrollY = 120, fl_prevented = False\<rparr>"


section \<open>Themes\<close>

definition COLOUR_NAMES :: "jstring list" where
  "COLOUR_NAMES = map fst baseApplicationTerminalTheme @ [''cursor'', ''cursorAccent'', ''selectionBackground'']"

lemma override_names: "fst ` set (override a b) = fst ` set a \<union> fst ` set b"
  unfolding override_def set_append set_filter image_Un by blast

lemma created_names:
  assumes "fst ` set cs \<subseteq> fst ` set baseApplicationTerminalTheme"
  shows "fst ` set (createApplicationTerminalTheme accent cs) = set COLOUR_NAMES"
  using assms by (auto simp: createApplicationTerminalTheme_def override_names COLOUR_NAMES_def)

definition well_formed_colour :: "jstring \<Rightarrow> bool" where
  "well_formed_colour s \<longleftrightarrow> s \<noteq> [] \<and> hd s = CHR ''#'' \<and> list_all is_hex (tl s) \<and> (length s = 7 \<or> length s = 9)"

lemma themes_checked:
  "list_all (\<lambda>(n, a, cs). is_colour a \<and>
     list_all (\<lambda>e. fst e \<in> set (map fst baseApplicationTerminalTheme) \<and> well_formed_colour (snd e)) cs) THEME_COLOURS"
  by code_simp

lemma base_checked: "list_all (\<lambda>e. well_formed_colour (snd e)) baseApplicationTerminalTheme"
  by code_simp

lemma created_colours:
  assumes "is_colour accent" "list_all (\<lambda>e. well_formed_colour (snd e)) cs" "(k, v) \<in> set (createApplicationTerminalTheme accent cs)"
  shows "well_formed_colour v"
proof -
  have accent: "well_formed_colour accent" "well_formed_colour (accent @ ''66'')"
    using assms(1) by (cases accent; simp add: is_colour_def well_formed_colour_def is_hex_def is_digit_def)+
  have "well_formed_colour ''#101012''" by (simp add: well_formed_colour_def is_hex_def is_digit_def)
  moreover have sub: "set (override a b) \<subseteq> set a \<union> set b" for a b by (auto simp: override_def)
  have "(k, v) \<in> set baseApplicationTerminalTheme \<union>
      set [(''cursor'', accent), (''cursorAccent'', ''#101012''), (''selectionBackground'', accent @ ''66'')] \<union> set cs"
    using assms(3) sub unfolding createApplicationTerminalTheme_def by (meson Un_iff subsetD)
  ultimately show ?thesis using assms(2) base_checked accent by (auto simp: list_all_iff)
qed

lemma hex_digits_length: "length ''0123456789abcdef'' = 16"
  by simp

lemma hex2_colour:
  assumes "n < 256"
  shows "length (hex2 n) = 2 \<and> list_all is_hex (hex2 n)"
proof -
  have "list_all is_hex ''0123456789abcdef''" by code_simp
  then have "is_hex (hex_char k)" if "k < 16" for k
    using that unfolding hex_char_def list_all_iff by (metis nth_mem hex_digits_length)
  then show ?thesis using assms by (simp add: hex2_def)
qed

lemma hex_val_less: "is_hex c \<Longrightarrow> hex_val c < 16"
proof -
  assume "is_hex c"
  then consider "is_digit c" | "c \<in> set ''abcdefABCDEF''" by (auto simp: is_hex_def)
  then show "hex_val c < 16"
  proof cases
    case 1
    then have "(of_char c :: nat) \<le> 57" by (simp add: is_digit_def)
    then show ?thesis using 1 by (simp add: hex_val_def digit_val_def)
  next
    case 2
    moreover have "list_all (\<lambda>c. hex_val c < 16) ''abcdefABCDEF''" by code_simp
    ultimately show ?thesis unfolding list_all_iff by blast
  qed
qed

lemma lighter_less: "c < 256 \<Longrightarrow> lighter c < 256"
proof -
  assume "c < 256"
  then show ?thesis by (simp add: lighter_def)
qed

lemma accent_colour: "is_colour s \<Longrightarrow> is_colour (accent_of s)"
proof -
  assume s: "is_colour s"
  then obtain z a b c d e f where e: "s = [z, a, b, c, d, e, f]" "list_all is_hex [a, b, c, d, e, f]"
    by (auto simp: is_colour_def numeral_eq_Suc length_Suc_conv)
  have ch: "lighter (hex_val x * 16 + hex_val y) < 256" if "is_hex x" "is_hex y" for x y
    using hex_val_less [OF that(1)] hex_val_less [OF that(2)] by (intro lighter_less) simp
  show ?thesis using hex2_colour [OF ch] e by (simp add: accent_of_def is_colour_def)
qed

lemma custom_accent_colour: "is_colour (customThemeAccent stored)"
proof -
  have "is_colour ''#7c3aed''" by (simp add: is_colour_def is_hex_def is_digit_def)
  then show ?thesis using accent_colour by (simp add: customThemeAccent_def Let_def)
qed

definition complete_theme :: "theme \<Rightarrow> bool" where
  "complete_theme t \<longleftrightarrow> fst ` set t = set COLOUR_NAMES \<and> list_all (\<lambda>e. well_formed_colour (snd e)) t"

lemma created_complete:
  assumes "is_colour accent"
    and "list_all (\<lambda>e. fst e \<in> set (map fst baseApplicationTerminalTheme) \<and> well_formed_colour (snd e)) cs"
  shows "complete_theme (createApplicationTerminalTheme accent cs)"
proof -
  have cs: "fst ` set cs \<subseteq> fst ` set baseApplicationTerminalTheme" "list_all (\<lambda>e. well_formed_colour (snd e)) cs"
    using assms(2) by (auto simp: list_all_iff)
  have "well_formed_colour (snd e)" if "e \<in> set (createApplicationTerminalTheme accent cs)" for e
    using created_colours [OF assms(1) cs(2), of "fst e" "snd e"] that by simp
  then have "list_all (\<lambda>e. well_formed_colour (snd e)) (createApplicationTerminalTheme accent cs)" unfolding list_all_iff by blast
  then show ?thesis using created_names [OF cs(1)] unfolding complete_theme_def by blast
qed

lemma light_names: "map fst light_colors = take 17 (map fst baseApplicationTerminalTheme)"
  by (simp add: light_colors_def baseApplicationTerminalTheme_def)

lemma light_values: "list_all (\<lambda>e. well_formed_colour (snd e)) light_colors"
  by code_simp

lemma light_checked:
  "list_all (\<lambda>e. fst e \<in> set (map fst baseApplicationTerminalTheme) \<and> well_formed_colour (snd e)) light_colors"
proof -
  have "fst e \<in> set (map fst baseApplicationTerminalTheme)" if "e \<in> set light_colors" for e
  proof -
    have "fst e \<in> set (map fst light_colors)" using that by simp
    then show ?thesis unfolding light_names by (rule in_set_takeD)
  qed
  then show ?thesis using light_values unfolding list_all_iff by blast
qed


end
