(* ===== verification/Spec2Isabelle.thy ===== *)
theory Spec2Isabelle
  imports Terminal_Safety Terminal_Client_Safety Runtime_Logs_Safety Canvas_Core_Safety Deploy_Data_Safety Env_Moves_Safety
    Page_Helpers_Safety Terminal_Layout_Safety
begin

text \<open>
  A verification development for the JavaScript of Coolify: the terminal (a Node server that opens SSH
  sessions, and its browser side), the runtime log viewer, the deploy canvas and the environment canvas.

  \<^bold>\<open>The program and its theories.\<close>

  The terminal server (\<open>docker/coolify-terminal/\<close>) accepts a WebSocket whose session Coolify confirms, redeems
  one-time tokens for SSH command lines, checks each command against a policy and spawns it in a PTY.
  \<^item> \<open>Ssh_Args\<close>: how \<open>terminal-utils.js\<close> reads a command line (\<open>extractSshArgs\<close>, \<open>extractHereDocContent\<close>,
    \<open>extractTimeout\<close>, target hosts). Regular expressions are written out as scanners.
  \<^item> \<open>Ssh_Policy\<close>: \<open>isAllowedSshOption\<close>, \<open>validateSshArgs\<close>, \<open>sanitizeSshArgs\<close>, and the grammar of accepted
    vectors that \<open>validateSshArgs\<close> is equivalent to.
  \<^item> \<open>Terminal_Auth\<close>: sessions, header candidates, \<open>authenticateTerminalUpgrade\<close>, the environment of a PTY.
  \<^item> \<open>Terminal_Session\<close>: one connection of \<open>terminal-server.js\<close> as a state machine; a record \<open>conn\<close> holds the
    variables of the handlers, an event is a browser message, a socket, timer or PTY event or an HTTP answer,
    and each \<open>await\<close> is a parked continuation, so the answers come in any order.
  \<^item> \<open>Terminal_Invariants\<close>, \<open>Terminal_Safety\<close>: the locale \<open>conn_invariant\<close> carries a property of the connection
    through every handler; its interpretations give the safety properties of runs.

  The browser side (\<open>resources/js/terminal.js\<close>, \<open>terminal-connection.js\<close>):
  \<^item> \<open>Terminal_Client\<close>: the Alpine component as a state machine over socket, timer, key and page events.
  \<^item> \<open>Terminal_Client_Invariants\<close>, \<open>Terminal_Client_Safety\<close>: the locale \<open>client_invariant\<close>, its interpretations, and
    what holds of every run: tokens are not replayed, a rejection is final, reconnecting is bounded.

  \<^item> \<open>Terminal_Layout\<close>, \<open>Terminal_Layout_Safety\<close>: themes, the key handler, the software keyboard, and the full screen
    as a map from elements to inline styles: what entering patches and locks, and what leaving restores.

  The runtime log viewer (\<open>resources/js/runtime-logs.js\<close>):
  \<^item> \<open>Runtime_Logs\<close>: parsing, levels, merging of streams, filters, highlighting, and the component's state.
  \<^item> \<open>Runtime_Logs_Safety\<close>: polling neither loses nor repeats a line, and the state is consistent in every run.

  The canvases (\<open>resources/js/canvas-core.js\<close>, \<open>deploy-canvas.js\<close>, \<open>canvas/deploy/state.svelte.js\<close>):
  \<^item> \<open>Canvas_Core\<close>, \<open>Canvas_Core_Safety\<close>: collision-free placement, API calls, and pan, wheel and pinch as a
    pointer state machine.
  \<^item> \<open>Deploy_Flow\<close>: step types and their fields, the flow of steps, \<open>canFollow\<close>, \<open>planOf\<close>, labels, the parsers of
    the fields, and what of a flow is stored.
  \<^item> \<open>Deploy_Canvas\<close>: the open canvas and its edits. \<open>Deploy_Invariants\<close>, \<open>Deploy_Canvas_Safety\<close>: the flows that
    edits can build are forests whose cards keep apart, through the locale \<open>flow_invariant\<close>.
  \<^item> \<open>Deploy_Run\<close>: a run of the flow: the calls of every step, the deployments and their logs.
    \<open>Deploy_Plan_Safety\<close>, \<open>Deploy_Run_Safety\<close>, \<open>Deploy_Data_Safety\<close>: the edits refine operations on a map from
    steps to parents; a run does every step once, creates without deploying, deploys only after all steps
    succeeded, and shows each log line once; secrets are not stored.

  The environment canvas (\<open>resources/js/environment-canvas.js\<close>, \<open>canvas/environment/EnvironmentCanvas.svelte\<close>) shows
  the resources of an environment, of the servers, or of the shared variables and tags as cards that can be moved
  and linked:
  \<^item> \<open>Env_Graph\<close>, \<open>Env_Views\<close>, \<open>Env_Geometry\<close>: the graph and its zones, the layout of the three views, frames,
    drag rules and link curves. \<open>Env_Layout_Safety\<close>: new cards keep clear of the saved cards of their zone, links run
    from left to right.
  \<^item> \<open>Env_Canvas\<close>, \<open>Env_Sync\<close>: an open canvas as a state machine over pointers, timers and answers. A request stays
    parked in \<open>cv_requests\<close> until its answer comes, so loads, saves and refreshes overlap in any order. A move that is
    saved is held (\<open>cv_settling\<close>) until a load that started after the save is there.
  \<^item> \<open>Env_Sync_Safety\<close>, \<open>Env_Moves_Safety\<close>: the canvas with its server. A dropped card stays where it was dropped in
    every run, and its place reaches the server. The server is taken to carry out saves in the order they were sent
    and not to refuse them; all other answers are free, and every load can fail.

  The helpers of the pages (\<open>resources/js/livewire-*.js\<close>, \<open>modal-confirmation.js\<close>, \<open>traffic-table.js\<close> and others):
  \<^item> \<open>Page_Helpers\<close>, \<open>Page_Helpers_Safety\<close>: failed requests and their toasts, superseded updates, submit actions, the
    security callout, number inputs, the sorted and paged traffic lists, copying, scrolling to a section.

  \<open>Js_Prelude\<close> and \<open>Js_Json\<close> hold the JavaScript operations the components share.

  \<^bold>\<open>Conventions.\<close> A string is a list of characters, one per UTF-16 code unit below 256; numbers that the code
  computes with are \<open>int\<close>, \<open>nat\<close>, \<open>rat\<close> or \<open>real\<close>, exact where JavaScript rounds to doubles. Objects are
  records, changed objects are returned. A raised error is a branch of a sum or option. What is not under the
  repository is an argument: the HTTP answers, \<open>node-pty\<close> and the sockets (as events), the cookie parser,
  \<open>JSON.parse\<close> where only its result matters, the sizes the browser gives to cards, new random ids, and time.

  \<^bold>\<open>Loops and fuel.\<close> All loops end by structural recursion or a measure but one: \<open>followDeployment\<close> polls until the
  deployment ends. Its fuel is the number of polls; \<open>None\<close> means the deployment goes on, and
  \<open>follow_shows_log_once\<close> shows that as many polls as there are answers are enough. The walks along the lines of a
  flow (\<open>trail\<close>) stop at a step seen before, so they end on every flow, also on one that is not a tree.

  \<^bold>\<open>Order of the deployments.\<close> \<open>deployAll\<close> follows all deployments at once; they share only the panel. The model
  follows them one after another: each resource has its own pane and its own view of the API, so only the order of
  lines in the pane of all steps differs.

  \<^bold>\<open>Findings.\<close> Theorems marked as errors show runs in which the code does not do what it means to: a PTY that
  starts after its socket closed, a heartbeat monitor that never closes a dead connection, a connection attempt
  without a timeout, blank pastes, logs without a source prefix, credentials with a space in front that are
  stored, settings that a drawn line brings under the wrong source, and a new card that covers a saved card of
  another zone.

  \<^bold>\<open>Not modelled.\<close> The PHP application, the vendored editor under \<open>public/js\<close>, styles, markup of the Svelte components,
  DOM reads and writes (focus, scrolling, themes, measurement), the virtual list of the log viewer, docking of the
  toolbar and set-up of the live channels on the environment canvas, and the fetchers that fill option lists: they carry no state of their own beyond what is above, or are third-party code.
\<close>

end
